(* ===== verification/Py_Prelude.thy ===== *)
theory Py_Prelude
  imports Complex_Main "HOL-Library.AList"
begin

text \<open>
  What the modelled Python takes from the language and its standard library, in executable form:
  text, decimal printing, JSON values, insertion-ordered dictionaries, exceptions as values, and
  the word searches of the \<open>re\<close> module. Nothing in this theory is code of the repository.

  Text is \<^typ>\<open>string\<close>: one \<^typ>\<open>char\<close> is one code point below 256, and the tables below are
  those of Python's \<open>str\<close> on these code points. Numbers a float holds are modelled by their exact
  rational value (NaN and the infinities are left out); rounding of float sums is not modelled.
\<close>

named_theorems py_simps \<open>unfolding rules of the Python library helpers\<close>

section \<open>Characters and text\<close>

definition code_of :: "char \<Rightarrow> nat" where
  "code_of c = of_char c"

definition lower_char :: "char \<Rightarrow> char" where
  "lower_char c = (let n = code_of c in
     if (65 \<le> n \<and> n \<le> 90) \<or> (192 \<le> n \<and> n \<le> 222 \<and> n \<noteq> 215) then char_of (n + 32) else c)"

text \<open>\<open>str.lower\<close>\<close>

definition py_lower :: "string \<Rightarrow> string" where
  "py_lower s = map lower_char s"

definition is_space :: "char \<Rightarrow> bool" where
  "is_space c = (let n = code_of c in
     (9 \<le> n \<and> n \<le> 13) \<or> (28 \<le> n \<and> n \<le> 32) \<or> n = 133 \<or> n = 160)"

definition is_printable :: "char \<Rightarrow> bool" where
  "is_printable c = (let n = code_of c in (32 \<le> n \<and> n \<le> 126) \<or> (161 \<le> n \<and> n \<noteq> 173))"

definition is_digit :: "char \<Rightarrow> bool" where
  "is_digit c = (let n = code_of c in 48 \<le> n \<and> n \<le> 57)"

text \<open>the class \<open>\w\<close> of a Unicode pattern, below 256\<close>

definition is_word :: "char \<Rightarrow> bool" where
  "is_word c = (let n = code_of c in
     (48 \<le> n \<and> n \<le> 57) \<or> (65 \<le> n \<and> n \<le> 90) \<or> n = 95 \<or> (97 \<le> n \<and> n \<le> 122) \<or>
     n \<in> {170, 178, 179, 181, 185, 186, 188, 189, 190} \<or> (192 \<le> n \<and> n \<noteq> 215 \<and> n \<noteq> 247))"

text \<open>Faster code equations, on the bits of a character\<close>

lemma lower_char_code [code]:
  "lower_char (Char b0 b1 b2 b3 b4 b5 b6 b7) =
     Char b0 b1 b2 b3 b4
       (b5 \<or> (b6 \<and> (if b7 then \<not> (b4 \<and> b2 \<and> b1 \<and> b0)
                     else (b0 \<or> b1 \<or> b2 \<or> b3 \<or> b4) \<and> \<not> (b4 \<and> b3 \<and> (b2 \<or> b1 \<and> b0))))) b6 b7"
  by (cases b0; cases b1; cases b2; cases b3; cases b4; cases b5; cases b6; cases b7;
      simp add: lower_char_def code_of_def char_of_def Let_def bit_Suc_0_iff)

lemma is_word_code [code]:
  "is_word (Char b0 b1 b2 b3 b4 b5 b6 b7) \<longleftrightarrow>
     (if b7 then (if b6 then \<not> b4 \<or> (b3 \<or> (\<not> b2 \<or> (\<not> b1 \<or> (\<not>
     b0)))) else b5 \<and> ((if b4 then (if b3 then (if b2 then \<not> b1 \<or> (\<not> b0) else (if
     b1 then \<not> b0 else b0)) else (if b2 then \<not> b1 \<and> b0 else b1)) else b3 \<and>
     (\<not> b2 \<and> (b1 \<and> (\<not> b0)))))) else (if b6 then (if b5 then (if b4 then \<not>
     b3 \<or> (\<not> b2 \<and> (\<not> b1 \<or> (\<not> b0))) else b3 \<or> (b2 \<or> (b1 \<or>
     b0))) else (if b4 then \<not> b3 \<or> ((if b2 then b1 \<and> b0 else \<not> b1 \<or> (\<not>
     b0))) else b3 \<or> (b2 \<or> (b1 \<or> b0)))) else b5 \<and> (b4 \<and> (\<not> b3 \<or>
     (\<not> b2 \<and> (\<not> b1))))))"
  by (cases b0; cases b1; cases b2; cases b3; cases b4; cases b5; cases b6; cases b7;
      simp add: is_word_def code_of_def Let_def)

definition newline :: char where
  "newline = CHR 0x0A"

definition lstrip :: "string \<Rightarrow> string" where
  "lstrip s = dropWhile is_space s"

definition py_strip :: "string \<Rightarrow> string" where
  "py_strip s = rev (lstrip (rev (lstrip s)))"

definition starts_with :: "string \<Rightarrow> string \<Rightarrow> bool" where
  "starts_with s p \<longleftrightarrow> take (length p) s = p"

definition ends_with :: "string \<Rightarrow> string \<Rightarrow> bool" where
  "ends_with s p \<longleftrightarrow> length p \<le> length s \<and> drop (length s - length p) s = p"

text \<open>\<open>str.split()\<close> with no argument: maximal runs of non-space characters\<close>

fun split_words :: "string \<Rightarrow> string \<Rightarrow> string list" where
  "split_words acc [] = (if acc = [] then [] else [rev acc])"
| "split_words acc (c # cs) =
     (if is_space c then (if acc = [] then split_words [] cs else rev acc # split_words [] cs)
      else split_words (c # acc) cs)"

definition py_split :: "string \<Rightarrow> string list" where
  "py_split s = split_words [] s"

text \<open>\<open>s.split(sep)\<close> for a separator of one character\<close>

fun split_on :: "char \<Rightarrow> string \<Rightarrow> string list" where
  "split_on sep [] = [[]]"
| "split_on sep (c # cs) =
     (if c = sep then [] # split_on sep cs
      else (case split_on sep cs of [] \<Rightarrow> [[c]] | w # ws \<Rightarrow> (c # w) # ws))"

fun py_join :: "string \<Rightarrow> string list \<Rightarrow> string" where
  "py_join sep [] = []"
| "py_join sep [w] = w"
| "py_join sep (w # ws) = w @ sep @ py_join sep ws"

text \<open>\<open>needle in s\<close>\<close>

fun occurs_in :: "string \<Rightarrow> string \<Rightarrow> bool" where
  "occurs_in needle [] \<longleftrightarrow> needle = []"
| "occurs_in needle (c # cs) \<longleftrightarrow> starts_with (c # cs) needle \<or> occurs_in needle cs"

section \<open>Decimal printing\<close>

definition digit_char :: "nat \<Rightarrow> char" where
  "digit_char n = char_of (48 + n)"

fun str_of_nat :: "nat \<Rightarrow> string" where
  "str_of_nat n = (if n < 10 then [digit_char n]
     else str_of_nat (n div 10) @ [digit_char (n mod 10)])"

declare str_of_nat.simps [simp del]

definition str_of_int :: "int \<Rightarrow> string" where
  "str_of_int i = (if i < 0 then CHR ''-'' # str_of_nat (nat (- i)) else str_of_nat (nat i))"

definition hex_char :: "nat \<Rightarrow> char" where
  "hex_char n = (if n < 10 then char_of (48 + n) else char_of (87 + n))"

text \<open>\<open>repr\<close> of a text\<close>

definition repr_char :: "char \<Rightarrow> char \<Rightarrow> string" where
  "repr_char q c =
     (if c = q \<or> code_of c = 92 then [CHR 0x5C, c]
      else if code_of c = 10 then [CHR 0x5C, CHR ''n'']
      else if code_of c = 13 then [CHR 0x5C, CHR ''r'']
      else if code_of c = 9 then [CHR 0x5C, CHR ''t'']
      else if is_printable c then [c]
      else [CHR 0x5C, CHR ''x'', hex_char (code_of c div 16), hex_char (code_of c mod 16)])"

definition py_repr :: "string \<Rightarrow> string" where
  "py_repr s = (let q = (if CHR 0x27 \<in> set s \<and> CHR 0x22 \<notin> set s then CHR 0x22 else CHR 0x27)
     in q # concat (map (repr_char q) s) @ [q])"

definition py_repr_list :: "string list \<Rightarrow> string" where
  "py_repr_list xs = ''['' @ py_join '', '' (map py_repr xs) @ '']''"

section \<open>JSON values and dictionaries\<close>

text \<open>
  A value a JSON document can hold. A dictionary is its list of items in insertion order;
  \<^const>\<open>AList.update\<close> writes a present key in place and appends a new one, as Python does.
\<close>

datatype pyval =
    PyNone
  | PyBool bool
  | PyInt int
  | PyFloat rat
  | PyStr string
  | PyList "pyval list"
  | PyDict "(string \<times> pyval) list"

type_synonym pydict = "(string \<times> pyval) list"

fun type_name :: "pyval \<Rightarrow> string" where
  "type_name PyNone = ''NoneType''"
| "type_name (PyBool _) = ''bool''"
| "type_name (PyInt _) = ''int''"
| "type_name (PyFloat _) = ''float''"
| "type_name (PyStr _) = ''str''"
| "type_name (PyList _) = ''list''"
| "type_name (PyDict _) = ''dict''"

fun as_str :: "pyval \<Rightarrow> string option" where
  "as_str (PyStr s) = Some s"
| "as_str _ = None"

text \<open>a number that is not a \<open>bool\<close>, by its value\<close>

fun as_number :: "pyval \<Rightarrow> rat option" where
  "as_number (PyInt i) = Some (of_int i)"
| "as_number (PyFloat q) = Some q"
| "as_number _ = None"

fun as_dict :: "pyval \<Rightarrow> pydict option" where
  "as_dict (PyDict d) = Some d"
| "as_dict _ = None"

definition has_key :: "pydict \<Rightarrow> string \<Rightarrow> bool" where
  "has_key d k \<longleftrightarrow> map_of d k \<noteq> None"

definition get_str :: "pydict \<Rightarrow> string \<Rightarrow> string" where
  \<comment> \<open>\<open>str(d.get(k, ""))\<close> for a key whose value, where present, is a text\<close>
  "get_str d k = (case map_of d k of Some (PyStr s) \<Rightarrow> s | _ \<Rightarrow> [])"

section \<open>Exceptions as values\<close>

text \<open>
  The error a modelled call raises: the repository's own \<open>HandsError\<close> with its code and text, or
  any other Python exception by the text \<open>str(exc)\<close> gives.
\<close>

datatype py_exc =
    HandsError (exc_code: string) (exc_text: string)
  | OtherError (exc_text: string)

definition bindR :: "'e + 'a \<Rightarrow> ('a \<Rightarrow> 'e + 'b) \<Rightarrow> 'e + 'b" where
  "bindR r f = (case r of Inl e \<Rightarrow> Inl e | Inr x \<Rightarrow> f x)"

lemma bindR_simps [simp]: "bindR (Inl e) f = Inl e" "bindR (Inr x) f = f x"
  by (simp_all add: bindR_def)

lemma bindR_Inr_iff: "bindR r f = Inr y \<longleftrightarrow> (\<exists>x. r = Inr x \<and> f x = Inr y)"
  by (cases r) auto

section \<open>Word searches\<close>

text \<open>
  \<open>re.compile(r"\b(w1|w2|...)\b", re.IGNORECASE).search(s)\<close> for literal words: the leftmost
  position at which some word matches between two word boundaries, and there the first such word
  of the list. The result is the matched text, \<open>m.group(0)\<close>.
\<close>

definition boundary_at :: "char option \<Rightarrow> string \<Rightarrow> bool" where
  "boundary_at prev rest \<longleftrightarrow>
     (case prev of None \<Rightarrow> False | Some c \<Rightarrow> is_word c) \<noteq> (case rest of [] \<Rightarrow> False | c # _ \<Rightarrow> is_word c)"

definition last_char :: "char option \<Rightarrow> string \<Rightarrow> char option" where
  "last_char prev w = (if w = [] then prev else Some (last w))"

definition word_here :: "char option \<Rightarrow> string \<Rightarrow> string \<Rightarrow> bool" where
  "word_here prev s w \<longleftrightarrow>
     (if boundary_at prev s
      then (if py_lower (take (length w) s) = py_lower w
            then boundary_at (last_char prev (take (length w) s)) (drop (length w) s) else False)
      else False)"

fun search_words_from :: "string list \<Rightarrow> char option \<Rightarrow> string \<Rightarrow> string option" where
  "search_words_from ws prev [] =
     map_option (\<lambda>w. []) (find (word_here prev []) ws)"
| "search_words_from ws prev (c # cs) =
     (case find (word_here prev (c # cs)) ws of
        Some w \<Rightarrow> Some (take (length w) (c # cs))
      | None \<Rightarrow> search_words_from ws (Some c) cs)"

definition search_words :: "string list \<Rightarrow> string \<Rightarrow> string option" where
  "search_words ws s = search_words_from ws None s"

lemmas [py_simps] = code_of_def lower_char_def py_lower_def is_space_def is_printable_def
  is_digit_def is_word_def Let_def

section \<open>Shared lemmas\<close>

lemma starts_with_self [simp]: "starts_with (p @ s) p"
  by (simp add: starts_with_def)

lemma ends_with_append [simp]: "ends_with (s @ p) p"
  by (simp add: ends_with_def)

lemma ends_with_iff: "ends_with s p \<longleftrightarrow> (\<exists>t. s = t @ p)"
proof
  assume "ends_with s p"
  then have "s = take (length s - length p) s @ p"
    by (metis append_take_drop_id ends_with_def)
  then show "\<exists>t. s = t @ p" ..
qed auto

lemma starts_with_iff: "starts_with s p \<longleftrightarrow> (\<exists>t. s = p @ t)"
  by (metis append_take_drop_id append_eq_conv_conj starts_with_def)

lemma map_of_update [simp]: "map_of (AList.update k v d) = (map_of d)(k \<mapsto> v)"
  by (simp add: update_conv')

lemma get_str_Some [simp]: "map_of d k = Some (PyStr s) \<Longrightarrow> get_str d k = s"
  by (simp add: get_str_def)

lemma lower_char_idem [simp]: "lower_char (lower_char c) = lower_char c"
proof -
  have "code_of (char_of n) = n mod 256" for n :: nat
    by (simp add: code_of_def)
  then show ?thesis
    unfolding lower_char_def Let_def by auto
qed

lemma py_lower_idem [simp]: "py_lower (py_lower s) = py_lower s"
  by (simp add: py_lower_def)

lemma py_lower_append [simp]: "py_lower (s @ t) = py_lower s @ py_lower t"
  by (simp add: py_lower_def)

lemma py_lower_eq_Nil [simp]: "py_lower s = [] \<longleftrightarrow> s = []"
  by (simp add: py_lower_def)

lemma length_py_lower [simp]: "length (py_lower s) = length s"
  by (simp add: py_lower_def)

lemma str_of_nat_digits: "c \<in> set (str_of_nat n) \<Longrightarrow> is_digit c"
proof (induction n rule: str_of_nat.induct)
  case (1 n)
  have digit: "is_digit (digit_char k)" if "k < 10" for k
    using that by (simp add: is_digit_def digit_char_def code_of_def)
  show ?case
  proof (cases "n < 10")
    case True
    with "1.prems" digit show ?thesis
      by (subst (asm) str_of_nat.simps) auto
  next
    case False
    with "1.prems" have "c \<in> set (str_of_nat (n div 10)) \<or> c = digit_char (n mod 10)"
      by (subst (asm) str_of_nat.simps) auto
    with "1.IH" False digit show ?thesis by auto
  qed
qed

lemma str_of_nat_inject [simp]: "str_of_nat m = str_of_nat n \<longleftrightarrow> m = n"
proof
  have inj: "i = j" if "digit_char i = digit_char j" "i < 10" "j < 10" for i j :: nat
  proof -
    from that(1) have "of_char (digit_char i) = (of_char (digit_char j) :: nat)" by simp
    with that(2,3) show ?thesis by (simp add: digit_char_def)
  qed
  have ne: "str_of_nat k \<noteq> []" for k
    by (subst str_of_nat.simps) simp
  show "str_of_nat m = str_of_nat n \<Longrightarrow> m = n"
  proof (induction m arbitrary: n rule: str_of_nat.induct)
    case (1 m)
    show ?case
    proof (cases "m < 10")
      case True
      with "1.prems" ne have n: "n < 10"
        by (metis append_is_Nil_conv butlast.simps(2) butlast_snoc str_of_nat.simps)
      with True "1.prems" inj show ?thesis
        by (simp add: str_of_nat.simps [of m] str_of_nat.simps [of n])
    next
      case False
      with "1.prems" ne have n: "\<not> n < 10"
        by (metis append_is_Nil_conv butlast.simps(2) butlast_snoc str_of_nat.simps)
      with False "1.prems" have "str_of_nat (m div 10) = str_of_nat (n div 10)"
        and "digit_char (m mod 10) = digit_char (n mod 10)"
        by (simp_all add: str_of_nat.simps [of m] str_of_nat.simps [of n])
      with "1.IH" False inj have "m div 10 = n div 10" and "m mod 10 = n mod 10"
        by auto
      then show ?thesis by (metis div_mult_mod_eq)
    qed
  qed
qed simp

end
