(* ===== verification/Hands_Base.thy ===== *)
theory Hands_Base
  imports Py_Prelude
begin

text \<open>
  The platform-neutral values that cross the backend protocol
  (\<open>hands/src/firekeep_hands/backends/base.py\<close>) and the settings and allow-list records of
  \<open>hands/src/firekeep_hands/config.py\<close>. A PNG is its bytes, held as a \<^typ>\<open>string\<close>.
\<close>

type_synonym bytes = string
type_synonym point = "int \<times> int"

record rect =
  rx :: int
  ry :: int
  rw :: int
  rh :: int

definition center :: "rect \<Rightarrow> point" where
  "center r = (rx r + rw r div 2, ry r + rh r div 2)"

record control =
  ref :: string
  role :: string
  cname :: string
  cvalue :: string
  crect :: rect
  capp :: string
  patterns :: "string list"
  enabled :: bool

record window_info =
  wapp :: string
  wtitle :: string
  wpid :: int
  wrect :: rect
  elevated :: bool

record observation =
  generation :: int
  window :: "window_info option"
  controls :: "control list"
  otext :: string
  screenshot_png :: "bytes option"
  truncated :: bool

record hands_config =
  chord :: string
  deny_chord :: string
  permit_ttl_s :: int
  phone_approvals :: bool
  phone_approvers :: string
  max_steps :: int
  max_nodes :: int
  text_budget :: int
  screenshot_max_width :: int
  evidence_retention_days :: int
  browser_kind :: string

definition default_config :: hands_config where
  "default_config = \<lparr> chord = ''ctrl+alt+y'', deny_chord = ''ctrl+alt+n'', permit_ttl_s = 60,
     phone_approvals = False, phone_approvers = [], max_steps = 400, max_nodes = 200,
     text_budget = 4000, screenshot_max_width = 1280, evidence_retention_days = 14,
     browser_kind = ''auto'' \<rparr>"

record remembered =
  rcls :: string
  rapp :: string
  rmatch :: string
  runtil :: string

record policy =
  apps :: "string list"
  domains :: "string list"
  remembereds :: "remembered list"

definition empty_policy :: policy where
  "empty_policy = \<lparr> apps = [], domains = [], remembereds = [] \<rparr>"

text \<open>Case-insensitive membership, the rule \<open>policy._named\<close> and \<open>session._already\<close> share.\<close>

definition named :: "string \<Rightarrow> string list \<Rightarrow> bool" where
  "named v names \<longleftrightarrow> list_ex (\<lambda>n. py_lower v = py_lower n) names"

lemma named_iff: "named v names \<longleftrightarrow> (\<exists>n \<in> set names. py_lower v = py_lower n)"
  by (simp add: named_def list_ex_iff)

lemma named_append [simp]: "named v (xs @ ys) \<longleftrightarrow> named v xs \<or> named v ys"
  by (simp add: named_def)

lemma named_mono: "named v xs \<Longrightarrow> set xs \<subseteq> set ys \<Longrightarrow> named v ys"
  by (auto simp: named_iff)

lemma named_self: "v \<in> set names \<Longrightarrow> named v names"
  by (auto simp: named_iff)

lemma named_Nil [simp]: "\<not> named v []"
  by (simp add: named_def)

end
