(* ===== verification/Gate_Interfaces.thy ===== *)
theory Gate_Interfaces
  imports Py_Prelude
begin

text \<open>
  The contracts the components of Hands rely on, as locales: a gate whose grants are spent one by
  one (\<open>one_use_gate\<close>), met by the permit store and, through it, by every caller of the broker; and
  a machine that keeps an invariant over any history of operations (\<open>invariant_machine\<close>).
\<close>

section \<open>Histories\<close>

text \<open>The state after a list of operations, and how often an event occurs along it\<close>

fun run_ops :: "('op \<Rightarrow> 's \<Rightarrow> 's) \<Rightarrow> 'op list \<Rightarrow> 's \<Rightarrow> 's" where
  "run_ops step [] s = s"
| "run_ops step (x # xs) s = run_ops step xs (step x s)"

fun tally :: "('op \<Rightarrow> 's \<Rightarrow> 's) \<Rightarrow> ('op \<Rightarrow> 's \<Rightarrow> bool) \<Rightarrow> 'op list \<Rightarrow> 's \<Rightarrow> nat" where
  "tally step event [] s = 0"
| "tally step event (x # xs) s = (if event x s then 1 else 0) + tally step event xs (step x s)"

lemma run_ops_append: "run_ops step (xs @ ys) s = run_ops step ys (run_ops step xs s)"
  by (induction step xs s rule: run_ops.induct) auto

lemma tally_append:
  "tally step event (xs @ ys) s = tally step event xs s + tally step event ys (run_ops step xs s)"
  by (induction step event xs s rule: tally.induct) auto

section \<open>Machines with an invariant\<close>

locale invariant_machine =
  fixes inv :: "'s \<Rightarrow> bool" and step :: "'op \<Rightarrow> 's \<Rightarrow> 's"
  assumes inv_step: "inv s \<Longrightarrow> inv (step x s)"
begin

lemma inv_run: "inv s \<Longrightarrow> inv (run_ops step xs s)"
  by (induction xs arbitrary: s) (auto intro: inv_step)

end

section \<open>Gates whose grants are spent once\<close>

text \<open>
  \<open>armed s c\<close>: in state \<open>s\<close> the key \<open>c\<close> holds an unspent grant. A grant arms at most its own key,
  nothing else arms one, and spending needs an armed key and disarms it.
\<close>

locale one_use_gate = invariant_machine inv step
  for inv :: "'s \<Rightarrow> bool" and step :: "'op \<Rightarrow> 's \<Rightarrow> 's" +
  fixes armed :: "'c \<Rightarrow> 's \<Rightarrow> bool"
    and grants :: "'c \<Rightarrow> 'op \<Rightarrow> 's \<Rightarrow> bool"
    and spends :: "'c \<Rightarrow> 'op \<Rightarrow> 's \<Rightarrow> bool"
  assumes spends_armed: "inv s \<Longrightarrow> spends c x s \<Longrightarrow> armed c s"
    and spends_disarms: "inv s \<Longrightarrow> spends c x s \<Longrightarrow> \<not> armed c (step x s)"
    and armed_step: "inv s \<Longrightarrow> armed c (step x s) \<Longrightarrow> armed c s \<or> grants c x s"
begin

lemma spends_le_grants:
  "inv s \<Longrightarrow> tally step (spends c) xs s \<le> tally step (grants c) xs s + (if armed c s then 1 else 0)"
proof (induction xs arbitrary: s)
  case (Cons x xs)
  from Cons.IH [OF inv_step [OF Cons.prems, of x]] Cons.prems
  show ?case
    by (cases "spends c x s") (auto dest: spends_armed spends_disarms armed_step split: if_splits)
qed simp

lemma spend_needs_new_grant:
  assumes "inv s" and "\<not> armed c s" and "tally step (grants c) xs s = 0"
  shows "tally step (spends c) xs s = 0"
  using spends_le_grants [OF assms(1), of c xs] assms(2,3) by simp

end

end
