(* ===== verification/Hands_Permits.thy ===== *)
theory Hands_Permits
  imports Hands_Base Gate_Interfaces
begin

text \<open>
  \<open>hands/src/firekeep_hands/broker/permits.py\<close>: the store of one-use, time-bounded permits. The
  store is a dictionary from challenge ids to permits; a clock reading is an argument of the
  operation that takes it (\<open>request\<close> and \<open>decide_oldest\<close> take two). Each public method is one step:
  the lock makes its body atomic, and the change callback that runs after it is the boolean the
  method returns beside its result. A permit handed to a caller is the value it has at that moment.
\<close>

section \<open>State\<close>

datatype permit_state = Pending | Approved | Denied | Expired | Consumed

fun state_name :: "permit_state \<Rightarrow> string" where
  "state_name Pending = ''pending''"
| "state_name Approved = ''approved''"
| "state_name Denied = ''denied''"
| "state_name Expired = ''expired''"
| "state_name Consumed = ''consumed''"

record permit =
  pchallenge :: string
  ptitle :: string
  pclasses :: "string list"
  ptask :: string
  pstep :: int
  pcreated :: rat
  pexpires :: rat
  pstate :: permit_state
  pvia :: "string option"
  pphone :: "string option"

record store =
  ttl :: int
  permits :: "(string \<times> permit) list"
  dirty :: bool
  watched :: bool

definition init_store :: "int \<Rightarrow> bool \<Rightarrow> store" where
  "init_store ttl_s on_change = \<lparr>ttl = ttl_s, permits = [], dirty = False, watched = on_change\<rparr>"

definition set_on_change :: "bool \<Rightarrow> store \<Rightarrow> store" where
  "set_on_change callback s = s\<lparr>watched := callback\<rparr>"

definition live :: "permit_state \<Rightarrow> bool" where
  "live st \<longleftrightarrow> st = Pending \<or> st = Approved"

definition retain_s :: rat where
  "retain_s = 300"

definition find_permit :: "store \<Rightarrow> string \<Rightarrow> permit option" where
  "find_permit s c = map_of (permits s) c"

section \<open>The operations under the lock\<close>

definition fire_change :: "store \<Rightarrow> bool \<times> store" where
  "fire_change s = (dirty s \<and> watched s, s\<lparr>dirty := False\<rparr>)"

definition run_out :: "rat \<Rightarrow> permit \<Rightarrow> bool" where
  "run_out now p \<longleftrightarrow> live (pstate p) \<and> pexpires p \<le> now"

definition expire :: "rat \<Rightarrow> permit \<Rightarrow> permit" where
  "expire now p = (if run_out now p then p\<lparr>pstate := Expired\<rparr> else p)"

definition stale :: "rat \<Rightarrow> permit \<Rightarrow> bool" where
  "stale now p \<longleftrightarrow> \<not> live (pstate p) \<and> pexpires p + retain_s \<le> now"

definition sweep :: "rat \<Rightarrow> store \<Rightarrow> store" where
  "sweep now s =
     s\<lparr>permits := filter (\<lambda>(c, p). \<not> stale now p) (map (\<lambda>(c, p). (c, expire now p)) (permits s)),
       dirty := dirty s \<or> list_ex (\<lambda>(c, p). run_out now p) (permits s)\<rparr>"

definition put :: "string \<Rightarrow> permit \<Rightarrow> store \<Rightarrow> store" where
  "put c p s = s\<lparr>permits := AList.update c p (permits s), dirty := True\<rparr>"

definition new_permit ::
  "string \<Rightarrow> string \<Rightarrow> string list \<Rightarrow> string \<Rightarrow> int \<Rightarrow> rat \<Rightarrow> int \<Rightarrow> permit" where
  "new_permit c t cls task step now ttl_s =
     \<lparr>pchallenge = c, ptitle = t, pclasses = cls, ptask = task, pstep = step, pcreated = now,
      pexpires = now + of_int ttl_s, pstate = Pending, pvia = None, pphone = None\<rparr>"

text \<open>\<open>now1\<close> is the reading of the sweep, \<open>now2\<close> the one the new permit is stamped with\<close>

definition request_locked ::
  "rat \<Rightarrow> rat \<Rightarrow> string \<Rightarrow> string \<Rightarrow> string list \<Rightarrow> string \<Rightarrow> int \<Rightarrow> store \<Rightarrow> permit \<times> store" where
  "request_locked now1 now2 c t cls task step s =
     (let s = sweep now1 s; p = new_permit c t cls task step now2 (ttl s)
      in case find_permit s c of
           Some q \<Rightarrow> if live (pstate q) then (q, s) else (p, put c p s)
         | None \<Rightarrow> (p, put c p s))"

definition pending_list :: "store \<Rightarrow> permit list" where
  "pending_list s = sort_key pcreated (filter (\<lambda>p. pstate p = Pending) (map snd (permits s)))"

definition pending_locked :: "rat \<Rightarrow> store \<Rightarrow> permit list \<times> store" where
  "pending_locked now s = (let s = sweep now s in (pending_list s, s))"

datatype decision_word = Approve | Deny

definition decision_of :: "string \<Rightarrow> decision_word option" where
  "decision_of w = (if w = ''approve'' then Some Approve else if w = ''deny'' then Some Deny else None)"

definition decide_locked ::
  "rat \<Rightarrow> string \<Rightarrow> decision_word \<Rightarrow> string \<Rightarrow> store \<Rightarrow> permit option \<times> store" where
  "decide_locked now c d via s =
     (let s = sweep now s
      in case find_permit s c of
           None \<Rightarrow> (None, s)
         | Some p \<Rightarrow>
             if pstate p \<noteq> Pending then (None, s)
             else (let q = p\<lparr>pstate := (if d = Approve then Approved else Denied), pvia := Some via\<rparr>
                   in (Some q, put c q s)))"

section \<open>The public methods\<close>

definition request ::
  "rat \<Rightarrow> rat \<Rightarrow> string \<Rightarrow> string \<Rightarrow> string list \<Rightarrow> string \<Rightarrow> int \<Rightarrow> store \<Rightarrow> permit \<times> bool \<times> store" where
  "request now1 now2 c t cls task step s =
     (let (p, s) = request_locked now1 now2 c t cls task step s in (p, fire_change s))"

definition get :: "rat \<Rightarrow> string \<Rightarrow> store \<Rightarrow> permit option \<times> bool \<times> store" where
  "get now c s = (let s = sweep now s in (find_permit s c, fire_change s))"

definition pending :: "rat \<Rightarrow> store \<Rightarrow> permit list \<times> bool \<times> store" where
  "pending now s = (let (ps, s) = pending_locked now s in (ps, fire_change s))"

definition decide ::
  "rat \<Rightarrow> string \<Rightarrow> string \<Rightarrow> string \<Rightarrow> store \<Rightarrow> permit option \<times> bool \<times> store" where
  "decide now c w via s =
     (case decision_of w of
        None \<Rightarrow> (None, False, s)
      | Some d \<Rightarrow> (let (r, s) = decide_locked now c d via s in (r, fire_change s)))"

definition decide_oldest ::
  "rat \<Rightarrow> rat \<Rightarrow> string \<Rightarrow> string \<Rightarrow> store \<Rightarrow> permit option \<times> bool \<times> store" where
  "decide_oldest now1 now2 w via s =
     (case decision_of w of
        None \<Rightarrow> (None, False, s)
      | Some d \<Rightarrow>
          (let (waiting, s) = pending_locked now1 s;
               (r, s) = (case waiting of
                           [] \<Rightarrow> (None, s)
                         | p # _ \<Rightarrow> decide_locked now2 (pchallenge p) d via s)
           in (r, fire_change s)))"

definition consume :: "rat \<Rightarrow> string \<Rightarrow> store \<Rightarrow> bool \<times> bool \<times> store" where
  "consume now c s =
     (let s = sweep now s
      in case find_permit s c of
           Some p \<Rightarrow> if pstate p = Approved
                     then (True, fire_change (put c (p\<lparr>pstate := Consumed\<rparr>) s))
                     else (False, fire_change s)
         | None \<Rightarrow> (False, fire_change s))"

text \<open>
  The bridge to the phone writes the id of the Keep task it created into the permit object it holds
  (\<open>broker/phone.py\<close>, \<open>permit.phone_task_id = ...\<close>), outside the store's methods. The object is the
  one stored under its challenge unless the store has minted another one since, which the time of
  creation tells.
\<close>

definition set_phone_task :: "permit \<Rightarrow> string \<Rightarrow> store \<Rightarrow> store" where
  "set_phone_task q task s =
     s\<lparr>permits := map (\<lambda>(k, p). (k, if k = pchallenge q \<and> pcreated p = pcreated q
                                    then p\<lparr>pphone := Some task\<rparr> else p)) (permits s)\<rparr>"

section \<open>The store as a machine\<close>

datatype op =
    Op_Request rat rat string string "string list" string int
  | Op_Get rat string
  | Op_Pending rat
  | Op_Decide rat string string string
  | Op_DecideOldest rat rat string string
  | Op_Consume rat string
  | Op_PhoneTask permit string
  | Op_Watch bool

fun apply_op :: "op \<Rightarrow> store \<Rightarrow> store" where
  "apply_op (Op_Request n1 n2 c t cls task step) s = snd (snd (request n1 n2 c t cls task step s))"
| "apply_op (Op_Get n c) s = snd (snd (get n c s))"
| "apply_op (Op_Pending n) s = snd (snd (pending n s))"
| "apply_op (Op_Decide n c w via) s = snd (snd (decide n c w via s))"
| "apply_op (Op_DecideOldest n1 n2 w via) s = snd (snd (decide_oldest n1 n2 w via s))"
| "apply_op (Op_Consume n c) s = snd (snd (consume n c s))"
| "apply_op (Op_PhoneTask q task) s = set_phone_task q task s"
| "apply_op (Op_Watch b) s = set_on_change b s"

text \<open>A human (or the phone) approves the permit of a challenge; a caller spends it\<close>

definition approved_by :: "string \<Rightarrow> permit option \<Rightarrow> bool" where
  "approved_by c r \<longleftrightarrow> (case r of None \<Rightarrow> False | Some p \<Rightarrow> pchallenge p = c \<and> pstate p = Approved)"

fun approves :: "string \<Rightarrow> op \<Rightarrow> store \<Rightarrow> bool" where
  "approves c (Op_Decide n c' w via) s = approved_by c (fst (decide n c' w via s))"
| "approves c (Op_DecideOldest n1 n2 w via) s = approved_by c (fst (decide_oldest n1 n2 w via s))"
| "approves c _ s = False"

fun spends :: "string \<Rightarrow> op \<Rightarrow> store \<Rightarrow> bool" where
  "spends c (Op_Consume n c') s \<longleftrightarrow> c' = c \<and> fst (consume n c' s)"
| "spends c _ s \<longleftrightarrow> False"

definition is_approved :: "string \<Rightarrow> store \<Rightarrow> bool" where
  "is_approved c s \<longleftrightarrow> (case find_permit s c of None \<Rightarrow> False | Some p \<Rightarrow> pstate p = Approved)"

definition wf_store :: "store \<Rightarrow> bool" where
  "wf_store s \<longleftrightarrow> distinct (map fst (permits s)) \<and> (\<forall>(c, p) \<in> set (permits s). pchallenge p = c)"

section \<open>Lemmas on the dictionary\<close>

lemma wf_init [simp]: "wf_store (init_store t b)"
  by (simp add: wf_store_def init_store_def)

lemma find_challenge: "wf_store s \<Longrightarrow> find_permit s c = Some p \<Longrightarrow> pchallenge p = c"
  by (fastforce simp: wf_store_def find_permit_def dest: map_of_SomeD)

lemma map_of_filter_vals:
  "distinct (map fst xs) \<Longrightarrow> map_of (filter (\<lambda>(c, p). P p) xs) c =
     (case map_of xs c of None \<Rightarrow> None | Some p \<Rightarrow> if P p then Some p else None)"
  by (induction xs) (auto simp: map_of_eq_None_iff split: option.splits)

lemma map_of_map_vals: "map_of (map (\<lambda>(c, p). (c, f p)) xs) c = map_option f (map_of xs c)"
  by (induction xs) auto

lemma find_sweep:
  assumes "wf_store s"
  shows "find_permit (sweep now s) c =
    (case find_permit s c of None \<Rightarrow> None
     | Some p \<Rightarrow> if stale now (expire now p) then None else Some (expire now p))"
proof -
  have "distinct (map fst (map (\<lambda>(c, p). (c, expire now p)) (permits s)))"
    using assms by (simp add: wf_store_def comp_def case_prod_beta)
  from map_of_filter_vals [OF this, of "\<lambda>p. \<not> stale now p" c] show ?thesis
    by (simp add: find_permit_def sweep_def map_of_map_vals split: option.split)
qed

lemma wf_sweep [simp]: "wf_store s \<Longrightarrow> wf_store (sweep now s)"
  by (auto simp: wf_store_def sweep_def comp_def case_prod_beta expire_def distinct_map_filter)

lemma find_put [simp]: "find_permit (put c p s) k = (if k = c then Some p else find_permit s k)"
  by (simp add: find_permit_def put_def)

lemma update_mem: "x \<in> set (AList.update k v xs) \<Longrightarrow> x = (k, v) \<or> x \<in> set xs"
  by (induction xs) (auto split: if_splits)

lemma wf_put [simp]: "wf_store s \<Longrightarrow> pchallenge p = c \<Longrightarrow> wf_store (put c p s)"
  by (auto simp: wf_store_def put_def distinct_update dest!: update_mem)

lemma fire_change_simps [simp]:
  "find_permit (snd (fire_change s)) c = find_permit s c" "wf_store (snd (fire_change s)) = wf_store s"
  "dirty (snd (fire_change s)) = False"
  by (simp_all add: fire_change_def find_permit_def wf_store_def)

lemma expire_fields [simp]:
  "pchallenge (expire now p) = pchallenge p" "ptitle (expire now p) = ptitle p"
  "pclasses (expire now p) = pclasses p" "ptask (expire now p) = ptask p" "pstep (expire now p) = pstep p"
  "pcreated (expire now p) = pcreated p" "pexpires (expire now p) = pexpires p"
  by (simp_all add: expire_def)

section \<open>What each operation does to the dictionary\<close>

lemma expire_state:
  "pstate (expire now p) = (if live (pstate p) \<and> pexpires p \<le> now then Expired else pstate p)"
  by (simp add: expire_def run_out_def)

lemma live_simps [simp]:
  "live Pending" "live Approved" "\<not> live Denied" "\<not> live Expired" "\<not> live Consumed"
  by (simp_all add: live_def)

lemma find_request:
  "wf_store s \<Longrightarrow> find_permit (apply_op (Op_Request n1 n2 c t cls task step) s) k =
     (if k = c \<and> (\<forall>q. find_permit (sweep n1 s) c = Some q \<longrightarrow> \<not> live (pstate q))
      then Some (new_permit c t cls task step n2 (ttl s)) else find_permit (sweep n1 s) k)"
  by (auto simp: request_def request_locked_def Let_def sweep_def split: option.split)

lemma decide_locked_find:
  "find_permit (snd (decide_locked n c d via s)) k =
     (case find_permit (sweep n s) c of
        Some p \<Rightarrow> if k = c \<and> pstate p = Pending
                  then Some (p\<lparr>pstate := (if d = Approve then Approved else Denied), pvia := Some via\<rparr>)
                  else find_permit (sweep n s) k
      | None \<Rightarrow> find_permit (sweep n s) k)"
  by (auto simp: decide_locked_def Let_def split: option.split)

lemma decide_locked_result:
  "fst (decide_locked n c d via s) =
     (case find_permit (sweep n s) c of
        Some p \<Rightarrow> if pstate p = Pending
                  then Some (p\<lparr>pstate := (if d = Approve then Approved else Denied), pvia := Some via\<rparr>)
                  else None
      | None \<Rightarrow> None)"
  by (auto simp: decide_locked_def Let_def split: option.split)

lemma decide_apply:
  "apply_op (Op_Decide n c w via) s = (case decision_of w of None \<Rightarrow> s
     | Some d \<Rightarrow> snd (fire_change (snd (decide_locked n c d via s))))"
  by (simp add: decide_def case_prod_beta Let_def split: option.split)

lemma decide_result:
  "fst (decide n c w via s) = (case decision_of w of None \<Rightarrow> None | Some d \<Rightarrow> fst (decide_locked n c d via s))"
  by (simp add: decide_def case_prod_beta Let_def split: option.split)

lemma decide_oldest_apply:
  "apply_op (Op_DecideOldest n1 n2 w via) s = (case decision_of w of None \<Rightarrow> s
     | Some d \<Rightarrow> (case pending_list (sweep n1 s) of
         [] \<Rightarrow> snd (fire_change (sweep n1 s))
       | q # _ \<Rightarrow> snd (fire_change (snd (decide_locked n2 (pchallenge q) d via (sweep n1 s))))))"
  by (simp add: decide_oldest_def pending_locked_def case_prod_beta Let_def split: option.split list.split)

lemma decide_oldest_result:
  "fst (decide_oldest n1 n2 w via s) = (case decision_of w of None \<Rightarrow> None
     | Some d \<Rightarrow> (case pending_list (sweep n1 s) of [] \<Rightarrow> None
       | q # _ \<Rightarrow> fst (decide_locked n2 (pchallenge q) d via (sweep n1 s))))"
  by (simp add: decide_oldest_def pending_locked_def case_prod_beta Let_def split: option.split list.split)

lemma find_consume:
  "find_permit (apply_op (Op_Consume n c) s) k =
     (case find_permit (sweep n s) c of
        Some p \<Rightarrow> if k = c \<and> pstate p = Approved then Some (p\<lparr>pstate := Consumed\<rparr>)
                  else find_permit (sweep n s) k
      | None \<Rightarrow> find_permit (sweep n s) k)"
  by (auto simp: consume_def Let_def split: option.split)

lemma consume_result:
  "fst (consume n c s) = (case find_permit (sweep n s) c of Some p \<Rightarrow> pstate p = Approved | None \<Rightarrow> False)"
  by (auto simp: consume_def Let_def split: option.split)

lemma find_watch [simp]: "find_permit (set_on_change b s) k = find_permit s k"
  by (simp add: set_on_change_def find_permit_def)

lemma find_phone_task:
  "find_permit (set_phone_task q task s) k = map_option (\<lambda>p. if k = pchallenge q \<and> pcreated p = pcreated q
     then p\<lparr>pphone := Some task\<rparr> else p) (find_permit s k)"
proof -
  have "map_of (map (\<lambda>(k, p). (k, f k p)) xs) k = map_option (f k) (map_of xs k)" for f :: "string \<Rightarrow> permit \<Rightarrow> permit" and xs
    by (induction xs) auto
  then show ?thesis by (simp add: set_phone_task_def find_permit_def)
qed

lemma wf_phone_task [simp]: "wf_store s \<Longrightarrow> wf_store (set_phone_task q task s)"
  by (auto simp: wf_store_def set_phone_task_def comp_def case_prod_beta)

lemma wf_decide_locked [simp]: "wf_store s \<Longrightarrow> wf_store (snd (decide_locked n c d via s))"
  using find_challenge [of "sweep n s" c] by (auto simp: decide_locked_def Let_def split: option.split)

lemma wf_request_locked [simp]: "wf_store s \<Longrightarrow> wf_store (snd (request_locked n1 n2 c t cls task step s))"
  by (auto simp: request_locked_def Let_def new_permit_def split: option.split)

theorem wf_apply_op: "wf_store s \<Longrightarrow> wf_store (apply_op x s)"
proof (cases x)
  case (Op_Consume n c)
  then show "wf_store s \<Longrightarrow> wf_store (apply_op x s)"
    using find_challenge [of "sweep n s" c] by (auto simp: consume_def Let_def split: option.split)
next
  case (Op_Watch b)
  then show "wf_store s \<Longrightarrow> wf_store (apply_op x s)" by (simp add: set_on_change_def wf_store_def)
qed (simp_all add: request_def get_def pending_def pending_locked_def decide_def decide_oldest_def
      case_prod_beta Let_def split: option.split list.split)

section \<open>The life of a permit\<close>

text \<open>The arrows of the state machine the module's comment states\<close>

inductive arrow :: "permit_state \<Rightarrow> permit_state \<Rightarrow> bool" where
  stay: "arrow st st"
| approve: "arrow Pending Approved"
| deny: "arrow Pending Denied"
| run_out: "live st \<Longrightarrow> arrow st Expired"
| consume: "arrow Approved Consumed"

inductive_simps arrow_from [simp]: "arrow Pending st" "arrow Approved st" "arrow Denied st"
  "arrow Expired st" "arrow Consumed st"

inductive_cases arrow_to_Approved: "arrow st Approved"

definition same_permit :: "permit \<Rightarrow> permit \<Rightarrow> bool" where
  "same_permit p q \<longleftrightarrow> pchallenge p = pchallenge q \<and> ptitle p = ptitle q \<and> pclasses p = pclasses q \<and>
     ptask p = ptask q \<and> pstep p = pstep q \<and> pcreated p = pcreated q \<and> pexpires p = pexpires q"

definition evolves :: "permit \<Rightarrow> permit \<Rightarrow> bool" where
  "evolves p q \<longleftrightarrow> same_permit p q \<and> arrow (pstate p) (pstate q)"

lemma evolves_refl [simp]: "evolves p p"
  by (simp add: evolves_def same_permit_def stay)

lemma evolves_expire: "evolves p (expire now p)"
  by (auto simp: evolves_def same_permit_def expire_state intro: arrow.intros)

lemma expire_Pending: "pstate (expire n p) = Pending \<Longrightarrow> expire n p = p"
  "pstate (expire n p) = Approved \<Longrightarrow> expire n p = p"
  by (auto simp: expire_def)

lemma find_sweepD:
  "wf_store s \<Longrightarrow> find_permit (sweep n s) c = Some q \<Longrightarrow> \<exists>p. find_permit s c = Some p \<and> q = expire n p"
  by (auto simp: find_sweep split: option.splits if_splits)

lemma sweep_evolves:
  "wf_store s \<Longrightarrow> find_permit (sweep n s) c = Some q \<Longrightarrow> \<exists>p. find_permit s c = Some p \<and> evolves p q"
  by (auto dest!: find_sweepD intro: evolves_expire)

lemma sweep_live:
  "wf_store s \<Longrightarrow> find_permit (sweep n s) c = Some q \<Longrightarrow> live (pstate q) \<Longrightarrow>
     find_permit s c = Some q \<and> n < pexpires q"
  by (auto dest!: find_sweepD simp: expire_def run_out_def split: if_splits)

lemma sweep_keeps_live:
  "wf_store s \<Longrightarrow> find_permit s c = Some p \<Longrightarrow> live (pstate p) \<Longrightarrow> n < pexpires p \<Longrightarrow>
     find_permit (sweep n s) c = Some p"
  by (simp add: find_sweep expire_def run_out_def stale_def)

lemma decide_locked_evolves:
  assumes "wf_store s" and "find_permit (snd (decide_locked n c d via s)) k = Some q"
  shows "\<exists>p. find_permit s k = Some p \<and> evolves p q"
proof (cases "find_permit (sweep n s) k = Some q")
  case True
  with assms(1) show ?thesis by (rule sweep_evolves)
next
  case False
  with assms(2) obtain p where p: "find_permit (sweep n s) k = Some p" "pstate p = Pending"
    and q: "q = p\<lparr>pstate := (if d = Approve then Approved else Denied), pvia := Some via\<rparr>"
    by (auto simp: decide_locked_find split: option.splits if_splits)
  from p sweep_live [OF assms(1) p(1)] have "find_permit s k = Some p" by simp
  with p q show ?thesis by (auto simp: evolves_def same_permit_def)
qed

lemma apply_op_evolves:
  assumes wf: "wf_store s" and q: "find_permit (apply_op x s) k = Some q"
    and old: "\<And>n1 n2 t cls task step. x = Op_Request n1 n2 k t cls task step \<Longrightarrow>
      \<exists>p. find_permit (sweep n1 s) k = Some p \<and> live (pstate p)"
  shows "\<exists>p. find_permit s k = Some p \<and> evolves p q"
proof (cases x)
  case (Op_Request n1 n2 c t cls task step)
  then have "find_permit (sweep n1 s) k = Some q"
    using q old unfolding Op_Request find_request [OF wf] by (auto split: if_splits)
  with wf show ?thesis by (rule sweep_evolves)
next
  case (Op_Decide n c w via)
  with q wf show ?thesis
    by (auto simp: decide_apply simp del: apply_op.simps split: option.splits intro: decide_locked_evolves)
next
  case (Op_DecideOldest n1 n2 w via)
  show ?thesis
  proof (cases "decision_of w = None \<or> pending_list (sweep n1 s) = []")
    case True
    then have "q \<in> set_option (find_permit s k) \<or> find_permit (sweep n1 s) k = Some q"
      using q Op_DecideOldest by (auto simp: decide_oldest_apply simp del: apply_op.simps split: option.splits)
    with wf show ?thesis by (auto dest: sweep_evolves)
  next
    case False
    then obtain d r rs where "decision_of w = Some d" "pending_list (sweep n1 s) = r # rs"
      by (auto simp: neq_Nil_conv)
    then have "find_permit (snd (decide_locked n2 (pchallenge r) d via (sweep n1 s))) k = Some q"
      using q Op_DecideOldest by (simp add: decide_oldest_apply del: apply_op.simps)
    from decide_locked_evolves [OF wf_sweep [OF wf] this] obtain p
      where p: "find_permit (sweep n1 s) k = Some p" "evolves p q" by blast
    then obtain p0 where p0: "find_permit s k = Some p0" "p = expire n1 p0"
      using find_sweepD [OF wf] by blast
    show ?thesis
    proof (cases "p = p0")
      case False
      then have "pstate p = Expired" using p0 by (auto simp: expire_def split: if_splits)
      with p p0 evolves_expire [of p0 n1] show ?thesis by (auto simp: evolves_def same_permit_def)
    qed (use p p0 in auto)
  qed
next
  case (Op_Consume n c)
  show ?thesis
  proof (cases "find_permit (sweep n s) k = Some q")
    case True
    with wf show ?thesis by (rule sweep_evolves)
  next
    case False
    then obtain p where p: "find_permit (sweep n s) k = Some p" "pstate p = Approved"
      and q': "q = p\<lparr>pstate := Consumed\<rparr>"
      using q unfolding Op_Consume find_consume by (auto split: option.splits if_splits)
    from p sweep_live [OF wf p(1)] have "find_permit s k = Some p" by simp
    with p q' show ?thesis by (auto simp: evolves_def same_permit_def)
  qed
next
  case (Op_PhoneTask r task)
  then show ?thesis
    using q by (auto simp: find_phone_task evolves_def same_permit_def stay split: if_splits)
next
  case (Op_Watch b)
  then show ?thesis using q by auto
qed (use wf q in \<open>auto simp: get_def pending_def pending_locked_def Let_def dest: sweep_evolves\<close>)

lemma apply_op_cases:
  assumes wf: "wf_store s" and q: "find_permit (apply_op x s) k = Some q"
  obtains (evolved) p where "find_permit s k = Some p" "evolves p q"
  | (minted) n1 n2 t cls task step where "x = Op_Request n1 n2 k t cls task step"
      "q = new_permit k t cls task step n2 (ttl s)"
      "\<And>p. find_permit s k = Some p \<Longrightarrow> \<not> live (pstate p) \<or> pexpires p \<le> n1"
proof -
  show thesis
  proof (cases "\<exists>n1 n2 t cls task step. x = Op_Request n1 n2 k t cls task step \<and>
      (\<forall>p. find_permit (sweep n1 s) k = Some p \<longrightarrow> \<not> live (pstate p))")
    case True
    then obtain n1 n2 t cls task step where x: "x = Op_Request n1 n2 k t cls task step"
      and dead: "\<forall>p. find_permit (sweep n1 s) k = Some p \<longrightarrow> \<not> live (pstate p)" by blast
    show thesis
    proof (rule minted [OF x])
      show "q = new_permit k t cls task step n2 (ttl s)"
        using q dead unfolding x find_request [OF wf] by (metis option.inject)
      show "\<not> live (pstate p) \<or> pexpires p \<le> n1" if "find_permit s k = Some p" for p
        using dead sweep_keeps_live [OF wf that] by (meson linorder_not_le)
    qed
  next
    case False
    with apply_op_evolves [OF wf q] evolved show thesis by blast
  qed
qed

section \<open>Approvals are spent once\<close>

lemma approves_iff:
  assumes wf: "wf_store s" and k: "is_approved k (apply_op x s)"
  shows "is_approved k s \<or> approves k x s"
proof -
  from k obtain q where q: "find_permit (apply_op x s) k = Some q" "pstate q = Approved"
    by (auto simp: is_approved_def split: option.splits)
  note ch = find_challenge [OF wf_apply_op [OF wf] q(1)]
  from wf q(1) show ?thesis
  proof (cases rule: apply_op_cases)
    case (evolved p)
    show ?thesis
    proof (cases "pstate p = Approved")
      case True
      with evolved show ?thesis by (simp add: is_approved_def)
    next
      case False
      with evolved q have pend: "pstate p = Pending"
        by (auto simp: evolves_def elim: arrow_to_Approved)
      have decided: "approved_by k (fst (decide_locked n c d via s'))"
        if "find_permit (snd (decide_locked n c d via s')) k = Some q" "wf_store s'"
          "\<And>r. find_permit s' k = Some r \<Longrightarrow> pstate r \<noteq> Approved" for n c d via s'
        using that q(2) ch sweep_live [OF that(2), of n]
        by (auto simp: decide_locked_find decide_locked_result approved_by_def split: option.splits if_splits)
      have not: "find_permit s k = Some r \<Longrightarrow> pstate r \<noteq> Approved"
        "find_permit (sweep n s) k = Some r \<Longrightarrow> pstate r \<noteq> Approved" for r n
        using evolved(1) pend find_sweepD [OF wf, of n k r] by (auto simp: expire_state)
      show ?thesis
      proof (cases x)
        case (Op_Decide n c w via)
        then show ?thesis
          using q not wf
          by (auto simp: decide_apply decide_result simp del: apply_op.simps intro!: decided split: option.splits)
      next
        case (Op_DecideOldest n1 n2 w via)
        then show ?thesis
          using q not wf
          by (auto simp: decide_oldest_apply decide_oldest_result simp del: apply_op.simps
              intro!: decided split: option.splits list.splits)
      next
        case (Op_Consume n c)
        with q not show ?thesis
          unfolding Op_Consume find_consume by (auto split: option.splits if_splits)
      next
        case (Op_Request n1 n2 c t cls task step)
        with q not show ?thesis
          unfolding Op_Request find_request [OF wf] by (auto simp: new_permit_def split: if_splits)
      next
        case (Op_PhoneTask r task)
        with q not show ?thesis by (auto simp: find_phone_task split: if_splits)
      next
        case (Op_Get n c)
        with q not(2) [of n q] show ?thesis by (simp add: get_def Let_def)
      next
        case (Op_Pending n)
        with q not(2) [of n q] show ?thesis by (simp add: pending_def pending_locked_def Let_def)
      next
        case (Op_Watch b)
        with q not(1) [of q] show ?thesis by simp
      qed
    qed
  next
    case (minted n1 n2 t cls task step)
    with q show ?thesis by (simp add: new_permit_def)
  qed
qed

interpretation permit_gate: one_use_gate wf_store apply_op is_approved approves spends
proof unfold_locales
  fix s :: store and c :: string and x :: op
  assume wf: "wf_store s"
  show "wf_store (apply_op x s)" using wf by (rule wf_apply_op)
  show "spends c x s \<Longrightarrow> is_approved c s"
    using sweep_live [OF wf] by (cases x) (auto simp: consume_result is_approved_def split: option.splits)
  show "spends c x s \<Longrightarrow> \<not> is_approved c (apply_op x s)"
    by (cases x) (auto simp: consume_result is_approved_def find_consume simp del: apply_op.simps split: option.splits)
  show "is_approved c (apply_op x s) \<Longrightarrow> is_approved c s \<or> approves c x s"
    using wf by (rule approves_iff)
qed

text \<open>The stores a broker can be in: any history of operations from an empty store\<close>

definition store_after :: "int \<Rightarrow> bool \<Rightarrow> op list \<Rightarrow> store" where
  "store_after t b ops = run_ops apply_op ops (init_store t b)"

lemma wf_store_after [simp]: "wf_store (store_after t b ops)"
  unfolding store_after_def by (rule permit_gate.inv_run) simp

section \<open>The queue of waiting permits\<close>

lemma waiting_sweep:
  "filter (\<lambda>p. pstate p = Pending) (map snd (permits (sweep n s))) =
     filter (\<lambda>p. pstate p = Pending \<and> n < pexpires p) (map snd (permits s))"
proof -
  have "filter (\<lambda>p. pstate p = Pending) (map snd (filter (\<lambda>(c, p). \<not> stale n p)
      (map (\<lambda>(c, p). (c, expire n p)) xs))) =
    filter (\<lambda>p. pstate p = Pending \<and> n < pexpires p) (map snd xs)" for xs
  proof (induction xs)
    case (Cons x xs)
    have "expire n p = p \<and> \<not> stale n p" if "pstate p = Pending" "n < pexpires p" for p
      using that by (simp add: expire_def run_out_def stale_def)
    moreover have "pstate (expire n p) \<noteq> Pending" if "\<not> (pstate p = Pending \<and> n < pexpires p)" for p
      using that by (auto simp: expire_state)
    ultimately show ?case using Cons.IH by (cases x) auto
  qed simp
  then show ?thesis by (simp add: sweep_def)
qed

lemma hd_sort_key:
  "xs \<noteq> [] \<Longrightarrow> \<exists>pre post. xs = pre @ hd (sort_key f xs) # post \<and>
     (\<forall>r \<in> set pre. f (hd (sort_key f xs)) < f r) \<and> (\<forall>r \<in> set post. f (hd (sort_key f xs)) \<le> f r)"
proof (induction xs)
  case (Cons x xs)
  show ?case
  proof (cases "xs = []")
    case False
    then obtain y ys where ys: "sort_key f xs = y # ys"
      by (metis list.exhaust set_empty set_sort)
    with Cons.IH [OF False] obtain pre post where *: "xs = pre @ y # post"
      "\<forall>r \<in> set pre. f y < f r" "\<forall>r \<in> set post. f y \<le> f r" by auto
    show ?thesis
    proof (cases "f x \<le> f y")
      case True
      with ys * show ?thesis by (intro exI [of _ "[]"] exI [of _ xs]) auto
    next
      case False
      with ys * show ?thesis by (intro exI [of _ "x # pre"] exI [of _ post]) auto
    qed
  next
    case True
    then show ?thesis by (intro exI [of _ "[]"]) auto
  qed
qed simp

lemma pending_list_fire [simp]: "pending_list (snd (fire_change s)) = pending_list s"
  by (simp add: pending_list_def fire_change_def)

lemma quiet_sweep:
  assumes "\<not> dirty (sweep n s)"
  shows "pending_list (sweep n s) = pending_list s" and "\<not> dirty s"
proof -
  have "filter (\<lambda>p. pstate p = Pending \<and> n < pexpires p) (map snd (permits s)) =
      filter (\<lambda>p. pstate p = Pending) (map snd (permits s))"
    using assms by (intro filter_cong) (auto simp: sweep_def list_ex_iff run_out_def live_def)
  then show "pending_list (sweep n s) = pending_list s"
    unfolding pending_list_def waiting_sweep by simp
  show "\<not> dirty s" using assms by (simp add: sweep_def)
qed

lemma put_dirty [simp]: "dirty (put c p s)"
  by (simp add: put_def)

lemma quiet_decide_locked:
  assumes "\<not> dirty (snd (decide_locked n c d via s))"
  shows "pending_list (snd (decide_locked n c d via s)) = pending_list s" and "\<not> dirty s"
proof -
  have "\<not> dirty (sweep n s) \<and> snd (decide_locked n c d via s) = sweep n s"
  proof (cases "find_permit (sweep n s) c")
    case None
    with assms show ?thesis by (simp add: decide_locked_def Let_def)
  next
    case (Some p)
    with assms show ?thesis by (cases "pstate p = Pending") (simp_all add: decide_locked_def Let_def)
  qed
  with quiet_sweep [of n s] show "pending_list (snd (decide_locked n c d via s)) = pending_list s" "\<not> dirty s"
    by simp_all
qed

text \<open>Whether the change callback runs at the end of an operation\<close>

fun notifies :: "op \<Rightarrow> store \<Rightarrow> bool" where
  "notifies (Op_Request n1 n2 c t cls task step) s = fst (snd (request n1 n2 c t cls task step s))"
| "notifies (Op_Get n c) s = fst (snd (get n c s))"
| "notifies (Op_Pending n) s = fst (snd (pending n s))"
| "notifies (Op_Decide n c w via) s = fst (snd (decide n c w via s))"
| "notifies (Op_DecideOldest n1 n2 w via) s = fst (snd (decide_oldest n1 n2 w via s))"
| "notifies (Op_Consume n c) s = fst (snd (consume n c s))"
| "notifies (Op_PhoneTask q task) s = False"
| "notifies (Op_Watch b) s = False"

lemma watched_ops [simp]:
  "watched (sweep n s) = watched s" "watched (put c p s) = watched s"
  by (simp_all add: sweep_def put_def)

lemma fire_notifies: "fst (fire_change s) \<longleftrightarrow> dirty s \<and> watched s"
  by (simp add: fire_change_def)

lemma watched_decide_locked [simp]: "watched (snd (decide_locked n c d via s)) = watched s"
  by (simp add: decide_locked_def Let_def split: option.split)

section \<open>Properties of the permit store\<close>

text \<open>A permit requested and approved, the history the witnesses below are about\<close>

definition example_ops :: "op list" where
  "example_ops = [Op_Request 0 0 ''c1'' ''Send'' [''send''] ''k1'' 1, Op_Decide 1 ''c1'' ''approve'' ''chord'']"

definition example_permit :: permit where
  "example_permit = \<lparr>pchallenge = ''c1'', ptitle = ''Send'', pclasses = [''send''], ptask = ''k1'', pstep = 1,
     pcreated = 0, pexpires = 60, pstate = Approved, pvia = Some ''chord'', pphone = None\<rparr>"

lemma example_store: "find_permit (store_after 60 True example_ops) ''c1'' = Some example_permit"
  by code_simp

text \<open>
  C22. Approvals are spent one by one: along any history of a broker, however the requests, decisions,
  reads and clock readings interleave, a challenge is consumed at most as often as a permit of that
  challenge was approved by a person.
\<close>

theorem consumed_at_most_as_approved:
  "tally apply_op (spends c) ops (init_store t b) \<le> tally apply_op (approves c) ops (init_store t b)"
proof -
  have "\<not> is_approved c (init_store t b)"
    by (simp add: is_approved_def find_permit_def init_store_def)
  with permit_gate.spends_le_grants [OF wf_init, of c ops t b] show ?thesis by simp
qed



text \<open>
  The life of a permit: whatever operation runs, a permit found under a challenge afterwards is
  either the one found before, with the same title, classes, task, step, creation and deadline,
  its state moved along an arrow pending-approved, pending-denied, approved-consumed or live-expired
  (so denied, expired and consumed are terminal), or a fresh pending permit that a request minted
  because no live permit held the challenge.
\<close>

theorem permit_life_cycle:
  assumes "find_permit (apply_op x (store_after t b ops)) c = Some q"
  shows "(\<exists>p. find_permit (store_after t b ops) c = Some p \<and> same_permit p q \<and> arrow (pstate p) (pstate q)) \<or>
    (\<exists>n1 n2 title cls task step. x = Op_Request n1 n2 c title cls task step \<and>
       q = new_permit c title cls task step n2 (ttl (store_after t b ops)) \<and>
       (\<forall>p. find_permit (store_after t b ops) c = Some p \<longrightarrow> \<not> live (pstate p) \<or> pexpires p \<le> n1))"
  using wf_store_after assms by (cases rule: apply_op_cases) (auto simp: evolves_def)

theorem permit_life_cycle_witness:
  "\<exists>p. find_permit (store_after 60 True example_ops) ''c1'' = Some p \<and>
    same_permit p (example_permit\<lparr>pstate := Consumed\<rparr>) \<and> arrow (pstate p) Consumed"
proof -
  have "find_permit (apply_op (Op_Consume 2 ''c1'') (store_after 60 True example_ops)) ''c1'' =
      Some (example_permit\<lparr>pstate := Consumed\<rparr>)" by code_simp
  from permit_life_cycle [OF this] show ?thesis by auto
qed

text \<open>
  Asking again changes nothing while a permit is live: the caller gets the permit it already
  has, with the title first shown to the human, and an approval already given is kept.
\<close>

theorem request_is_idempotent_while_live:
  assumes "find_permit (store_after t b ops) c = Some p" and "live (pstate p)" and "n1 < pexpires p"
  shows "fst (request n1 n2 c title cls task step (store_after t b ops)) = p \<and>
    find_permit (apply_op (Op_Request n1 n2 c title cls task step) (store_after t b ops)) c = Some p"
proof
  let ?s = "store_after t b ops"
  have sw: "find_permit (sweep n1 ?s) c = Some p"
    using assms by (intro sweep_keeps_live) simp_all
  with assms(2) show "fst (request n1 n2 c title cls task step ?s) = p"
    by (simp add: request_def request_locked_def Let_def)
  show "find_permit (apply_op (Op_Request n1 n2 c title cls task step) ?s) c = Some p"
    using sw assms(2) by (simp add: find_request del: apply_op.simps)
qed

theorem request_is_idempotent_while_live_witness:
  "fst (request 5 5 ''c1'' ''Other'' [] ''k1'' 1 (store_after 60 True example_ops)) = example_permit"
proof -
  have "live (pstate example_permit)" "5 < pexpires example_permit"
    by (simp_all add: example_permit_def)
  from request_is_idempotent_while_live [OF example_store this] show ?thesis by blast
qed

text \<open>
  A keystroke answers the question in front of the human: \<open>decide_oldest\<close> decides the oldest
  permit still waiting and unexpired, the first requested among those created in the same tick, and
  moves no other permit except to expiry.
\<close>

theorem keystroke_decides_the_oldest:
  assumes "fst (decide_oldest n1 n2 w via (store_after t b ops)) = Some q"
  shows "\<exists>pre p post. filter (\<lambda>p. pstate p = Pending \<and> n1 < pexpires p) (map snd (permits (store_after t b ops))) =
      pre @ p # post \<and> (\<forall>r \<in> set pre. pcreated p < pcreated r) \<and> (\<forall>r \<in> set post. pcreated p \<le> pcreated r) \<and>
      same_permit p q \<and> pstate q = (if w = ''approve'' then Approved else Denied) \<and> pvia q = Some via \<and>
      (\<forall>k. k \<noteq> pchallenge p \<longrightarrow>
         find_permit (apply_op (Op_DecideOldest n1 n2 w via) (store_after t b ops)) k =
         find_permit (sweep n2 (sweep n1 (store_after t b ops))) k)"
proof -
  let ?s = "store_after t b ops"
  let ?W = "filter (\<lambda>p. pstate p = Pending \<and> n1 < pexpires p) (map snd (permits ?s))"
  obtain d where d: "decision_of w = Some d"
    using assms by (auto simp: decide_oldest_result split: option.splits)
  obtain p ps where p: "pending_list (sweep n1 ?s) = p # ps"
    using assms d by (auto simp: decide_oldest_result split: list.splits)
  have q: "fst (decide_locked n2 (pchallenge p) d via (sweep n1 ?s)) = Some q"
    using assms d p by (simp add: decide_oldest_result)
  have W: "sort_key pcreated ?W = p # ps"
    using p unfolding pending_list_def waiting_sweep by simp
  then have "?W \<noteq> []" by auto
  from hd_sort_key [OF this, of pcreated] W obtain pre post where split: "?W = pre @ p # post"
    "\<forall>r \<in> set pre. pcreated p < pcreated r" "\<forall>r \<in> set post. pcreated p \<le> pcreated r" by auto
  have "p \<in> set ?W" unfolding split(1) by simp
  then have pend: "pstate p = Pending" "n1 < pexpires p" and mem: "p \<in> snd ` set (permits ?s)" by auto
  then have "find_permit ?s (pchallenge p) = Some p"
    using wf_store_after [of t b ops] unfolding wf_store_def find_permit_def by fastforce
  then have f: "find_permit (sweep n1 ?s) (pchallenge p) = Some p"
    using pend by (intro sweep_keeps_live) simp_all
  from q obtain r where r: "find_permit (sweep n2 (sweep n1 ?s)) (pchallenge p) = Some r" "pstate r = Pending"
    and q': "q = r\<lparr>pstate := (if d = Approve then Approved else Denied), pvia := Some via\<rparr>"
    by (auto simp: decide_locked_result split: option.splits if_splits)
  have "r = p"
    using sweep_live [OF wf_sweep [OF wf_store_after] r(1)] r(2) f by simp
  moreover have "d = Approve \<longleftrightarrow> w = ''approve''"
    using d by (auto simp: decision_of_def split: if_splits)
  moreover have "find_permit (apply_op (Op_DecideOldest n1 n2 w via) ?s) k = find_permit (sweep n2 (sweep n1 ?s)) k"
    if "k \<noteq> pchallenge p" for k
    using that d p r by (simp add: decide_oldest_apply decide_locked_find del: apply_op.simps)
  ultimately show ?thesis
    using split q' by (intro exI [of _ pre] exI [of _ p] exI [of _ post]) (simp add: same_permit_def)
qed

theorem keystroke_decides_the_oldest_witness:
  "\<exists>pre p post. filter (\<lambda>p. pstate p = Pending \<and> 2 < pexpires p)
      (map snd (permits (store_after 60 True [hd example_ops]))) = pre @ p # post \<and> pstate p = Pending"
proof -
  have "fst (decide_oldest 2 2 ''deny'' ''chord'' (store_after 60 True [hd example_ops])) =
      Some (example_permit\<lparr>pstate := Denied\<rparr>)" by code_simp
  from keystroke_decides_the_oldest [OF this] obtain pre p post
    where f: "filter (\<lambda>p. pstate p = Pending \<and> 2 < pexpires p)
      (map snd (permits (store_after 60 True [hd example_ops]))) = pre @ p # post" by blast
  have "p \<in> set (pre @ p # post)" by simp
  then have "pstate p = Pending" unfolding f [symmetric] by simp
  with f show ?thesis by blast
qed

text \<open>
  No change in what is waiting goes unannounced: when an operation of a watched store changes the
  list of waiting permits, by a request, a decision or an expiry the sweep notices, the change
  callback runs at its end.
\<close>

theorem waiting_changes_are_announced:
  assumes "watched s" and "pending_list (apply_op x s) \<noteq> pending_list s" and "\<forall>q task. x \<noteq> Op_PhoneTask q task"
  shows "notifies x s"
proof (rule ccontr)
  assume no: "\<not> notifies x s"
  have "pending_list (apply_op x s) = pending_list s"
  proof (cases x)
    case (Op_Request n1 n2 c t cls task step)
    with no assms(1) quiet_sweep [of n1 s] show ?thesis
      by (auto simp: request_def request_locked_def Let_def fire_notifies split: option.splits if_splits)
  next
    case (Op_Decide n c w via)
    with no assms(1) quiet_decide_locked [of n c _ via s] show ?thesis
      by (auto simp: decide_def case_prod_beta Let_def fire_notifies split: option.splits)
  next
    case (Op_DecideOldest n1 n2 w via)
    with no assms(1) quiet_sweep [of n1 s] quiet_decide_locked [of n2 _ _ via "sweep n1 s"] show ?thesis
      by (auto simp: decide_oldest_def pending_locked_def case_prod_beta Let_def fire_notifies
          split: option.splits list.splits)
  next
    case (Op_Consume n c)
    with no assms(1) quiet_sweep [of n s] show ?thesis
      by (auto simp: consume_def Let_def fire_notifies split: option.splits if_splits)
  next
    case (Op_Watch b)
    then show ?thesis by (simp add: set_on_change_def pending_list_def)
  qed (use no assms quiet_sweep in
      \<open>auto simp: get_def pending_def pending_locked_def Let_def fire_notifies\<close>)
  with assms(2) show False ..
qed

theorem waiting_changes_are_announced_witness:
  "notifies (Op_Request 0 0 ''c1'' ''Send'' [''send''] ''k1'' 1) (init_store 60 True)"
proof (rule waiting_changes_are_announced)
  show "watched (init_store 60 True)" by (simp add: init_store_def)
  show "pending_list (apply_op (Op_Request 0 0 ''c1'' ''Send'' [''send''] ''k1'' 1) (init_store 60 True)) \<noteq>
      pending_list (init_store 60 True)"
    by (simp add: request_def request_locked_def sweep_def init_store_def find_permit_def put_def
        pending_list_def fire_change_def new_permit_def Let_def)
qed simp

end
