(* ===== verification/Py_Json.thy ===== *)
theory Py_Json
  imports Py_Prelude "HOL-Library.Char_ord" "HOL-Library.List_Lexorder"
begin

text \<open>
  \<open>json.dumps(value, sort_keys=True, separators=(",", ":"))\<close>, the canonical text Hands hashes, with
  the default \<open>ensure_ascii\<close> escaping. The text of a float is a parameter \<open>fl\<close> (CPython prints the
  shortest decimal that reads back). The text determines the value up to the order of keys
  (\<open>json_dumps_inject\<close>): two documents with one text are the same document.
\<close>

section \<open>Printing\<close>

definition u_escape :: "char \<Rightarrow> string" where
  "u_escape c = [CHR 0x5C, CHR ''u'', CHR ''0'', CHR ''0'', hex_char (code_of c div 16), hex_char (code_of c mod 16)]"

definition short_escape :: "char \<Rightarrow> char option" where
  "short_escape c =
     (if c = CHR 0x22 \<or> c = CHR 0x5C then Some c
      else if c = CHR 0x0A then Some (CHR ''n'') else if c = CHR 0x0D then Some (CHR ''r'')
      else if c = CHR 0x09 then Some (CHR ''t'') else if c = CHR 0x08 then Some (CHR ''b'')
      else if c = CHR 0x0C then Some (CHR ''f'') else None)"

definition esc :: "char \<Rightarrow> string" where
  "esc c = (case short_escape c of Some d \<Rightarrow> [CHR 0x5C, d]
            | None \<Rightarrow> if 32 \<le> code_of c \<and> code_of c \<le> 126 then [c] else u_escape c)"

definition quote :: "string \<Rightarrow> string" where
  "quote s = CHR 0x22 # concat (map esc s) @ [CHR 0x22]"

fun sort_keys :: "pyval \<Rightarrow> pyval" where
  "sort_keys (PyList vs) = PyList (map sort_keys vs)"
| "sort_keys (PyDict kvs) = PyDict (sort_key fst (map (\<lambda>(k, v). (k, sort_keys v)) kvs))"
| "sort_keys v = v"

fun enc :: "(rat \<Rightarrow> string) \<Rightarrow> pyval \<Rightarrow> string" where
  "enc fl PyNone = ''null''"
| "enc fl (PyBool b) = (if b then ''true'' else ''false'')"
| "enc fl (PyInt i) = str_of_int i"
| "enc fl (PyFloat q) = fl q"
| "enc fl (PyStr s) = quote s"
| "enc fl (PyList vs) = ''['' @ py_join '','' (map (enc fl) vs) @ '']''"
| "enc fl (PyDict kvs) = CHR 0x7B # py_join '','' (map (\<lambda>(k, v). quote k @ '':'' @ enc fl v) kvs) @ [CHR 0x7D]"

definition json_dumps :: "(rat \<Rightarrow> string) \<Rightarrow> pyval \<Rightarrow> string" where
  "json_dumps fl v = enc fl (sort_keys v)"

text \<open>
  What \<open>repr\<close> of a finite float promises: a number written with a point or an exponent, from which
  the float can be read back.
\<close>

definition number_char :: "char \<Rightarrow> bool" where
  "number_char c \<longleftrightarrow> is_digit c \<or> c \<in> {CHR ''-'', CHR ''+'', CHR ''.'', CHR ''e''}"

definition float_repr :: "(rat \<Rightarrow> string) \<Rightarrow> bool" where
  "float_repr fl \<longleftrightarrow> inj fl \<and> (\<forall>q. list_all number_char (fl q) \<and> list_ex (\<lambda>c. c = CHR ''.'' \<or> c = CHR ''e'') (fl q))"

section \<open>Truth, text and the spaced printing of a value\<close>

fun truthy :: "pyval \<Rightarrow> bool" where
  "truthy PyNone \<longleftrightarrow> False"
| "truthy (PyBool b) \<longleftrightarrow> b"
| "truthy (PyInt i) \<longleftrightarrow> i \<noteq> 0"
| "truthy (PyFloat q) \<longleftrightarrow> q \<noteq> 0"
| "truthy (PyStr s) \<longleftrightarrow> s \<noteq> []"
| "truthy (PyList vs) \<longleftrightarrow> vs \<noteq> []"
| "truthy (PyDict d) \<longleftrightarrow> d \<noteq> []"

text \<open>\<open>repr(v)\<close> and \<open>str(v)\<close>\<close>

fun repr_val :: "(rat \<Rightarrow> string) \<Rightarrow> pyval \<Rightarrow> string" where
  "repr_val fl PyNone = ''None''"
| "repr_val fl (PyBool b) = (if b then ''True'' else ''False'')"
| "repr_val fl (PyInt i) = str_of_int i"
| "repr_val fl (PyFloat q) = fl q"
| "repr_val fl (PyStr s) = py_repr s"
| "repr_val fl (PyList vs) = ''['' @ py_join '', '' (map (repr_val fl) vs) @ '']''"
| "repr_val fl (PyDict kvs) = CHR 0x7B # py_join '', '' (map (\<lambda>(k, v). py_repr k @ '': '' @ repr_val fl v) kvs) @ [CHR 0x7D]"

definition py_str :: "(rat \<Rightarrow> string) \<Rightarrow> pyval \<Rightarrow> string" where
  "py_str fl v = (case v of PyStr s \<Rightarrow> s | _ \<Rightarrow> repr_val fl v)"

definition get_val :: "pydict \<Rightarrow> string \<Rightarrow> pyval" where
  \<comment> \<open>\<open>d.get(k)\<close>\<close>
  "get_val d k = (case map_of d k of None \<Rightarrow> PyNone | Some v \<Rightarrow> v)"

definition str_or :: "(rat \<Rightarrow> string) \<Rightarrow> pyval \<Rightarrow> string \<Rightarrow> string" where
  \<comment> \<open>\<open>str(v or alt)\<close> for a text \<open>alt\<close>\<close>
  "str_or fl v alt = (if truthy v then py_str fl v else alt)"

text \<open>\<open>v == w\<close>: a boolean compares as the number it is; inside lists and dictionaries, structurally\<close>

fun number_of :: "pyval \<Rightarrow> rat option" where
  "number_of (PyBool b) = Some (if b then 1 else 0)"
| "number_of v = as_number v"

definition py_eq :: "pyval \<Rightarrow> pyval \<Rightarrow> bool" where
  "py_eq v w \<longleftrightarrow>
     (case (number_of v, number_of w) of
        (Some a, Some b) \<Rightarrow> a = b | (None, None) \<Rightarrow> v = w | _ \<Rightarrow> False)"

lemma py_eq_refl [simp]: "py_eq v v"
  by (simp add: py_eq_def split: option.split)

lemma py_eq_PyStr [simp]: "py_eq (PyStr s) v \<longleftrightarrow> v = PyStr s"
  by (cases v) (auto simp: py_eq_def)

text \<open>\<open>json.dumps(value)\<close> with the default separators and the keys in their own order\<close>

fun enc_spaced :: "(rat \<Rightarrow> string) \<Rightarrow> pyval \<Rightarrow> string" where
  "enc_spaced fl (PyList vs) = ''['' @ py_join '', '' (map (enc_spaced fl) vs) @ '']''"
| "enc_spaced fl (PyDict kvs) =
     CHR 0x7B # py_join '', '' (map (\<lambda>(k, v). quote k @ '': '' @ enc_spaced fl v) kvs) @ [CHR 0x7D]"
| "enc_spaced fl v = enc fl v"

lemma py_str_PyStr [simp]: "py_str fl (PyStr s) = s"
  by (simp add: py_str_def)

section \<open>Quoted texts are self-delimiting\<close>

lemma hex_char_code: "k < 16 \<Longrightarrow> code_of (hex_char k) = (if k < 10 then 48 + k else 87 + k)"
  by (simp add: hex_char_def code_of_def)

lemma hex_char_inj:
  assumes "i < 16" and "j < 16" and "hex_char i = hex_char j"
  shows "i = j"
proof -
  have "(if i < 10 then 48 + i else 87 + i) = (if j < 10 then 48 + j else 87 + j)"
    using assms hex_char_code by metis
  with assms(1,2) show ?thesis by (simp split: if_splits)
qed

lemma code_of_less: "code_of c < 256"
  unfolding code_of_def by (rule nat_of_char_less_256)

lemma code_of_inject [simp]: "code_of c = code_of d \<longleftrightarrow> c = d"
  by (simp add: code_of_def)

lemma u_escape_inject: "u_escape c = u_escape d \<Longrightarrow> c = d"
proof -
  assume u: "u_escape c = u_escape d"
  have b: "code_of e div 16 < 16" "code_of e mod 16 < 16" for e
    using code_of_less [of e] by auto
  from u have "code_of c div 16 = code_of d div 16" and "code_of c mod 16 = code_of d mod 16"
    using hex_char_inj [OF b(1) b(1)] hex_char_inj [OF b(2) b(2)] by (auto simp: u_escape_def)
  then have "code_of c = code_of d" by (metis div_mult_mod_eq)
  then show ?thesis by simp
qed

lemma short_escape_inj: "short_escape c = Some e \<Longrightarrow> short_escape d = Some e \<Longrightarrow> c = d"
  by (auto simp: short_escape_def split: if_splits)

lemma short_escape_not_u: "short_escape c \<noteq> Some (CHR ''u'')"
  by (simp add: short_escape_def)

lemma short_escape_special: "short_escape (CHR 0x5C) = Some (CHR 0x5C)" "short_escape (CHR 0x22) = Some (CHR 0x22)"
  by (simp_all add: short_escape_def)

lemma length_u_escape [simp]: "length (u_escape c) = 6"
  by (simp add: u_escape_def)

lemma esc_cases:
  obtains (short) d where "short_escape c = Some d" "esc c = [CHR 0x5C, d]"
  | (plain) "short_escape c = None" "esc c = [c]" "c \<noteq> CHR 0x5C" "c \<noteq> CHR 0x22"
  | (coded) "short_escape c = None" "esc c = u_escape c"
proof (cases "short_escape c")
  case None
  then have "c \<noteq> CHR 0x5C" "c \<noteq> CHR 0x22" using short_escape_special by auto
  with None plain coded show thesis
    by (cases "32 \<le> code_of c \<and> code_of c \<le> 126") (simp_all add: esc_def)
qed (use short in \<open>simp add: esc_def\<close>)

lemma esc_not_quote: "hd (esc c @ x) \<noteq> CHR 0x22" "esc c \<noteq> []"
  by (cases c rule: esc_cases; simp add: u_escape_def)+

lemma esc_prefix_free: "esc c @ x = esc d @ y \<Longrightarrow> c = d \<and> x = y"
proof (cases c rule: esc_cases)
  case (short e)
  then show "esc c @ x = esc d @ y \<Longrightarrow> ?thesis"
    using short_escape_not_u [of c]
    by (cases d rule: esc_cases) (auto simp: u_escape_def dest: short_escape_inj)
next
  case plain
  then show "esc c @ x = esc d @ y \<Longrightarrow> ?thesis"
    by (cases d rule: esc_cases) (auto simp: u_escape_def)
next
  case coded
  then show "esc c @ x = esc d @ y \<Longrightarrow> ?thesis"
  proof (cases d rule: esc_cases)
    case coded': coded
    assume "esc c @ x = esc d @ y"
    then have "u_escape c = u_escape d \<and> x = y" using coded coded' by simp
    then show ?thesis using u_escape_inject by blast
  qed (use short_escape_not_u [of d] in \<open>auto simp: u_escape_def\<close>)
qed

lemma quote_body: "concat (map esc s) @ CHR 0x22 # x = concat (map esc t) @ CHR 0x22 # y \<Longrightarrow> s = t \<and> x = y"
proof (induction s arbitrary: t)
  case Nil
  show ?case
  proof (cases t)
    case (Cons d t')
    with Nil.prems esc_not_quote(1) [of d "concat (map esc t') @ CHR 0x22 # y"] show ?thesis
      by (metis append.assoc append_Nil concat.simps list.map list.sel(1))
  qed (use Nil in simp)
next
  case (Cons c s)
  show ?case
  proof (cases t)
    case Nil
    with Cons.prems esc_not_quote(1) [of c "concat (map esc s) @ CHR 0x22 # x"] show ?thesis by simp
  next
    case (Cons d t')
    with Cons.prems have "esc c @ (concat (map esc s) @ CHR 0x22 # x) = esc d @ (concat (map esc t') @ CHR 0x22 # y)"
      by simp
    from esc_prefix_free [OF this] Cons.IH Cons show ?thesis by blast
  qed
qed

lemma quote_prefix_free: "quote s @ x = quote t @ y \<Longrightarrow> s = t \<and> x = y"
  unfolding quote_def by (rule quote_body) simp

section \<open>Numbers\<close>

text \<open>What may follow a value inside a document\<close>

definition ended :: "string \<Rightarrow> bool" where
  "ended x \<longleftrightarrow> x = [] \<or> hd x \<in> {CHR '','', CHR '']'', CHR 0x7D}"

lemma number_char_ended: "ended x \<Longrightarrow> takeWhile number_char x = []"
  by (cases x) (auto simp: ended_def number_char_def is_digit_def code_of_def)

lemma number_token:
  assumes "list_all number_char a" and "list_all number_char b" and "a @ x = b @ y" and "ended x" and "ended y"
  shows "a = b \<and> x = y"
proof -
  have "takeWhile number_char (a @ x) = a" "takeWhile number_char (b @ y) = b"
    using assms number_char_ended [of x] number_char_ended [of y]
      takeWhile_append2 [of a number_char x] takeWhile_append2 [of b number_char y]
    by (auto simp: list_all_iff)
  with assms(3) show ?thesis by simp
qed

lemma str_of_nat_number: "list_all number_char (str_of_nat n)" "str_of_nat n \<noteq> []"
  "CHR ''-'' \<notin> set (str_of_nat n)" "CHR ''.'' \<notin> set (str_of_nat n)" "CHR ''e'' \<notin> set (str_of_nat n)"
proof -
  show "list_all number_char (str_of_nat n)"
    using str_of_nat_digits [of _ n] by (auto simp: list_all_iff number_char_def)
  show "str_of_nat n \<noteq> []" by (subst str_of_nat.simps) simp
  show "CHR ''-'' \<notin> set (str_of_nat n)" "CHR ''.'' \<notin> set (str_of_nat n)" "CHR ''e'' \<notin> set (str_of_nat n)"
    using str_of_nat_digits [of _ n] by (force simp: is_digit_def code_of_def)+
qed

lemma str_of_int_number: "list_all number_char (str_of_int i)" "str_of_int i \<noteq> []"
  "CHR ''.'' \<notin> set (str_of_int i)" "CHR ''e'' \<notin> set (str_of_int i)"
  using str_of_nat_number by (auto simp: str_of_int_def number_char_def)

lemma str_of_int_inject: "str_of_int i = str_of_int j \<Longrightarrow> i = j"
proof -
  assume e: "str_of_int i = str_of_int j"
  have "CHR ''-'' # a \<noteq> str_of_nat n" for a n
    using str_of_nat_number(3) [of n] by (metis list.set_intros(1))
  with e show ?thesis
    by (auto simp: str_of_int_def split: if_splits) (metis nat_eq_iff2 neg_equal_iff_equal neg_0_le_iff_le linorder_not_less order_less_imp_le eq_nat_nat_iff)+
qed

section \<open>The text determines the value\<close>

definition starts_value :: "string \<Rightarrow> bool" where
  "starts_value s \<longleftrightarrow> s \<noteq> [] \<and> hd s \<notin> {CHR '','', CHR '']'', CHR 0x7D}"

lemma join_prefix_free:
  assumes dec: "\<And>a b x y. a \<in> set as \<Longrightarrow> ended x \<Longrightarrow> ended y \<Longrightarrow> f a @ x = f b @ y \<Longrightarrow> a = b \<and> x = y"
    and start: "\<And>a. starts_value (f a)" and k: "k = CHR '']'' \<or> k = CHR 0x7D"
    and eq: "py_join '','' (map f as) @ k # x = py_join '','' (map f bs) @ k # y"
  shows "as = bs \<and> x = y"
  using dec eq
proof (induction as arbitrary: bs)
  case Nil
  show ?case
  proof (cases bs)
    case (Cons b bs')
    then obtain r where "py_join '','' (map f bs) @ k # y = f b @ r"
      by (cases bs') auto
    with Nil.prems(2) start [of b] k show ?thesis by (cases "f b") (auto simp: starts_value_def)
  qed (use Nil in simp)
next
  case (Cons a as)
  define more where "more zs w = (case zs of [] \<Rightarrow> k # w | _ \<Rightarrow> CHR '','' # py_join '','' (map f zs) @ k # w)" for zs w
  have join: "py_join '','' (map f (z # zs)) @ k # w = f z @ more zs w" for z zs w
    by (cases zs) (simp_all add: more_def)
  have ended: "ended (more zs w)" for zs w
    using k by (cases zs) (auto simp: more_def ended_def)
  show ?case
  proof (cases bs)
    case Nil
    from Cons.prems(2) have "f a @ more as x = k # y" unfolding join Nil by simp
    with start [of a] k show ?thesis by (cases "f a") (auto simp: starts_value_def)
  next
    case bs: (Cons b bs')
    from Cons.prems(2) have "f a @ more as x = f b @ more bs' y" unfolding join bs .
    from Cons.prems(1) [OF list.set_intros(1) ended ended this]
    have ab: "a = b" and rest: "more as x = more bs' y" by auto
    from rest k consider "as = []" "bs' = []" "x = y"
      | "py_join '','' (map f as) @ k # x = py_join '','' (map f bs') @ k # y"
      by (cases as; cases bs') (auto simp: more_def)
    then show ?thesis
    proof cases
      case 1
      with ab bs show ?thesis by simp
    next
      case 2
      with Cons.IH [of bs'] Cons.prems(1) ab bs show ?thesis by auto
    qed
  qed
qed

lemma starts_enc: "float_repr fl \<Longrightarrow> starts_value (enc fl v)"
proof (cases v)
  case (PyInt i)
  then show ?thesis
    using str_of_int_number(1,2) [of i]
    by (cases "str_of_int i") (auto simp: starts_value_def number_char_def is_digit_def code_of_def)
next
  case (PyFloat q)
  assume "float_repr fl"
  then have "list_all number_char (fl q)" "list_ex (\<lambda>c. c = CHR ''.'' \<or> c = CHR ''e'') (fl q)"
    by (simp_all add: float_repr_def)
  with PyFloat show ?thesis
    by (cases "fl q") (auto simp: starts_value_def number_char_def is_digit_def code_of_def)
qed (simp_all add: starts_value_def quote_def)

text \<open>The first character tells the form of a value\<close>

definition number_value :: "pyval \<Rightarrow> bool" where
  "number_value v \<longleftrightarrow> (case v of PyInt _ \<Rightarrow> True | PyFloat _ \<Rightarrow> True | _ \<Rightarrow> False)"

lemma number_value_enc:
  assumes "float_repr fl" and "number_value v"
  shows "list_all number_char (enc fl v)" and "enc fl v \<noteq> []"
  using assms str_of_int_number starts_enc [OF assms(1), of v]
  by (auto simp: number_value_def float_repr_def starts_value_def split: pyval.splits)

lemma number_not_other:
  assumes "float_repr fl" and "number_value v" and "\<not> number_value w"
  shows "enc fl v @ x \<noteq> enc fl w @ y"
proof
  assume e: "enc fl v @ x = enc fl w @ y"
  from number_value_enc [OF assms(1,2)] obtain c cs where "enc fl v = c # cs" "number_char c"
    by (cases "enc fl v") auto
  with e assms(3) show False
    by (cases w) (auto simp: number_value_def quote_def number_char_def is_digit_def code_of_def split: if_splits)
qed

lemma numbers_prefix_free:
  assumes fl: "float_repr fl" and nv: "number_value v" and nw: "number_value w"
    and e: "enc fl v @ x = enc fl w @ y" and "ended x" and "ended y"
  shows "v = w \<and> x = y"
proof -
  have tok: "enc fl v = enc fl w \<and> x = y"
    by (rule number_token [OF number_value_enc(1) [OF fl nv] number_value_enc(1) [OF fl nw] e]) fact+
  have mixed: "fl q \<noteq> str_of_int i" for i q
  proof -
    from fl obtain c where "c \<in> set (fl q)" "c = CHR ''.'' \<or> c = CHR ''e''"
      by (auto simp: float_repr_def list_ex_iff)
    with str_of_int_number(3,4) [of i] show ?thesis by auto
  qed
  note mixed' = mixed [symmetric]
  have "inj fl" using fl by (simp add: float_repr_def)
  with tok nv nw mixed mixed' show ?thesis
    by (auto simp: number_value_def inj_eq dest: str_of_int_inject split: pyval.splits)
qed

lemma enc_prefix_free:
  assumes fl: "float_repr fl"
  shows "enc fl v @ x = enc fl w @ y \<Longrightarrow> ended x \<Longrightarrow> ended y \<Longrightarrow> v = w \<and> x = y"
proof (induction v arbitrary: w x y)
  case (PyInt i)
  then show ?case
    using number_not_other [OF fl, of "PyInt i" w x y] numbers_prefix_free [OF fl, of "PyInt i" w x y]
    by (cases "number_value w") (auto simp: number_value_def)
next
  case (PyFloat q)
  then show ?case
    using number_not_other [OF fl, of "PyFloat q" w x y] numbers_prefix_free [OF fl, of "PyFloat q" w x y]
    by (cases "number_value w") (auto simp: number_value_def)
next
  case PyNone
  then show ?case
    using number_not_other [OF fl, of w PyNone y x]
    by (cases w) (auto simp: number_value_def quote_def split: if_splits)
next
  case (PyBool b)
  then show ?case
    using number_not_other [OF fl, of w "PyBool b" y x]
    by (cases w) (auto simp: number_value_def quote_def split: if_splits)
next
  case (PyStr s)
  show ?case
  proof (cases "\<exists>t. w = PyStr t")
    case True
    then obtain t where w: "w = PyStr t" by blast
    with PyStr.prems quote_prefix_free [of s x t y] show ?thesis by simp
  next
    case False
    with PyStr.prems number_not_other [OF fl, of w "PyStr s" y x] show ?thesis
      by (cases w) (auto simp: number_value_def quote_def split: if_splits)
  qed
next
  case (PyList vs)
  show ?case
  proof (cases "\<exists>ws. w = PyList ws")
    case True
    then obtain ws where w: "w = PyList ws" by blast
    with PyList.prems have e: "py_join '','' (map (enc fl) vs) @ CHR '']'' # x = py_join '','' (map (enc fl) ws) @ CHR '']'' # y"
      by simp
    have "vs = ws \<and> x = y"
      by (rule join_prefix_free [OF _ starts_enc [OF fl] _ e]) (use PyList.IH in auto)
    with w show ?thesis by simp
  next
    case False
    with PyList.prems number_not_other [OF fl, of w "PyList vs" y x] show ?thesis
      by (cases w) (auto simp: number_value_def quote_def split: if_splits)
  qed
next
  case (PyDict kvs)
  let ?f = "\<lambda>(k, v). quote k @ '':'' @ enc fl v"
  show ?case
  proof (cases "\<exists>ws. w = PyDict ws")
    case True
    then obtain ws where w: "w = PyDict ws" by blast
    with PyDict.prems have e: "py_join '','' (map ?f kvs) @ CHR 0x7D # x = py_join '','' (map ?f ws) @ CHR 0x7D # y"
      by simp
    have "kvs = ws \<and> x = y"
    proof (rule join_prefix_free [OF _ _ _ e])
      show "starts_value (?f a)" for a by (simp add: starts_value_def quote_def case_prod_beta)
      fix a b x y
      assume mem: "a \<in> set kvs" and ex: "ended x" "ended y" and eq: "?f a @ x = ?f b @ y"
      obtain k v k' v' where ab: "a = (k, v)" "b = (k', v')" by (cases a; cases b) auto
      with eq have "quote k @ (CHR '':'' # enc fl v @ x) = quote k' @ (CHR '':'' # enc fl v' @ y)" by simp
      from quote_prefix_free [OF this] have kk: "k = k'" and vv: "enc fl v @ x = enc fl v' @ y" by auto
      have "v = v' \<and> x = y"
        by (rule PyDict.IH [OF mem _ vv ex]) (simp add: ab)
      with ab kk show "a = b \<and> x = y" by simp
    qed simp
    with w show ?thesis by simp
  next
    case False
    with PyDict.prems number_not_other [OF fl, of w "PyDict kvs" y x] show ?thesis
      by (cases w) (auto simp: number_value_def quote_def split: if_splits)
  qed
qed

theorem json_dumps_inject:
  assumes "float_repr fl" and "json_dumps fl v = json_dumps fl w"
  shows "sort_keys v = sort_keys w"
  using enc_prefix_free [OF assms(1), of "sort_keys v" "[]" "sort_keys w" "[]"] assms(2)
  by (simp add: json_dumps_def ended_def)

end
