(* ===== verification/Py_Time.thy ===== *)
theory Py_Time
  imports Py_Prelude
begin

text \<open>
  UTC points in time as the code reads and writes them:
  \<open>datetime.strptime(s, "%Y-%m-%dT%H:%M:%SZ")\<close> and the \<open>strftime\<close> with the same format, with the
  round trip between them. A year has four digits (the clock is past year 1000).
\<close>

section \<open>Calendar\<close>

fun digits_value :: "int \<Rightarrow> string \<Rightarrow> int" where
  "digits_value acc [] = acc"
| "digits_value acc (c # cs) = digits_value (10 * acc + int (code_of c - 48)) cs"

text \<open>A point in time is its number of seconds since the start of year 1.\<close>

definition is_leap :: "int \<Rightarrow> bool" where
  "is_leap y \<longleftrightarrow> y mod 4 = 0 \<and> (y mod 100 \<noteq> 0 \<or> y mod 400 = 0)"

definition days_in_month :: "int \<Rightarrow> int \<Rightarrow> int" where
  "days_in_month y m =
     (if m = 2 then (if is_leap y then 29 else 28)
      else if m \<in> {4, 6, 9, 11} then 30 else 31)"

definition days_before_year :: "int \<Rightarrow> int" where
  "days_before_year y = (let p = y - 1 in p * 365 + p div 4 - p div 100 + p div 400)"

definition days_before_month :: "int \<Rightarrow> int \<Rightarrow> int" where
  "days_before_month y m = sum_list (map (days_in_month y) [1..m - 1])"

definition timestamp :: "int \<Rightarrow> int \<Rightarrow> int \<Rightarrow> int \<Rightarrow> int \<Rightarrow> int \<Rightarrow> int" where
  "timestamp y mo d h mi s =
     ((days_before_year y + days_before_month y mo + (d - 1)) * 24 + h) * 3600 + mi * 60 + s"

text \<open>A field of one or two digits within a range\<close>

definition field_in :: "int \<Rightarrow> int \<Rightarrow> string \<Rightarrow> int option" where
  "field_in lo hi s =
     (if (length s = 1 \<or> length s = 2) \<and> list_all is_digit s \<and> lo \<le> digits_value 0 s \<and> digits_value 0 s \<le> hi
      then Some (digits_value 0 s) else None)"

definition parse_day :: "string \<Rightarrow> int option" where
  "parse_day s = field_in 1 31 (if length s = 2 \<and> hd s = CHR '' '' then tl s else s)"

definition parse_year :: "string \<Rightarrow> int option" where
  "parse_year s =
     (if length s = 4 \<and> list_all is_digit s \<and> 1 \<le> digits_value 0 s then Some (digits_value 0 s) else None)"

definition parse_utc :: "string \<Rightarrow> int option" where
  "parse_utc s =
     (case split_on (CHR ''-'') s of
        [ys, ms, rest] \<Rightarrow>
          (case split_on (CHR ''t'') (map lower_char rest) of
             [ds, clock] \<Rightarrow>
               (case split_on (CHR '':'') clock of
                  [hs, mis, sz] \<Rightarrow>
                    (case (parse_year ys, field_in 1 12 ms, parse_day ds, field_in 0 23 hs,
                           field_in 0 59 mis, field_in 0 59 (butlast sz)) of
                       (Some y, Some mo, Some d, Some h, Some mi, Some sec) \<Rightarrow>
                         if sz \<noteq> [] \<and> last sz = CHR ''z'' \<and> d \<le> days_in_month y mo
                         then Some (timestamp y mo d h mi sec) else None
                     | _ \<Rightarrow> None)
                | _ \<Rightarrow> None)
           | _ \<Rightarrow> None)
      | _ \<Rightarrow> None)"

section \<open>Printing\<close>

lemma div_pred:
  assumes "0 < (k::int)"
  shows "(y - 1) div k = y div k - (if y mod k = 0 then 1 else 0)"
proof -
  have y: "y = k * (y div k) + y mod k" and r: "0 \<le> y mod k" "y mod k < k"
    using assms by simp_all
  show ?thesis
  proof (cases "y mod k = 0")
    case True
    then have "y - 1 = k * (y div k - 1) + (k - 1)" using y by (simp add: algebra_simps)
    with True assms show ?thesis using int_div_pos_eq [of "y - 1" k "y div k - 1" "k - 1"] by simp
  next
    case False
    with y have "y - 1 = k * (y div k) + (y mod k - 1)" by simp
    with False r show ?thesis using int_div_pos_eq [of "y - 1" k "y div k" "y mod k - 1"] by simp
  qed
qed

lemma mod_mult_zero: "y mod (m * k) = 0 \<Longrightarrow> y mod k = (0::int)"
  by (metis dvd_mult_right mod_0_imp_dvd dvd_imp_mod_0)

lemma days_before_year_Suc:
  "days_before_year (y + 1) = days_before_year y + (if is_leap y then 366 else 365)"
  using mod_mult_zero [of y 4 100] mod_mult_zero [of y 25 4] mod_mult_zero [of y 100 4]
  by (auto simp: days_before_year_def is_leap_def Let_def div_pred split: if_splits)

lemma days_before_year_ge:
  assumes "1 \<le> y"
  shows "365 * (y - 1) \<le> days_before_year y"
proof -
  have "(y - 1) div 4 div 25 \<le> (y - 1) div 4"
    using assms by (intro zdiv_mono2 [of "(y - 1) div 4" 1 25, simplified]) simp
  then have "(y - 1) div 100 \<le> (y - 1) div 4" by (simp add: zdiv_zmult2_eq [symmetric])
  moreover have "0 \<le> (y - 1) div 400" using assms by simp
  ultimately show ?thesis by (simp add: days_before_year_def Let_def)
qed

text \<open>The year a day number falls in, counting up from a year that is not after it\<close>

function year_up :: "int \<Rightarrow> int \<Rightarrow> int" where
  "year_up y d = (if 1 \<le> y \<and> days_before_year (y + 1) \<le> d then year_up (y + 1) d else y)"
  by auto
termination
proof (relation "measure (\<lambda>(y, d). nat (d - y))", goal_cases)
  case (2 y d)
  with days_before_year_ge [of "y + 1"] show ?case by simp
qed simp

declare year_up.simps [simp del]

definition month_of :: "int \<Rightarrow> int \<Rightarrow> int" where
  "month_of y r = (case find (\<lambda>m. r < days_before_month y (m + 1)) [1..12] of None \<Rightarrow> 12 | Some m \<Rightarrow> m)"

definition two :: "int \<Rightarrow> string" where
  "two v = [digit_char (nat (v div 10)), digit_char (nat (v mod 10))]"

definition format_utc :: "int \<Rightarrow> string" where
  "format_utc t =
     (let days = t div 86400; sec = t mod 86400; y = year_up (days div 366 + 1) days;
          r = days - days_before_year y; mo = month_of y r
      in two (y div 100) @ two (y mod 100) @ ''-'' @ two mo @ ''-'' @
         two (r - days_before_month y mo + 1) @ ''T'' @ two (sec div 3600) @ '':'' @
         two (sec mod 3600 div 60) @ '':'' @ two (sec mod 60) @ ''Z'')"

text \<open>the first instant \<open>datetime\<close> cannot hold\<close>

definition end_of_time :: int where
  "end_of_time = timestamp 10000 1 1 0 0 0"

section \<open>Round trip\<close>

lemma year_up_spec:
  "1 \<le> y \<Longrightarrow> days_before_year y \<le> d \<Longrightarrow>
     y \<le> year_up y d \<and> days_before_year (year_up y d) \<le> d \<and> d < days_before_year (year_up y d + 1)"
proof (induction y d rule: year_up.induct)
  case (1 y d)
  then show ?case
    by (subst (1 2 3) year_up.simps) auto
qed

lemma days_before_year_mono: "y \<le> z \<Longrightarrow> days_before_year y \<le> days_before_year z"
proof (induction z rule: int_ge_induct)
  case (step z)
  then show ?case by (simp add: days_before_year_Suc split: if_splits)
qed simp

lemma days_before_year_le:
  assumes "1 \<le> y"
  shows "days_before_year y \<le> 366 * (y - 1)"
proof -
  have "(y - 1) div 400 \<le> (y - 1) div 100"
    using assms by (intro zdiv_mono2) auto
  moreover have "(y - 1) div 4 \<le> y - 1"
    using assms zdiv_mono2 [of "y - 1" 1 4] by simp
  ultimately show ?thesis by (simp add: days_before_year_def Let_def)
qed

lemma month_of_spec:
  assumes "0 \<le> r" and "r < (if is_leap y then 366 else 365)"
  shows "1 \<le> month_of y r \<and> month_of y r \<le> 12 \<and> days_before_month y (month_of y r) \<le> r \<and>
    r < days_before_month y (month_of y r) + days_in_month y (month_of y r)"
proof (cases "is_leap y")
  case True
  with assms show ?thesis
    by (simp add: month_of_def upto.simps days_before_month_def days_in_month_def split: if_splits)
next
  case False
  with assms show ?thesis
    by (simp add: month_of_def upto.simps days_before_month_def days_in_month_def split: if_splits)
qed

lemma code_of_digit_char: "n < 10 \<Longrightarrow> code_of (digit_char n) = 48 + n"
  by (simp add: code_of_def digit_char_def)

lemma two_facts:
  assumes "0 \<le> v" and "v < 100"
  shows "list_all is_digit (two v)" and "length (two v) = 2" and "digits_value a (two v) = 100 * a + v"
    and "two v \<noteq> []"
proof -
  have "nat (v div 10) < 10" "nat (v mod 10) < 10" using assms by auto
  then show "list_all is_digit (two v)" and "digits_value a (two v) = 100 * a + v"
    using assms pos_imp_zdiv_nonneg_iff [of 10 v]
    by (simp_all add: two_def is_digit_def code_of_digit_char)
qed (simp_all add: two_def)

lemma split_on_append: "c \<notin> set xs \<Longrightarrow> split_on c (xs @ c # ys) = xs # split_on c ys"
  by (induction xs) auto

lemma split_on_none: "c \<notin> set xs \<Longrightarrow> split_on c xs = [xs]"
  by (induction xs) auto

lemma digits_value_append: "digits_value a (xs @ ys) = digits_value (digits_value a xs) ys"
  by (induction a xs rule: digits_value.induct) auto

lemma digits_no:
  assumes "list_all is_digit s"
  shows "CHR ''-'' \<notin> set s" "CHR '':'' \<notin> set s" "CHR ''t'' \<notin> set s" "CHR '' '' \<notin> set s" "CHR ''z'' \<notin> set s"
  using assms by (auto simp: list_all_iff is_digit_def code_of_def)

lemma digits_lower: "list_all is_digit s \<Longrightarrow> map lower_char s = s"
  by (induction s) (auto simp: is_digit_def lower_char_def Let_def)

lemma lower_letters: "lower_char (CHR ''T'') = CHR ''t''" "lower_char (CHR ''Z'') = CHR ''z''"
    "lower_char (CHR '':'') = CHR '':''"
  by code_simp+

lemma field_in_two: "lo \<le> v \<Longrightarrow> v \<le> hi \<Longrightarrow> 0 \<le> lo \<Longrightarrow> hi < 100 \<Longrightarrow> field_in lo hi (two v) = Some v"
  by (simp add: field_in_def two_facts)

lemma parse_utc_fields:
  assumes y: "1 \<le> y" "y \<le> 9999" and mo: "1 \<le> mo" "mo \<le> 12" and d: "1 \<le> d" "d \<le> days_in_month y mo"
    and h: "0 \<le> h" "h \<le> 23" and mi: "0 \<le> mi" "mi \<le> 59" and s: "0 \<le> s" "s \<le> 59"
  shows "parse_utc (two (y div 100) @ two (y mod 100) @ ''-'' @ two mo @ ''-'' @ two d @ ''T'' @ two h @
    '':'' @ two mi @ '':'' @ two s @ ''Z'') = Some (timestamp y mo d h mi s)"
proof -
  have d31: "d \<le> 31" using d(2) by (simp add: days_in_month_def split: if_splits)
  have yy: "0 \<le> y div 100" "y div 100 < 100" using y by auto
  have ym: "0 \<le> y mod 100" "y mod 100 < 100" by simp_all
  let ?Y = "two (y div 100) @ two (y mod 100)"
  note f = two_facts [OF yy] two_facts [OF ym]
  have Y: "list_all is_digit ?Y" using f by simp
  have all: "list_all is_digit (two mo)" "list_all is_digit (two d)" "list_all is_digit (two h)"
    "list_all is_digit (two mi)" "list_all is_digit (two s)"
    using mo d d31 h mi s by (auto intro!: two_facts(1))
  note no = digits_no [OF Y] all [THEN digits_no(1)] all [THEN digits_no(2)] all [THEN digits_no(3)]
  have s1: "split_on (CHR ''-'') (two (y div 100) @ two (y mod 100) @ CHR ''-'' # two mo @ CHR ''-'' #
      two d @ CHR ''T'' # two h @ CHR '':'' # two mi @ CHR '':'' # two s @ ''Z'') =
      [?Y, two mo, two d @ CHR ''T'' # two h @ CHR '':'' # two mi @ CHR '':'' # two s @ ''Z'']"
    using no split_on_append [of "CHR ''-''" ?Y] by (simp add: split_on_append split_on_none)
  have low: "map lower_char (two d @ CHR ''T'' # two h @ CHR '':'' # two mi @ CHR '':'' # two s @ ''Z'') =
      two d @ CHR ''t'' # two h @ CHR '':'' # two mi @ CHR '':'' # two s @ ''z''"
    using all by (simp add: digits_lower lower_letters)
  have s2: "split_on (CHR ''t'') (two d @ CHR ''t'' # two h @ CHR '':'' # two mi @ CHR '':'' # two s @ ''z'') =
      [two d, two h @ CHR '':'' # two mi @ CHR '':'' # two s @ ''z'']"
    using no by (simp add: split_on_append split_on_none)
  have s3: "split_on (CHR '':'') (two h @ CHR '':'' # two mi @ CHR '':'' # two s @ ''z'') =
      [two h, two mi, two s @ ''z'']"
    using no by (simp add: split_on_append split_on_none)
  have py: "parse_year ?Y = Some y"
    using f y by (simp add: parse_year_def digits_value_append)
  have hd_d: "hd (two d) \<noteq> CHR '' ''"
    using digits_no(4) [OF all(2)] two_facts(4) [of d] d d31 by (metis hd_in_set le_less_trans linorder_not_le numeral_less_iff order.trans zero_le_one semiring_norm(76,78,79,80,81))
  have pd: "parse_day (two d) = Some d"
    using hd_d d d31 by (simp add: parse_day_def field_in_two)
  show ?thesis
    using py pd d mo h mi s
    by (simp add: parse_utc_def s1 low s2 s3 field_in_two del: list.map map_append)
qed

theorem parse_format_utc:
  assumes "0 \<le> t" and "t < end_of_time"
  shows "parse_utc (format_utc t) = Some t"
proof -
  define days where "days = t div 86400"
  define sec where "sec = t mod 86400"
  define y where "y = year_up (days div 366 + 1) days"
  define r where "r = days - days_before_year y"
  define mo where "mo = month_of y r"
  have t: "t = days * 86400 + sec" and sec: "0 \<le> sec" "sec < 86400"
    by (simp_all add: days_def sec_def)
  have d0: "0 \<le> days" using assms(1) by (simp add: days_def)
  then have "days_before_year (days div 366 + 1) \<le> days"
    using days_before_year_le [of "days div 366 + 1"] pos_imp_zdiv_nonneg_iff [of 366 days]
      minus_mod_eq_mult_div [of days 366] pos_mod_sign [of 366 days] by simp
  with d0 have y: "days div 366 + 1 \<le> y" "days_before_year y \<le> days" "days < days_before_year (y + 1)"
    using year_up_spec [of "days div 366 + 1" days] by (simp_all add: y_def)
  have y9: "y \<le> 9999"
  proof (rule ccontr)
    assume "\<not> y \<le> 9999"
    then have "days_before_year 10000 \<le> days" using y(2) days_before_year_mono [of 10000 y] by simp
    moreover have "end_of_time = days_before_year 10000 * 86400"
      by (simp add: end_of_time_def timestamp_def days_before_month_def)
    ultimately show False using assms(2) t sec(1) by simp
  qed
  have y1: "1 \<le> y" using y(1) d0 pos_imp_zdiv_nonneg_iff [of 366 days] by simp
  have r: "0 \<le> r" "r < (if is_leap y then 366 else 365)"
    using y by (simp_all add: r_def days_before_year_Suc split: if_splits)
  note mo = month_of_spec [OF r, folded mo_def]
  have hh: "sec div 3600 \<le> 23" "0 \<le> sec div 3600" using sec by auto
  have mm: "0 \<le> sec mod 3600 div 60" "sec mod 3600 div 60 \<le> 59"
    using pos_mod_bound [of 3600 sec] pos_mod_sign [of 3600 sec] by auto
  have ss: "0 \<le> sec mod 60" "sec mod 60 \<le> 59"
    using pos_mod_bound [of 60 sec] by auto
  have f: "format_utc t = two (y div 100) @ two (y mod 100) @ ''-'' @ two mo @ ''-'' @
      two (r - days_before_month y mo + 1) @ ''T'' @ two (sec div 3600) @ '':'' @
      two (sec mod 3600 div 60) @ '':'' @ two (sec mod 60) @ ''Z''"
    by (simp only: format_utc_def Let_def days_def sec_def y_def r_def mo_def)
  have "parse_utc (format_utc t) = Some (timestamp y mo (r - days_before_month y mo + 1)
      (sec div 3600) (sec mod 3600 div 60) (sec mod 60))"
    unfolding f by (rule parse_utc_fields) (use y1 y9 mo hh mm ss in linarith)+
  also have "timestamp y mo (r - days_before_month y mo + 1) (sec div 3600) (sec mod 3600 div 60) (sec mod 60) =
      days * 86400 + (sec div 3600 * 3600 + sec mod 3600 div 60 * 60 + sec mod 60)"
    by (simp add: timestamp_def r_def)
  also have "sec div 3600 * 3600 + sec mod 3600 div 60 * 60 + sec mod 60 = sec"
  proof -
    have "sec mod 3600 mod 60 = sec mod 60" by (rule mod_mod_cancel) simp
    then show ?thesis
      by (metis add.assoc div_mult_mod_eq)
  qed
  finally show ?thesis using t by simp
qed

end
