(* ===== verification/Py_Int.thy ===== *)
theory Py_Int
  imports Py_Time
begin

text \<open>
  \<open>int(text)\<close>, the reading of a whole number from a text.
\<close>

text \<open>\<open>int(text)\<close>: digits with single underscores between them, a sign and spaces around\<close>

fun underscored :: "string \<Rightarrow> bool" where
  "underscored [] \<longleftrightarrow> False"
| "underscored [c] \<longleftrightarrow> is_digit c"
| "underscored (c # d # s) \<longleftrightarrow>
     (if d = CHR ''_'' then is_digit c \<and> underscored s else is_digit c \<and> underscored (d # s))"

definition nat_text :: "string \<Rightarrow> int option" where
  \<comment> \<open>beyond 4300 digits \<open>int\<close> raises \<open>ValueError\<close>\<close>
  "nat_text s = (if underscored s \<and> length (filter is_digit s) \<le> 4300
     then Some (digits_value 0 (filter is_digit s)) else None)"

definition int_text :: "string \<Rightarrow> int option" where
  "int_text t = (case py_strip t of
     [] \<Rightarrow> None
   | c # s \<Rightarrow> if c = CHR ''-'' then map_option uminus (nat_text s)
              else if c = CHR ''+'' then nat_text s else nat_text (c # s))"

end
