(* ===== verification/Hands_Broker.thy ===== *)
theory Hands_Broker
  imports Hands_Permits Py_Json Py_Int
begin

text \<open>
  The broker process: its loopback HTTP routes and the announcer (\<open>broker/server.py\<close>), the file of
  waiting permits (\<open>broker/pending.py\<close>) and the client of the runtime (\<open>broker/client.py\<close>).
  Requests are handled while other threads work: before every access to the store the environment
  may run operations of its own. A reply describes a permit as the store's method returned it.
  Sockets, the access log and the process's start and stop are not modelled.
\<close>

section \<open>Requests and replies\<close>

datatype http_method = GET | POST | PUT | PATCH | DELETE | HEAD | OPTIONS

text \<open>
  \<open>hpath\<close> is \<open>urlsplit(self.path).path\<close>, \<open>hauth\<close> and \<open>hlength\<close> are the headers (empty where absent),
  \<open>hbody\<close> the bytes that arrive.
\<close>

record http_request =
  hmethod :: http_method
  hpath :: string
  hauth :: string
  hlength :: string
  hbody :: string

text \<open>A reply with a JSON body, a bare status, or a connection dropped by an exception\<close>

datatype reply = Reply int pyval | Status int | Dropped

text \<open>
  What the standard library does with bytes: \<open>urllib.parse.unquote\<close>, and \<open>json.loads\<close> of the decoded
  bytes, which gives a value, raises \<open>ValueError\<close>, or raises another error (\<open>RecursionError\<close>).
\<close>

datatype parsed = Parsed pyval | Not_json | Crashed

record stdlib =
  url_unquote :: "string \<Rightarrow> string"
  json_loads :: "string \<Rightarrow> parsed"

record broker =
  b_token :: string
  b_chord :: string
  b_listeners :: "(string \<times> string) list"

section \<open>The store among other threads\<close>

record surroundings =
  o_ops :: "nat \<Rightarrow> op list"
  o_clock :: "nat \<Rightarrow> nat \<Rightarrow> rat"

text \<open>In the log, \<^const>\<open>True\<close> marks the operations of the HTTP handlers\<close>

record served =
  s_store :: store
  s_tick :: nat
  s_log :: "(bool \<times> op) list"

definition perform :: "(bool \<times> op) list \<Rightarrow> served \<Rightarrow> served" where
  "perform xs w = w\<lparr>s_store := run_ops apply_op (map snd xs) (s_store w), s_log := s_log w @ xs\<rparr>"

definition meanwhile :: "surroundings \<Rightarrow> served \<Rightarrow> served" where
  "meanwhile o' w = (perform (map (Pair False) (o_ops o' (s_tick w))) w)\<lparr>s_tick := Suc (s_tick w)\<rparr>"

definition reading :: "surroundings \<Rightarrow> served \<Rightarrow> nat \<Rightarrow> rat" where
  "reading o' w k = o_clock o' (s_tick w) k"

definition srv_get :: "surroundings \<Rightarrow> string \<Rightarrow> served \<Rightarrow> permit option \<times> served" where
  "srv_get o' c w = (let w = meanwhile o' w; n = reading o' w 0
     in (fst (get n c (s_store w)), perform [(True, Op_Get n c)] w))"

definition srv_pending :: "surroundings \<Rightarrow> served \<Rightarrow> permit list \<times> served" where
  "srv_pending o' w = (let w = meanwhile o' w; n = reading o' w 0
     in (fst (pending n (s_store w)), perform [(True, Op_Pending n)] w))"

definition srv_consume :: "surroundings \<Rightarrow> string \<Rightarrow> served \<Rightarrow> bool \<times> served" where
  "srv_consume o' c w = (let w = meanwhile o' w; n = reading o' w 0
     in (fst (consume n c (s_store w)), perform [(True, Op_Consume n c)] w))"

definition srv_request ::
  "surroundings \<Rightarrow> string \<Rightarrow> string \<Rightarrow> string list \<Rightarrow> string \<Rightarrow> int \<Rightarrow> served \<Rightarrow> permit \<times> served" where
  "srv_request o' c t cls task step w = (let w = meanwhile o' w; n1 = reading o' w 0; n2 = reading o' w 1
     in (fst (request n1 n2 c t cls task step (s_store w)),
         perform [(True, Op_Request n1 n2 c t cls task step)] w))"

text \<open>\<open>store.now()\<close>, which takes no lock\<close>

definition srv_now :: "surroundings \<Rightarrow> served \<Rightarrow> rat \<times> served" where
  "srv_now o' w = (let w = meanwhile o' w in (reading o' w 0, w))"

section \<open>What goes over the wire\<close>

text \<open>\<open>round(x, k)\<close>: to the nearest multiple of \<open>10\<^sup>-\<^sup>k\<close>, ties to the even one\<close>

definition round_even :: "rat \<Rightarrow> int" where
  "round_even q = (let f = \<lfloor>q\<rfloor>; d = q - of_int f
     in if d < 1 / 2 then f else if 1 / 2 < d then f + 1 else if even f then f else f + 1)"

definition round_to :: "nat \<Rightarrow> rat \<Rightarrow> rat" where
  "round_to k q = of_int (round_even (q * 10 ^ k)) / 10 ^ k"

definition opt_str :: "string option \<Rightarrow> pyval" where
  "opt_str x = (case x of None \<Rightarrow> PyNone | Some s \<Rightarrow> PyStr s)"

definition permit_json :: "rat \<Rightarrow> permit \<Rightarrow> pyval" where
  "permit_json now p = PyDict
     [(''challenge'', PyStr (pchallenge p)), (''title'', PyStr (ptitle p)),
      (''classes'', PyList (map PyStr (pclasses p))), (''task_id'', PyStr (ptask p)),
      (''step_index'', PyInt (pstep p)), (''state'', PyStr (state_name (pstate p))),
      (''via'', opt_str (pvia p)), (''expires_in_s'', PyFloat (max 0 (round_to 3 (pexpires p - now))))]"

definition health :: "broker \<Rightarrow> nat \<Rightarrow> pyval" where
  "health b waiting = PyDict
     [(''ok'', PyBool True), (''chord'', PyStr (b_chord b)),
      (''listeners'', PyDict (map (\<lambda>(k, v). (k, PyStr v)) (b_listeners b))), (''pending'', PyInt (int waiting))]"

definition err :: "string \<Rightarrow> pyval" where
  "err text = PyDict [(''error'', PyStr text)]"

definition state_reply :: "string \<Rightarrow> pyval" where
  "state_reply text = PyDict [(''state'', PyStr text)]"

definition authorised :: "broker \<Rightarrow> http_request \<Rightarrow> bool" where
  "authorised b r \<longleftrightarrow> hauth r = ''Bearer '' @ b_token b"

section \<open>Reading the body\<close>

definition max_body :: int where "max_body = 16 * 1024"

datatype refusal = Bad_Request string | Too_Large string | Fault

definition content_length :: "http_request \<Rightarrow> refusal + int" where
  "content_length r = (case int_text (if hlength r = [] then ''0'' else hlength r) of
     Some n \<Rightarrow> if n < 0 then Inl (Bad_Request ''bad Content-Length'') else Inr n
   | None \<Rightarrow> Inl (Bad_Request ''bad Content-Length''))"

definition read_json_body :: "stdlib \<Rightarrow> http_request \<Rightarrow> refusal + pydict" where
  "read_json_body lb r =
     bindR (content_length r) (\<lambda>n.
       if max_body < n then Inl (Too_Large (''body over '' @ str_of_int max_body @ '' bytes''))
       else (let raw = take (nat n) (hbody r)
             in if raw = [] then Inr []
                else (case json_loads lb raw of
                        Parsed (PyDict d) \<Rightarrow> Inr d
                      | Parsed _ \<Rightarrow> Inl (Bad_Request ''body is not a JSON object'')
                      | Not_json \<Rightarrow> Inl (Bad_Request ''body is not JSON'')
                      | Crashed \<Rightarrow> Inl Fault)))"

definition get_or :: "pydict \<Rightarrow> string \<Rightarrow> pyval \<Rightarrow> pyval" where
  \<comment> \<open>\<open>d.get(k, alt)\<close>\<close>
  "get_or d k alt = (case map_of d k of None \<Rightarrow> alt | Some v \<Rightarrow> v)"

definition all_texts :: "pyval list \<Rightarrow> string list option" where
  "all_texts vs = those (map as_str vs)"

text \<open>The fields of a permit request, checked in the order of the code\<close>

definition permit_fields :: "pydict \<Rightarrow> string + string \<times> string \<times> string list \<times> string \<times> int" where
  "permit_fields d =
     (case get_val d ''challenge'' of
        PyStr c \<Rightarrow> if c = [] \<or> 256 < length c then Inl ''challenge must be a non-empty string'' else
         (case get_or d ''title'' (PyStr []) of
            PyStr t \<Rightarrow> if 500 < length t then Inl ''title must be a string of at most 500 characters'' else
             (case get_or d ''classes'' (PyList []) of
                PyList vs \<Rightarrow>
                 (case all_texts vs of
                    None \<Rightarrow> Inl ''classes must be a list of strings''
                  | Some cls \<Rightarrow>
                     (case get_or d ''task_id'' (PyStr []) of
                        PyStr task \<Rightarrow> if 256 < length task then Inl ''task_id must be a string'' else
                         (case get_or d ''step_index'' (PyInt 0) of
                            PyInt n \<Rightarrow> if n < 0 then Inl ''step_index must be a non-negative integer''
                                       else Inr (c, t, cls, task, n)
                          | _ \<Rightarrow> Inl ''step_index must be a non-negative integer'')
                      | _ \<Rightarrow> Inl ''task_id must be a string''))
              | _ \<Rightarrow> Inl ''classes must be a list of strings'')
          | _ \<Rightarrow> Inl ''title must be a string of at most 500 characters'')
      | _ \<Rightarrow> Inl ''challenge must be a non-empty string'')"

section \<open>The routes\<close>

text \<open>\<open>^/permits/([^/]{1,256})$\<close> and \<open>^/permits/([^/]{1,256})/consume$\<close>\<close>

definition route_id :: "string \<Rightarrow> bool" where
  "route_id s \<longleftrightarrow> s \<noteq> [] \<and> length s \<le> 256 \<and> CHR ''/'' \<notin> set s"

definition permit_route :: "string \<Rightarrow> string option" where
  "permit_route path = (let i = drop 9 path
     in if starts_with path ''/permits/'' \<and> route_id i then Some i else None)"

definition consume_route :: "string \<Rightarrow> string option" where
  "consume_route path = (let i = take (length path - 17) (drop 9 path)
     in if starts_with path ''/permits/'' \<and> ends_with path ''/consume'' \<and> 17 \<le> length path \<and> route_id i
        then Some i else None)"

definition do_GET :: "stdlib \<Rightarrow> broker \<Rightarrow> surroundings \<Rightarrow> http_request \<Rightarrow> served \<Rightarrow> reply \<times> served" where
  "do_GET lb b o' r w =
     (if \<not> authorised b r then (Reply 401 (err ''unauthorised''), w)
      else if hpath r = ''/health''
      then (case srv_pending o' w of (ps, w) \<Rightarrow> (Reply 200 (health b (length ps)), w))
      else (case permit_route (hpath r) of
              Some i \<Rightarrow>
                (case srv_get o' (url_unquote lb i) w of
                   (None, w) \<Rightarrow> (Reply 404 (err ''no such permit''), w)
                 | (Some p, w) \<Rightarrow> (case srv_now o' w of (n, w) \<Rightarrow> (Reply 200 (permit_json n p), w)))
            | None \<Rightarrow> (Reply 404 (err ''not found''), w)))"

definition create_permit :: "surroundings \<Rightarrow> pydict \<Rightarrow> served \<Rightarrow> reply \<times> served" where
  "create_permit o' d w =
     (case permit_fields d of
        Inl text \<Rightarrow> (Reply 400 (err text), w)
      | Inr (c, t, cls, task, n) \<Rightarrow>
          (case srv_request o' c t cls task n w of
             (p, w) \<Rightarrow> (case srv_now o' w of (now, w) \<Rightarrow> (Reply 201 (permit_json now p), w))))"

definition consume_permit :: "surroundings \<Rightarrow> string \<Rightarrow> served \<Rightarrow> reply \<times> served" where
  "consume_permit o' c w =
     (case srv_get o' c w of
        (None, w) \<Rightarrow> (Reply 404 (err ''no such permit''), w)
      | (Some p, w) \<Rightarrow>
          (case srv_consume o' c w of
             (True, w) \<Rightarrow> (Reply 200 (state_reply ''consumed''), w)
           | (False, w) \<Rightarrow>
               (case srv_get o' c w of
                  (current, w) \<Rightarrow>
                    (Reply 409 (state_reply (case current of Some q \<Rightarrow> state_name (pstate q) | None \<Rightarrow> ''expired'')), w))))"

definition do_POST :: "stdlib \<Rightarrow> broker \<Rightarrow> surroundings \<Rightarrow> http_request \<Rightarrow> served \<Rightarrow> reply \<times> served" where
  "do_POST lb b o' r w =
     (if \<not> authorised b r then (Reply 401 (err ''unauthorised''), w)
      else if hpath r = ''/permits''
      then (case read_json_body lb r of
              Inr d \<Rightarrow> create_permit o' d w
            | Inl (Too_Large text) \<Rightarrow> (Reply 413 (err text), w)
            | Inl (Bad_Request text) \<Rightarrow> (Reply 400 (err text), w)
            | Inl Fault \<Rightarrow> (Dropped, w))
      else (case consume_route (hpath r) of
              Some i \<Rightarrow> consume_permit o' (url_unquote lb i) w
            | None \<Rightarrow> (Reply 404 (err ''not found''), w)))"

definition unsupported :: "broker \<Rightarrow> http_request \<Rightarrow> reply" where
  "unsupported b r =
     (let st = (if authorised b r then 405 else 401)
      in if hmethod r = HEAD then Status st
         else Reply st (err (if st = 405 then ''method not allowed'' else ''unauthorised'')))"

definition handle :: "stdlib \<Rightarrow> broker \<Rightarrow> surroundings \<Rightarrow> http_request \<Rightarrow> served \<Rightarrow> reply \<times> served" where
  "handle lb b o' r w =
     (case hmethod r of
        GET \<Rightarrow> do_GET lb b o' r w | POST \<Rightarrow> do_POST lb b o' r w | _ \<Rightarrow> (unsupported b r, w))"

fun handle_all :: "stdlib \<Rightarrow> broker \<Rightarrow> surroundings \<Rightarrow> http_request list \<Rightarrow> served \<Rightarrow> reply list \<times> served" where
  "handle_all lb b o' [] w = ([], w)"
| "handle_all lb b o' (r # rs) w =
     (case handle lb b o' r w of (a, w) \<Rightarrow> (case handle_all lb b o' rs w of (as, w) \<Rightarrow> (a # as, w)))"

definition serving :: "store \<Rightarrow> served" where
  "serving s = \<lparr>s_store = s, s_tick = 0, s_log = []\<rparr>"

section \<open>What the handlers do to the store\<close>

text \<open>The operations an HTTP handler ever performs\<close>

definition http_op :: "op \<Rightarrow> bool" where
  "http_op x \<longleftrightarrow> (\<exists>n c. x = Op_Get n c) \<or> (\<exists>n. x = Op_Pending n) \<or> (\<exists>n c. x = Op_Consume n c) \<or>
     (\<exists>n m c t cls task step. x = Op_Request n m c t cls task step)"

text \<open>Approvals by the other threads, spendings by anybody\<close>

definition log_step :: "bool \<times> op \<Rightarrow> store \<Rightarrow> store" where
  "log_step y = apply_op (snd y)"

definition outside_approval :: "string \<Rightarrow> bool \<times> op \<Rightarrow> store \<Rightarrow> bool" where
  "outside_approval c y s \<longleftrightarrow> \<not> fst y \<and> approves c (snd y) s"

definition log_spend :: "string \<Rightarrow> bool \<times> op \<Rightarrow> store \<Rightarrow> bool" where
  "log_spend c y s \<longleftrightarrow> spends c (snd y) s"

lemma http_op_never_approves: "http_op x \<Longrightarrow> \<not> approves c x s"
  by (auto simp: http_op_def)

lemma run_log: "run_ops log_step ys s = run_ops apply_op (map snd ys) s"
  by (induction log_step ys s rule: run_ops.induct) (simp_all add: log_step_def)

lemma tally_log_spend: "tally log_step (log_spend c) ys s = tally apply_op (spends c) (map snd ys) s"
  by (induction log_step "log_spend c" ys s rule: tally.induct) (simp_all add: log_step_def log_spend_def)

lemma tally_outside:
  "\<forall>(h, x) \<in> set ys. h \<longrightarrow> http_op x \<Longrightarrow>
     tally log_step (outside_approval c) ys s = tally apply_op (approves c) (map snd ys) s"
  by (induction log_step "outside_approval c" ys s rule: tally.induct)
    (auto simp: log_step_def outside_approval_def http_op_never_approves)

text \<open>\<open>grew init k c w w'\<close>: the log grew, by handlers' operations among others, with at least \<open>k\<close> spendings of \<open>c\<close>\<close>

definition logged :: "store \<Rightarrow> served \<Rightarrow> bool" where
  "logged init w \<longleftrightarrow> s_store w = run_ops log_step (s_log w) init \<and> (\<forall>(h, x) \<in> set (s_log w). h \<longrightarrow> http_op x)"

definition spent :: "store \<Rightarrow> string \<Rightarrow> served \<Rightarrow> nat" where
  "spent init c w = tally log_step (log_spend c) (s_log w) init"

definition grew :: "store \<Rightarrow> nat \<Rightarrow> string \<Rightarrow> served \<Rightarrow> served \<Rightarrow> bool" where
  "grew init k c w w' \<longleftrightarrow> (logged init w \<longrightarrow> logged init w' \<and> spent init c w + k \<le> spent init c w')"

lemma grew_refl [simp, intro]: "grew init 0 c w w"
  by (simp add: grew_def)

lemma grew_mono: "grew init k c w w' \<Longrightarrow> j \<le> k \<Longrightarrow> grew init j c w w'"
  by (auto simp: grew_def)

lemma grew_tick [simp]: "grew init k c w (w'\<lparr>s_tick := n\<rparr>) = grew init k c w w'"
  by (simp add: grew_def logged_def spent_def)

lemma grew_trans: "grew init j c w w' \<Longrightarrow> grew init k c w' w'' \<Longrightarrow> grew init (j + k) c w w''"
  by (auto simp: grew_def)

lemma grew_trans0: "grew init 0 c w w' \<Longrightarrow> grew init k c w' w'' \<Longrightarrow> grew init k c w w''"
  using grew_trans [of init 0 c w w' k w''] by simp

lemma perform_run: "run_ops log_step xs (s_store w) = s_store (perform xs w)"
  by (simp add: perform_def run_log)

lemma perform_grew:
  assumes "\<forall>(h, x) \<in> set xs. h \<longrightarrow> http_op x"
  shows "grew init (tally log_step (log_spend c) xs (s_store w)) c w (perform xs w)"
  using assms by (auto simp: grew_def logged_def spent_def perform_def run_ops_append tally_append run_log)

lemma meanwhile_grew: "grew init 0 c w (meanwhile o' w)"
proof -
  have "grew init (tally log_step (log_spend c) (map (Pair False) (o_ops o' (s_tick w))) (s_store w)) c w
      (perform (map (Pair False) (o_ops o' (s_tick w))) w)"
    by (rule perform_grew) auto
  then show ?thesis unfolding meanwhile_def grew_tick by (rule grew_mono) simp
qed

lemma one_op_grew: "http_op x \<Longrightarrow> grew init (if spends c x (s_store w) then 1 else 0) c w (perform [(True, x)] w)"
  using perform_grew [of "[(True, x)]" init c w] by (simp add: log_spend_def)

lemma one_op_grew0: "http_op x \<Longrightarrow> grew init 0 c w (perform [(True, x)] w)"
  using one_op_grew [of x init c w] by (auto simp: grew_def split: if_splits)

lemma srv_grew:
  "grew init 0 c w (snd (srv_get o' d w))" "grew init 0 c w (snd (srv_pending o' w))"
  "grew init 0 c w (snd (srv_request o' d t cls task step w))" "grew init 0 c w (snd (srv_now o' w))"
  using grew_trans0 [OF meanwhile_grew [of init c w o'] one_op_grew0] meanwhile_grew
  by (simp_all add: srv_get_def srv_pending_def srv_request_def srv_now_def http_op_def Let_def)

lemma srv_consume_grew:
  "grew init (if fst (srv_consume o' d w) \<and> d = c then 1 else 0) c w (snd (srv_consume o' d w))"
proof -
  let ?n = "reading o' (meanwhile o' w) 0"
  have "http_op (Op_Consume ?n d)" by (auto simp: http_op_def)
  from grew_trans0 [OF meanwhile_grew one_op_grew [OF this, of init c "meanwhile o' w"]]
  show ?thesis by (auto simp: srv_consume_def Let_def)
qed

text \<open>The store's spending that a reply reports\<close>

definition confirms :: "stdlib \<Rightarrow> string \<Rightarrow> http_request \<times> reply \<Rightarrow> bool" where
  "confirms lb c = (\<lambda>(r, a). hmethod r = POST \<and> hpath r \<noteq> ''/permits'' \<and>
     (case consume_route (hpath r) of None \<Rightarrow> False | Some i \<Rightarrow> url_unquote lb i = c) \<and>
     (case a of Reply st v \<Rightarrow> st = 200 | _ \<Rightarrow> False))"

lemma consume_permit_grew:
  "grew init (if d = c \<and> (\<exists>v. fst (consume_permit o' d w) = Reply 200 v) then 1 else 0) c w
     (snd (consume_permit o' d w))"
proof -
  obtain p w1 where g: "srv_get o' d w = (p, w1)" by (cases "srv_get o' d w")
  have g1: "grew init 0 c w w1" using srv_grew(1) [of init c w o' d] g by simp
  obtain b w2 where k: "srv_consume o' d w1 = (b, w2)" by (cases "srv_consume o' d w1")
  have k1: "grew init (if b \<and> d = c then 1 else 0) c w w2"
    using grew_trans0 [OF g1 srv_consume_grew [where init = init and o' = o' and d = d and c = c and w = w1]] k by simp
  obtain q w3 where h: "srv_get o' d w2 = (q, w3)" by (cases "srv_get o' d w2")
  have "grew init 0 c w2 w3" using srv_grew(1) [of init c w2 o' d] h by simp
  with k1 have "\<not> b \<Longrightarrow> grew init 0 c w w3" using grew_trans0 by simp
  with g g1 k k1 h show ?thesis
    by (cases p; cases b) (auto simp: consume_permit_def)
qed

lemma create_permit_grew: "grew init 0 c w (snd (create_permit o' d w))"
proof (cases "permit_fields d")
  case (Inr f)
  then obtain ch t cls task n where f: "permit_fields d = Inr (ch, t, cls, task, n)" by (cases f) auto
  obtain p w1 where q: "srv_request o' ch t cls task n w = (p, w1)" by (cases "srv_request o' ch t cls task n w")
  have "grew init 0 c w w1" using srv_grew(3) [of init c w o' ch t cls task n] q by simp
  with srv_grew(4) have "grew init 0 c w (snd (srv_now o' w1))" by (rule grew_trans0 [rotated])
  with f q show ?thesis by (simp add: create_permit_def case_prod_beta)
qed (simp add: create_permit_def)

lemma do_GET_grew: "grew init 0 c w (snd (do_GET lb b o' r w))"
proof -
  have "grew init 0 c w (snd (case srv_get o' d w of
      (None, w) \<Rightarrow> (Reply 404 (err ''no such permit''), w)
    | (Some p, w) \<Rightarrow> (case srv_now o' w of (n, w) \<Rightarrow> (Reply 200 (permit_json n p), w))))" for d
  proof -
    obtain p w1 where g: "srv_get o' d w = (p, w1)" by (cases "srv_get o' d w")
    have "grew init 0 c w w1" using srv_grew(1) [of init c w o' d] g by simp
    moreover from this srv_grew(4) have "grew init 0 c w (snd (srv_now o' w1))" by (rule grew_trans0)
    ultimately show ?thesis using g by (cases p) (simp_all add: case_prod_beta)
  qed
  then show ?thesis
    using srv_grew(2) by (simp add: do_GET_def case_prod_beta split: option.split)
qed

lemma do_POST_grew:
  "hmethod r = POST \<Longrightarrow>
   grew init (if confirms lb c (r, fst (do_POST lb b o' r w)) then 1 else 0) c w (snd (do_POST lb b o' r w))"
  using consume_permit_grew [of init "url_unquote lb (the (consume_route (hpath r)))" c o' w] create_permit_grew
  by (auto simp: do_POST_def confirms_def split: option.split sum.split refusal.split reply.split elim: grew_mono)

lemma handle_grew:
  "grew init (if confirms lb c (r, fst (handle lb b o' r w)) then 1 else 0) c w (snd (handle lb b o' r w))"
  using do_GET_grew do_POST_grew
  by (cases "hmethod r") (auto simp: handle_def confirms_def)

lemma handle_all_grew:
  "grew init (length (filter (confirms lb c) (zip rs (fst (handle_all lb b o' rs w))))) c w (snd (handle_all lb b o' rs w))"
proof (induction rs arbitrary: w)
  case (Cons r rs)
  obtain a w1 where h: "handle lb b o' r w = (a, w1)" by (cases "handle lb b o' r w")
  from handle_grew [of init lb c r b o' w] Cons.IH [of w1]
  have "grew init ((if confirms lb c (r, a) then 1 else 0) +
      length (filter (confirms lb c) (zip rs (fst (handle_all lb b o' rs w1))))) c w (snd (handle_all lb b o' rs w1))"
    unfolding h fst_conv snd_conv by (rule grew_trans)
  with h show ?case by (auto simp: case_prod_beta split: if_splits elim: grew_mono)
qed simp

lemma not_approved_init: "\<not> is_approved c (init_store t n)"
  by (simp add: is_approved_def find_permit_def init_store_def)

section \<open>Properties of the routes\<close>

text \<open>
  C34. No route grants a permit: however requests arrive, well-formed or not, authorised or not, and
  whatever the other threads do in between, every operation a handler performs on the store approves
  nothing, and a challenge is reported consumed to HTTP callers at most as often as the other threads
  (the chord listener, the phone bridge) approved it.
\<close>

theorem no_route_grants:
  "(\<forall>x. (True, x) \<in> set (s_log (snd (handle_all lb b o' rs (serving (init_store t n))))) \<longrightarrow> (\<forall>c s. \<not> approves c x s)) \<and>
   length (filter (confirms lb c) (zip rs (fst (handle_all lb b o' rs (serving (init_store t n)))))) \<le>
     tally log_step (outside_approval c) (s_log (snd (handle_all lb b o' rs (serving (init_store t n))))) (init_store t n)"
proof -
  let ?w = "snd (handle_all lb b o' rs (serving (init_store t n)))"
  have start: "logged (init_store t n) (serving (init_store t n))"
    by (simp add: logged_def serving_def)
  have ok: "logged (init_store t n) ?w"
    and le: "length (filter (confirms lb c) (zip rs (fst (handle_all lb b o' rs (serving (init_store t n)))))) \<le>
      spent (init_store t n) c ?w"
    using handle_all_grew [of "init_store t n" lb c rs b o' "serving (init_store t n)"] start
    by (auto simp: grew_def)
  have http: "\<forall>(h, x) \<in> set (s_log ?w). h \<longrightarrow> http_op x" using ok by (simp add: logged_def)
  have "spent (init_store t n) c ?w \<le> tally log_step (outside_approval c) (s_log ?w) (init_store t n)"
    using permit_gate.spends_le_grants [OF wf_init, of c "map snd (s_log ?w)" t n] not_approved_init [of c t n]
    unfolding spent_def tally_log_spend tally_outside [OF http] by simp
  with le http show ?thesis
    by (auto dest: http_op_never_approves)
qed

definition example_lib :: stdlib where
  "example_lib = \<lparr>url_unquote = id,
     json_loads = (\<lambda>s. if s = ''c1'' then Parsed (PyDict [(''challenge'', PyStr ''c1''), (''title'', PyStr ''Send'')])
                        else Not_json)\<rparr>"

definition example_broker :: broker where
  "example_broker = \<lparr>b_token = ''k'', b_chord = ''ctrl+alt+y'', b_listeners = [(''chord'', ''active'')]\<rparr>"

definition example_request :: "string \<Rightarrow> string \<Rightarrow> http_request" where
  "example_request path text = \<lparr>hmethod = POST, hpath = path, hauth = ''Bearer k'',
     hlength = str_of_nat (length text), hbody = text\<rparr>"

text \<open>The chord listener approves just before the second request is served\<close>

definition example_around :: surroundings where
  "example_around = \<lparr>o_ops = (\<lambda>n. if n = 2 then [Op_DecideOldest 1 1 ''approve'' ''chord''] else []),
     o_clock = (\<lambda>n k. 1)\<rparr>"

definition example_requests :: "http_request list" where
  "example_requests = [example_request ''/permits'' ''c1'', example_request ''/permits/c1/consume'' [],
     example_request ''/permits/c1/consume'' []]"

theorem no_route_grants_witness:
  "length (filter (confirms example_lib ''c1'') (zip example_requests
      (fst (handle_all example_lib example_broker example_around example_requests (serving (init_store 60 True)))))) = 1 \<and>
   1 \<le> tally log_step (outside_approval ''c1'') (s_log (snd (handle_all example_lib example_broker example_around
      example_requests (serving (init_store 60 True))))) (init_store 60 True)"
proof -
  have "length (filter (confirms example_lib ''c1'') (zip example_requests
      (fst (handle_all example_lib example_broker example_around example_requests (serving (init_store 60 True)))))) = 1"
    by code_simp
  with no_route_grants [of example_lib example_broker example_around example_requests 60 True "''c1''"]
  show ?thesis by simp
qed



definition well_formed :: "pydict \<Rightarrow> bool" where
  "well_formed d \<longleftrightarrow>
     (\<exists>c t cls task n. get_val d ''challenge'' = PyStr c \<and> 0 < length c \<and> length c \<le> 256 \<and>
        get_or d ''title'' (PyStr []) = PyStr t \<and> length t \<le> 500 \<and>
        get_or d ''classes'' (PyList []) = PyList (map PyStr cls) \<and>
        get_or d ''task_id'' (PyStr []) = PyStr task \<and> length task \<le> 256 \<and>
        get_or d ''step_index'' (PyInt 0) = PyInt n \<and> 0 \<le> n)"

lemma all_texts_Some: "all_texts vs = Some cls \<longleftrightarrow> vs = map PyStr cls"
proof (induction vs arbitrary: cls)
  case (Cons v vs)
  have "as_str v = Some s \<longleftrightarrow> v = PyStr s" for s by (cases v) auto
  with Cons show ?case
    by (cases cls) (auto simp: all_texts_def split: option.split)
qed (auto simp: all_texts_def)

lemma permit_fields_ok: "(\<exists>f. permit_fields d = Inr f) \<longleftrightarrow> well_formed d"
proof
  assume "\<exists>f. permit_fields d = Inr f"
  then show "well_formed d"
    unfolding permit_fields_def well_formed_def
    by (auto simp: all_texts_Some split: pyval.splits if_splits option.splits)
next
  assume "well_formed d"
  then obtain c t cls task n where "get_val d ''challenge'' = PyStr c" "0 < length c" "length c \<le> 256"
      "get_or d ''title'' (PyStr []) = PyStr t" "length t \<le> 500"
      "get_or d ''classes'' (PyList []) = PyList (map PyStr cls)"
      "get_or d ''task_id'' (PyStr []) = PyStr task" "length task \<le> 256"
      "get_or d ''step_index'' (PyInt 0) = PyInt n" "0 \<le> n"
    unfolding well_formed_def by blast
  moreover have "all_texts (map PyStr cls) = Some cls" by (simp add: all_texts_Some)
  ultimately show "\<exists>f. permit_fields d = Inr f" by (simp add: permit_fields_def)
qed

text \<open>
  A permit is created exactly from a well-formed request: an authorised POST to \<open>/permits\<close> whose body
  parses to an object answers 201 when the challenge is a text of 1 to 256 characters, the title a
  text of at most 500, the classes a list of texts, the task id a text of at most 256 and the step
  index a non-negative integer that is not a boolean; otherwise 400, and the store is not touched.
\<close>

theorem create_permit_validates:
  assumes "authorised b r" and "hmethod r = POST" and "hpath r = ''/permits''" and "read_json_body lb r = Inr d"
  shows "((\<exists>v. fst (handle lb b o' r w) = Reply 201 v) \<longleftrightarrow> well_formed d) \<and>
    (\<not> well_formed d \<longrightarrow> (\<exists>text. handle lb b o' r w = (Reply 400 (err text), w)))"
proof -
  have h: "handle lb b o' r w = create_permit o' d w"
    using assms by (simp add: handle_def do_POST_def)
  show ?thesis
  proof (cases "permit_fields d")
    case (Inl msg)
    with permit_fields_ok [of d] h show ?thesis by (auto simp: create_permit_def)
  next
    case (Inr f)
    with permit_fields_ok [of d] h show ?thesis
      by (cases f) (auto simp: create_permit_def case_prod_beta)
  qed
qed

theorem create_permit_validates_witness:
  "\<exists>v. fst (handle example_lib example_broker example_around (example_request ''/permits'' ''c1'')
      (serving (init_store 60 True))) = Reply 201 v"
proof -
  have d: "read_json_body example_lib (example_request ''/permits'' ''c1'') =
      Inr [(''challenge'', PyStr ''c1''), (''title'', PyStr ''Send'')]" by code_simp
  have a: "authorised example_broker (example_request ''/permits'' ''c1'')" by code_simp
  have "well_formed [(''challenge'', PyStr ''c1''), (''title'', PyStr ''Send'')]"
    by (simp add: well_formed_def get_val_def get_or_def)
  with create_permit_validates [OF a _ _ d] show ?thesis by (simp add: example_request_def)
qed

end
