(* ===== verification/Hands_Client.thy ===== *)
theory Hands_Client
  imports Hands_Broker
begin

text \<open>
  What surrounds the broker's routes: the announcer that runs as the store's change callback and the
  states of the listeners (\<open>broker/server.py\<close>), the file of waiting permits (\<open>broker/pending.py\<close>), and
  the client of the runtime (\<open>broker/client.py\<close>), whose transport is any function of a world.
\<close>

section \<open>The file of waiting permits\<close>

definition pending_row :: "rat \<Rightarrow> permit \<Rightarrow> pyval" where
  "pending_row now p = PyDict
     [(''challenge'', PyStr (pchallenge p)), (''title'', PyStr (ptitle p)),
      (''classes'', PyList (map PyStr (pclasses p))),
      (''expires_in_s'', PyFloat (max 0 (round_to 1 (pexpires p - now))))]"

fun pending_rows :: "surroundings \<Rightarrow> permit list \<Rightarrow> served \<Rightarrow> pyval list \<times> served" where
  "pending_rows o' [] w = ([], w)"
| "pending_rows o' (p # ps) w =
     (case srv_now o' w of (n, w) \<Rightarrow> (case pending_rows o' ps w of (rows, w) \<Rightarrow> (pending_row n p # rows, w)))"

definition pending_file :: "string \<Rightarrow> string \<Rightarrow> pyval list \<Rightarrow> pyval" where
  "pending_file ch deny rows = PyDict
     [(''chord'', PyStr ch), (''deny_chord'', PyStr deny), (''permits'', PyList rows)]"

definition text_or_empty :: "pyval \<Rightarrow> string" where
  "text_or_empty v = (case v of PyStr s \<Rightarrow> s | _ \<Rightarrow> [])"

text \<open>What the file says; \<open>None\<close> stands for a file that is missing, unreadable or not JSON\<close>

definition read_pending :: "pyval option \<Rightarrow> string \<times> string \<times> pyval list" where
  "read_pending file =
     (case file of
        Some (PyDict d) \<Rightarrow>
          (text_or_empty (get_val d ''chord''), text_or_empty (get_val d ''deny_chord''),
           (case get_val d ''permits'' of
              PyList rows \<Rightarrow> filter (\<lambda>r. case r of PyDict _ \<Rightarrow> True | _ \<Rightarrow> False) rows | _ \<Rightarrow> []))
      | _ \<Rightarrow> ([], [], []))"

section \<open>The announcer\<close>

record announcer =
  an_chord :: string
  an_deny :: string
  announced :: "string set"

text \<open>
  The announcer is the store's change callback. It reads the waiting list under its own lock, which is
  not reentrant: when that very read notices a change, the callback runs again on the same thread
  and waits for the lock this thread holds. \<open>Stuck\<close> is a thread that waits for itself.
\<close>

datatype 'a progress = Stuck | Done 'a

definition own_pending :: "surroundings \<Rightarrow> served \<Rightarrow> permit list progress \<times> served" where
  "own_pending o' w = (let w = meanwhile o' w; n = reading o' w 0
     in (if fst (snd (pending n (s_store w))) then Stuck else Done (fst (pending n (s_store w))),
         perform [(False, Op_Pending n)] w))"

text \<open>\<open>write_pending\<close>, with whether the disk takes the file; the result is the new contents, if any\<close>

definition write_pending ::
  "surroundings \<Rightarrow> bool \<Rightarrow> string \<Rightarrow> string \<Rightarrow> served \<Rightarrow> pyval option progress \<times> served" where
  "write_pending o' disk_ok ch deny w =
     (case own_pending o' w of
        (Stuck, w) \<Rightarrow> (Stuck, w)
      | (Done ps, w) \<Rightarrow>
          (case pending_rows o' ps w of
             (rows, w) \<Rightarrow> (Done (if disk_ok then Some (pending_file ch deny rows) else None), w)))"

text \<open>The result of one call: the permits to notify about, the announcer and the file's new contents\<close>

definition announce_change ::
  "surroundings \<Rightarrow> bool \<Rightarrow> announcer \<Rightarrow> served \<Rightarrow> (permit list \<times> announcer \<times> pyval option) progress \<times> served" where
  "announce_change o' disk_ok a w =
     (case own_pending o' w of
        (Stuck, w) \<Rightarrow> (Stuck, w)
      | (Done waiting, w) \<Rightarrow>
          (case write_pending o' disk_ok (an_chord a) (an_deny a) w of
             (Stuck, w) \<Rightarrow> (Stuck, w)
           | (Done file, w) \<Rightarrow>
               (let kept = announced a \<inter> pchallenge ` set waiting;
                    fresh = filter (\<lambda>p. pchallenge p \<notin> kept) waiting
                in (Done (fresh, a\<lparr>announced := kept \<union> pchallenge ` set fresh\<rparr>, file), w))))"

section \<open>What can approve\<close>

definition approver_ids :: "string \<Rightarrow> string list" where
  "approver_ids raw = filter (\<lambda>p. p \<noteq> []) (map py_strip (split_on (CHR '','') raw))"

datatype platform = Win32 | Darwin | Other_Platform

text \<open>
  \<open>compiles\<close> is the tracker's constructor (\<open>ChordTracker(approve, deny)\<close> raises or not); the result is the
  state of the listener and the chords in force, the defaults when the configured ones are unusable.
\<close>

definition chord_listener ::
  "platform \<Rightarrow> (string \<Rightarrow> string \<Rightarrow> bool) \<Rightarrow> hands_config \<Rightarrow> string \<times> hands_config" where
  "chord_listener pf compiles cfg =
     (if pf = Other_Platform then (''unavailable'', cfg)
      else (''active'',
            if compiles (chord cfg) (deny_chord cfg) then cfg
            else cfg\<lparr>chord := chord default_config, deny_chord := deny_chord default_config\<rparr>))"

definition phone_state :: "bool \<Rightarrow> bool \<Rightarrow> string" where
  "phone_state wanted offline = (if \<not> wanted then ''off'' else if offline then ''offline'' else ''active'')"

record runtime =
  rt_store :: store
  rt_listeners :: "(string \<times> string) list"
  rt_announcer :: announcer
  rt_approvers :: "string list option"
  rt_pending_file :: pyval

definition build_runtime :: "platform \<Rightarrow> (string \<Rightarrow> string \<Rightarrow> bool) \<Rightarrow> bool \<Rightarrow> hands_config \<Rightarrow> runtime" where
  "build_runtime pf compiles offline cfg =
     (let (chord_state, cfg) = chord_listener pf compiles cfg
      in \<lparr>rt_store = set_on_change True (init_store (permit_ttl_s cfg) False),
          rt_listeners = [(''chord'', chord_state), (''phone'', phone_state (phone_approvals cfg) offline)],
          rt_announcer = \<lparr>an_chord = chord cfg, an_deny = deny_chord cfg, announced = {}\<rparr>,
          rt_approvers = (if phone_approvals cfg \<and> \<not> offline then Some (approver_ids (phone_approvers cfg)) else None),
          rt_pending_file = pending_file (chord cfg) (deny_chord cfg) []\<rparr>)"

section \<open>The client\<close>

text \<open>
  What one HTTP exchange gives the client: nothing (no connection), or a status and the parse of the
  body, \<open>None\<close> where that is not JSON. \<open>_call\<close> turns it into a status and a payload.
\<close>

datatype wire = Unreached | Wire int "pyval option"

definition call_result :: "wire \<Rightarrow> int option \<times> pyval" where
  "call_result r =
     (case r of
        Unreached \<Rightarrow> (None, PyNone)
      | Wire st (Some v) \<Rightarrow> (Some st, v)
      | Wire st None \<Rightarrow> if 200 \<le> st \<and> st < 300 then (None, PyNone) else (Some st, PyNone))"

type_synonym 'w transport = "http_method \<Rightarrow> string \<Rightarrow> pyval option \<Rightarrow> 'w \<Rightarrow> wire \<times> 'w"

definition client_call :: "'w transport \<Rightarrow> http_method \<Rightarrow> string \<Rightarrow> pyval option \<Rightarrow> 'w \<Rightarrow> (int option \<times> pyval) \<times> 'w" where
  "client_call send m path body w = (case send m path body w of (r, w) \<Rightarrow> (call_result r, w))"

definition client_health :: "'w transport \<Rightarrow> 'w \<Rightarrow> pydict option \<times> 'w" where
  "client_health send w =
     (case client_call send GET ''/health'' None w of
        ((st, v), w) \<Rightarrow>
          ((case v of PyDict d \<Rightarrow> if st = Some 200 \<and> truthy (get_val d ''ok'') then Some d else None | _ \<Rightarrow> None), w))"

definition client_request :: "'w transport \<Rightarrow> pydict \<Rightarrow> 'w \<Rightarrow> pydict \<times> 'w" where
  "client_request send asked w =
     (case client_call send POST ''/permits'' (Some (PyDict asked)) w of
        ((st, v), w) \<Rightarrow>
          (let failed = [(''challenge'', get_val asked ''challenge''),
                         (''state'', PyStr (if st = None then ''unreachable'' else ''error'')), (''via'', PyNone)]
           in (case v of PyDict d \<Rightarrow> if st = Some 201 then d else failed | _ \<Rightarrow> failed), w))"

definition permit_path :: "(string \<Rightarrow> string) \<Rightarrow> string \<Rightarrow> string" where
  "permit_path url_quote c = ''/permits/'' @ url_quote c"

definition client_get :: "'w transport \<Rightarrow> (string \<Rightarrow> string) \<Rightarrow> string \<Rightarrow> 'w \<Rightarrow> pydict option \<times> 'w" where
  "client_get send url_quote c w =
     (case client_call send GET (permit_path url_quote c) None w of
        ((st, v), w) \<Rightarrow> ((case v of PyDict d \<Rightarrow> if st = Some 200 then Some d else None | _ \<Rightarrow> None), w))"

definition client_consume :: "'w transport \<Rightarrow> (string \<Rightarrow> string) \<Rightarrow> string \<Rightarrow> 'w \<Rightarrow> bool \<times> 'w" where
  "client_consume send url_quote c w =
     (case client_call send POST (permit_path url_quote c @ ''/consume'') None w of
        ((st, v), w) \<Rightarrow>
          ((case v of PyDict d \<Rightarrow> st = Some 200 \<and> get_val d ''state'' = PyStr ''consumed'' | _ \<Rightarrow> False), w))"

definition wait_reply :: "string \<Rightarrow> string \<Rightarrow> pydict" where
  "wait_reply c st = [(''challenge'', PyStr c), (''state'', PyStr st), (''via'', PyNone)]"

definition poll_s :: rat where "poll_s = 1 / 4"

text \<open>
  The loop of \<open>wait\<close> after at most \<open>fuel\<close> polls; \<open>clock\<close> reads \<open>time.monotonic()\<close> in a world and \<open>sleep\<close>
  is \<open>time.sleep\<close>.
\<close>

primrec wait_loop ::
  "'w transport \<Rightarrow> ('w \<Rightarrow> rat) \<Rightarrow> (rat \<Rightarrow> 'w \<Rightarrow> 'w) \<Rightarrow> string \<Rightarrow> string \<Rightarrow> rat \<Rightarrow> nat \<Rightarrow> pydict option \<Rightarrow> 'w \<Rightarrow>
   (pydict \<times> 'w) option" where
  "wait_loop send clock sleep path c deadline 0 latest w = None"
| "wait_loop send clock sleep path c deadline (Suc fuel) latest w =
     (case client_call send GET path None w of
        ((st, v), w) \<Rightarrow>
          if st = None then Some (wait_reply c ''unreachable'', w)
          else if st = Some 404 then Some (wait_reply c ''unknown'', w)
          else (let payload = (case v of PyDict d \<Rightarrow> if st = Some 200 then Some d else None | _ \<Rightarrow> None);
                    latest = (if payload = None then latest else payload)
                in if payload \<noteq> None \<and> get_val (the payload) ''state'' \<noteq> PyStr ''pending''
                   then Some (the payload, w)
                   else (let remaining = deadline - clock w
                         in if remaining \<le> 0
                            then Some (case latest of Some d \<Rightarrow> if d = [] then wait_reply c ''unknown'' else d
                                                    | None \<Rightarrow> wait_reply c ''unknown'', w)
                            else wait_loop send clock sleep path c deadline fuel latest
                                   (sleep (min poll_s remaining) w))))"

definition client_wait ::
  "'w transport \<Rightarrow> ('w \<Rightarrow> rat) \<Rightarrow> (rat \<Rightarrow> 'w \<Rightarrow> 'w) \<Rightarrow> (string \<Rightarrow> string) \<Rightarrow> string \<Rightarrow> rat \<Rightarrow> nat \<Rightarrow> 'w \<Rightarrow>
   (pydict \<times> 'w) option" where
  "client_wait send clock sleep url_quote c timeout fuel w =
     wait_loop send clock sleep (permit_path url_quote c) c (clock w + max 0 timeout) fuel None w"

text \<open>\<open>from_disk\<close>: \<open>int(info["port"])\<close> and \<open>str(info["token"])\<close> of \<open>broker.json\<close>, then a health check\<close>

definition py_int :: "pyval \<Rightarrow> int option" where
  "py_int v = (case v of PyInt i \<Rightarrow> Some i | PyBool b \<Rightarrow> Some (if b then 1 else 0)
     | PyFloat q \<Rightarrow> Some (if q < 0 then \<lceil>q\<rceil> else \<lfloor>q\<rfloor>) | PyStr s \<Rightarrow> int_text s | _ \<Rightarrow> None)"

definition broker_info :: "(rat \<Rightarrow> string) \<Rightarrow> pyval option \<Rightarrow> (int \<times> string) option" where
  "broker_info fl file =
     (case file of
        Some (PyDict d) \<Rightarrow>
          (case (map_of d ''port'', map_of d ''token'') of
             (Some p, Some t) \<Rightarrow> map_option (\<lambda>i. (i, py_str fl t)) (py_int p) | _ \<Rightarrow> None)
      | _ \<Rightarrow> None)"

definition from_disk ::
  "(rat \<Rightarrow> string) \<Rightarrow> (int \<Rightarrow> string \<Rightarrow> 'w transport) \<Rightarrow> pyval option \<Rightarrow> 'w \<Rightarrow> 'w transport option \<times> 'w" where
  "from_disk fl connect file w =
     (case broker_info fl file of
        None \<Rightarrow> (None, w)
      | Some (p, t) \<Rightarrow>
          (case client_health (connect p t) w of
             (None, w) \<Rightarrow> (None, w) | (Some d, w) \<Rightarrow> (if d = [] then None else Some (connect p t), w)))"

section \<open>The client and the broker together\<close>

text \<open>The transport to this broker: the reply's JSON arrives as it was sent\<close>

definition loopback ::
  "stdlib \<Rightarrow> broker \<Rightarrow> surroundings \<Rightarrow> string \<Rightarrow> (pyval \<Rightarrow> string) \<Rightarrow> served transport" where
  "loopback lb b o' token dumps m path body w =
     (let text = (case body of None \<Rightarrow> [] | Some v \<Rightarrow> dumps v)
      in case handle lb b o' \<lparr>hmethod = m, hpath = path, hauth = ''Bearer '' @ token,
                hlength = (if body = None then [] else str_of_nat (length text)), hbody = text\<rparr> w of
           (Reply st v, w) \<Rightarrow> (Wire st (Some v), w)
         | (Status st, w) \<Rightarrow> (Wire st (Some PyNone), w)
         | (Dropped, w) \<Rightarrow> (Unreached, w))"

section \<open>Properties of the announcer\<close>

lemma pending_fires: "fst (snd (pending n s)) \<longleftrightarrow> watched s \<and> (dirty s \<or> list_ex (\<lambda>(c, p). run_out n p) (permits s))"
  by (auto simp: pending_def pending_locked_def Let_def fire_notifies sweep_def)

text \<open>
  C36. The announcer can wait for itself: when a permit runs out between the operation that fired the
  change callback and the callback's own read of the waiting list, or another thread's change is
  still unannounced at that read, the callback re-enters itself and the thread never returns.
\<close>

theorem announcer_waits_for_itself:
  assumes "watched (s_store (meanwhile o' w))"
    and "dirty (s_store (meanwhile o' w)) \<or>
      (\<exists>(c, p) \<in> set (permits (s_store (meanwhile o' w))). run_out (reading o' (meanwhile o' w) 0) p)"
  shows "fst (announce_change o' disk_ok a w) = Stuck"
proof -
  have "fst (own_pending o' w) = Stuck"
    using assms by (auto simp: own_pending_def Let_def pending_fires list_ex_iff)
  then show ?thesis
    by (cases "own_pending o' w") (simp add: announce_change_def)
qed

text \<open>
  Two requests, the second a second before the first runs out; it fires the callback, which reads the
  clock when the first has run out
\<close>

definition crossing_ops :: "op list" where
  "crossing_ops = [Op_Request 0 0 ''c1'' ''Send'' [''send''] ''k1'' 1, Op_Request 59 59 ''c2'' ''Pay'' [''money''] ''k1'' 2]"

definition crossing :: surroundings where
  "crossing = \<lparr>o_ops = (\<lambda>n. []), o_clock = (\<lambda>n k. 60)\<rparr>"

theorem announcer_waits_for_itself_witness:
  "notifies (last crossing_ops) (store_after 60 True (butlast crossing_ops)) \<and>
   fst (announce_change crossing True \<lparr>an_chord = ''ctrl+alt+y'', an_deny = ''ctrl+alt+n'', announced = {}\<rparr>
     (serving (store_after 60 True crossing_ops))) = Stuck"
proof
  show "notifies (last crossing_ops) (store_after 60 True (butlast crossing_ops))" by code_simp
  let ?w = "meanwhile crossing (serving (store_after 60 True crossing_ops))"
  have "watched (s_store ?w)" by code_simp
  moreover have "list_ex (\<lambda>(c, p). run_out (reading crossing ?w 0) p) (permits (s_store ?w))" by code_simp
  ultimately show "fst (announce_change crossing True \<lparr>an_chord = ''ctrl+alt+y'', an_deny = ''ctrl+alt+n'', announced = {}\<rparr>
     (serving (store_after 60 True crossing_ops))) = Stuck"
    by (intro announcer_waits_for_itself) (simp_all add: list_ex_iff)
qed

text \<open>
  Each permit is announced once: a call that returns notifies about exactly the waiting permits it
  had not announced, keeps as announced exactly the challenges still waiting, and a further call on
  an unchanged list notifies about nothing.
\<close>

theorem announced_once:
  assumes "announce_change o' disk_ok a w = (Done (fresh, a', file), w')"
  shows "fresh = filter (\<lambda>p. pchallenge p \<notin> announced a) (fst (pending (reading o' (meanwhile o' w) 0) (s_store (meanwhile o' w)))) \<and>
    announced a' = pchallenge ` set (fst (pending (reading o' (meanwhile o' w) 0) (s_store (meanwhile o' w)))) \<and>
    (\<forall>o2 w2 fresh' a2 file' w3. announce_change o2 disk_ok a' w2 = (Done (fresh', a2, file'), w3) \<and>
       fst (pending (reading o2 (meanwhile o2 w2) 0) (s_store (meanwhile o2 w2))) =
       fst (pending (reading o' (meanwhile o' w) 0) (s_store (meanwhile o' w))) \<longrightarrow> fresh' = [])"
proof -
  have shape: "f = filter (\<lambda>p. pchallenge p \<notin> announced b) ps \<and> announced b' = pchallenge ` set ps"
    if "announce_change q disk_ok b v = (Done (f, b', fl), v')"
      and "ps = fst (pending (reading q (meanwhile q v) 0) (s_store (meanwhile q v)))" for q b v f b' fl v' ps
  proof -
    obtain r u where r: "own_pending q v = (r, u)" by (cases "own_pending q v")
    with that(1) obtain ws where ws: "r = Done ws" by (cases r) (auto simp: announce_change_def)
    with r that(2) have "ws = ps" by (auto simp: own_pending_def Let_def split: if_splits)
    with that(1) r ws show ?thesis
      by (auto simp: announce_change_def Let_def split: prod.splits progress.splits intro: filter_cong)
  qed
  from shape [OF assms refl] show ?thesis
    using shape by (fastforce simp: filter_empty_conv)
qed

theorem announced_once_witness:
  "\<exists>fresh a' file w'. announce_change \<lparr>o_ops = (\<lambda>n. []), o_clock = (\<lambda>n k. 59)\<rparr> True
      \<lparr>an_chord = [], an_deny = [], announced = {''c1''}\<rparr> (serving (store_after 60 True crossing_ops)) =
      (Done (fresh, a', file), w') \<and> map pchallenge fresh = [''c2''] \<and> announced a' = {''c1'', ''c2''}"
proof -
  let ?o = "\<lparr>o_ops = (\<lambda>n. []), o_clock = (\<lambda>n k. 59)\<rparr>"
  let ?a = "\<lparr>an_chord = [], an_deny = [], announced = {''c1''}\<rparr>"
  let ?w = "serving (store_after 60 True crossing_ops)"
  let ?r = "announce_change ?o True ?a ?w"
  have "(case fst ?r of Done x \<Rightarrow> True | Stuck \<Rightarrow> False)" by code_simp
  then obtain fresh a' fl where r: "?r = (Done (fresh, a', fl), snd ?r)"
    by (cases "fst ?r") (auto simp: prod_eq_iff)
  have "map pchallenge (filter (\<lambda>p. pchallenge p \<notin> announced ?a)
      (fst (pending (reading ?o (meanwhile ?o ?w) 0) (s_store (meanwhile ?o ?w))))) = [''c2'']"
    and "pchallenge ` set (fst (pending (reading ?o (meanwhile ?o ?w) 0) (s_store (meanwhile ?o ?w)))) = {''c1'', ''c2''}"
    by code_simp+
  with announced_once [OF r] r show ?thesis by (metis (no_types, lifting))
qed

section \<open>Properties of the client\<close>

lemma wait_loop_returns:
  assumes send: "\<And>m path body w. clock w \<le> clock (snd (send m path body w))"
    and sleep: "\<And>d w. 0 \<le> d \<Longrightarrow> clock w + d \<le> clock (sleep d w)"
  shows "deadline - clock w \<le> of_nat k / 4 \<Longrightarrow> \<exists>r. wait_loop send clock sleep path c deadline (Suc k) latest w = Some r"
proof (induction k arbitrary: latest w)
  case 0
  obtain st v w1 where c1: "client_call send GET path None w = ((st, v), w1)"
    by (cases "client_call send GET path None w") auto
  then have "clock w \<le> clock w1"
    using send [of w GET path None] by (auto simp: client_call_def split: prod.splits)
  with 0 c1 show ?case by (simp add: Let_def)
next
  case (Suc k)
  obtain st v w1 where c1: "client_call send GET path None w = ((st, v), w1)"
    by (cases "client_call send GET path None w") auto
  then have w1: "clock w \<le> clock w1"
    using send [of w GET path None] by (auto simp: client_call_def split: prod.splits)
  let ?rem = "deadline - clock w1"
  have "\<exists>r. wait_loop send clock sleep path c deadline (Suc k) l (sleep (min poll_s ?rem) w1) = Some r"
    if "0 < ?rem" for l
  proof (rule Suc.IH)
    have "clock w1 + min poll_s ?rem \<le> clock (sleep (min poll_s ?rem) w1)"
      using that by (intro sleep) (simp add: poll_s_def)
    moreover have "of_nat (Suc k) / 4 = of_nat k / 4 + (1 / 4 :: rat)" by (simp add: field_simps)
    moreover have "0 \<le> of_nat k / (4 :: rat)" by simp
    ultimately show "deadline - clock (sleep (min poll_s ?rem) w1) \<le> of_nat k / 4"
      using Suc.prems w1 unfolding poll_s_def min_def by (auto split: if_splits)
  qed
  with c1 show ?case by (auto simp: Let_def simp del: wait_loop.simps(2) simp: wait_loop.simps(2) [of _ _ _ _ _ _ "Suc k"])
qed

text \<open>
  C37. \<open>wait\<close> returns: whatever the broker answers, if the clock never runs backwards during an exchange and
  a sleep lasts at least as long as asked, the loop is over after at most four polls per second of the
  timeout, plus two.
\<close>

theorem wait_returns:
  assumes "\<forall>m path body w. clock w \<le> clock (snd (send m path body w))"
    and "\<forall>d w. 0 \<le> d \<longrightarrow> clock w + d \<le> clock (sleep d w)"
    and "nat \<lceil>4 * max 0 timeout\<rceil> + 2 \<le> fuel"
  shows "\<exists>d w'. client_wait send clock sleep url_quote c timeout fuel w = Some (d, w')"
proof -
  obtain k where fuel: "fuel = Suc k" using assms(3) by (cases fuel) auto
  have "4 * max 0 timeout \<le> of_int \<lceil>4 * max 0 timeout\<rceil>" by (rule le_of_int_ceiling)
  also have "of_int \<lceil>4 * max 0 timeout\<rceil> \<le> (of_nat (nat \<lceil>4 * max 0 timeout\<rceil>) :: rat)" by simp
  also have "of_nat (nat \<lceil>4 * max 0 timeout\<rceil>) \<le> (of_nat k :: rat)" using assms(3) fuel by simp
  finally have "clock w + max 0 timeout - clock w \<le> of_nat k / 4" by simp
  from wait_loop_returns [of clock send sleep, OF _ _ this] assms(1,2) show ?thesis
    by (simp add: client_wait_def fuel)
qed

theorem wait_returns_witness:
  "\<exists>d w'. client_wait (\<lambda>m path body w. (Wire 200 (Some (PyDict [(''state'', PyStr ''pending'')])), w)) id (+) id ''c1'' 1 6 (0 :: rat)
     = Some (d, w')"
  by (rule wait_returns) simp_all

lemma consume_route_path:
  assumes "route_id i"
  shows "consume_route (''/permits/'' @ i @ ''/consume'') = Some i"
proof -
  have "ends_with ((''/permits/'' @ i) @ ''/consume'') ''/consume''" by (rule ends_with_append)
  with assms show ?thesis by (simp add: consume_route_def starts_with_def Let_def)
qed

text \<open>
  C40. From the runtime to the store: over the loopback, and provided that quoting a challenge in a path is
  undone by unquoting, the client's \<open>consume\<close> says yes exactly when the store's \<open>consume\<close> does in that
  exchange, so a yes is an approved, unexpired permit spent then and there.
\<close>

theorem consume_over_loopback:
  assumes "url_unquote lb (url_quote c) = c" and "route_id (url_quote c)"
  shows "fst (client_consume (loopback lb b o' (b_token b) dumps) url_quote c w) \<longleftrightarrow>
    (\<exists>p. fst (srv_get o' c w) = Some p) \<and> fst (srv_consume o' c (snd (srv_get o' c w)))"
proof -
  let ?r = "\<lparr>hmethod = POST, hpath = permit_path url_quote c @ ''/consume'', hauth = ''Bearer '' @ b_token b,
    hlength = [], hbody = []\<rparr>"
  have path: "permit_path url_quote c @ ''/consume'' = ''/permits/'' @ url_quote c @ ''/consume''"
    by (simp add: permit_path_def)
  have "handle lb b o' ?r w = consume_permit o' c w"
    using assms(1) consume_route_path [OF assms(2)]
    by (simp add: handle_def do_POST_def authorised_def path)
  then have "fst (client_consume (loopback lb b o' (b_token b) dumps) url_quote c w) \<longleftrightarrow>
      (case fst (consume_permit o' c w) of Reply st v \<Rightarrow> st = 200 \<and> v = state_reply ''consumed'' \<or>
         (case v of PyDict d \<Rightarrow> st = 200 \<and> get_val d ''state'' = PyStr ''consumed'' | _ \<Rightarrow> False) | _ \<Rightarrow> False)"
    by (auto simp: client_consume_def client_call_def loopback_def call_result_def Let_def state_reply_def get_val_def
        split: prod.splits reply.splits pyval.splits)
  also have "\<dots> \<longleftrightarrow> (\<exists>p. fst (srv_get o' c w) = Some p) \<and> fst (srv_consume o' c (snd (srv_get o' c w)))"
    by (auto simp: consume_permit_def state_reply_def get_val_def err_def case_prod_beta
        split: option.splits prod.splits bool.splits)
  finally show ?thesis .
qed

theorem consume_over_loopback_witness:
  "fst (client_consume (loopback example_lib example_broker \<lparr>o_ops = (\<lambda>n. []), o_clock = (\<lambda>n k. 2)\<rparr> ''k'' (\<lambda>v. [])) id ''c1''
     (serving (store_after 60 True example_ops)))"
proof -
  let ?o = "\<lparr>o_ops = (\<lambda>n. []), o_clock = (\<lambda>n k. 2)\<rparr>"
  let ?w = "serving (store_after 60 True example_ops)"
  have "fst (srv_get ?o ''c1'' ?w) \<noteq> None" "fst (srv_consume ?o ''c1'' (snd (srv_get ?o ''c1'' ?w)))"
    "b_token example_broker = ''k''" "url_unquote example_lib (id ''c1'') = ''c1''" "route_id (id ''c1'')"
    by code_simp+
  then show ?thesis
    using consume_over_loopback [of example_lib id "''c1''" example_broker ?o "\<lambda>v. []" ?w] by auto
qed

end
