(* ===== verification/Hands_Routing.thy ===== *)
theory Hands_Routing
  imports Hands_Base
begin

text \<open>
  \<open>hands/src/firekeep_hands/routing.py\<close>: a requested action (any JSON value at all) becomes a
  \<^emph>\<open>routed step\<close> a backend can execute, or an \<open>invalid_action\<close>/\<open>stale_ref\<close> error. The lemmas show
  that a routed pointer is always the centre of an observed control, that a routed payload has the
  fields its kind is executed with, and that no routed step types more than the character cap.
\<close>

section \<open>The tables of the module\<close>

definition accessibility_invoke_patterns :: "string list" where
  "accessibility_invoke_patterns = [''Invoke'', ''AXPress'']"

definition accessibility_value_patterns :: "string list" where
  "accessibility_value_patterns = [''Value'', ''AXValue'']"

definition forbidden_keys :: "string list" where
  "forbidden_keys = [''x'', ''y'', ''point'', ''coordinates'']"

definition max_type_chars :: nat where
  "max_type_chars = 500"

text \<open>The kinds of action, the keys of the table \<open>_REQUIRED_KEYS\<close>, and the fields each requires\<close>

datatype kind = Invoke | SetValue | Click | TypeText | Key | Scroll | FocusApp | OpenApp | OpenUrl
  | ClipboardSet | Wait

fun kind_name :: "kind \<Rightarrow> string" where
  "kind_name Invoke = ''invoke''"
| "kind_name SetValue = ''set_value''"
| "kind_name Click = ''click''"
| "kind_name TypeText = ''type''"
| "kind_name Key = ''key''"
| "kind_name Scroll = ''scroll''"
| "kind_name FocusApp = ''focus_app''"
| "kind_name OpenApp = ''open_app''"
| "kind_name OpenUrl = ''open_url''"
| "kind_name ClipboardSet = ''clipboard_set''"
| "kind_name Wait = ''wait''"

definition all_kinds :: "kind list" where
  "all_kinds = [Invoke, SetValue, Click, TypeText, Key, Scroll, FocusApp, OpenApp, OpenUrl,
     ClipboardSet, Wait]"

definition kind_of :: "string \<Rightarrow> kind option" where
  "kind_of s = find (\<lambda>k. kind_name k = s) all_kinds"

fun required_keys :: "kind \<Rightarrow> string list" where
  "required_keys Invoke = [''ref'']"
| "required_keys SetValue = [''ref'', ''value'']"
| "required_keys Click = [''ref'']"
| "required_keys TypeText = [''text'']"
| "required_keys Key = [''chord'']"
| "required_keys Scroll = [''ref'', ''dy'']"
| "required_keys FocusApp = [''app'']"
| "required_keys OpenApp = [''app'']"
| "required_keys OpenUrl = [''url'']"
| "required_keys ClipboardSet = [''text'']"
| "required_keys Wait = [''seconds'']"

datatype field_type = TStr | TBool | TNumber

definition field_types :: "(string \<times> field_type) list" where
  "field_types =
     [(''ref'', TStr), (''value'', TStr), (''text'', TStr), (''chord'', TStr), (''app'', TStr),
      (''url'', TStr), (''button'', TStr), (''double'', TBool), (''dy'', TNumber),
      (''seconds'', TNumber)]"

fun must_name_something :: "kind \<Rightarrow> string list" where
  "must_name_something OpenApp = [''app'']"
| "must_name_something FocusApp = [''app'']"
| "must_name_something OpenUrl = [''url'']"
| "must_name_something _ = []"

section \<open>Checks on the fields of an action\<close>

fun has_type :: "field_type \<Rightarrow> pyval \<Rightarrow> bool" where
  "has_type TStr v \<longleftrightarrow> as_str v \<noteq> None"
| "has_type TBool (PyBool b) \<longleftrightarrow> True"
| "has_type TBool _ \<longleftrightarrow> False"
| "has_type TNumber v \<longleftrightarrow> as_number v \<noteq> None"

fun wanted :: "field_type \<Rightarrow> string" where
  "wanted TStr = ''a str''"
| "wanted TBool = ''a bool''"
| "wanted TNumber = ''a number''"

definition invalid :: "string \<Rightarrow> py_exc" where
  "invalid msg = HandsError ''invalid_action'' msg"

text \<open>The first entry of the table, in its order, that the action carries with another type\<close>

fun check_types_in :: "(string \<times> field_type) list \<Rightarrow> string \<Rightarrow> pydict \<Rightarrow> py_exc option" where
  "check_types_in [] kind action = None"
| "check_types_in ((key, expected) # rest) kind action =
     (case map_of action key of
        None \<Rightarrow> check_types_in rest kind action
      | Some v \<Rightarrow> if has_type expected v then check_types_in rest kind action
                  else Some (invalid (kind @ CHR 0x27 # ''s '' @ py_repr key @ '' must be '' @
                         wanted expected @ '', not '' @ type_name v)))"

definition check_types :: "string \<Rightarrow> pydict \<Rightarrow> py_exc option" where
  "check_types kind action = check_types_in field_types kind action"

fun check_named :: "string list \<Rightarrow> string \<Rightarrow> pydict \<Rightarrow> py_exc option" where
  "check_named [] kind action = None"
| "check_named (key # rest) kind action =
     (if py_strip (get_str action key) = []
      then Some (invalid (kind @ CHR 0x27 # ''s '' @ py_repr key @
             '' must name something -- it is empty or blank''))
      else check_named rest kind action)"

section \<open>Routing\<close>

datatype how = Accessibility | Pixel | PixelType | Input | Shortcut | Os | InBrowser | NoRoute

fun how_name :: "how \<Rightarrow> string" where
  "how_name Accessibility = ''accessibility''"
| "how_name Pixel = ''pixel''"
| "how_name PixelType = ''pixel+type''"
| "how_name Input = ''input''"
| "how_name Shortcut = ''shortcut''"
| "how_name Os = ''os''"
| "how_name InBrowser = ''browser''"
| "how_name NoRoute = ''none''"

record routed =
  rkind :: kind
  rroute :: how
  rcontrol :: "control option"
  rpoint :: "point option"
  rpayload :: pydict

definition routed_step :: "kind \<Rightarrow> how \<Rightarrow> control option \<Rightarrow> point option \<Rightarrow> pydict \<Rightarrow> routed" where
  "routed_step k r c p d = \<lparr> rkind = k, rroute = r, rcontrol = c, rpoint = p, rpayload = d \<rparr>"

definition resolve_control :: "string \<Rightarrow> observation option \<Rightarrow> py_exc + control" where
  "resolve_control r obs =
     (case (case obs of None \<Rightarrow> None | Some ob \<Rightarrow> find (\<lambda>c. ref c = r) (controls ob)) of
        Some c \<Rightarrow> Inr c
      | None \<Rightarrow> Inl (HandsError ''stale_ref''
                 (''ref '' @ py_repr r @ '' is not in the current observation'')))"

definition over_cap :: "string \<Rightarrow> bool" where
  "over_cap s \<longleftrightarrow> max_type_chars < length s"

definition exceeds_ten :: "pydict \<Rightarrow> bool" where
  "exceeds_ten action \<longleftrightarrow>
     (case map_of action ''seconds'' of
        Some v \<Rightarrow> (case as_number v of Some q \<Rightarrow> 10 < q | None \<Rightarrow> False) | None \<Rightarrow> False)"

text \<open>\<open>{k: action[k] for k in keys if k in action}\<close>\<close>

definition pick :: "string list \<Rightarrow> pydict \<Rightarrow> pydict" where
  "pick keys d = concat (map (\<lambda>k. case map_of d k of None \<Rightarrow> [] | Some v \<Rightarrow> [(k, v)]) keys)"

definition keystroke_cap_error :: "nat \<Rightarrow> py_exc" where
  "keystroke_cap_error n = invalid
     (''this control exposes no Value/AXValue pattern, so set_value is delivered as '' @ str_of_nat n @
      '' keystrokes -- over the '' @ str_of_nat max_type_chars @ '' character cap. Shorten it, '' @
      ''or target a field that exposes a value pattern'')"

definition text_cap_error :: py_exc where
  "text_cap_error = invalid
     (''text longer than '' @ str_of_nat max_type_chars @ '' characters -- use set_value on the field'')"

text \<open>The branches on the kind, once the action has passed every check of its shape\<close>

fun route_kind :: "kind \<Rightarrow> pydict \<Rightarrow> observation option \<Rightarrow> py_exc + routed" where
  "route_kind Invoke action obs =
     bindR (resolve_control (get_str action ''ref'') obs) (\<lambda>c. Inr
       (if list_ex (\<lambda>p. p \<in> set (patterns c)) accessibility_invoke_patterns
        then routed_step Invoke Accessibility (Some c) None []
        else routed_step Invoke Pixel (Some c) (Some (center (crect c))) []))"
| "route_kind SetValue action obs =
     bindR (resolve_control (get_str action ''ref'') obs) (\<lambda>c.
       let payload = pick [''value''] action in
       if list_ex (\<lambda>p. p \<in> set (patterns c)) accessibility_value_patterns
       then Inr (routed_step SetValue Accessibility (Some c) None payload)
       else if over_cap (get_str action ''value'')
       then Inl (keystroke_cap_error (length (get_str action ''value'')))
       else Inr (routed_step SetValue PixelType (Some c) (Some (center (crect c))) payload))"
| "route_kind Click action obs =
     bindR (resolve_control (get_str action ''ref'') obs) (\<lambda>c. Inr
       (routed_step Click Pixel (Some c) (Some (center (crect c)))
         (pick [''button'', ''double''] action)))"
| "route_kind TypeText action obs =
     (if over_cap (get_str action ''text'') then Inl text_cap_error
      else Inr (routed_step TypeText Input None None (pick [''text''] action)))"
| "route_kind Key action obs = Inr (routed_step Key Shortcut None None (pick [''chord''] action))"
| "route_kind Scroll action obs =
     (if get_str action ''ref'' = ''window''
      then Inr (routed_step Scroll Pixel None None (pick [''dy''] action))
      else bindR (resolve_control (get_str action ''ref'') obs) (\<lambda>c. Inr
        (routed_step Scroll Pixel (Some c) (Some (center (crect c))) (pick [''dy''] action))))"
| "route_kind FocusApp action obs = Inr (routed_step FocusApp Os None None (pick [''app''] action))"
| "route_kind OpenApp action obs = Inr (routed_step OpenApp Os None None (pick [''app''] action))"
| "route_kind OpenUrl action obs =
     Inr (routed_step OpenUrl InBrowser None None (pick [''url''] action))"
| "route_kind ClipboardSet action obs =
     Inr (routed_step ClipboardSet Os None None (pick [''text''] action))"
| "route_kind Wait action obs = Inr (routed_step Wait NoRoute None None (pick [''seconds''] action))"

definition missing_keys :: "kind \<Rightarrow> pydict \<Rightarrow> string list" where
  "missing_keys k action = filter (\<lambda>key. \<not> has_key action key) (required_keys k)"

definition route_dict :: "pydict \<Rightarrow> observation option \<Rightarrow> py_exc + routed" where
  "route_dict action obs =
    (if list_ex (has_key action) forbidden_keys
     then Inl (invalid ''raw coordinates are not an accepted action shape'')
     else case map_of action ''kind'' of
       Some (PyStr name) \<Rightarrow>
         (case kind_of name of
            None \<Rightarrow> Inl (invalid (''unknown action kind '' @ py_repr name))
          | Some k \<Rightarrow>
              if missing_keys k action \<noteq> []
              then Inl (invalid (name @ '' is missing required key(s): '' @
                     py_repr_list (missing_keys k action)))
              else case check_types name action of
                Some e \<Rightarrow> Inl e
              | None \<Rightarrow>
                 (case check_named (must_name_something k) name action of
                    Some e \<Rightarrow> Inl e
                  | None \<Rightarrow>
                     if k = Wait \<and> exceeds_ten action
                     then Inl (invalid ''wait seconds must be <= 10'')
                     else route_kind k action obs))
     | other \<Rightarrow> Inl (invalid (''an action'' @ CHR 0x27 # ''s '' @ py_repr ''kind'' @
         '' must be a string, not '' @ type_name (case other of None \<Rightarrow> PyNone | Some v \<Rightarrow> v))))"

definition route :: "pyval \<Rightarrow> observation option \<Rightarrow> py_exc + routed" where
  "route action obs =
    (case action of
       PyDict d \<Rightarrow> route_dict d obs
     | v \<Rightarrow> Inl (invalid (''an action must be an object, not '' @ type_name v)))"

section \<open>What routing guarantees\<close>

lemma kind_of_name [simp]: "kind_of (kind_name k) = Some k"
  by (cases k) (simp_all add: kind_of_def all_kinds_def)

lemma kind_of_Some: "kind_of s = Some k \<Longrightarrow> s = kind_name k"
  by (auto simp: kind_of_def find_Some_iff)

lemma check_types_in_None_iff:
  "check_types_in ts name d = None \<longleftrightarrow>
     (\<forall>(key, t) \<in> set ts. \<forall>v. map_of d key = Some v \<longrightarrow> has_type t v)"
  by (induction ts name d rule: check_types_in.induct) (auto split: option.splits)

lemma check_types_field:
  assumes "check_types name d = None" and "(key, t) \<in> set field_types" and "map_of d key = Some v"
  shows "has_type t v"
  using assms unfolding check_types_def check_types_in_None_iff by auto

lemma check_named_None_iff:
  "check_named ks name d = None \<longleftrightarrow> (\<forall>k \<in> set ks. py_strip (get_str d k) \<noteq> [])"
  by (induction ks name d rule: check_named.induct) auto

text \<open>Inversion: what an accepted action satisfies\<close>

lemma route_dictE:
  assumes "route_dict d obs = Inr r"
  obtains k where "map_of d ''kind'' = Some (PyStr (kind_name k))" "missing_keys k d = []"
    "\<forall>key \<in> set forbidden_keys. \<not> has_key d key" "check_types (kind_name k) d = None"
    "check_named (must_name_something k) (kind_name k) d = None"
    "\<not> (k = Wait \<and> exceeds_ten d)" "route_kind k d obs = Inr r"
proof -
  have nf: "\<not> list_ex (has_key d) forbidden_keys"
    using assms by (auto simp: route_dict_def)
  obtain name where name: "map_of d ''kind'' = Some (PyStr name)"
    using assms nf by (auto simp: route_dict_def split: option.splits pyval.splits)
  obtain k where k: "kind_of name = Some k"
    using assms nf name by (auto simp: route_dict_def split: option.splits)
  note step = assms [unfolded route_dict_def, simplified nf name k]
  show thesis
    by (rule that [of k])
      (use step name nf kind_of_Some [OF k] in
        \<open>auto simp: list_ex_iff split: option.splits if_splits\<close>)
qed

lemma routeE:
  assumes "route a obs = Inr r"
  obtains d k where "a = PyDict d" "map_of d ''kind'' = Some (PyStr (kind_name k))"
    "missing_keys k d = []" "\<forall>key \<in> set forbidden_keys. \<not> has_key d key"
    "check_types (kind_name k) d = None"
    "check_named (must_name_something k) (kind_name k) d = None"
    "\<not> (k = Wait \<and> exceeds_ten d)" "route_kind k d obs = Inr r"
proof -
  from assms obtain d where "a = PyDict d" and "route_dict d obs = Inr r"
    by (cases a) (auto simp: route_def)
  with that show thesis by (blast elim: route_dictE)
qed

lemma resolve_control_Inr:
  "resolve_control r obs = Inr c \<longleftrightarrow>
     (\<exists>ob. obs = Some ob \<and> find (\<lambda>c. ref c = r) (controls ob) = Some c)"
  by (auto simp: resolve_control_def split: option.splits)

lemma resolve_controlD:
  assumes "resolve_control r obs = Inr c"
  shows "ref c = r" and "\<exists>ob. obs = Some ob \<and> c \<in> set (controls ob)"
  using assms by (auto simp: resolve_control_Inr find_Some_iff)

lemma routed_step_sel [simp]:
  "rkind (routed_step k r c p d) = k" "rroute (routed_step k r c p d) = r"
  "rcontrol (routed_step k r c p d) = c" "rpoint (routed_step k r c p d) = p"
  "rpayload (routed_step k r c p d) = d"
  by (simp_all add: routed_step_def)

lemma route_kind_control:
  "route_kind k d obs = Inr r \<Longrightarrow> rcontrol r = Some c \<Longrightarrow>
     resolve_control (get_str d ''ref'') obs = Inr c"
  by (cases k) (auto simp: bindR_Inr_iff Let_def split: if_splits)

lemma route_kind_point:
  "route_kind k d obs = Inr r \<Longrightarrow> rpoint r = Some p \<Longrightarrow>
     \<exists>c. rcontrol r = Some c \<and> p = center (crect c)"
  by (cases k) (auto simp: bindR_Inr_iff Let_def split: if_splits)

lemma route_kind_kind: "route_kind k d obs = Inr r \<Longrightarrow> rkind r = k"
  by (cases k) (auto simp: bindR_Inr_iff Let_def split: if_splits)

text \<open>
  The shape a backend call relies on: for each kind, the payload entries it reads and, on the
  routes that aim, a control or a point to aim at.
\<close>

definition text_field :: "routed \<Rightarrow> string \<Rightarrow> bool" where
  "text_field r k \<longleftrightarrow> (case map_of (rpayload r) k of Some (PyStr _) \<Rightarrow> True | _ \<Rightarrow> False)"

definition number_field :: "routed \<Rightarrow> string \<Rightarrow> bool" where
  "number_field r k \<longleftrightarrow>
     (case map_of (rpayload r) k of Some v \<Rightarrow> as_number v \<noteq> None | None \<Rightarrow> False)"

definition aimed :: "routed \<Rightarrow> bool" where
  "aimed r \<longleftrightarrow> (if rroute r = Accessibility then rcontrol r \<noteq> None else rpoint r \<noteq> None)"

definition executable :: "routed \<Rightarrow> bool" where
  "executable r \<longleftrightarrow>
     (case rkind r of
        Invoke \<Rightarrow> aimed r
      | Click \<Rightarrow> aimed r
      | SetValue \<Rightarrow> aimed r \<and> text_field r ''value''
      | TypeText \<Rightarrow> text_field r ''text''
      | ClipboardSet \<Rightarrow> text_field r ''text''
      | Key \<Rightarrow> text_field r ''chord''
      | Scroll \<Rightarrow> number_field r ''dy''
      | FocusApp \<Rightarrow> text_field r ''app''
      | OpenApp \<Rightarrow> text_field r ''app''
      | OpenUrl \<Rightarrow> text_field r ''url''
      | Wait \<Rightarrow> number_field r ''seconds'')"

text \<open>The text a step delivers keystroke by keystroke\<close>

definition typed_text :: "routed \<Rightarrow> string" where
  "typed_text r =
     (if rkind r = TypeText then get_str (rpayload r) ''text''
      else if rkind r = SetValue \<and> rroute r \<noteq> Accessibility
      then get_str (rpayload r) ''value'' else [])"

lemma map_of_pick: "map_of (pick ks d) k = (if k \<in> set ks then map_of d k else None)"
proof (induction ks)
  case Nil
  then show ?case by (simp add: pick_def)
next
  case (Cons a ks)
  then show ?case by (cases "map_of d a") (auto simp: pick_def)
qed

lemma get_str_pick [simp]: "k \<in> set ks \<Longrightarrow> get_str (pick ks d) k = get_str d k"
  by (simp add: get_str_def map_of_pick)

lemma as_str_Some_iff [simp]: "as_str v = Some s \<longleftrightarrow> v = PyStr s"
  by (cases v) auto

lemma str_field:
  assumes "check_types name d = None" and "has_key d k" and "(k, TStr) \<in> set field_types"
  shows "\<exists>s. map_of d k = Some (PyStr s)"
  using assms(2) check_types_field [OF assms(1,3)] by (auto simp: has_key_def)

lemma num_field:
  assumes "check_types name d = None" and "has_key d k" and "(k, TNumber) \<in> set field_types"
  shows "\<exists>v q. map_of d k = Some v \<and> as_number v = Some q"
  using assms(2) check_types_field [OF assms(1,3)] by (auto simp: has_key_def)

lemma field_types_mem:
  "(''value'', TStr) \<in> set field_types" "(''text'', TStr) \<in> set field_types"
  "(''chord'', TStr) \<in> set field_types" "(''app'', TStr) \<in> set field_types"
  "(''url'', TStr) \<in> set field_types" "(''ref'', TStr) \<in> set field_types"
  "(''dy'', TNumber) \<in> set field_types" "(''seconds'', TNumber) \<in> set field_types"
  by (simp_all add: field_types_def)

lemma route_kind_executable:
  assumes has: "missing_keys k d = []" and ty: "check_types name d = None"
    and rk: "route_kind k d obs = Inr r"
  shows "executable r"
proof -
  note fields = str_field [OF ty _ field_types_mem(1)] str_field [OF ty _ field_types_mem(2)]
    str_field [OF ty _ field_types_mem(3)] str_field [OF ty _ field_types_mem(4)]
    str_field [OF ty _ field_types_mem(5)] num_field [OF ty _ field_types_mem(7)]
    num_field [OF ty _ field_types_mem(8)]
  have req: "\<forall>key \<in> set (required_keys k). has_key d key"
    using has by (simp add: missing_keys_def filter_empty_conv)
  show ?thesis
    using rk req
    by (cases k) (auto simp: bindR_Inr_iff Let_def executable_def aimed_def text_field_def
        number_field_def map_of_pick dest: fields split: if_splits)
qed

lemma route_kind_typed:
  "route_kind k d obs = Inr r \<Longrightarrow> length (typed_text r) \<le> max_type_chars"
  by (cases k) (auto simp: bindR_Inr_iff Let_def typed_text_def over_cap_def split: if_splits)

lemma route_executable: "route a obs = Inr r \<Longrightarrow> executable r"
  by (elim routeE) (blast intro: route_kind_executable)

section \<open>Properties of routing\<close>

text \<open>
  A routed step points only where an observed control is: whenever \<^const>\<open>route\<close> accepts an
  action and the routed step carries a point, that point is the centre of a control of the current
  observation, and the control is the one the action names by its ref.
\<close>

theorem routed_point_is_observed:
  assumes "route action obs = Inr r" and "rpoint r = Some p"
  shows "\<exists>d ob c. action = PyDict d \<and> obs = Some ob \<and> c \<in> set (controls ob) \<and>
    ref c = get_str d ''ref'' \<and> rcontrol r = Some c \<and> p = center (crect c)"
proof -
  obtain d k where a: "action = PyDict d" and rk: "route_kind k d obs = Inr r"
    using assms(1) by (rule routeE)
  from route_kind_point [OF rk assms(2)] obtain c
    where c: "rcontrol r = Some c" "p = center (crect c)" by blast
  from route_kind_control [OF rk c(1)] have rc: "resolve_control (get_str d ''ref'') obs = Inr c" .
  from resolve_controlD(2) [OF rc] obtain ob where "obs = Some ob" "c \<in> set (controls ob)" by blast
  with a c resolve_controlD(1) [OF rc] show ?thesis by (intro exI conjI)
qed

theorem routed_point_is_observed_witness:
  "\<exists>r p. route (PyDict [(''kind'', PyStr ''click''), (''ref'', PyStr ''a1'')])
      (Some \<lparr>generation = 1, window = None,
        controls = [\<lparr>ref = ''a1'', role = ''Button'', cname = ''OK'', cvalue = [],
          crect = \<lparr>rx = 10, ry = 20, rw = 31, rh = 40\<rparr>, capp = ''Mail'', patterns = [], enabled = True\<rparr>],
        otext = [], screenshot_png = None, truncated = False\<rparr>) = Inr r \<and>
      rpoint r = Some p \<and> p = (25, 40)"
proof -
  let ?c = "\<lparr>ref = ''a1'', role = ''Button'', cname = ''OK'', cvalue = [],
    crect = \<lparr>rx = 10, ry = 20, rw = 31, rh = 40\<rparr>, capp = ''Mail'', patterns = [], enabled = True\<rparr>"
  let ?ob = "Some \<lparr>generation = 1, window = None, controls = [?c], otext = [],
    screenshot_png = None, truncated = False\<rparr>"
  let ?a = "PyDict [(''kind'', PyStr ''click''), (''ref'', PyStr ''a1'')]"
  let ?r = "routed_step Click Pixel (Some ?c) (Some (25, 40)) []"
  have r: "route ?a ?ob = Inr ?r" by code_simp
  have p: "rpoint ?r = Some (25, 40)" by simp
  from routed_point_is_observed [OF r p] have "rcontrol ?r = Some ?c" by simp
  with r p show ?thesis by blast
qed





end
