(* ===== verification/Py_Url.thy ===== *)
theory Py_Url
  imports Py_Time
begin

text \<open>
  \<open>urllib.parse.urlsplit(url).hostname\<close> with the \<open>ValueError\<close>s it raises (CPython 3.11, including
  the \<open>ipaddress\<close> check of a bracketed host). Below code point 256 the NFKC check of \<open>urlsplit\<close>
  never fails, so it is left out.
\<close>

section \<open>Partitions of a text\<close>

definition before_char :: "char \<Rightarrow> string \<Rightarrow> string" where
  "before_char c s = takeWhile (\<lambda>x. x \<noteq> c) s"

definition after_char :: "char \<Rightarrow> string \<Rightarrow> string" where
  "after_char c s = tl (dropWhile (\<lambda>x. x \<noteq> c) s)"

text \<open>the part after the last occurrence, \<open>s.rpartition(c)[2]\<close>\<close>

definition after_last :: "char \<Rightarrow> string \<Rightarrow> string" where
  "after_last c s = rev (takeWhile (\<lambda>x. x \<noteq> c) (rev s))"

section \<open>Bracketed hosts\<close>

definition is_hex :: "char \<Rightarrow> bool" where
  "is_hex c = (let n = code_of c in (48 \<le> n \<and> n \<le> 57) \<or> (65 \<le> n \<and> n \<le> 70) \<or> (97 \<le> n \<and> n \<le> 102))"

definition is_alpha :: "char \<Rightarrow> bool" where
  "is_alpha c = (let n = code_of c in (65 \<le> n \<and> n \<le> 90) \<or> (97 \<le> n \<and> n \<le> 122))"

definition octet_ok :: "string \<Rightarrow> bool" where
  "octet_ok s \<longleftrightarrow> s \<noteq> [] \<and> list_all is_digit s \<and> length s \<le> 3 \<and>
     (length s = 1 \<or> hd s \<noteq> CHR ''0'') \<and> digits_value 0 s \<le> 255"

definition ipv4_ok :: "string \<Rightarrow> bool" where
  "ipv4_ok s \<longleftrightarrow> (let os = split_on (CHR ''.'') s in length os = 4 \<and> list_all octet_ok os)"

definition hextet_ok :: "string \<Rightarrow> bool" where
  "hextet_ok s \<longleftrightarrow> s \<noteq> [] \<and> list_all is_hex s \<and> length s \<le> 4"

text \<open>The positions of the empty parts strictly inside the list\<close>

definition inner_gaps :: "string list \<Rightarrow> nat list" where
  "inner_gaps ps = filter (\<lambda>i. ps ! i = []) [1..<length ps - 1]"

definition ipv6_parts_ok :: "string list \<Rightarrow> bool" where
  "ipv6_parts_ok ps \<longleftrightarrow>
     3 \<le> length ps \<and> length ps \<le> 9 \<and>
     (case inner_gaps ps of
        [] \<Rightarrow> length ps = 8 \<and> list_all hextet_ok ps
      | [i] \<Rightarrow>
          (let lo = length ps - i - 1;
               hi' = (if hd ps = [] then i - 1 else i);
               lo' = (if last ps = [] then lo - 1 else lo)
           in (hd ps = [] \<longrightarrow> hi' = 0) \<and> (last ps = [] \<longrightarrow> lo' = 0) \<and> hi' + lo' < 8 \<and>
              list_all hextet_ok (take hi' ps) \<and> list_all hextet_ok (drop (length ps - lo') ps))
      | _ \<Rightarrow> False)"

definition ipv6_ok :: "string \<Rightarrow> bool" where
  "ipv6_ok s \<longleftrightarrow>
     (let addr = before_char (CHR ''%'') s; zone = after_char (CHR ''%'') s;
          ps = split_on (CHR '':'') addr
      in CHR ''/'' \<notin> set s \<and>
         (CHR ''%'' \<in> set s \<longrightarrow> zone \<noteq> [] \<and> CHR ''%'' \<notin> set zone) \<and>
         (if CHR ''.'' \<in> set (last ps)
          then 3 \<le> length ps \<and> ipv4_ok (last ps) \<and> ipv6_parts_ok (butlast ps @ [''0'', ''0''])
          else ipv6_parts_ok ps))"

definition ipvfuture_ok :: "string \<Rightarrow> bool" where
  "ipvfuture_ok s \<longleftrightarrow>
     (let hex = takeWhile is_hex (tl s); rest = drop (length hex) (tl s)
      in hex \<noteq> [] \<and> 2 \<le> length rest \<and> hd rest = CHR ''.'' \<and> newline \<notin> set (tl rest))"

definition bracket_ok :: "string \<Rightarrow> bool" where
  "bracket_ok s \<longleftrightarrow> (if starts_with s ''v'' then ipvfuture_ok s else ipv6_ok s)"

section \<open>The host name of a URL\<close>

definition scheme_char :: "char \<Rightarrow> bool" where
  "scheme_char c \<longleftrightarrow> is_alpha c \<or> is_digit c \<or> c \<in> {CHR ''+'', CHR ''-'', CHR ''.''}"

definition url_clean :: "string \<Rightarrow> string" where
  "url_clean s = filter (\<lambda>c. code_of c \<notin> {9, 10, 13}) (dropWhile (\<lambda>c. code_of c \<le> 32) s)"

definition drop_scheme :: "string \<Rightarrow> string" where
  "drop_scheme s =
     (let sch = before_char (CHR '':'') s
      in if CHR '':'' \<in> set s \<and> sch \<noteq> [] \<and> is_alpha (hd sch) \<and> list_all scheme_char sch
         then after_char (CHR '':'') s else s)"

definition netloc_of :: "string \<Rightarrow> string" where
  "netloc_of s =
     (let r = drop_scheme (url_clean s)
      in if starts_with r ''//''
         then takeWhile (\<lambda>c. c \<notin> {CHR ''/'', CHR ''?'', CHR ''#''}) (drop 2 r) else [])"

definition host_of_netloc :: "string \<Rightarrow> string option" where
  "host_of_netloc nl =
     (let info = after_last (CHR ''@'') nl;
          host = (if CHR ''['' \<in> set info then before_char (CHR '']'') (after_char (CHR ''['') info)
                  else before_char (CHR '':'') info)
      in if host = [] then None
         else Some (py_lower (before_char (CHR ''%'') host) @ drop (length (before_char (CHR ''%'') host)) host))"

text \<open>\<open>urlsplit(url).hostname\<close>, or the \<open>ValueError\<close> raised\<close>

definition url_hostname :: "string \<Rightarrow> py_exc + string option" where
  "url_hostname url =
     (let nl = netloc_of url;
          inner = before_char (CHR '']'') (after_char (CHR ''['') nl)
      in if (CHR ''['' \<in> set nl) \<noteq> (CHR '']'' \<in> set nl) then Inl (OtherError ''Invalid IPv6 URL'')
         else if CHR ''['' \<in> set nl \<and> \<not> bracket_ok inner
         then Inl (OtherError (py_repr inner @ '' does not appear to be an IPv4 or IPv6 address''))
         else Inr (host_of_netloc nl))"

end
