(* ===== verification/Hands_Policy.thy ===== *)
theory Hands_Policy
  imports Hands_Routing Py_Url
begin

text \<open>
  \<open>hands/src/firekeep_hands/policy.py\<close>: which protected classes a step raises, and whether the step
  is allowed or needs a permit. An action is the JSON object \<^const>\<open>route\<close> has accepted, so the
  fields read here are texts. \<open>urlsplit\<close> raises on a malformed bracketed host and the code lets that
  exception through, so the operations return \<^typ>\<open>py_exc + 'a\<close>. An optional list of task hosts
  that is absent is the empty list, which the code treats alike; the clock reading \<open>now\<close> is a
  number of seconds on the scale of \<^const>\<open>parse_utc\<close>.
\<close>

section \<open>Tables\<close>

datatype cls = Send | Money | Destroy | Credential | Install | Boundary

definition CLASSES :: "cls list" where
  "CLASSES = [Send, Money, Destroy, Credential, Install, Boundary]"

fun cls_name :: "cls \<Rightarrow> string" where
  "cls_name Send = ''send''"
| "cls_name Money = ''money''"
| "cls_name Destroy = ''destroy''"
| "cls_name Credential = ''credential''"
| "cls_name Install = ''install''"
| "cls_name Boundary = ''boundary''"

definition send_words :: "string list" where
  "send_words = [''send'', ''post'', ''publish'', ''submit'', ''reply'', ''tweet'', ''share'']"

definition money_words :: "string list" where
  "money_words = [''pay'', ''buy'', ''purchase'', ''checkout'', ''transfer'', ''donate'',
     ''place order'', ''order now'', ''confirm payment'', ''subscribe'']"

text \<open>\<open>empty (the )?(trash|recycle bin)\<close> is written out in the order a backtracking match tries it\<close>

definition destroy_words :: "string list" where
  "destroy_words = [''delete'', ''remove'', ''erase'', ''format'', ''uninstall'',
     ''empty the trash'', ''empty the recycle bin'', ''empty trash'', ''empty recycle bin'',
     ''discard'', ''shred'', ''factory reset'', ''permanently'']"

definition credential_words :: "string list" where
  "credential_words = [''password'', ''passcode'', ''passphrase'', ''otp'', ''2fa'',
     ''verification code'', ''secret'', ''api key'', ''token'']"

definition install_words :: "string list" where
  "install_words = [''install'', ''run as administrator'', ''allow access'', ''grant'',
     ''enable extension'', ''add extension'', ''trust this'']"

text \<open>\<open>^[A-Za-z0-9_\-]{32,}$\<close>: the dollar sign also matches before one final newline\<close>

definition token_char :: "char \<Rightarrow> bool" where
  "token_char c \<longleftrightarrow> is_alpha c \<or> is_digit c \<or> c = CHR ''_'' \<or> c = CHR ''-''"

definition secret_token :: "string \<Rightarrow> bool" where
  "secret_token s \<longleftrightarrow>
     (let t = (if s \<noteq> [] \<and> last s = newline then butlast s else s)
      in list_all token_char t \<and> 32 \<le> length t)"

definition window_scoped :: "kind list" where
  "window_scoped = [Click, Invoke, SetValue, TypeText, Key, Scroll]"

definition browser_app :: string where
  "browser_app = ''browser''"

definition send_chords :: "string list" where
  "send_chords = [''ctrl+enter'', ''cmd+enter'', ''cmd+shift+d'']"

definition destroy_chords :: "string list" where
  "destroy_chords = [''delete'', ''shift+delete'', ''cmd+backspace'', ''cmd+delete'']"

definition destroy_apps :: "string list" where
  "destroy_apps = [''explorer'', ''finder'']"

definition credential_roles :: "string list" where
  "credential_roles = [''PasswordBox'', ''AXSecureTextField'']"

definition install_extensions :: "string list" where
  "install_extensions = [''.msi'', ''.exe'', ''.pkg'', ''.dmg'', ''.app'']"

datatype verdict = Allow | Permit

record decision =
  dverdict :: verdict
  dclasses :: "cls list"
  dreason :: string

section \<open>What a step crosses\<close>

definition action_kind :: "pydict \<Rightarrow> kind option" where
  "action_kind action = kind_of (get_str action ''kind'')"

definition control_text :: "control option \<Rightarrow> string" where
  "control_text c = (case c of None \<Rightarrow> [] | Some c \<Rightarrow> cname c @ '' '' @ cvalue c)"

definition declared_names :: "policy \<Rightarrow> string list \<Rightarrow> bool \<Rightarrow> string list" where
  "declared_names p task_apps browser_step =
     (let names = task_apps @ apps p
      in if browser_step then names else filter (\<lambda>n. py_lower n \<noteq> browser_app) names)"

definition app_declared :: "string \<Rightarrow> string list \<Rightarrow> bool" where
  "app_declared app declared \<longleftrightarrow> app = [] \<or> named app declared"

definition window_app :: "window_info option \<Rightarrow> string" where
  "window_app w = (case w of None \<Rightarrow> [] | Some w \<Rightarrow> wapp w)"

definition control_app :: "control option \<Rightarrow> string" where
  "control_app c = (case c of None \<Rightarrow> [] | Some c \<Rightarrow> capp c)"

definition add_name :: "string list \<Rightarrow> string \<Rightarrow> string list" where
  "add_name names app = (if app \<noteq> [] \<and> \<not> named app names then names @ [app] else names)"

definition target_apps :: "control option \<Rightarrow> window_info option \<Rightarrow> string list" where
  "target_apps c w = foldl add_name [] [control_app c, window_app w]"

definition host_of :: "string \<Rightarrow> py_exc + string" where
  \<comment> \<open>\<open>(urlsplit(url).hostname or "").lower()\<close>\<close>
  "host_of url = bindR (url_hostname url) (\<lambda>h. Inr (py_lower (case h of None \<Rightarrow> [] | Some h \<Rightarrow> h)))"

definition domain_covers :: "string \<Rightarrow> string \<Rightarrow> bool" where
  "domain_covers d host \<longleftrightarrow> host = py_lower d \<or> ends_with host (CHR ''.'' # py_lower d)"

definition host_allowed :: "policy \<Rightarrow> string \<Rightarrow> py_exc + bool" where
  "host_allowed p url = bindR (host_of url) (\<lambda>host. Inr (list_ex (\<lambda>d. domain_covers d host) (domains p)))"

definition url_target :: "pydict \<Rightarrow> string option \<Rightarrow> string" where
  \<comment> \<open>\<open>action.get("url") or url\<close>, where an absent one is the empty text\<close>
  "url_target action url =
     (if get_str action ''url'' \<noteq> [] then get_str action ''url''
      else case url of None \<Rightarrow> [] | Some u \<Rightarrow> u)"

definition boundary_apps ::
  "pydict \<Rightarrow> control option \<Rightarrow> window_info option \<Rightarrow> string option \<Rightarrow> policy \<Rightarrow> string list \<Rightarrow>
   string list \<Rightarrow> bool \<Rightarrow> py_exc + string list" where
  "boundary_apps action c w url p task_apps task_hosts browser_step =
    (let declared = declared_names p task_apps browser_step
     in case action_kind action of
       Some OpenUrl \<Rightarrow>
         (let target = url_target action url
          in if target = [] then Inr []
             else bindR (host_of target) (\<lambda>host.
               bindR (host_allowed p target) (\<lambda>ok.
                 if ok \<or> named host task_hosts then Inr []
                 else Inr [if host = [] then target else host])))
     | Some k \<Rightarrow>
         if k = OpenApp \<or> k = FocusApp
         then (let app = get_str action ''app''
               in if py_strip app = [] then Inr [app]
                  else if app_declared app declared then Inr [] else Inr [app])
         else if k \<in> set window_scoped
         then Inr (filter (\<lambda>app. \<not> app_declared app declared) (target_apps c w))
         else Inr []
     | None \<Rightarrow> Inr [])"

section \<open>Classes and the decision\<close>

definition name_and_title :: "control option \<Rightarrow> window_info option \<Rightarrow> string" where
  "name_and_title c w =
     py_join '' '' (filter (\<lambda>t. t \<noteq> []) [control_text c, case w of None \<Rightarrow> [] | Some w \<Rightarrow> wtitle w])"

definition chord_of :: "pydict \<Rightarrow> string" where
  "chord_of action = py_lower (get_str action ''chord'')"

definition send_reason :: "kind option \<Rightarrow> pydict \<Rightarrow> control option \<Rightarrow> string option" where
  "send_reason k action c =
     (if k = Some Invoke \<or> k = Some Click then search_words send_words (control_text c)
      else if k = Some Key \<and> chord_of action \<in> set send_chords then Some (chord_of action)
      else None)"

definition money_reason :: "control option \<Rightarrow> window_info option \<Rightarrow> string option" where
  "money_reason c w = search_words money_words (name_and_title c w)"

definition destroy_reason ::
  "kind option \<Rightarrow> pydict \<Rightarrow> control option \<Rightarrow> window_info option \<Rightarrow> string option" where
  "destroy_reason k action c w =
     (case search_words destroy_words (name_and_title c w) of
        Some m \<Rightarrow> Some m
      | None \<Rightarrow>
          if k = Some Key \<and> chord_of action \<in> set destroy_chords \<and>
             py_lower (window_app w) \<in> set destroy_apps
          then Some (chord_of action) else None)"

definition credential_reason :: "kind option \<Rightarrow> pydict \<Rightarrow> control option \<Rightarrow> string option" where
  "credential_reason k action c =
     (if k = Some TypeText \<or> k = Some SetValue
      then (case c of
              Some ctl \<Rightarrow> if role ctl \<in> set credential_roles then Some (''role='' @ role ctl)
                          else search_words credential_words (control_text c)
            | None \<Rightarrow> search_words credential_words (control_text c))
      else if k = Some ClipboardSet \<and> secret_token (get_str action ''text'')
      then Some ''clipboard token'' else None)"

definition install_reason ::
  "kind option \<Rightarrow> pydict \<Rightarrow> control option \<Rightarrow> window_info option \<Rightarrow> policy \<Rightarrow> string option" where
  "install_reason k action c w p =
     (case search_words install_words (name_and_title c w) of
        Some m \<Rightarrow> Some m
      | None \<Rightarrow>
          if k = Some OpenApp \<and>
             list_ex (ends_with (py_lower (get_str action ''app''))) install_extensions \<and>
             get_str action ''app'' \<notin> set (apps p)
          then Some (get_str action ''app'') else None)"

definition entry :: "cls \<Rightarrow> string option \<Rightarrow> (cls \<times> string) list" where
  "entry c r = (case r of None \<Rightarrow> [] | Some t \<Rightarrow> [(c, t)])"

definition classify_with_reasons ::
  "pydict \<Rightarrow> control option \<Rightarrow> window_info option \<Rightarrow> string option \<Rightarrow> policy \<Rightarrow> string list \<Rightarrow>
   string list \<Rightarrow> bool \<Rightarrow> py_exc + (cls \<times> string) list" where
  "classify_with_reasons action c w url p task_apps task_hosts browser_step =
    (let k = action_kind action
     in bindR (boundary_apps action c w url p task_apps task_hosts browser_step) (\<lambda>crossed. Inr
       (entry Send (send_reason k action c) @ entry Money (money_reason c w) @
        entry Destroy (destroy_reason k action c w) @ entry Credential (credential_reason k action c) @
        entry Install (install_reason k action c w p) @
        entry Boundary (case crossed of [] \<Rightarrow> None | x # _ \<Rightarrow> Some x))))"

definition raised :: "(cls \<times> string) list \<Rightarrow> cls list" where
  "raised reasons = filter (\<lambda>k. map_of reasons k \<noteq> None) CLASSES"

definition classify ::
  "pydict \<Rightarrow> control option \<Rightarrow> window_info option \<Rightarrow> string option \<Rightarrow> policy \<Rightarrow> string list \<Rightarrow>
   string list \<Rightarrow> bool \<Rightarrow> py_exc + cls list" where
  "classify action c w url p task_apps task_hosts browser_step =
     bindR (classify_with_reasons action c w url p task_apps task_hosts browser_step)
       (\<lambda>reasons. Inr (raised reasons))"

definition is_remembered ::
  "remembered \<Rightarrow> cls \<Rightarrow> control option \<Rightarrow> window_info option \<Rightarrow> string option \<Rightarrow> rat \<Rightarrow> bool" where
  "is_remembered e k c w url now \<longleftrightarrow>
     rcls e = cls_name k \<and>
     (rapp e = ''*'' \<or> (case w of None \<Rightarrow> False | Some w \<Rightarrow> rapp e = wapp w)) \<and>
     (case parse_utc (runtil e) of None \<Rightarrow> False | Some t \<Rightarrow> now < of_int t) \<and>
     list_ex (\<lambda>h. h \<noteq> [] \<and> occurs_in (py_lower (rmatch e)) (py_lower h))
       [case c of None \<Rightarrow> [] | Some c \<Rightarrow> cname c, case url of None \<Rightarrow> [] | Some u \<Rightarrow> u]"

definition still_asked ::
  "policy \<Rightarrow> control option \<Rightarrow> window_info option \<Rightarrow> string option \<Rightarrow> rat \<Rightarrow> cls \<Rightarrow> bool" where
  "still_asked p c w url now k \<longleftrightarrow> \<not> list_ex (\<lambda>e. is_remembered e k c w url now) (remembereds p)"

definition decide ::
  "pydict \<Rightarrow> control option \<Rightarrow> window_info option \<Rightarrow> string option \<Rightarrow> policy \<Rightarrow> string list \<Rightarrow>
   rat \<Rightarrow> string list \<Rightarrow> bool \<Rightarrow> py_exc + decision" where
  "decide action c w url p task_apps now task_hosts browser_step =
     bindR (classify_with_reasons action c w url p task_apps task_hosts browser_step) (\<lambda>reasons.
       let remaining = filter (still_asked p c w url now) (raised reasons)
       in Inr (case remaining of
            [] \<Rightarrow> \<lparr>dverdict = Allow, dclasses = [], dreason = []\<rparr>
          | k # _ \<Rightarrow> \<lparr>dverdict = Permit, dclasses = remaining,
                      dreason = cls_name k @ '': '' @ the (map_of reasons k)\<rparr>))"

definition remember :: "policy \<Rightarrow> string \<Rightarrow> string \<Rightarrow> string \<Rightarrow> int \<Rightarrow> rat \<Rightarrow> py_exc + policy" where
  "remember p k app m days now =
     (let t = \<lfloor>now + of_int (days * 86400)\<rfloor>
      in if t < 0 \<or> end_of_time \<le> t then Inl (OtherError ''date value out of range'')
         else Inr (p\<lparr>remembereds := remembereds p @
                [\<lparr>rcls = k, rapp = app, rmatch = m, runtil = format_utc t\<rparr>]\<rparr>))"

section \<open>Lemmas\<close>

lemma cls_name_inject [simp]: "cls_name j = cls_name k \<longleftrightarrow> j = k"
  by (cases j; cases k) simp_all

lemma set_CLASSES [simp]: "k \<in> set CLASSES"
  by (cases k) (simp_all add: CLASSES_def)

lemma raised_iff [simp]: "k \<in> set (raised reasons) \<longleftrightarrow> map_of reasons k \<noteq> None"
  by (simp add: raised_def)

lemma host_allowed_iff:
  "host_allowed p url = Inr b \<longleftrightarrow> (\<exists>host. host_of url = Inr host \<and>
     b = (\<exists>d \<in> set (domains p). domain_covers d host))"
  by (auto simp: host_allowed_def bindR_Inr_iff list_ex_iff)

text \<open>The text each class is raised for\<close>

fun reason_for :: "cls \<Rightarrow> kind option \<Rightarrow> pydict \<Rightarrow> control option \<Rightarrow> window_info option \<Rightarrow> policy \<Rightarrow>
    string list \<Rightarrow> string option" where
  "reason_for Send k a c w p crossed = send_reason k a c"
| "reason_for Money k a c w p crossed = money_reason c w"
| "reason_for Destroy k a c w p crossed = destroy_reason k a c w"
| "reason_for Credential k a c w p crossed = credential_reason k a c"
| "reason_for Install k a c w p crossed = install_reason k a c w p"
| "reason_for Boundary k a c w p crossed = (case crossed of [] \<Rightarrow> None | x # _ \<Rightarrow> Some x)"

lemma map_of_entries:
  "map_of (entry Send r1 @ entry Money r2 @ entry Destroy r3 @ entry Credential r4 @ entry Install r5 @
     entry Boundary r6) k =
   (case k of Send \<Rightarrow> r1 | Money \<Rightarrow> r2 | Destroy \<Rightarrow> r3 | Credential \<Rightarrow> r4 | Install \<Rightarrow> r5 | Boundary \<Rightarrow> r6)"
  by (cases k) (auto simp: entry_def map_add_def split: option.splits)

lemma classify_with_reasonsE:
  assumes "classify_with_reasons a c w url p ta hs bs = Inr rs"
  obtains crossed where "boundary_apps a c w url p ta hs bs = Inr crossed"
    "\<And>k. map_of rs k = reason_for k (action_kind a) a c w p crossed"
proof -
  from assms obtain crossed where b: "boundary_apps a c w url p ta hs bs = Inr crossed"
    and rs: "rs = entry Send (send_reason (action_kind a) a c) @ entry Money (money_reason c w) @
        entry Destroy (destroy_reason (action_kind a) a c w) @
        entry Credential (credential_reason (action_kind a) a c) @
        entry Install (install_reason (action_kind a) a c w p) @
        entry Boundary (case crossed of [] \<Rightarrow> None | x # _ \<Rightarrow> Some x)"
    by (auto simp: classify_with_reasons_def bindR_Inr_iff Let_def)
  show thesis
  proof (rule that [OF b])
    show "map_of rs k = reason_for k (action_kind a) a c w p crossed" for k
      unfolding rs map_of_entries by (cases k) simp_all
  qed
qed

lemma classify_with_reasons_ok:
  "boundary_apps a c w url p ta hs bs = Inr crossed \<Longrightarrow>
     \<exists>rs. classify_with_reasons a c w url p ta hs bs = Inr rs \<and>
       (\<forall>k. map_of rs k = reason_for k (action_kind a) a c w p crossed)"
  by (cases "classify_with_reasons a c w url p ta hs bs")
    (fastforce simp: classify_with_reasons_def Let_def elim: classify_with_reasonsE)+

text \<open>What the decision asks for: the classes raised and not remembered\<close>

lemma decideE:
  assumes "decide a c w url p ta now hs bs = Inr d"
  obtains crossed where "boundary_apps a c w url p ta hs bs = Inr crossed"
    "dclasses d = filter (\<lambda>k. reason_for k (action_kind a) a c w p crossed \<noteq> None \<and>
       still_asked p c w url now k) CLASSES"
    "dverdict d = Allow \<longleftrightarrow> dclasses d = []"
proof -
  from assms obtain rs where rs: "classify_with_reasons a c w url p ta hs bs = Inr rs"
    and d: "d = (case filter (still_asked p c w url now) (raised rs) of
            [] \<Rightarrow> \<lparr>dverdict = Allow, dclasses = [], dreason = []\<rparr>
          | k # _ \<Rightarrow> \<lparr>dverdict = Permit, dclasses = filter (still_asked p c w url now) (raised rs),
                      dreason = cls_name k @ '': '' @ the (map_of rs k)\<rparr>)"
    by (auto simp: decide_def bindR_Inr_iff Let_def)
  from rs obtain crossed where b: "boundary_apps a c w url p ta hs bs = Inr crossed"
    and m: "\<And>k. map_of rs k = reason_for k (action_kind a) a c w p crossed"
    by (rule classify_with_reasonsE) blast
  have "dclasses d = filter (still_asked p c w url now) (raised rs)"
    unfolding d by (simp split: list.split)
  moreover have "dverdict d = Allow \<longleftrightarrow> filter (still_asked p c w url now) (raised rs) = []"
    unfolding d by (simp split: list.split)
  ultimately show thesis
    using that [OF b] by (auto simp: raised_def m conj_commute)
qed

lemma decide_ok:
  assumes "boundary_apps a c w url p ta hs bs = Inr crossed"
  shows "\<exists>d. decide a c w url p ta now hs bs = Inr d"
  using classify_with_reasons_ok [OF assms] by (auto simp: decide_def Let_def)

lemma decide_classes:
  assumes "decide a c w url p ta now hs bs = Inr d"
    and "boundary_apps a c w url p ta hs bs = Inr crossed"
  shows "k \<in> set (dclasses d) \<longleftrightarrow>
    reason_for k (action_kind a) a c w p crossed \<noteq> None \<and> still_asked p c w url now k"
  using assms by (elim decideE) simp

lemma declared_names_empty: "set (declared_names empty_policy ta bs) \<subseteq> set (declared_names p ta bs)"
  by (auto simp: declared_names_def empty_policy_def Let_def)

lemma app_declared_mono: "app_declared app ns \<Longrightarrow> set ns \<subseteq> set ms \<Longrightarrow> app_declared app ms"
  by (auto simp: app_declared_def dest: named_mono)

text \<open>\<^const>\<open>boundary_apps\<close> by group of kinds\<close>

lemma boundary_open_url:
  "action_kind a = Some OpenUrl \<Longrightarrow> boundary_apps a c w url p ta hs bs =
     (if url_target a url = [] then Inr []
      else bindR (host_of (url_target a url)) (\<lambda>host.
        bindR (host_allowed p (url_target a url)) (\<lambda>ok.
          if ok \<or> named host hs then Inr []
          else Inr [if host = [] then url_target a url else host])))"
  by (simp add: boundary_apps_def Let_def)

lemma boundary_app_named:
  "action_kind a = Some OpenApp \<or> action_kind a = Some FocusApp \<Longrightarrow>
     boundary_apps a c w url p ta hs bs =
       (if py_strip (get_str a ''app'') \<noteq> [] \<and>
           app_declared (get_str a ''app'') (declared_names p ta bs)
        then Inr [] else Inr [get_str a ''app''])"
  by (elim disjE) (simp_all add: boundary_apps_def Let_def)

lemma boundary_window:
  "action_kind a = Some k \<Longrightarrow> k \<in> set window_scoped \<Longrightarrow> boundary_apps a c w url p ta hs bs =
     Inr (filter (\<lambda>app. \<not> app_declared app (declared_names p ta bs)) (target_apps c w))"
  by (auto simp: boundary_apps_def Let_def window_scoped_def)

lemma boundary_none:
  "action_kind a \<in> {None, Some Wait, Some ClipboardSet} \<Longrightarrow>
     boundary_apps a c w url p ta hs bs = Inr []"
  by (auto simp: boundary_apps_def Let_def window_scoped_def)

lemma kind_groups:
  obtains "action_kind a = Some OpenUrl" | "action_kind a = Some OpenApp \<or> action_kind a = Some FocusApp"
  | k where "action_kind a = Some k" "k \<in> set window_scoped"
  | "action_kind a \<in> {None, Some Wait, Some ClipboardSet}"
proof (cases "action_kind a")
  case (Some k)
  then show thesis using that by (cases k) (auto simp: window_scoped_def)
qed (use that in simp)

lemma boundary_apps_empty_policy:
  assumes "boundary_apps a c w url p ta hs bs = Inr crossed"
  shows "\<exists>crossed0. boundary_apps a c w url empty_policy ta hs bs = Inr crossed0 \<and>
    (crossed \<noteq> [] \<longrightarrow> crossed0 \<noteq> [])"
proof -
  have mono: "app_declared app (declared_names empty_policy ta bs) \<Longrightarrow> app_declared app (declared_names p ta bs)"
    for app by (rule app_declared_mono [OF _ declared_names_empty])
  show ?thesis
  proof (cases rule: kind_groups [of a])
    case 1
    then show ?thesis
      using assms
      by (cases "host_of (url_target a url)")
        (simp_all add: boundary_open_url host_allowed_def empty_policy_def split: if_splits)
  next
    case 2
    with assms mono show ?thesis
      by (auto simp: boundary_app_named split: if_splits)
  next
    case (3 k)
    have sub: "set (filter (\<lambda>app. \<not> app_declared app (declared_names p ta bs)) (target_apps c w)) \<subseteq>
        set (filter (\<lambda>app. \<not> app_declared app (declared_names empty_policy ta bs)) (target_apps c w))"
      using mono by auto
    show ?thesis
      using assms sub unfolding boundary_window [OF 3] by (metis Inr_inject set_empty subset_empty)
  next
    case 4
    with assms show ?thesis by (simp add: boundary_none)
  qed
qed

lemma target_apps_mem:
  assumes "app = control_app c \<or> app = window_app w" and "app \<noteq> []"
  shows "\<exists>x \<in> set (target_apps c w). py_lower x = py_lower app \<and> x \<noteq> []"
  using assms by (auto simp: target_apps_def add_name_def named_def)

lemma app_declared_cong: "py_lower x = py_lower y \<Longrightarrow> app_declared x ns = app_declared y ns"
  by (auto simp: app_declared_def named_def) (metis py_lower_eq_Nil)+

lemma boundary_crossing:
  assumes k: "action_kind a = Some k" "k \<in> set window_scoped"
    and app: "app = control_app c \<or> app = window_app w" "app \<noteq> []"
    and out: "\<not> app_declared app (declared_names p ta bs)"
  shows "\<exists>x xs. boundary_apps a c w url p ta hs bs = Inr (x # xs)"
proof -
  obtain x where "x \<in> set (target_apps c w)" "py_lower x = py_lower app"
    using target_apps_mem [OF app] by blast
  with out have "filter (\<lambda>app. \<not> app_declared app (declared_names p ta bs)) (target_apps c w) \<noteq> []"
    using app_declared_cong [of x app] by (auto simp: filter_empty_conv)
  moreover have "boundary_apps a c w url p ta hs bs =
      Inr (filter (\<lambda>app. \<not> app_declared app (declared_names p ta bs)) (target_apps c w))"
    using k by (rule boundary_window)
  ultimately show ?thesis by (metis neq_Nil_conv)
qed

lemma named_declared:
  "named app (declared_names p ta bs) \<Longrightarrow>
     named app (ta @ apps p) \<and> (bs \<or> py_lower app \<noteq> browser_app)"
  by (auto simp: declared_names_def Let_def named_iff split: if_splits)

section \<open>Properties of the policy\<close>

text \<open>A window, a control in it and the steps the witnesses below are about\<close>

definition example_window :: window_info where
  "example_window = \<lparr>wapp = ''Mail'', wtitle = ''Inbox'', wpid = 7,
     wrect = \<lparr>rx = 0, ry = 0, rw = 80, rh = 60\<rparr>, elevated = False\<rparr>"

definition example_control :: control where
  "example_control = \<lparr>ref = ''a1'', role = ''Button'', cname = ''Send now'', cvalue = [],
     crect = \<lparr>rx = 10, ry = 20, rw = 30, rh = 40\<rparr>, capp = ''Mail'', patterns = [], enabled = True\<rparr>"

definition example_click :: pydict where
  "example_click = [(''kind'', PyStr ''click''), (''ref'', PyStr ''a1'')]"

definition example_type :: pydict where
  "example_type = [(''kind'', PyStr ''type''), (''text'', PyStr ''hi'')]"

definition example_visit :: pydict where
  "example_visit = [(''kind'', PyStr ''open_url''), (''url'', PyStr ''https://a.ex.com/p'')]"

definition example_policy :: policy where
  "example_policy = \<lparr>apps = [''mail''], domains = [''ex.com''], remembereds = []\<rparr>"

text \<open>
  The allow-list can only remove questions, never add one: whatever a policy answers, the empty
  policy answers too, raises at least the same classes, and allows the step only if the policy does.
\<close>

theorem policy_only_relaxes:
  assumes "decide a c w url p ta now hs bs = Inr d"
  shows "\<exists>d0. decide a c w url empty_policy ta now hs bs = Inr d0 \<and>
    set (dclasses d) \<subseteq> set (dclasses d0) \<and> (dverdict d0 = Allow \<longrightarrow> dverdict d = Allow)"
proof -
  from assms obtain crossed where b: "boundary_apps a c w url p ta hs bs = Inr crossed"
    and v: "dverdict d = Allow \<longleftrightarrow> dclasses d = []" by (rule decideE) blast
  obtain crossed0 where b0: "boundary_apps a c w url empty_policy ta hs bs = Inr crossed0"
    and imp: "crossed \<noteq> [] \<longrightarrow> crossed0 \<noteq> []"
    using boundary_apps_empty_policy [OF b] by blast
  obtain d0 where d0: "decide a c w url empty_policy ta now hs bs = Inr d0"
    using decide_ok [OF b0] by blast
  from d0 have v0: "dverdict d0 = Allow \<longleftrightarrow> dclasses d0 = []" by (rule decideE) blast
  have "k \<in> set (dclasses d0)" if "k \<in> set (dclasses d)" for k
  proof -
    have "reason_for k (action_kind a) a c w p crossed \<noteq> None"
      using that decide_classes [OF assms b] by blast
    then have "reason_for k (action_kind a) a c w empty_policy crossed0 \<noteq> None"
      using imp by (cases k) (auto simp: install_reason_def empty_policy_def split: option.splits list.splits if_splits)
    then show ?thesis
      unfolding decide_classes [OF d0 b0] by (simp add: still_asked_def empty_policy_def)
  qed
  then have "set (dclasses d) \<subseteq> set (dclasses d0)" by blast
  with d0 v v0 show ?thesis by auto
qed

theorem policy_only_relaxes_witness:
  "\<exists>d0. decide example_click (Some example_control) (Some example_window) None empty_policy [] 0 [] False =
      Inr d0 \<and> {Send} \<subseteq> set (dclasses d0)"
proof -
  have "decide example_click (Some example_control) (Some example_window) None example_policy [] 0 [] False =
      Inr \<lparr>dverdict = Permit, dclasses = [Send], dreason = ''send: Send''\<rparr>" by code_simp
  from policy_only_relaxes [OF this] show ?thesis by auto
qed

text \<open>
  \<open>boundary\<close> is the catch-all: a click, invoke, set_value, type, key or scroll that lands (by
  its control or by its window) in an app that neither the task nor the allow-list declares needs
  a permit, and so does a native step in a window called \<open>browser\<close> whatever was declared, unless a
  human's remembered approval of a boundary crossing covers it.
\<close>

theorem undeclared_window_needs_permit:
  assumes "action_kind a = Some k" and "k \<in> set window_scoped"
    and "app = control_app c \<or> app = window_app w" and "app \<noteq> []"
    and "\<not> named app (ta @ apps p) \<or> (\<not> bs \<and> py_lower app = browser_app)"
    and "still_asked p c w url now Boundary"
  shows "\<exists>d. decide a c w url p ta now hs bs = Inr d \<and> dverdict d = Permit \<and>
    Boundary \<in> set (dclasses d)"
proof -
  have "\<not> app_declared app (declared_names p ta bs)"
    using assms(4,5) named_declared [of app p ta bs] by (auto simp: app_declared_def)
  from boundary_crossing [OF assms(1-4) this] obtain x xs
    where b: "boundary_apps a c w url p ta hs bs = Inr (x # xs)" by blast
  then obtain d where d: "decide a c w url p ta now hs bs = Inr d"
    using decide_ok by blast
  have "Boundary \<in> set (dclasses d)"
    using decide_classes [OF d b] assms(6) by simp
  moreover from d have "dverdict d = Allow \<longleftrightarrow> dclasses d = []" by (rule decideE) blast
  ultimately show ?thesis using d by (cases "dverdict d") auto
qed

theorem undeclared_window_needs_permit_witness:
  "\<exists>d. decide example_click None (Some example_window) None empty_policy [''notepad''] 0 [] False = Inr d \<and>
    dverdict d = Permit \<and> Boundary \<in> set (dclasses d)"
proof (rule undeclared_window_needs_permit)
  show "action_kind example_click = Some Click" by code_simp
  show "Click \<in> set window_scoped" by code_simp
  show "''Mail'' = control_app None \<or> ''Mail'' = window_app (Some example_window)" by code_simp
  show "\<not> named ''Mail'' ([''notepad''] @ apps empty_policy) \<or>
    (\<not> False \<and> py_lower ''Mail'' = browser_app)" by code_simp
  show "still_asked empty_policy None (Some example_window) None 0 Boundary"
    by (simp add: still_asked_def empty_policy_def)
qed simp

text \<open>
  A navigation is never cleared by an app declaration: the decision on \<open>open_url\<close> does not depend
  on the declared apps at all, and a navigation is allowed only to a host the allow-list names, a
  subdomain of one (a whole label, so \<open>evilexample.com\<close> is not under \<open>example.com\<close>), a host this
  task has had approved, or under a remembered approval of the crossing.
\<close>

theorem navigation_cleared_by_hosts_only:
  assumes "action_kind a = Some OpenUrl" and "url_target a url \<noteq> []"
    and "decide a c w url p ta now hs bs = Inr d"
  shows "decide a c w url p ta' now hs bs = Inr d \<and>
    (dverdict d = Allow \<longrightarrow>
      (\<exists>host. host_of (url_target a url) = Inr host \<and>
        (named host hs \<or>
         (\<exists>dom \<in> set (domains p). host = py_lower dom \<or> (\<exists>sub. host = sub @ ''.'' @ py_lower dom))))
      \<or> \<not> still_asked p c w url now Boundary)"
proof -
  have "boundary_apps a c w url p ta' hs bs = boundary_apps a c w url p ta hs bs"
    using assms(1) by (simp add: boundary_open_url)
  then have same: "decide a c w url p ta' now hs bs = Inr d"
    using assms(3) by (simp add: decide_def classify_with_reasons_def)
  from assms(3) obtain crossed where b: "boundary_apps a c w url p ta hs bs = Inr crossed"
    and v: "dverdict d = Allow \<longleftrightarrow> dclasses d = []" by (rule decideE) blast
  from b assms(1,2) obtain host ok where h: "host_of (url_target a url) = Inr host"
    and ok: "host_allowed p (url_target a url) = Inr ok"
    and cr: "(ok \<or> named host hs \<longrightarrow> crossed = []) \<and> (\<not> (ok \<or> named host hs) \<longrightarrow> crossed \<noteq> [])"
    by (auto simp: boundary_open_url bindR_Inr_iff split: if_splits)
  have dom: "ok \<longleftrightarrow> (\<exists>dom \<in> set (domains p). host = py_lower dom \<or> (\<exists>sub. host = sub @ ''.'' @ py_lower dom))"
    using ok h by (simp add: host_allowed_iff domain_covers_def ends_with_iff)
  have "crossed = [] \<or> \<not> still_asked p c w url now Boundary" if "dverdict d = Allow"
    using that v decide_classes [OF assms(3) b, of Boundary] by (auto split: list.splits)
  with same h cr dom show ?thesis by auto
qed

theorem navigation_cleared_by_hosts_only_witness:
  "decide example_visit None None None example_policy [''ex.com''] 0 [] False =
     Inr \<lparr>dverdict = Allow, dclasses = [], dreason = []\<rparr>"
proof -
  have "decide example_visit None None None example_policy [] 0 [] False =
      Inr \<lparr>dverdict = Allow, dclasses = [], dreason = []\<rparr>" by code_simp
  moreover have "action_kind example_visit = Some OpenUrl" "url_target example_visit None \<noteq> []"
    by code_simp+
  ultimately show ?thesis using navigation_cleared_by_hosts_only by blast
qed

text \<open>
  What is typed is not what is judged: the decision on a \<open>type\<close> or \<open>set_value\<close> step is the same
  whatever text it carries.
\<close>

theorem typed_text_is_not_judged:
  assumes "action_kind a = Some TypeText \<or> action_kind a = Some SetValue"
  shows "decide (AList.update ''text'' t (AList.update ''value'' v a)) c w url p ta now hs bs =
    decide a c w url p ta now hs bs"
proof -
  let ?b = "AList.update ''text'' t (AList.update ''value'' v a)"
  have k: "action_kind ?b = action_kind a"
    by (simp add: action_kind_def get_str_def)
  obtain j where j: "action_kind a = Some j" "j \<in> {TypeText, SetValue}"
    using assms by blast
  then have b: "boundary_apps ?b c w url p ta hs bs = boundary_apps a c w url p ta hs bs"
    using k by (auto simp: boundary_window window_scoped_def)
  have "send_reason (Some j) ?b c = send_reason (Some j) a c"
    "destroy_reason (Some j) ?b c w = destroy_reason (Some j) a c w"
    "credential_reason (Some j) ?b c = credential_reason (Some j) a c"
    "install_reason (Some j) ?b c w p = install_reason (Some j) a c w p"
    using j(2) by (auto simp: send_reason_def destroy_reason_def credential_reason_def install_reason_def)
  with j k b show ?thesis by (simp add: decide_def classify_with_reasons_def Let_def)
qed

theorem typed_text_is_not_judged_witness:
  "decide (AList.update ''text'' (PyStr ''my password'') (AList.update ''value'' (PyStr ''x'') example_type))
      None (Some example_window) None empty_policy [] 0 [] False =
    decide example_type None (Some example_window) None empty_policy [] 0 [] False"
proof (rule typed_text_is_not_judged)
  show "action_kind example_type = Some TypeText \<or> action_kind example_type = Some SetValue" by code_simp
qed

text \<open>
  A remembered approval holds exactly until it expires: after \<^const>\<open>remember\<close> for a class, an app
  and a piece of a control's name, a step on that control is no longer asked for that class before
  the recorded instant, is asked exactly as before from that instant on, and no other class of the
  step is affected at any time.
\<close>

theorem remembered_until_expiry:
  assumes "remember p (cls_name k) app m days t0 = Inr p'"
    and "app = ''*'' \<or> app = wapp w" and "cname c \<noteq> []" and "occurs_in (py_lower m) (py_lower (cname c))"
    and "decide a (Some c) (Some w) url p ta now hs bs = Inr d"
  shows "\<exists>d'. decide a (Some c) (Some w) url p' ta now hs bs = Inr d' \<and>
    dclasses d' = (if now < of_int \<lfloor>t0 + of_int (days * 86400)\<rfloor>
                   then filter (\<lambda>j. j \<noteq> k) (dclasses d) else dclasses d)"
proof -
  define t where "t = \<lfloor>t0 + of_int (days * 86400)\<rfloor>"
  define e where "e = \<lparr>rcls = cls_name k, rapp = app, rmatch = m, runtil = format_utc t\<rparr>"
  have t: "0 \<le> t" "t < end_of_time" and p': "p' = p\<lparr>remembereds := remembereds p @ [e]\<rparr>"
    using assms(1) by (simp_all add: remember_def t_def e_def Let_def split: if_splits)
  have e: "is_remembered e j (Some c) (Some w) url now \<longleftrightarrow> j = k \<and> now < of_int t" for j
    using assms(2-4) parse_format_utc [OF t] by (auto simp: is_remembered_def e_def)
  have still: "still_asked p' (Some c) (Some w) url now j \<longleftrightarrow>
      still_asked p (Some c) (Some w) url now j \<and> \<not> (j = k \<and> now < of_int t)" for j
    by (auto simp: still_asked_def p' e)
  obtain crossed where b: "boundary_apps a (Some c) (Some w) url p ta hs bs = Inr crossed"
    and d: "dclasses d = filter (\<lambda>j. reason_for j (action_kind a) a (Some c) (Some w) p crossed \<noteq> None \<and>
       still_asked p (Some c) (Some w) url now j) CLASSES"
    using assms(5) by (rule decideE) blast
  have b': "boundary_apps a (Some c) (Some w) url p' ta hs bs = Inr crossed"
  proof -
    have "declared_names p' = declared_names p" "host_allowed p' = host_allowed p"
      by (auto simp: fun_eq_iff declared_names_def host_allowed_def p')
    with b show ?thesis by (simp only: boundary_apps_def)
  qed
  have r: "reason_for j (action_kind a) a (Some c) (Some w) p' crossed =
      reason_for j (action_kind a) a (Some c) (Some w) p crossed" for j
  proof -
    have "apps p' = apps p" by (simp add: p')
    then have "install_reason q a x y p' = install_reason q a x y p" for q x y
      by (simp only: install_reason_def)
    then show ?thesis by (cases j) simp_all
  qed
  obtain d' where d': "decide a (Some c) (Some w) url p' ta now hs bs = Inr d'"
    using decide_ok [OF b'] by blast
  then have "dclasses d' = filter (\<lambda>j. reason_for j (action_kind a) a (Some c) (Some w) p crossed \<noteq> None \<and>
       still_asked p' (Some c) (Some w) url now j) CLASSES"
    by (rule decideE) (use b' r in simp)
  with d d' show ?thesis
    unfolding t_def [symmetric] by (auto simp: still intro: filter_cong)
qed

theorem remembered_until_expiry_witness:
  "\<exists>p' d'. remember example_policy ''send'' ''*'' ''send'' 30 63902919845 = Inr p' \<and>
    decide example_click (Some example_control) (Some example_window) None p' [] 63902919846 [] False = Inr d' \<and>
    dclasses d' = []"
proof -
  let ?e = "\<lparr>rcls = ''send'', rapp = ''*'', rmatch = ''send'', runtil = ''2026-02-01T03:04:05Z''\<rparr>"
  let ?p = "\<lparr>apps = [''mail''], domains = [''ex.com''], remembereds = [?e]\<rparr>"
  have r: "remember example_policy (cls_name Send) ''*'' ''send'' 30 63902919845 = Inr ?p"
  proof -
    have "format_utc 63905511845 = ''2026-02-01T03:04:05Z''" "end_of_time > 63905511845" by code_simp+
    then show ?thesis by (simp add: remember_def example_policy_def Let_def)
  qed
  have d: "decide example_click (Some example_control) (Some example_window) None example_policy [] 63902919846 [] False =
      Inr \<lparr>dverdict = Permit, dclasses = [Send], dreason = ''send: Send''\<rparr>" by code_simp
  have c: "cname example_control \<noteq> []" "occurs_in (py_lower ''send'') (py_lower (cname example_control))"
    by code_simp+
  from remembered_until_expiry [OF r disjI1 [OF refl] c d] r show ?thesis by auto
qed

end
