(* ===== verification/Hands_Ids.thy ===== *)
theory Hands_Ids
  imports Py_Json Hands_Base
begin

text \<open>
  \<open>hands/src/firekeep_hands/ids.py\<close>: the machine id, the fingerprint of an action and the challenge
  id a permit is keyed by. SHA-256 (hashlib, OpenSSL) is a parameter \<open>H\<close>: the hexadecimal digest of
  the UTF-8 bytes of a text; \<^const>\<open>float_repr\<close> is what the printing of floats promises.
\<close>

section \<open>Digests\<close>

definition hex_digit :: "char \<Rightarrow> bool" where
  "hex_digit c \<longleftrightarrow> is_digit c \<or> (97 \<le> code_of c \<and> code_of c \<le> 102)"

text \<open>What \<open>hashlib.sha256(...).hexdigest()\<close> promises: 64 lower-case hexadecimal digits\<close>

definition sha_digest :: "(string \<Rightarrow> string) \<Rightarrow> bool" where
  "sha_digest H \<longleftrightarrow> (\<forall>x. length (H x) = 64 \<and> list_all hex_digit (H x))"

section \<open>The identifiers\<close>

text \<open>The file's content, where it exists, and a fresh \<open>secrets.token_hex(16)\<close>; the result and the file\<close>

definition machine_id :: "string option \<Rightarrow> string \<Rightarrow> string \<times> string option" where
  "machine_id file fresh = (case file of Some t \<Rightarrow> (py_strip t, file) | None \<Rightarrow> (fresh, Some fresh))"

definition action_hash :: "(string \<Rightarrow> string) \<Rightarrow> (rat \<Rightarrow> string) \<Rightarrow> pydict \<Rightarrow> string" where
  "action_hash H fl action = take 16 (H (json_dumps fl (PyDict action)))"

definition challenge_raw :: "string \<Rightarrow> string \<Rightarrow> string \<Rightarrow> int \<Rightarrow> string \<Rightarrow> string" where
  "challenge_raw machine session task step ahash =
     ''hands|'' @ machine @ ''|'' @ session @ ''|'' @ task @ ''|'' @ str_of_int step @ ''|'' @ ahash"

definition challenge_id_for ::
  "(string \<Rightarrow> string) \<Rightarrow> string \<Rightarrow> string \<Rightarrow> string \<Rightarrow> int \<Rightarrow> string \<Rightarrow> string" where
  "challenge_id_for H machine session task step ahash =
     take 32 (H (challenge_raw machine session task step ahash))"

section \<open>Reading the five fields back\<close>

lemma split_first: "a @ x # b = a' @ x # b' \<Longrightarrow> x \<notin> set a \<Longrightarrow> x \<notin> set a' \<Longrightarrow> a = a' \<and> b = b'"
  by (induction a arbitrary: a') (auto simp: Cons_eq_append_conv append_eq_Cons_conv)

lemma split_last:
  assumes "a @ x # b = a' @ x # b'" and "x \<notin> set b" and "x \<notin> set b'"
  shows "a = a' \<and> b = b'"
proof -
  from assms(1) have "rev b @ x # rev a = rev b' @ x # rev a'"
    by (metis append.assoc append_Cons append_Nil rev.simps(2) rev_append)
  from split_first [OF this] assms(2,3) show ?thesis by simp
qed

lemma bar_free:
  "list_all hex_digit s \<Longrightarrow> CHR ''|'' \<notin> set s" "CHR ''|'' \<notin> set (str_of_int i)"
proof -
  show "list_all hex_digit s \<Longrightarrow> CHR ''|'' \<notin> set s"
    by (auto simp: list_all_iff hex_digit_def is_digit_def code_of_def)
  show "CHR ''|'' \<notin> set (str_of_int i)"
    using str_of_int_number(1) [of i]
    by (auto simp: list_all_iff number_char_def is_digit_def code_of_def)
qed

lemma challenge_raw_inject:
  assumes "challenge_raw m s t i h = challenge_raw m' s' t' i' h'"
    and "CHR ''|'' \<notin> set m" "CHR ''|'' \<notin> set m'" "CHR ''|'' \<notin> set t" "CHR ''|'' \<notin> set t'"
    and "CHR ''|'' \<notin> set h" "CHR ''|'' \<notin> set h'"
  shows "m = m' \<and> s = s' \<and> t = t' \<and> i = i' \<and> h = h'"
proof -
  have 1: "m @ CHR ''|'' # (s @ CHR ''|'' # t @ CHR ''|'' # str_of_int i @ CHR ''|'' # h) =
      m' @ CHR ''|'' # (s' @ CHR ''|'' # t' @ CHR ''|'' # str_of_int i' @ CHR ''|'' # h')"
    using assms(1) by (simp add: challenge_raw_def)
  from split_first [OF 1 assms(2,3)] have m: "m = m'"
    and 2: "(s @ CHR ''|'' # t @ CHR ''|'' # str_of_int i) @ CHR ''|'' # h =
      (s' @ CHR ''|'' # t' @ CHR ''|'' # str_of_int i') @ CHR ''|'' # h'" by auto
  from split_last [OF 2 assms(6,7)] have h: "h = h'"
    and 3: "(s @ CHR ''|'' # t) @ CHR ''|'' # str_of_int i = (s' @ CHR ''|'' # t') @ CHR ''|'' # str_of_int i'"
    by auto
  from split_last [OF 3 bar_free(2) bar_free(2)] have i: "str_of_int i = str_of_int i'"
    and 4: "s @ CHR ''|'' # t = s' @ CHR ''|'' # t'" by auto
  from split_last [OF 4 assms(4,5)] show ?thesis
    using m h str_of_int_inject [OF i] by simp
qed

lemma digest_take: "sha_digest H \<Longrightarrow> CHR ''|'' \<notin> set (take n (H x))"
  by (auto simp: sha_digest_def dest: in_set_takeD bar_free(1))

section \<open>Concrete instances of the two parameters\<close>

text \<open>A printer of rationals and a checksum with the shape of a digest, to run the model with\<close>

definition example_float :: "rat \<Rightarrow> string" where
  "example_float q = str_of_int (fst (quotient_of q)) @ ''.'' @ str_of_int (snd (quotient_of q))"

fun hex_digits :: "nat \<Rightarrow> int \<Rightarrow> string" where
  "hex_digits 0 n = []"
| "hex_digits (Suc k) n = hex_char (nat (n mod 16)) # hex_digits k (n div 16)"

definition example_digest :: "string \<Rightarrow> string" where
  "example_digest s =
     hex_digits 32 (foldl (\<lambda>a c. (a * 257 + of_char c + 1) mod 340282366920938463463374607431768211297) 7 s)
     @ replicate 32 (CHR ''0'')"

lemma float_repr_example: "float_repr example_float"
proof -
  have "inj example_float"
  proof (rule injI)
    fix p q
    assume "example_float p = example_float q"
    then have "str_of_int (fst (quotient_of p)) @ CHR ''.'' # str_of_int (snd (quotient_of p)) =
        str_of_int (fst (quotient_of q)) @ CHR ''.'' # str_of_int (snd (quotient_of q))"
      by (simp add: example_float_def)
    from split_first [OF this str_of_int_number(3) str_of_int_number(3)]
    have "quotient_of p = quotient_of q"
      by (auto simp: prod_eq_iff dest: str_of_int_inject)
    then show "p = q" by (rule quotient_of_inject)
  qed
  moreover have "list_all number_char (example_float q)" for q
    using str_of_int_number(1) by (simp add: example_float_def number_char_def)
  moreover have "list_ex (\<lambda>c. c = CHR ''.'' \<or> c = CHR ''e'') (example_float q)" for q
    by (simp add: example_float_def)
  ultimately show ?thesis by (simp add: float_repr_def)
qed

lemma hex_digit_hex_char: "n < 16 \<Longrightarrow> hex_digit (hex_char n)"
  by (simp add: hex_digit_def is_digit_def hex_char_code)

lemma sha_digest_example: "sha_digest example_digest"
proof -
  have "list_all hex_digit (hex_digits k n) \<and> length (hex_digits k n) = k" for k n
  proof (induction k n rule: hex_digits.induct)
    case (2 k n)
    have "nat (n mod 16) < 16" using pos_mod_bound [of 16 n] by simp
    with 2 show ?case by (simp add: hex_digit_hex_char)
  qed simp
  moreover have "list_all hex_digit (replicate 32 (CHR ''0''))" by code_simp
  ultimately show ?thesis
    unfolding sha_digest_def example_digest_def by simp
qed

section \<open>Properties of the identifiers\<close>

text \<open>
  C24. A permit is bound to the step: two requests get the same challenge only if machine, session,
  task, step number and action (up to the order of its keys) are all the same, or if the two texts
  hashed are an explicit collision of the truncated digest.
\<close>

theorem challenge_binds_the_step:
  assumes "sha_digest H" and "float_repr fl"
    and "CHR ''|'' \<notin> set m" "CHR ''|'' \<notin> set m'" "CHR ''|'' \<notin> set t" "CHR ''|'' \<notin> set t'"
    and "challenge_id_for H m s t i (action_hash H fl a) = challenge_id_for H m' s' t' i' (action_hash H fl a')"
  shows "(m = m' \<and> s = s' \<and> t = t' \<and> i = i' \<and> sort_keys (PyDict a) = sort_keys (PyDict a')) \<or>
    (let x = challenge_raw m s t i (action_hash H fl a); y = challenge_raw m' s' t' i' (action_hash H fl a')
     in x \<noteq> y \<and> take 32 (H x) = take 32 (H y)) \<or>
    (let x = json_dumps fl (PyDict a); y = json_dumps fl (PyDict a')
     in x \<noteq> y \<and> take 16 (H x) = take 16 (H y))"
proof -
  let ?x = "challenge_raw m s t i (action_hash H fl a)"
  let ?y = "challenge_raw m' s' t' i' (action_hash H fl a')"
  have eq: "take 32 (H ?x) = take 32 (H ?y)" using assms(7) by (simp add: challenge_id_for_def)
  show ?thesis
  proof (cases "?x = ?y")
    case True
    have "m = m' \<and> s = s' \<and> t = t' \<and> i = i' \<and> action_hash H fl a = action_hash H fl a'"
      by (rule challenge_raw_inject [OF True assms(3-6)])
        (simp_all add: action_hash_def digest_take [OF assms(1)])
    then show ?thesis
      using json_dumps_inject [OF assms(2), of "PyDict a" "PyDict a'"]
      by (auto simp: action_hash_def Let_def)
  next
    case False
    with eq show ?thesis by (simp add: Let_def)
  qed
qed

theorem challenge_binds_the_step_witness:
  "let a = [(''kind'', PyStr ''click''), (''ref'', PyStr ''a1'')]; b = rev a
   in sort_keys (PyDict a) = sort_keys (PyDict b)"
proof -
  let ?a = "[(''kind'', PyStr ''click''), (''ref'', PyStr ''a1'')]"
  let ?b = "[(''ref'', PyStr ''a1''), (''kind'', PyStr ''click'')]"
  have j: "json_dumps example_float (PyDict ?a) = json_dumps example_float (PyDict ?b)" by code_simp
  then have h: "action_hash example_digest example_float ?a = action_hash example_digest example_float ?b"
    by (simp add: action_hash_def)
  have n: "CHR ''|'' \<notin> set ''m''" "CHR ''|'' \<notin> set ''h-1''" by simp_all
  from challenge_binds_the_step [OF sha_digest_example float_repr_example n(1) n(1) n(2) n(2), of "''s''" 1 ?a "''s''" 1 ?b]
    j h show ?thesis by (simp add: Let_def)
qed

end
