(* ===== verification/Hands_Evidence.thy ===== *)
theory Hands_Evidence
  imports Hands_Ids Py_Time Gate_Interfaces
begin

text \<open>
  \<open>hands/src/firekeep_hands/evidence.py\<close>: the hash-chained ledger of one task and the pruning of old
  tasks. A directory is its \<open>task.json\<close>, the non-blank lines of \<open>steps.jsonl\<close> and its images. A line is
  what \<open>json.loads\<close> makes of it, \<open>Torn\<close> when it makes nothing. A failing write is an argument of the
  operation; \<open>H\<close> and \<open>HB\<close> are SHA-256 of a text and of bytes.
\<close>

section \<open>State\<close>

datatype json_file = Missing | Unreadable | Holds pyval

datatype jline = Line pyval | Torn

record ledger =
  task_file :: json_file
  step_lines :: "jline list"
  images :: "(string \<times> bytes) list"
  prev_chain :: pyval

record step_args =
  s_index :: int
  s_action :: pydict
  s_route :: string
  s_classes :: "string list"
  s_permit :: "pydict option"
  s_before :: "bytes option"
  s_after :: "bytes option"
  s_outcome :: string
  s_error :: "string option"

text \<open>How the writes of one call fare: the text of the \<open>OSError\<close>, and what a failed append left behind\<close>

datatype write_fault = WritesOk | BeforeImageFails string | AfterImageFails string
  | AppendFails string "jline option"

section \<open>Opening, reading and closing\<close>

definition last_chain :: "jline list \<Rightarrow> pyval" where
  "last_chain ls =
     (if ls = [] then PyStr []
      else case last ls of
             Line (PyDict d) \<Rightarrow> (case map_of d ''chain'' of None \<Rightarrow> PyStr [] | Some c \<Rightarrow> c)
           | _ \<Rightarrow> PyStr [])"

definition read_json_lenient :: "json_file \<Rightarrow> pydict" where
  "read_json_lenient f = (case f of Holds (PyDict d) \<Rightarrow> d | _ \<Rightarrow> [])"

definition write_task_json :: "pydict \<Rightarrow> ledger \<Rightarrow> ledger" where
  "write_task_json d l = l\<lparr>task_file := Holds (sort_keys (PyDict d))\<rparr>"

definition task_opening :: "string \<Rightarrow> string list \<Rightarrow> string \<Rightarrow> string \<Rightarrow> string \<Rightarrow> pydict" where
  "task_opening goal app_names machine session now_iso =
     [(''goal'', PyStr goal), (''apps'', PyList (map PyStr app_names)), (''machine_id'', PyStr machine),
      (''session_id'', PyStr session), (''started'', PyStr now_iso)]"

definition open_ledger ::
  "string \<Rightarrow> string list \<Rightarrow> string \<Rightarrow> string \<Rightarrow> string \<Rightarrow> json_file \<times> jline list \<times> (string \<times> bytes) list \<Rightarrow> ledger" where
  "open_ledger goal app_names machine session now_iso dir =
     (case dir of (f, ls, imgs) \<Rightarrow>
       let l = \<lparr>task_file = f, step_lines = ls, images = imgs, prev_chain = last_chain ls\<rparr>
       in if f = Missing then write_task_json (task_opening goal app_names machine session now_iso) l else l)"

definition parsed_lines :: "ledger \<Rightarrow> pyval list" where
  "parsed_lines l = concat (map (\<lambda>x. case x of Line v \<Rightarrow> [v] | Torn \<Rightarrow> []) (step_lines l))"

definition note_keep_action :: "(rat \<Rightarrow> string) \<Rightarrow> pyval \<Rightarrow> ledger \<Rightarrow> ledger" where
  "note_keep_action fl action_id l =
     (if \<not> truthy action_id then l
      else write_task_json
        (AList.update ''keep_action_id'' (PyStr (py_str fl action_id)) (read_json_lenient (task_file l))) l)"

definition close_ledger :: "string \<Rightarrow> string \<Rightarrow> string \<Rightarrow> ledger \<Rightarrow> ledger" where
  "close_ledger now_iso outcome summary l =
     write_task_json
       (AList.update ''steps'' (PyInt (int (length (parsed_lines l))))
         (AList.update ''summary'' (PyStr summary)
           (AList.update ''outcome'' (PyStr outcome)
             (AList.update ''ended'' (PyStr now_iso) (read_json_lenient (task_file l)))))) l"

section \<open>Recording a step\<close>

definition pad3 :: "int \<Rightarrow> string" where
  "pad3 i = replicate (3 - length (str_of_int i)) (CHR ''0'') @ str_of_int i"

definition opt_val :: "('a \<Rightarrow> pyval) \<Rightarrow> 'a option \<Rightarrow> pyval" where
  "opt_val f x = (case x of None \<Rightarrow> PyNone | Some y \<Rightarrow> f y)"

definition step_line :: "(bytes \<Rightarrow> string) \<Rightarrow> string \<Rightarrow> step_args \<Rightarrow> pydict" where
  "step_line HB now_iso a =
     [(''step_index'', PyInt (s_index a)), (''ts'', PyStr now_iso), (''action'', PyDict (s_action a)),
      (''route'', PyStr (s_route a)), (''classes'', PyList (map PyStr (s_classes a))),
      (''permit'', opt_val PyDict (s_permit a)), (''before'', opt_val (PyStr \<circ> HB) (s_before a)),
      (''after'', opt_val (PyStr \<circ> HB) (s_after a)), (''outcome'', PyStr (s_outcome a)),
      (''error'', opt_val PyStr (s_error a))]"

definition body_of :: "(rat \<Rightarrow> string) \<Rightarrow> pydict \<Rightarrow> string" where
  "body_of fl line = json_dumps fl (PyDict (filter (\<lambda>(k, v). k \<noteq> ''chain'') line))"

definition put_image :: "string \<Rightarrow> bytes option \<Rightarrow> ledger \<Rightarrow> ledger" where
  "put_image name png l = (case png of None \<Rightarrow> l | Some b \<Rightarrow> l\<lparr>images := AList.update name b (images l)\<rparr>)"

definition record_step ::
  "(string \<Rightarrow> string) \<Rightarrow> (bytes \<Rightarrow> string) \<Rightarrow> (rat \<Rightarrow> string) \<Rightarrow> write_fault \<Rightarrow> string \<Rightarrow> step_args \<Rightarrow> ledger \<Rightarrow>
   (py_exc + pydict) \<times> ledger" where
  "record_step H HB fl fault now_iso a l =
    (case fault of
       BeforeImageFails e \<Rightarrow> (Inl (OtherError e), l)
     | _ \<Rightarrow>
      (let l = put_image (pad3 (s_index a) @ ''-before.png'') (s_before a) l
       in case fault of
         AfterImageFails e \<Rightarrow> (Inl (OtherError e), l)
       | _ \<Rightarrow>
        (let l = put_image (pad3 (s_index a) @ ''-after.png'') (s_after a) l;
             line = step_line HB now_iso a
         in case prev_chain l of
              PyStr prev \<Rightarrow>
                (let chain = H (prev @ body_of fl line);
                     line = line @ [(''chain'', PyStr chain)];
                     l = l\<lparr>prev_chain := PyStr chain\<rparr>
                 in case fault of
                      AppendFails e torn \<Rightarrow>
                        (Inl (OtherError e),
                         l\<lparr>step_lines := step_lines l @ (case torn of None \<Rightarrow> [] | Some t \<Rightarrow> [t])\<rparr>)
                    | _ \<Rightarrow> (Inr line, l\<lparr>step_lines := step_lines l @ [Line (sort_keys (PyDict line))]\<rparr>))
            | v \<Rightarrow> (Inl (OtherError (type_name v @ '' cannot be joined to a text'')), l))))"

section \<open>Checking a ledger\<close>

text \<open>
  The check the module's documentation describes: recompute every chain from the line without its
  \<open>chain\<close> and the chain before it, the first one from the empty text, and compare.
\<close>

fun line_chain :: "jline \<Rightarrow> (pydict \<times> string) option" where
  "line_chain (Line (PyDict d)) =
     (case map_of d ''chain'' of Some (PyStr c) \<Rightarrow> Some (d, c) | _ \<Rightarrow> None)"
| "line_chain _ = None"

fun verify_from :: "(string \<Rightarrow> string) \<Rightarrow> (rat \<Rightarrow> string) \<Rightarrow> string \<Rightarrow> jline list \<Rightarrow> bool" where
  "verify_from H fl prev [] \<longleftrightarrow> True"
| "verify_from H fl prev (x # xs) \<longleftrightarrow>
     (case line_chain x of
        None \<Rightarrow> False
      | Some (d, c) \<Rightarrow> c = H (prev @ body_of fl d) \<and> verify_from H fl c xs)"

definition verifies :: "(string \<Rightarrow> string) \<Rightarrow> (rat \<Rightarrow> string) \<Rightarrow> jline list \<Rightarrow> bool" where
  "verifies H fl ls \<longleftrightarrow> verify_from H fl [] ls"

text \<open>The chain after the last line, and the texts that were hashed on the way\<close>

fun final_chain :: "string \<Rightarrow> jline list \<Rightarrow> string" where
  "final_chain prev [] = prev"
| "final_chain prev (x # xs) = (case line_chain x of None \<Rightarrow> prev | Some (d, c) \<Rightarrow> final_chain c xs)"

fun hashed_texts :: "(rat \<Rightarrow> string) \<Rightarrow> string \<Rightarrow> jline list \<Rightarrow> string list" where
  "hashed_texts fl prev [] = []"
| "hashed_texts fl prev (x # xs) =
     (case line_chain x of None \<Rightarrow> [] | Some (d, c) \<Rightarrow> (prev @ body_of fl d) # hashed_texts fl c xs)"

section \<open>Pruning\<close>

record task_dir =
  t_name :: string
  t_is_dir :: bool
  t_file :: json_file
  t_removal_fails :: bool

definition started_of :: "json_file \<Rightarrow> int option" where
  "started_of f =
     (case map_of (read_json_lenient f) ''started'' of Some (PyStr s) \<Rightarrow> parse_utc s | _ \<Rightarrow> None)"

definition expired_dir :: "rat \<Rightarrow> task_dir \<Rightarrow> bool" where
  "expired_dir cutoff c \<longleftrightarrow>
     t_is_dir c \<and> t_file c \<noteq> Missing \<and>
     (case started_of (t_file c) of None \<Rightarrow> False | Some t \<Rightarrow> of_int t < cutoff)"

fun prune_from :: "rat \<Rightarrow> task_dir list \<Rightarrow> nat \<Rightarrow> nat \<times> task_dir list" where
  "prune_from cutoff [] removed = (removed, [])"
| "prune_from cutoff (c # cs) removed =
     (if expired_dir cutoff c \<and> \<not> t_removal_fails c then prune_from cutoff cs (removed + 1)
      else (case prune_from cutoff cs removed of (n, kept) \<Rightarrow> (n, c # kept)))"

definition prune :: "task_dir list option \<Rightarrow> int \<Rightarrow> rat \<Rightarrow> py_exc + nat \<times> task_dir list option" where
  "prune children older_than_days now =
     (case children of
        None \<Rightarrow> Inr (0, None)
      | Some cs \<Rightarrow>
          (let cutoff = now - of_int (older_than_days * 86400)
           in if cutoff < 0 \<or> of_int end_of_time \<le> cutoff then Inl (OtherError ''date value out of range'')
              else (case prune_from cutoff cs 0 of (n, kept) \<Rightarrow> Inr (n, Some kept))))"

section \<open>Sorting the keys\<close>

lemma sort_key_map_fst: "sort_key fst (map (\<lambda>(k, v). (k, g v)) xs) = map (\<lambda>(k, v). (k, g v)) (sort_key fst xs)"
proof (induction xs)
  case (Cons x xs)
  have "insort_key fst (case x of (k, v) \<Rightarrow> (k, g v)) (map (\<lambda>(k, v). (k, g v)) ys) =
      map (\<lambda>(k, v). (k, g v)) (insort_key fst x ys)" for ys
    by (induction ys) (auto split: prod.splits)
  with Cons show ?case by simp
qed simp

lemma sort_keys_idem [simp]: "sort_keys (sort_keys v) = sort_keys v"
proof (induction v rule: sort_keys.induct)
  case (2 kvs)
  let ?g = "\<lambda>(k :: string, v). (k, sort_keys v)"
  have fixed: "map ?g (map ?g kvs) = map ?g kvs"
    using 2 by (auto simp: case_prod_beta)
  have "sort_key fst (map ?g (sort_key fst (map ?g kvs))) = map ?g (sort_key fst (sort_key fst (map ?g kvs)))"
    by (rule sort_key_map_fst)
  also have "sort_key fst (sort_key fst (map ?g kvs)) = sort_key fst (map ?g kvs)"
    by (rule sort_key_id_if_sorted) (rule sorted_sort_key)
  also have "map ?g (sort_key fst (map ?g kvs)) = sort_key fst (map ?g (map ?g kvs))"
    by (rule sort_key_map_fst [symmetric])
  finally have "sort_key fst (map ?g (sort_key fst (map ?g kvs))) = sort_key fst (map ?g kvs)"
    unfolding fixed .
  then show ?case by simp
qed auto

definition sorted_items :: "pydict \<Rightarrow> pydict" where
  "sorted_items d = sort_key fst (map (\<lambda>(k, v). (k, sort_keys v)) d)"

lemma sort_keys_PyDict: "sort_keys (PyDict d) = PyDict (sorted_items d)"
  by (simp add: sorted_items_def)

lemma body_of_sorted: "body_of fl (sorted_items d) = body_of fl d"
proof -
  let ?P = "\<lambda>(k :: string, v :: pyval). k \<noteq> ''chain''"
  have "filter ?P (map (\<lambda>(k, v). (k, sort_keys v)) d) = map (\<lambda>(k, v). (k, sort_keys v)) (filter ?P d)"
    by (induction d) auto
  then have "filter ?P (sorted_items d) = sorted_items (filter ?P d)"
    unfolding sorted_items_def filter_sort by (rule arg_cong)
  then show ?thesis
    by (simp only: body_of_def json_dumps_def sort_keys_PyDict [symmetric] sort_keys_idem)
qed

lemma map_of_sorted_items:
  assumes "distinct (map fst d)"
  shows "map_of (sorted_items d) k = map_option sort_keys (map_of d k)"
proof -
  let ?m = "map (\<lambda>(k, v). (k, sort_keys v)) d"
  have dm: "distinct (map fst ?m)" using assms by (simp add: comp_def case_prod_beta)
  have "distinct (map fst (sort_key fst xs)) = distinct (map fst xs)" for xs :: pydict
    by (induction xs) (simp_all add: distinct_insort_key)
  with dm have "distinct (map fst (sort_key fst ?m))" by blast
  then have "map_of (sorted_items d) = map_of ?m"
    unfolding sorted_items_def using dm by (subst map_of_inject_set) simp_all
  then show ?thesis by (simp add: map_of_map)
qed

lemma line_chain_recorded:
  "line_chain (Line (sort_keys (PyDict (step_line HB now_iso a @ [(''chain'', PyStr c)])))) =
     Some (sorted_items (step_line HB now_iso a @ [(''chain'', PyStr c)]), c)"
proof -
  have "distinct (map fst (step_line HB now_iso a @ [(''chain'', PyStr c)]))"
    by (simp add: step_line_def)
  then have "map_of (sorted_items (step_line HB now_iso a @ [(''chain'', PyStr c)])) ''chain'' = Some (PyStr c)"
    by (simp add: map_of_sorted_items step_line_def)
  then show ?thesis by (simp add: sort_keys_PyDict del: sort_keys.simps)
qed

lemma body_of_recorded:
  "body_of fl (sorted_items (step_line HB now_iso a @ [(''chain'', PyStr c)])) = body_of fl (step_line HB now_iso a)"
  unfolding body_of_sorted by (simp add: body_of_def step_line_def)

section \<open>Verification along a history\<close>

lemma verify_from_snoc:
  "verify_from H fl p (xs @ [x]) \<longleftrightarrow> verify_from H fl p xs \<and>
     (case line_chain x of None \<Rightarrow> False | Some (d, c) \<Rightarrow> c = H (final_chain p xs @ body_of fl d))"
  by (induction H fl p xs rule: verify_from.induct) (auto split: option.splits)

lemma final_chain_snoc:
  "verify_from H fl p xs \<Longrightarrow> final_chain p (xs @ [x]) =
     (case line_chain x of None \<Rightarrow> final_chain p xs | Some (d, c) \<Rightarrow> c)"
  by (induction H fl p xs rule: verify_from.induct) (auto split: option.splits)

lemma hashed_texts_snoc:
  "verify_from H fl p xs \<Longrightarrow> hashed_texts fl p (xs @ [x]) = hashed_texts fl p xs @
     (case line_chain x of None \<Rightarrow> [] | Some (d, c) \<Rightarrow> [final_chain p xs @ body_of fl d])"
  by (induction H fl p xs rule: verify_from.induct) (auto split: option.splits)

lemma line_chainD: "line_chain x = Some (d, c) \<Longrightarrow> x = Line (PyDict d) \<and> map_of d ''chain'' = Some (PyStr c)"
  by (cases x rule: line_chain.cases) (auto split: option.splits pyval.splits)

lemma last_chain_verified:
  assumes "verifies H fl ls"
  shows "last_chain ls = PyStr (final_chain [] ls)"
proof (cases ls rule: rev_cases)
  case (snoc xs x)
  with assms obtain d c where c: "line_chain x = Some (d, c)" and v: "verify_from H fl [] xs"
    by (auto simp: verifies_def verify_from_snoc split: option.splits)
  from line_chainD [OF c] show ?thesis
    using c by (simp add: snoc final_chain_snoc [OF v] last_chain_def)
qed (simp add: last_chain_def)

text \<open>What may happen to one task's directory\<close>

datatype ledger_op =
    Rec write_fault string step_args
  | Note pyval
  | Close string string string
  | Reopen string "string list" string string string

fun ledger_step ::
  "(string \<Rightarrow> string) \<Rightarrow> (bytes \<Rightarrow> string) \<Rightarrow> (rat \<Rightarrow> string) \<Rightarrow> ledger_op \<Rightarrow> ledger \<Rightarrow> ledger" where
  "ledger_step H HB fl (Rec fault now_iso a) l = snd (record_step H HB fl fault now_iso a l)"
| "ledger_step H HB fl (Note i) l = note_keep_action fl i l"
| "ledger_step H HB fl (Close now_iso outcome summary) l = close_ledger now_iso outcome summary l"
| "ledger_step H HB fl (Reopen g aps m s t) l = open_ledger g aps m s t (task_file l, step_lines l, images l)"

fun appends_whole :: "ledger_op \<Rightarrow> bool" where
  "appends_whole (Rec (AppendFails e torn) now_iso a) \<longleftrightarrow> False"
| "appends_whole _ \<longleftrightarrow> True"

fun records_ok :: "(string \<Rightarrow> string) \<Rightarrow> (bytes \<Rightarrow> string) \<Rightarrow> (rat \<Rightarrow> string) \<Rightarrow> ledger_op \<Rightarrow> ledger \<Rightarrow> bool" where
  "records_ok H HB fl (Rec fault now_iso a) l \<longleftrightarrow> \<not> isl (fst (record_step H HB fl fault now_iso a l))"
| "records_ok H HB fl _ l \<longleftrightarrow> False"

definition chained :: "(string \<Rightarrow> string) \<Rightarrow> (rat \<Rightarrow> string) \<Rightarrow> ledger \<Rightarrow> bool" where
  "chained H fl l \<longleftrightarrow> verifies H fl (step_lines l) \<and> prev_chain l = PyStr (final_chain [] (step_lines l))"

lemma put_image_fields [simp]:
  "step_lines (put_image n b l) = step_lines l" "prev_chain (put_image n b l) = prev_chain l"
  by (simp_all add: put_image_def split: option.split)

lemma write_task_fields [simp]:
  "step_lines (write_task_json d l) = step_lines l" "prev_chain (write_task_json d l) = prev_chain l"
  by (simp_all add: write_task_json_def)

lemma record_ok:
  assumes "chained H fl l" and "\<not> (\<exists>e. fault = BeforeImageFails e \<or> fault = AfterImageFails e)"
    and "\<not> (\<exists>e t. fault = AppendFails e t)"
  shows "chained H fl (snd (record_step H HB fl fault now_iso a l)) \<and>
    (\<exists>line. fst (record_step H HB fl fault now_iso a l) = Inr line) \<and>
    length (step_lines (snd (record_step H HB fl fault now_iso a l))) = Suc (length (step_lines l))"
proof -
  have f: "fault = WritesOk" using assms(2,3) by (cases fault) auto
  from assms(1) have v: "verify_from H fl [] (step_lines l)" and p: "prev_chain l = PyStr (final_chain [] (step_lines l))"
    by (simp_all add: chained_def verifies_def)
  show ?thesis
    unfolding f record_step_def chained_def verifies_def
    by (simp add: Let_def p v verify_from_snoc final_chain_snoc [OF v] line_chain_recorded body_of_recorded
        del: sort_keys.simps)
qed

lemma chained_step:
  assumes "chained H fl l" and "appends_whole x"
  shows "chained H fl (ledger_step H HB fl x l) \<and>
    length (step_lines (ledger_step H HB fl x l)) = length (step_lines l) + (if records_ok H HB fl x l then 1 else 0)"
proof (cases x)
  case (Rec fault now_iso a)
  show ?thesis
  proof (cases fault)
    case WritesOk
    with record_ok [OF assms(1), of WritesOk HB now_iso a] Rec show ?thesis by auto
  next
    case (AppendFails e t)
    with Rec assms(2) show ?thesis by simp
  qed (use Rec assms(1) in \<open>simp_all add: record_step_def Let_def chained_def\<close>)
next
  case (Reopen g aps m s t)
  with assms(1) last_chain_verified [of H fl "step_lines l"] show ?thesis
    by (simp add: chained_def open_ledger_def Let_def)
qed (use assms(1) in \<open>auto simp: chained_def note_keep_action_def close_ledger_def split: option.split\<close>)

lemma chained_run:
  "chained H fl l \<Longrightarrow> list_all appends_whole ops \<Longrightarrow>
     chained H fl (run_ops (ledger_step H HB fl) ops l) \<and>
     length (step_lines (run_ops (ledger_step H HB fl) ops l)) =
       length (step_lines l) + tally (ledger_step H HB fl) (records_ok H HB fl) ops l"
proof (induction ops arbitrary: l)
  case (Cons x ops)
  from chained_step [OF Cons.prems(1), of x HB] Cons.prems(2)
  have "chained H fl (ledger_step H HB fl x l)"
    "length (step_lines (ledger_step H HB fl x l)) = length (step_lines l) + (if records_ok H HB fl x l then 1 else 0)"
    by auto
  with Cons.IH [of "ledger_step H HB fl x l"] Cons.prems(2) show ?case by simp
qed simp

section \<open>Two ledgers with one final chain\<close>

text \<open>What a line says: its fields without the chain, up to their order, and the chain\<close>

definition line_content :: "jline \<Rightarrow> (pyval \<times> string) option" where
  "line_content x =
     map_option (\<lambda>(d, c). (sort_keys (PyDict (filter (\<lambda>(k, v). k \<noteq> ''chain'') d)), c)) (line_chain x)"

lemma body_of_start: "hd (body_of fl d) = CHR 0x7B" "body_of fl d \<noteq> []"
  by (simp_all add: body_of_def json_dumps_def)

lemma final_chain_digest:
  assumes "sha_digest H" and "verify_from H fl [] xs"
  shows "final_chain [] xs = [] \<or> (length (final_chain [] xs) = 64 \<and> list_all hex_digit (final_chain [] xs))"
proof (cases xs rule: rev_cases)
  case (snoc ys y)
  with assms(2) have "verify_from H fl [] ys" "line_chain y \<noteq> None"
    by (auto simp: verify_from_snoc split: option.splits)
  then obtain d c where "final_chain [] xs = c" "c = H (final_chain [] ys @ body_of fl d)"
    using assms(2) by (auto simp: snoc verify_from_snoc final_chain_snoc split: option.splits)
  with assms(1) show ?thesis by (simp add: sha_digest_def)
qed simp

lemma chain_text_inject:
  assumes "p @ body_of fl d = q @ body_of fl e"
    and "p = [] \<or> (length p = 64 \<and> list_all hex_digit p)" and "q = [] \<or> (length q = 64 \<and> list_all hex_digit q)"
  shows "p = q \<and> body_of fl d = body_of fl e"
proof -
  have no: "\<not> hex_digit (CHR 0x7B)" by code_simp
  have diff: "r = []" if "body_of fl a = r @ w" "list_all hex_digit r" for r a w
    using that body_of_start(1) [of fl a] no by (cases r) auto
  show ?thesis
  proof (cases "p = [] \<or> q = []")
    case True
    with assms diff [of d q "body_of fl e"] diff [of e p "body_of fl d"] show ?thesis by auto
  next
    case False
    with assms show ?thesis by auto
  qed
qed

lemma tamper_evidence:
  assumes H: "sha_digest H" and fl: "float_repr fl"
  shows "verify_from H fl [] ls \<Longrightarrow> verify_from H fl [] ls' \<Longrightarrow> final_chain [] ls = final_chain [] ls' \<Longrightarrow>
    \<forall>x \<in> set (hashed_texts fl [] ls). \<forall>y \<in> set (hashed_texts fl [] ls'). H x = H y \<longrightarrow> x = y \<Longrightarrow>
    map line_content ls = map line_content ls'"
proof (induction ls arbitrary: ls' rule: rev_induct)
  case Nil
  show ?case
  proof (cases ls' rule: rev_cases)
    case (snoc ys y)
    with Nil.prems(2) obtain d c where c: "line_chain y = Some (d, c)" "c = H (final_chain [] ys @ body_of fl d)"
      and "verify_from H fl [] ys" by (auto simp: verify_from_snoc split: option.splits)
    then have "final_chain [] ls' = c" by (simp add: snoc final_chain_snoc)
    moreover have "c \<noteq> []" using c(2) H by (metis length_0_conv sha_digest_def zero_neq_numeral)
    ultimately show ?thesis using Nil.prems(3) by simp
  qed simp
next
  case (snoc x xs)
  from snoc.prems(1) obtain d c where x: "line_chain x = Some (d, c)" "c = H (final_chain [] xs @ body_of fl d)"
    and vx: "verify_from H fl [] xs" by (auto simp: verify_from_snoc split: option.splits)
  have cne: "c \<noteq> []" using x(2) H by (metis length_0_conv sha_digest_def zero_neq_numeral)
  show ?case
  proof (cases ls' rule: rev_cases)
    case Nil
    with snoc.prems(3) x cne show ?thesis by (simp add: final_chain_snoc [OF vx])
  next
    case ls': (snoc ys y)
    from snoc.prems(2) obtain e c' where y: "line_chain y = Some (e, c')" "c' = H (final_chain [] ys @ body_of fl e)"
      and vy: "verify_from H fl [] ys" by (auto simp: ls' verify_from_snoc split: option.splits)
    have cc: "c = c'"
      using snoc.prems(3) x y by (simp add: ls' final_chain_snoc [OF vx] final_chain_snoc [OF vy])
    have "final_chain [] xs @ body_of fl d = final_chain [] ys @ body_of fl e"
    proof -
      have "final_chain [] xs @ body_of fl d \<in> set (hashed_texts fl [] (xs @ [x]))"
        by (simp add: hashed_texts_snoc [OF vx] x(1))
      moreover have "final_chain [] ys @ body_of fl e \<in> set (hashed_texts fl [] ls')"
        by (simp add: ls' hashed_texts_snoc [OF vy] y(1))
      ultimately show ?thesis using snoc.prems(4) cc unfolding x(2) y(2) by blast
    qed
    from chain_text_inject [OF this final_chain_digest [OF H vx] final_chain_digest [OF H vy]]
    have p: "final_chain [] xs = final_chain [] ys" and b: "body_of fl d = body_of fl e" by auto
    have "line_content x = line_content y"
      using json_dumps_inject [OF fl b [unfolded body_of_def]] x y cc
      by (simp add: line_content_def del: sort_keys.simps)
    moreover have "map line_content xs = map line_content ys"
    proof (rule snoc.IH [OF vx vy p])
      have "set (hashed_texts fl [] xs) \<subseteq> set (hashed_texts fl [] (xs @ [x]))"
        "set (hashed_texts fl [] ys) \<subseteq> set (hashed_texts fl [] ls')"
        by (simp_all add: ls' hashed_texts_snoc [OF vx] hashed_texts_snoc [OF vy])
      with snoc.prems(4) show "\<forall>x \<in> set (hashed_texts fl [] xs). \<forall>y \<in> set (hashed_texts fl [] ys).
          H x = H y \<longrightarrow> x = y" by blast
    qed
    ultimately show ?thesis by (simp add: ls')
  qed
qed

lemma prune_from_filter:
  "prune_from cutoff cs n = (n + length (filter (\<lambda>c. expired_dir cutoff c \<and> \<not> t_removal_fails c) cs),
     filter (\<lambda>c. \<not> (expired_dir cutoff c \<and> \<not> t_removal_fails c)) cs)"
  by (induction cutoff cs n rule: prune_from.induct) auto

section \<open>Properties of the ledger\<close>

text \<open>
  The ledger Hands writes passes its own check: from a new task's empty directory, after any
  sequence of recorded steps, Keep notes, closings and re-openings in which no append of a line
  failed (an image that cannot be written may fail), every chain recomputes, and there is exactly one
  line per step that was reported as recorded.
\<close>

theorem honest_ledger_verifies:
  assumes "list_all appends_whole ops"
  shows "let l0 = open_ledger goal aps machine session now_iso (Missing, [], []);
             l = run_ops (ledger_step H HB fl) ops l0
         in verifies H fl (step_lines l) \<and>
            length (step_lines l) = tally (ledger_step H HB fl) (records_ok H HB fl) ops l0"
proof -
  have "chained H fl (open_ledger goal aps machine session now_iso (Missing, [], []))"
    and "step_lines (open_ledger goal aps machine session now_iso (Missing, [], [])) = []"
    by (simp_all add: open_ledger_def chained_def verifies_def last_chain_def Let_def)
  from chained_run [OF this(1) assms, of HB] this(2) show ?thesis
    by (simp add: Let_def chained_def)
qed

definition example_step :: step_args where
  "example_step = \<lparr>s_index = 0, s_action = [(''kind'', PyStr ''wait'')], s_route = ''none'', s_classes = [],
     s_permit = None, s_before = None, s_after = None, s_outcome = ''ok'', s_error = None\<rparr>"

theorem honest_ledger_verifies_witness:
  "let l0 = open_ledger ''g'' [] ''m'' ''s'' ''t'' (Missing, [], []);
       l = run_ops (ledger_step example_digest id example_float)
             [Rec WritesOk ''t1'' example_step, Note (PyStr ''a''), Rec (AfterImageFails ''full'') ''t2'' example_step,
              Close ''t3'' ''done'' ''ok''] l0
   in verifies example_digest example_float (step_lines l) \<and> length (step_lines l) = 1"
proof -
  have "list_all appends_whole [Rec WritesOk ''t1'' example_step, Note (PyStr ''a''),
      Rec (AfterImageFails ''full'') ''t2'' example_step, Close ''t3'' ''done'' ''ok'']" by simp
  note r = honest_ledger_verifies [OF this, of "''g''" "[]" "''m''" "''s''" "''t''" example_digest id example_float]
  have "step_lines (run_ops (ledger_step example_digest id example_float)
      [Rec WritesOk ''t1'' example_step, Note (PyStr ''a''), Rec (AfterImageFails ''full'') ''t2'' example_step,
       Close ''t3'' ''done'' ''ok''] (open_ledger ''g'' [] ''m'' ''s'' ''t'' (Missing, [], []))) \<noteq> [] \<and>
    length (step_lines (run_ops (ledger_step example_digest id example_float)
      [Rec WritesOk ''t1'' example_step, Note (PyStr ''a''), Rec (AfterImageFails ''full'') ''t2'' example_step,
       Close ''t3'' ''done'' ''ok''] (open_ledger ''g'' [] ''m'' ''s'' ''t'' (Missing, [], [])))) = 1"
    by (simp add: open_ledger_def write_task_json_def last_chain_def record_step_def note_keep_action_def
        close_ledger_def put_image_def example_step_def Let_def del: sort_keys.simps)
  with r show ?thesis by (simp add: Let_def)
qed



text \<open>
  C26. One append that fails spoils the chain of every honest line after it: the next step is recorded
  as if the lost line were there, and the check then fails, unless the digest of the text hashed
  after the lost line happens to equal that of the text without it.
\<close>

theorem failed_append_breaks_the_chain:
  assumes "chained H fl l"
    and "l1 = snd (record_step H HB fl (AppendFails e None) now1 a1 l)"
    and "l2 = snd (record_step H HB fl WritesOk now2 a2 l1)"
  shows "(\<exists>line. fst (record_step H HB fl WritesOk now2 a2 l1) = Inr line) \<and>
    (let prev = final_chain [] (step_lines l); lost = H (prev @ body_of fl (step_line HB now1 a1));
         body = body_of fl (step_line HB now2 a2)
     in verifies H fl (step_lines l2) \<longleftrightarrow> H (prev @ body) = H (lost @ body))"
proof -
  let ?p = "final_chain [] (step_lines l)"
  from assms(1) have v: "verify_from H fl [] (step_lines l)" and p: "prev_chain l = PyStr ?p"
    by (simp_all add: chained_def verifies_def)
  have l1: "step_lines l1 = step_lines l" "prev_chain l1 = PyStr (H (?p @ body_of fl (step_line HB now1 a1)))"
    unfolding assms(2) by (simp_all add: record_step_def Let_def p)
  then have "\<exists>line. fst (record_step H HB fl WritesOk now2 a2 l1) = Inr line"
    by (simp add: record_step_def Let_def)
  moreover have "verifies H fl (step_lines l2) \<longleftrightarrow>
      H (H (?p @ body_of fl (step_line HB now1 a1)) @ body_of fl (step_line HB now2 a2)) =
      H (?p @ body_of fl (step_line HB now2 a2))"
    unfolding assms(3)
    by (simp add: record_step_def Let_def l1 verifies_def verify_from_snoc v line_chain_recorded body_of_recorded
        del: sort_keys.simps)
  ultimately show ?thesis by (auto simp: Let_def)
qed

theorem failed_append_breaks_the_chain_witness:
  "let H = (\<lambda>x. if hd x = CHR 0x7B then replicate 64 (CHR ''0'') else replicate 64 (CHR ''1''));
       l = open_ledger ''g'' [] ''m'' ''s'' ''t'' (Missing, [], []);
       l1 = snd (record_step H id example_float (AppendFails ''full'' None) ''t1'' example_step l);
       l2 = snd (record_step H id example_float WritesOk ''t2'' example_step l1)
   in \<not> verifies H example_float (step_lines l2)"
proof -
  define H where "H x = (if hd x = CHR 0x7B then replicate 64 (CHR ''0'') else replicate 64 (CHR ''1''))" for x
  let ?l = "open_ledger ''g'' [] ''m'' ''s'' ''t'' (Missing, [], [])"
  have c: "chained H example_float ?l"
    by (simp add: open_ledger_def chained_def verifies_def last_chain_def Let_def)
  have e: "step_lines ?l = []" by (simp add: open_ledger_def Let_def)
  have "hd (H x @ y) \<noteq> CHR 0x7B" for x y by (simp add: H_def numeral_eq_Suc)
  then have "H (body_of example_float d) \<noteq> H (H x @ y)" for d x y
    by (simp add: H_def [of "body_of example_float d"] H_def [of "H x @ y"] body_of_start numeral_eq_Suc)
  with failed_append_breaks_the_chain [OF c refl refl, of id "''t2''" example_step "''full''" "''t1''" example_step] e
  have "\<not> verifies H example_float (step_lines (snd (record_step H id example_float WritesOk ''t2'' example_step
      (snd (record_step H id example_float (AppendFails ''full'' None) ''t1'' example_step ?l)))))"
    by (simp add: Let_def)
  then show ?thesis by (simp add: Let_def H_def [abs_def])
qed

text \<open>
  Pruning never guesses: it deletes a task directory only when its \<open>task.json\<close> holds a readable
  start older than the retention, keeps every other entry in its place, and counts what it deleted.
\<close>

theorem prune_never_guesses:
  assumes "prune (Some cs) days now = Inr (n, Some kept)"
  shows "n + length kept = length cs \<and>
    (\<exists>doomed. kept = filter (\<lambda>c. \<not> doomed c) cs \<and>
      (\<forall>c. doomed c \<longrightarrow> t_is_dir c \<and>
        (\<exists>t d s. t_file c = Holds (PyDict d) \<and> map_of d ''started'' = Some (PyStr s) \<and> parse_utc s = Some t \<and>
          of_int (t + days * 86400) < now)))"
proof -
  let ?cut = "now - of_int (days * 86400)"
  let ?D = "\<lambda>c. expired_dir ?cut c \<and> \<not> t_removal_fails c"
  have n: "n = length (filter ?D cs)" and k: "kept = filter (\<lambda>c. \<not> ?D c) cs"
    using assms by (auto simp: prune_def prune_from_filter Let_def split: if_splits)
  have "length (filter ?D cs) + length (filter (\<lambda>c. \<not> ?D c) cs) = length cs"
    by (rule sum_length_filter_compl)
  moreover have "t_is_dir c \<and> (\<exists>t d s. t_file c = Holds (PyDict d) \<and> map_of d ''started'' = Some (PyStr s) \<and>
      parse_utc s = Some t \<and> of_int (t + days * 86400) < now)" if "?D c" for c
  proof -
    from that obtain t where "t_is_dir c" "started_of (t_file c) = Some t" "of_int t < ?cut"
      by (auto simp: expired_dir_def split: option.splits)
    moreover from this(2) obtain d s where "t_file c = Holds (PyDict d)" "map_of d ''started'' = Some (PyStr s)"
        "parse_utc s = Some t"
      by (auto simp: started_of_def read_json_lenient_def split: json_file.splits pyval.splits option.splits)
    ultimately show ?thesis by (auto simp: algebra_simps)
  qed
  ultimately show ?thesis using n k by (intro conjI exI [of _ ?D]) auto
qed

theorem prune_never_guesses_witness:
  "\<exists>n kept. prune (Some [\<lparr>t_name = ''h-1'', t_is_dir = True, t_file = Unreadable, t_removal_fails = False\<rparr>,
      \<lparr>t_name = ''h-2'', t_is_dir = True, t_file = Holds (PyDict [(''started'', PyStr ''2026-01-01T00:00:00Z'')]),
        t_removal_fails = False\<rparr>]) 14 63910000000 = Inr (n, Some kept) \<and> n + length kept = 2"
proof -
  let ?a = "\<lparr>t_name = ''h-1'', t_is_dir = True, t_file = Unreadable, t_removal_fails = False\<rparr>"
  let ?b = "\<lparr>t_name = ''h-2'', t_is_dir = True, t_file = Holds (PyDict [(''started'', PyStr ''2026-01-01T00:00:00Z'')]),
    t_removal_fails = False\<rparr>"
  have "prune (Some [?a, ?b]) 14 63910000000 = Inr (1, Some [?a])" by code_simp
  from prune_never_guesses [OF this] this show ?thesis by auto
qed

end
