(* ===== verification/Hands_Keep.thy ===== *)
theory Hands_Keep
  imports Hands_Ids Gate_Interfaces
begin

text \<open>
  \<open>hands/src/firekeep_hands/keep.py\<close>: the best-effort link to the Keep. A call is a service, a tool
  and its arguments; what \<open>call_tool\<close> answers (or that it raises) is the function \<open>ask\<close> of the calls
  sent so far and the call, so it stands for any Keep and any network. The link carries the list of
  the calls it sent. Every method returns what the code returns, never an exception.
\<close>

section \<open>Calls\<close>

record tool_call =
  service :: string
  tool :: string
  arguments :: pydict

datatype outcome = Answer pyval | Raises string

type_synonym keep = "tool_call list \<Rightarrow> tool_call \<Rightarrow> outcome"

record keep_decision =
  kdecision :: "string option"
  kreason :: string

record link =
  k_agent :: string
  k_machine :: string
  k_offline :: bool
  k_session :: string
  last_decision :: keep_decision
  fencing_token :: pyval
  holds_lease :: bool
  lease_ttl :: int
  reclaimed_once :: bool
  sent :: "tool_call list"

definition ACTION_TYPE :: string where "ACTION_TYPE = ''other''"
definition HANDS_MARKER :: string where "HANDS_MARKER = ''hands_task''"
definition MAX_PREVIEW :: nat where "MAX_PREVIEW = 2048"
definition MAX_INTENT :: nat where "MAX_INTENT = 512"
definition PERMIT_TITLE_SCAN :: int where "PERMIT_TITLE_SCAN = 20"
definition DEFAULT_LEASE_TTL :: int where "DEFAULT_LEASE_TTL = 30"

definition no_decision :: keep_decision where
  "no_decision = \<lparr>kdecision = None, kreason = []\<rparr>"

definition blocked :: "keep_decision \<Rightarrow> bool" where
  "blocked d \<longleftrightarrow> kdecision d = Some ''block''"

text \<open>An explicit \<open>offline\<close> wins; otherwise the environment switch, or having no Keep configured\<close>

definition new_link :: "string \<Rightarrow> string \<Rightarrow> bool option \<Rightarrow> bool \<Rightarrow> bool \<Rightarrow> string \<Rightarrow> link" where
  "new_link agent machine offline env_offline no_keep session =
     \<lparr>k_agent = agent, k_machine = machine,
      k_offline = (case offline of Some b \<Rightarrow> b | None \<Rightarrow> env_offline \<or> no_keep),
      k_session = session, last_decision = no_decision, fencing_token = PyInt 0, holds_lease = False,
      lease_ttl = DEFAULT_LEASE_TTL, reclaimed_once = False, sent = []\<rparr>"

definition call :: "keep \<Rightarrow> string \<Rightarrow> string \<Rightarrow> pydict \<Rightarrow> link \<Rightarrow> pydict option \<times> link" where
  "call ask svc t args l =
     (if k_offline l then (None, l)
      else let c = \<lparr>service = svc, tool = t, arguments = args\<rparr>
           in ((case ask (sent l) c of Answer (PyDict d) \<Rightarrow> Some d | _ \<Rightarrow> None), l\<lparr>sent := sent l @ [c]\<rparr>))"

section \<open>Reading the answers\<close>

definition answer_from_task :: "(rat \<Rightarrow> string) \<Rightarrow> pydict \<Rightarrow> string option" where
  "answer_from_task fl task =
     (case get_val task ''status'' of
        PyStr st \<Rightarrow>
          if st = ''completed''
          then (let text = py_lower (py_strip (str_or fl (get_val task ''result'') []))
                in Some (if starts_with text ''approve'' then ''approve'' else ''deny''))
          else if st \<in> {''cancelled'', ''failed'', ''rejected''} then Some ''deny''
          else if st \<in> {''pending'', ''in-progress'', ''working'', ''input-required''} then Some ''pending''
          else None
      | _ \<Rightarrow> None)"

definition advisory_message :: "(rat \<Rightarrow> string) \<Rightarrow> pyval \<Rightarrow> string list" where
  "advisory_message fl a =
     (case a of
        PyDict d \<Rightarrow> (let m = py_strip (str_or fl (get_val d ''message'') []) in if m = [] then [] else [m])
      | _ \<Rightarrow> [])"

definition decision_from :: "(rat \<Rightarrow> string) \<Rightarrow> pydict option \<Rightarrow> keep_decision" where
  "decision_from fl result =
     (case result of
        None \<Rightarrow> no_decision
      | Some d \<Rightarrow>
          (case get_val d ''decision'' of
             PyStr dec \<Rightarrow>
               \<lparr>kdecision = Some dec,
                kreason = (case get_val d ''advisories'' of
                             PyList as \<Rightarrow> py_join ''; '' (concat (map (advisory_message fl) as)) | _ \<Rightarrow> [])\<rparr>
           | _ \<Rightarrow> no_decision))"

section \<open>Provenance\<close>

definition preview_text :: "string list \<Rightarrow> string" where
  "preview_text app_names =
     (let joined = py_join '', '' app_names
      in if joined \<noteq> [] then HANDS_MARKER @ '' '' @ [CHR 0xB7] @ '' apps: '' @ joined else HANDS_MARKER)"

definition before_arguments :: "link \<Rightarrow> string \<Rightarrow> string \<Rightarrow> string list \<Rightarrow> pydict" where
  "before_arguments l goal task_id app_names =
     [(''session_id'', PyStr (if k_session l \<noteq> [] then k_session l else task_id)),
      (''agent_id'', PyStr (k_agent l)), (''action_type'', PyStr ACTION_TYPE),
      (''target'', PyStr (''desktop:'' @ k_machine l)),
      (''preview'', PyStr (take MAX_PREVIEW (preview_text app_names))),
      (''intent'', PyStr (take MAX_INTENT goal)),
      (''success_criteria'', PyList [PyStr ''task ends with outcome=done'']),
      (''confidence'', PyFloat (3 / 5))]"

text \<open>The id cortex minted, \<open>None\<close> where there is none\<close>

definition action_before ::
  "(rat \<Rightarrow> string) \<Rightarrow> keep \<Rightarrow> string \<Rightarrow> string \<Rightarrow> string list \<Rightarrow> link \<Rightarrow> pyval \<times> link" where
  "action_before fl ask goal task_id app_names l =
     (case call ask ''cortex'' ''action_before'' (before_arguments l goal task_id app_names) l of
        (result, l) \<Rightarrow>
          ((case result of None \<Rightarrow> PyNone | Some d \<Rightarrow> get_val d ''action_id''),
           l\<lparr>last_decision := decision_from fl result\<rparr>))"

definition action_after :: "keep \<Rightarrow> pyval \<Rightarrow> string \<Rightarrow> string \<Rightarrow> link \<Rightarrow> link" where
  "action_after ask action_id outcome summary l =
     (if action_id = PyNone then l
      else snd (call ask ''cortex'' ''action_after''
        [(''action_id'', action_id), (''success'', PyBool (outcome = ''done'')),
         (''deviation_notes'', PyStr (take 500 (outcome @ '': '' @ summary)))] l))"

section \<open>The machine lease\<close>

definition resource :: "link \<Rightarrow> string" where
  "resource l = ''hands:'' @ k_machine l"

definition lease_call :: "keep \<Rightarrow> int \<Rightarrow> link \<Rightarrow> pydict option \<times> link" where
  "lease_call ask ttl_minutes l =
     call ask ''relay'' ''relay_lease''
       [(''resource_id'', PyStr (resource l)), (''agent_id'', PyStr (k_agent l)),
        (''ttl_minutes'', PyInt ttl_minutes)] l"

definition release_call :: "keep \<Rightarrow> pyval \<Rightarrow> link \<Rightarrow> link" where
  "release_call ask token l =
     snd (call ask ''relay'' ''relay_release''
       [(''resource_id'', PyStr (resource l)), (''agent_id'', PyStr (k_agent l)),
        (''fencing_token'', token)] l)"

definition own_stale_lease :: "link \<Rightarrow> pydict option \<Rightarrow> bool" where
  "own_stale_lease l result \<longleftrightarrow>
     (case result of
        None \<Rightarrow> False
      | Some d \<Rightarrow> get_val d ''acquired'' = PyBool False \<and> get_val d ''held_by'' = PyStr (k_agent l))"

definition acquired :: "pydict \<Rightarrow> bool" where
  \<comment> \<open>\<open>result.get("acquired", True)\<close>\<close>
  "acquired d \<longleftrightarrow> (case map_of d ''acquired'' of None \<Rightarrow> True | Some v \<Rightarrow> truthy v)"

definition adopt_lease :: "pydict option \<Rightarrow> link \<Rightarrow> link" where
  "adopt_lease result l =
     (case result of
        None \<Rightarrow> l
      | Some d \<Rightarrow>
          if acquired d
          then l\<lparr>fencing_token := (case map_of d ''fencing_token'' of None \<Rightarrow> fencing_token l | Some t \<Rightarrow> t),
                 holds_lease := True\<rparr>
          else l\<lparr>holds_lease := False\<rparr>)"

definition acquire_lease :: "keep \<Rightarrow> int \<Rightarrow> bool \<Rightarrow> link \<Rightarrow> pydict option \<times> link" where
  "acquire_lease ask ttl_minutes reclaim_own l0 =
     (let (result, l) = lease_call ask ttl_minutes (l0\<lparr>lease_ttl := ttl_minutes\<rparr>);
          (result, l) =
            (if reclaim_own \<and> \<not> reclaimed_once l \<and> own_stale_lease l result
             then lease_call ask ttl_minutes
                    (release_call ask (get_val (the result) ''fencing_token'') (l\<lparr>reclaimed_once := True\<rparr>))
             else (result, l))
      in (result, adopt_lease result l))"

definition renew_lease :: "keep \<Rightarrow> link \<Rightarrow> link" where
  "renew_lease ask l =
     (if \<not> holds_lease l then l
      else snd (call ask ''relay'' ''relay_heartbeat''
        [(''resource_id'', PyStr (resource l)), (''fencing_token'', fencing_token l),
         (''agent_id'', PyStr (k_agent l))] l))"

definition release_lease :: "keep \<Rightarrow> link \<Rightarrow> bool \<times> link" where
  "release_lease ask l =
     (if \<not> holds_lease l then (False, l)
      else (True, (release_call ask (fencing_token l) l)\<lparr>holds_lease := False\<rparr>))"

section \<open>Permit tasks\<close>

definition permit_description :: "string \<Rightarrow> string list \<Rightarrow> string \<Rightarrow> int \<Rightarrow> string \<Rightarrow> string" where
  "permit_description title classes task_id step expires_at =
     (let classes_text = py_join '', '' classes
      in ''Approve or deny '' @ [CHR 0x27] @ title @ [CHR 0x27] @ '' ['' @
         (if classes_text = [] then ''none'' else classes_text) @ ''] for task '' @ task_id @ '' step '' @
         str_of_int step @ ''; expires '' @ expires_at @ ''.'')"

definition post_permit_task ::
  "(rat \<Rightarrow> string) \<Rightarrow> keep \<Rightarrow> string \<Rightarrow> string \<Rightarrow> string list \<Rightarrow> string \<Rightarrow> int \<Rightarrow> string \<Rightarrow> link \<Rightarrow>
   pydict option \<times> link" where
  "post_permit_task fl ask challenge title classes task_id step expires_at l =
     (case call ask ''relay'' ''relay_task_post''
        [(''title'', PyStr (''hands_permit:'' @ challenge)), (''assigner'', PyStr (k_agent l)),
         (''description'', PyStr (permit_description title classes task_id step expires_at)),
         (''priority'', PyStr ''high''),
         (''context'', PyStr (enc_spaced fl (PyDict
            [(''title'', PyStr title), (''classes'', PyList (map PyStr classes)), (''task_id'', PyStr task_id),
             (''step_index'', PyInt step), (''expires_at'', PyStr expires_at)])))] l of
        (result, l) \<Rightarrow>
          ((case result of
              None \<Rightarrow> None
            | Some d \<Rightarrow> (case get_val d ''task'' of
                           PyDict task \<Rightarrow> if truthy (get_val task ''id'') then Some task else None | _ \<Rightarrow> None)), l))"

definition task_with_id :: "string \<Rightarrow> pyval list \<Rightarrow> pydict option" where
  "task_with_id task_id tasks =
     (case find (\<lambda>t. case t of PyDict d \<Rightarrow> get_val d ''id'' = PyStr task_id | _ \<Rightarrow> False) tasks of
        Some (PyDict d) \<Rightarrow> Some d | _ \<Rightarrow> None)"

definition permit_task :: "keep \<Rightarrow> string \<Rightarrow> string \<Rightarrow> link \<Rightarrow> pydict option \<times> link" where
  "permit_task ask challenge task_id l =
     (case call ask ''relay'' ''relay_task_list''
        [(''title'', PyStr (''hands_permit:'' @ challenge)), (''limit'', PyInt PERMIT_TITLE_SCAN)] l of
        (result, l) \<Rightarrow>
          ((case result of
              None \<Rightarrow> None
            | Some d \<Rightarrow> (case get_val d ''tasks'' of PyList ts \<Rightarrow> task_with_id task_id ts | _ \<Rightarrow> None)), l))"

definition close_permit_task :: "keep \<Rightarrow> string \<Rightarrow> string \<Rightarrow> link \<Rightarrow> link" where
  "close_permit_task ask task_id result l =
     snd (call ask ''relay'' ''relay_task_update''
       [(''task_id'', PyStr task_id), (''status'', PyStr ''cancelled''), (''result'', PyStr result)] l)"

section \<open>The link as a machine\<close>

datatype link_op =
    L_Acquire int bool
  | L_Renew
  | L_Release
  | L_Before string string "string list"
  | L_After pyval string string
  | L_Post string string "string list" string int string
  | L_Read string string
  | L_CloseTask string string

fun link_step :: "(rat \<Rightarrow> string) \<Rightarrow> keep \<Rightarrow> link_op \<Rightarrow> link \<Rightarrow> link" where
  "link_step fl ask (L_Acquire ttl_minutes reclaim_own) l = snd (acquire_lease ask ttl_minutes reclaim_own l)"
| "link_step fl ask L_Renew l = renew_lease ask l"
| "link_step fl ask L_Release l = snd (release_lease ask l)"
| "link_step fl ask (L_Before goal task app_names) l = snd (action_before fl ask goal task app_names l)"
| "link_step fl ask (L_After i outcome summary) l = action_after ask i outcome summary l"
| "link_step fl ask (L_Post c t cls task n e) l = snd (post_permit_task fl ask c t cls task n e l)"
| "link_step fl ask (L_Read c task) l = snd (permit_task ask c task l)"
| "link_step fl ask (L_CloseTask task result) l = close_permit_task ask task result l"

text \<open>What the Keep answered to the \<open>i\<close>-th call, where that was an answer to a lease request\<close>

definition lease_reply :: "keep \<Rightarrow> tool_call list \<Rightarrow> nat \<Rightarrow> pydict option" where
  "lease_reply ask cs i =
     (if i < length cs \<and> tool (cs ! i) = ''relay_lease''
      then (case ask (take i cs) (cs ! i) of Answer (PyDict d) \<Rightarrow> Some d | _ \<Rightarrow> None) else None)"

text \<open>The tokens the Keep gave this link, and those it showed as held under this link's own agent id\<close>

definition given_tokens :: "keep \<Rightarrow> tool_call list \<Rightarrow> pyval set" where
  "given_tokens ask cs =
     {t. \<exists>i d. lease_reply ask cs i = Some d \<and> acquired d \<and> map_of d ''fencing_token'' = Some t}"

definition own_stale_tokens :: "keep \<Rightarrow> string \<Rightarrow> tool_call list \<Rightarrow> pyval set" where
  "own_stale_tokens ask agent cs =
     {t. \<exists>i d. lease_reply ask cs i = Some d \<and> get_val d ''acquired'' = PyBool False \<and>
            get_val d ''held_by'' = PyStr agent \<and> get_val d ''fencing_token'' = t}"

definition token_of :: "tool_call \<Rightarrow> pyval" where
  "token_of c = get_val (arguments c) ''fencing_token''"

definition own_tokens_only :: "keep \<Rightarrow> link \<Rightarrow> bool" where
  "own_tokens_only ask l \<longleftrightarrow>
     (\<forall>c \<in> set (sent l).
        (tool c = ''relay_heartbeat'' \<longrightarrow> token_of c \<in> insert (PyInt 0) (given_tokens ask (sent l))) \<and>
        (tool c = ''relay_release'' \<longrightarrow> token_of c \<in> insert (PyInt 0) (given_tokens ask (sent l)) \<union>
           own_stale_tokens ask (k_agent l) (sent l)))"

definition releases :: "link \<Rightarrow> nat" where
  "releases l = length (filter (\<lambda>c. tool c = ''relay_release'') (sent l))"

lemma lease_reply_snoc: "lease_reply ask cs i = Some d \<Longrightarrow> lease_reply ask (cs @ [c]) i = Some d"
  by (auto simp: lease_reply_def nth_append split: if_splits)

lemma tokens_snoc:
  "given_tokens ask cs \<subseteq> given_tokens ask (cs @ [c])"
  "own_stale_tokens ask a cs \<subseteq> own_stale_tokens ask a (cs @ [c])"
  by (auto simp: given_tokens_def own_stale_tokens_def dest: lease_reply_snoc)

lemma call_cases:
  obtains (offline) "k_offline l" "call ask svc t args l = (None, l)"
  | (sent) c where "\<not> k_offline l" "c = \<lparr>service = svc, tool = t, arguments = args\<rparr>"
      "snd (call ask svc t args l) = l\<lparr>sent := sent l @ [c]\<rparr>"
      "fst (call ask svc t args l) = (case ask (sent l) c of Answer (PyDict d) \<Rightarrow> Some d | _ \<Rightarrow> None)"
  using that by (cases "k_offline l") (simp_all add: call_def Let_def)

lemma call_fields [simp]:
  "k_agent (snd (call ask svc t args l)) = k_agent l" "k_offline (snd (call ask svc t args l)) = k_offline l"
  "fencing_token (snd (call ask svc t args l)) = fencing_token l"
  "holds_lease (snd (call ask svc t args l)) = holds_lease l"
  "reclaimed_once (snd (call ask svc t args l)) = reclaimed_once l"
  "k_machine (snd (call ask svc t args l)) = k_machine l" "k_session (snd (call ask svc t args l)) = k_session l"
  by (simp_all add: call_def Let_def)

text \<open>The invariant of a link, and calls that keep it\<close>

definition link_ok :: "keep \<Rightarrow> link \<Rightarrow> bool" where
  "link_ok ask l \<longleftrightarrow> own_tokens_only ask l \<and> fencing_token l \<in> insert (PyInt 0) (given_tokens ask (sent l))"

lemma link_ok_call:
  assumes ok: "link_ok ask l"
    and hb: "t = ''relay_heartbeat'' \<Longrightarrow> get_val args ''fencing_token'' \<in> insert (PyInt 0) (given_tokens ask (sent l))"
    and rel: "t = ''relay_release'' \<Longrightarrow> get_val args ''fencing_token'' \<in>
      insert (PyInt 0) (given_tokens ask (sent l)) \<union> own_stale_tokens ask (k_agent l) (sent l)"
  shows "link_ok ask (snd (call ask svc t args l))"
proof (cases rule: call_cases [of l ask svc t args])
  case offline
  with ok show ?thesis by simp
next
  case (sent c)
  have c: "tool c = t" "token_of c = get_val args ''fencing_token''"
    by (simp_all add: sent(2) token_of_def)
  show ?thesis
    unfolding sent(3) link_ok_def own_tokens_only_def
    using ok hb rel tokens_snoc(1) [of ask "link.sent l" c] tokens_snoc(2) [of ask "k_agent l" "link.sent l" c] c
    by (auto simp: link_ok_def own_tokens_only_def)
qed

lemma link_ok_update [simp]:
  "link_ok ask (l\<lparr>last_decision := d\<rparr>) = link_ok ask l" "link_ok ask (l\<lparr>holds_lease := b\<rparr>) = link_ok ask l"
  "link_ok ask (l\<lparr>reclaimed_once := b\<rparr>) = link_ok ask l" "link_ok ask (l\<lparr>lease_ttl := n\<rparr>) = link_ok ask l"
  by (simp_all add: link_ok_def own_tokens_only_def)

lemma lease_call_reply:
  assumes "fst (lease_call ask n l) = Some d"
  shows "\<exists>i. lease_reply ask (sent (snd (lease_call ask n l))) i = Some d"
proof (cases rule: call_cases [of l ask "''relay''" "''relay_lease''"
      "[(''resource_id'', PyStr (resource l)), (''agent_id'', PyStr (k_agent l)), (''ttl_minutes'', PyInt n)]"])
  case offline
  with assms show ?thesis by (simp add: lease_call_def)
next
  case (sent c)
  have "lease_reply ask (link.sent l @ [c]) (length (link.sent l)) = Some d"
    using assms sent(2,4) by (simp add: lease_call_def lease_reply_def nth_append)
  with sent(3) show ?thesis by (auto simp: lease_call_def)
qed

lemma lease_call_ok: "link_ok ask l \<Longrightarrow> link_ok ask (snd (lease_call ask n l))"
  unfolding lease_call_def by (rule link_ok_call) simp_all

lemma adopt_lease_ok:
  assumes "link_ok ask l" and "\<And>d. result = Some d \<Longrightarrow> \<exists>i. lease_reply ask (sent l) i = Some d"
  shows "link_ok ask (adopt_lease result l)"
proof (cases result)
  case (Some d)
  with assms(2) obtain i where "lease_reply ask (sent l) i = Some d" by blast
  with Some assms(1) show ?thesis
    by (auto simp: adopt_lease_def link_ok_def own_tokens_only_def given_tokens_def split: option.split)
qed (use assms in \<open>simp add: adopt_lease_def\<close>)

lemma acquire_lease_ok:
  assumes ok: "link_ok ask l0"
  shows "link_ok ask (snd (acquire_lease ask n r l0))"
proof -
  obtain result l where first: "lease_call ask n (l0\<lparr>lease_ttl := n\<rparr>) = (result, l)"
    by (cases "lease_call ask n (l0\<lparr>lease_ttl := n\<rparr>)")
  have l: "link_ok ask l"
    using lease_call_ok [of ask "l0\<lparr>lease_ttl := n\<rparr>" n] ok first by simp
  show ?thesis
  proof (cases "r \<and> \<not> reclaimed_once l \<and> own_stale_lease l result")
    case False
    have "\<exists>i. lease_reply ask (sent l) i = Some d" if "result = Some d" for d
      using lease_call_reply [of ask n "l0\<lparr>lease_ttl := n\<rparr>" d] first that by simp
    with l False show ?thesis
      by (auto simp: acquire_lease_def first Let_def intro: adopt_lease_ok)
  next
    case True
    then obtain d where d: "result = Some d" "get_val d ''acquired'' = PyBool False"
      "get_val d ''held_by'' = PyStr (k_agent l)"
      by (auto simp: own_stale_lease_def split: option.splits)
    then obtain i where "lease_reply ask (sent l) i = Some d"
      using lease_call_reply [of ask n "l0\<lparr>lease_ttl := n\<rparr>" d] first by auto
    with d have stale: "get_val d ''fencing_token'' \<in> own_stale_tokens ask (k_agent l) (sent l)"
      by (auto simp: own_stale_tokens_def)
    let ?l1 = "release_call ask (get_val d ''fencing_token'') (l\<lparr>reclaimed_once := True\<rparr>)"
    have "link_ok ask ?l1"
      unfolding release_call_def by (rule link_ok_call) (use l stale in \<open>simp_all add: get_val_def\<close>)
    then have l2: "link_ok ask (snd (lease_call ask n ?l1))" by (rule lease_call_ok)
    obtain r2 l2 where second: "lease_call ask n ?l1 = (r2, l2)" by (cases "lease_call ask n ?l1")
    have "\<exists>i. lease_reply ask (sent l2) i = Some e" if "r2 = Some e" for e
      using lease_call_reply [of ask n ?l1 e] second that by simp
    with l2 second True d(1) show ?thesis
      by (auto simp: acquire_lease_def first Let_def intro: adopt_lease_ok)
  qed
qed

lemma link_step_ok: "link_ok ask l \<Longrightarrow> link_ok ask (link_step fl ask x l)"
proof (cases x)
  case (L_Acquire n r)
  then show "link_ok ask l \<Longrightarrow> ?thesis" by (simp add: acquire_lease_ok)
next
  case L_Renew
  then show "link_ok ask l \<Longrightarrow> ?thesis"
    by (auto simp: renew_lease_def get_val_def link_ok_def [of ask l] intro!: link_ok_call)
next
  case L_Release
  then show "link_ok ask l \<Longrightarrow> ?thesis"
    by (auto simp: release_lease_def release_call_def get_val_def link_ok_def [of ask l] intro!: link_ok_call)
qed (auto simp: action_before_def action_after_def post_permit_task_def permit_task_def close_permit_task_def
      case_prod_beta intro!: link_ok_call)

interpretation keep_link: invariant_machine "link_ok ask" "link_step fl ask" for ask fl
  by unfold_locales (rule link_step_ok)

section \<open>How many releases are sent\<close>

lemma releases_call:
  "releases (snd (call ask svc t args l)) \<le> releases l + (if t = ''relay_release'' then 1 else 0)"
  by (simp add: call_def releases_def Let_def)

lemma releases_call_other: "t \<noteq> ''relay_release'' \<Longrightarrow> releases (snd (call ask svc t args l)) = releases l"
  by (simp add: call_def releases_def Let_def)

lemma releases_update [simp]:
  "releases (l\<lparr>last_decision := d\<rparr>) = releases l" "releases (l\<lparr>holds_lease := b\<rparr>) = releases l"
  "releases (l\<lparr>reclaimed_once := b\<rparr>) = releases l" "releases (l\<lparr>lease_ttl := n\<rparr>) = releases l"
  "releases (l\<lparr>fencing_token := t\<rparr>) = releases l"
  by (simp_all add: releases_def)

lemma adopt_lease_fields [simp]:
  "releases (adopt_lease r l) = releases l" "reclaimed_once (adopt_lease r l) = reclaimed_once l"
  "sent (adopt_lease r l) = sent l" "k_offline (adopt_lease r l) = k_offline l"
  by (simp_all add: adopt_lease_def releases_def split: option.split)

definition spare_reclaim :: "link \<Rightarrow> nat" where
  "spare_reclaim l = (if reclaimed_once l then 0 else 1)"

lemma lease_call_fields [simp]:
  "releases (snd (lease_call ask n l)) = releases l" "reclaimed_once (snd (lease_call ask n l)) = reclaimed_once l"
  by (simp_all add: lease_call_def releases_call_other)

lemma release_call_fields [simp]:
  "releases (release_call ask t l) \<le> Suc (releases l)" "reclaimed_once (release_call ask t l) = reclaimed_once l"
  using releases_call [of ask "''relay''" "''relay_release''" _ l] by (simp_all add: release_call_def)

lemma acquire_releases:
  "releases (snd (acquire_lease ask n r l)) + spare_reclaim (snd (acquire_lease ask n r l)) \<le>
     releases l + spare_reclaim l"
proof -
  let ?l0 = "l\<lparr>lease_ttl := n\<rparr>"
  let ?r1 = "fst (lease_call ask n ?l0)"
  let ?l1 = "snd (lease_call ask n ?l0)"
  show ?thesis
    using release_call_fields(1) [of ask "get_val (the ?r1) ''fencing_token''" "?l1\<lparr>reclaimed_once := True\<rparr>"]
    by (cases "r \<and> \<not> reclaimed_once ?l1 \<and> own_stale_lease ?l1 ?r1")
      (simp_all add: acquire_lease_def Let_def case_prod_beta spare_reclaim_def)
qed

definition releasing :: "link_op \<Rightarrow> link \<Rightarrow> bool" where
  "releasing x l \<longleftrightarrow> x = L_Release \<and> holds_lease l"

lemma link_step_releases:
  "releases (link_step fl ask x l) + spare_reclaim (link_step fl ask x l) \<le>
     releases l + spare_reclaim l + (if releasing x l then 1 else 0)"
proof (cases x)
  case (L_Acquire n r)
  then show ?thesis using acquire_releases [of ask n r l] by (simp add: releasing_def)
next
  case L_Release
  then show ?thesis
    using release_call_fields(1) [of ask "fencing_token l" l]
    by (simp add: release_lease_def releasing_def spare_reclaim_def)
qed (simp_all add: renew_lease_def action_before_def action_after_def post_permit_task_def permit_task_def
      close_permit_task_def case_prod_beta spare_reclaim_def releases_call_other)

lemma run_releases:
  "releases (run_ops (link_step fl ask) ops l) \<le>
     releases l + spare_reclaim l + tally (link_step fl ask) releasing ops l"
proof (induction ops arbitrary: l)
  case (Cons x ops)
  from Cons.IH [of "link_step fl ask x l"] link_step_releases [of fl ask x l] show ?case by simp
qed simp

section \<open>Properties of the link\<close>

text \<open>
  C29. A link never acts on another holder's lease: whatever the Keep answers and in whatever order
  the link is used, every heartbeat it sends carries a fencing token the Keep granted to this link
  (or the initial zero), and every release carries such a token or one the Keep showed as held under
  this link's own agent id.
\<close>

theorem link_uses_only_its_own_tokens:
  assumes "c \<in> set (sent (run_ops (link_step fl ask) ops (new_link agent machine off env_off no_keep session)))"
  shows "let l = run_ops (link_step fl ask) ops (new_link agent machine off env_off no_keep session);
             given = insert (PyInt 0) (given_tokens ask (sent l))
         in (tool c = ''relay_heartbeat'' \<longrightarrow> token_of c \<in> given) \<and>
            (tool c = ''relay_release'' \<longrightarrow> token_of c \<in> given \<union> own_stale_tokens ask (k_agent l) (sent l))"
proof -
  have "link_ok ask (new_link agent machine off env_off no_keep session)"
    by (simp add: link_ok_def own_tokens_only_def new_link_def)
  from keep_link.inv_run [OF this, of fl ops] assms show ?thesis
    by (auto simp: link_ok_def own_tokens_only_def Let_def)
qed

definition example_keep :: keep where
  "example_keep cs c =
     (if tool c = ''relay_lease'' then Answer (PyDict [(''acquired'', PyBool True), (''fencing_token'', PyInt 7)])
      else Raises ''down'')"

theorem link_uses_only_its_own_tokens_witness:
  "let l = run_ops (link_step example_float example_keep) [L_Acquire 30 True, L_Renew]
             (new_link ''a'' ''m'' None False False [])
   in \<exists>c \<in> set (sent l). tool c = ''relay_heartbeat'' \<and> token_of c = PyInt 7 \<and>
        token_of c \<in> insert (PyInt 0) (given_tokens example_keep (sent l))"
proof -
  let ?l = "run_ops (link_step example_float example_keep) [L_Acquire 30 True, L_Renew]
    (new_link ''a'' ''m'' None False False [])"
  let ?c = "\<lparr>service = ''relay'', tool = ''relay_heartbeat'', arguments =
    [(''resource_id'', PyStr ''hands:m''), (''fencing_token'', PyInt 7), (''agent_id'', PyStr ''a'')]\<rparr>"
  have "sent ?l ! 1 = ?c" and "length (sent ?l) = 2" by code_simp+
  then have c: "?c \<in> set (sent ?l)" by (metis nth_mem one_less_numeral_iff semiring_norm(76))
  from link_uses_only_its_own_tokens [OF c]
  have "tool ?c = ''relay_heartbeat'' \<longrightarrow> token_of ?c \<in> insert (PyInt 0) (given_tokens example_keep (sent ?l))"
    unfolding Let_def by blast
  with c show ?thesis unfolding Let_def by (intro bexI [of _ ?c]) (simp_all add: token_of_def get_val_def)
qed

text \<open>
  A retrying caller cannot rob a live peer again and again: over any history a link sends at most
  one release more than \<open>release_lease\<close> was called while the lease was held.
\<close>

theorem at_most_one_reclaim:
  "releases (run_ops (link_step fl ask) ops (new_link agent machine off env_off no_keep session)) \<le>
     Suc (tally (link_step fl ask) releasing ops (new_link agent machine off env_off no_keep session))"
  using run_releases [of fl ask ops "new_link agent machine off env_off no_keep session"]
  by (simp add: new_link_def releases_def spare_reclaim_def)

end
