(* ===== verification/Hands_Step.thy ===== *)
theory Hands_Step
  imports Hands_Client Hands_Policy Hands_Routing Hands_Evidence Hands_Keep
begin

text \<open>
  The pure parts of \<open>hands/src/firekeep_hands/session.py\<close>: the sentence a permit shows and the names it
  covers, the description of a page's control, the redaction of the ledger's copy, and the shapes of
  tool results. A screenshot in a result is its bytes, held as a text.
\<close>

section \<open>Texts shown to a person\<close>

definition title_limit :: nat where "title_limit = 60"

definition clean :: "nat \<Rightarrow> string \<Rightarrow> string" where
  "clean limit t =
     (let c = py_join '' '' (py_split (filter is_printable t))
      in if length c \<le> limit then c else take (limit - 3) c @ ''...'')"

definition quoted :: "string \<Rightarrow> string" where
  "quoted t = CHR 0x22 # t @ [CHR 0x22]"

definition broker_down :: string where
  "broker_down = ''approval broker unreachable -- protected step refused; run `firekeep hands status`''"

definition or_else :: "string \<Rightarrow> string \<Rightarrow> string" where
  \<comment> \<open>\<open>a or b\<close> on texts\<close>
  "or_else a b = (if a \<noteq> [] then a else b)"

definition browser_host :: "string \<Rightarrow> py_exc + string" where
  "browser_host page_url = bindR (url_hostname page_url) (\<lambda>h.
     Inr (clean 40 (or_else (case h of None \<Rightarrow> [] | Some h \<Rightarrow> h) ''an unnamed site'')))"

text \<open>\<open>_titled\<close>: the title, and exactly the apps and hosts it puts in front of the human\<close>

definition window_where :: "window_info option \<Rightarrow> string" where
  "window_where w =
     or_else (clean 40 (or_else (window_app w) (case w of None \<Rightarrow> [] | Some w \<Rightarrow> wtitle w))) ''this machine''"

definition one_name :: "string \<Rightarrow> string list" where
  "one_name s = (if s \<noteq> [] then [s] else [])"

definition titled_control ::
  "routed \<Rightarrow> control \<Rightarrow> window_info option \<Rightarrow> string list \<Rightarrow> string \<Rightarrow> py_exc + string \<times> string list \<times> string list" where
  "titled_control r c w classes page_url =
     (if rroute r = InBrowser
      then bindR (browser_host page_url) (\<lambda>host.
        Inr (kind_name (rkind r) @ '' '' @ quoted (clean title_limit (cname c)) @ '' on '' @ host @
               (if ''boundary'' \<in> set classes then '' (in the browser)'' else []), [browser_app], []))
      else
        (let target = or_else (capp c) (window_app w);
             base = kind_name (rkind r) @ '' '' @ quoted (clean title_limit (cname c)) @ '' in '' @
               or_else (clean 40 target) (window_where w)
         in Inr (base @
              (if capp c \<noteq> [] \<and> window_app w \<noteq> [] \<and> py_lower (capp c) \<noteq> py_lower (window_app w)
               then '' (window: '' @ clean 40 (window_app w) @ '')'' else []),
              one_name target, [])))"

definition titled ::
  "routed \<Rightarrow> window_info option \<Rightarrow> string list \<Rightarrow> string \<Rightarrow> py_exc + string \<times> string list \<times> string list" where
  "titled r w classes page_url =
     (case rcontrol r of
        Some c \<Rightarrow> titled_control r c w classes page_url
      | None \<Rightarrow>
         (case rkind r of
            OpenUrl \<Rightarrow> bindR (url_hostname (get_str (rpayload r) ''url'')) (\<lambda>h.
              let host = (case h of None \<Rightarrow> [] | Some h \<Rightarrow> h)
              in Inr (''open '' @ clean title_limit (or_else host ''an unnamed host'') @ '' in the browser'', [], one_name host))
          | OpenApp \<Rightarrow> (let app = get_str (rpayload r) ''app''
              in Inr (''open the app the runtime asked for: '' @ quoted (clean title_limit app),
                      if py_strip app \<noteq> [] then [app] else [], []))
          | FocusApp \<Rightarrow> (let app = get_str (rpayload r) ''app''
              in Inr (''switch to the app the runtime asked for: '' @ quoted (clean title_limit app),
                      if py_strip app \<noteq> [] then [app] else [], []))
          | Key \<Rightarrow> Inr (''press the keys the runtime asked for: '' @
              quoted (clean 24 (get_str (rpayload r) ''chord'')) @ '' in '' @ window_where w, one_name (window_app w), [])
          | TypeText \<Rightarrow> Inr (''type text into '' @ window_where w, one_name (window_app w), [])
          | ClipboardSet \<Rightarrow> Inr (''set the clipboard on '' @ window_where w, one_name (window_app w), [])
          | k \<Rightarrow> Inr (kind_name k @ '' in '' @ window_where w, one_name (window_app w), [])))"

section \<open>The controls of a page\<close>

definition browser_roles :: "(string \<times> string) list" where
  "browser_roles = [(''password'', ''PasswordBox'')]"

definition fillable_roles :: "string list" where
  "fillable_roles = [''password'', ''input'', ''textarea'', ''textbox'', ''searchbox'', ''combobox'']"

text \<open>\<open>list(v)\<close>\<close>

definition as_items :: "pyval \<Rightarrow> py_exc + pyval list" where
  "as_items v = (case v of PyList vs \<Rightarrow> Inr vs | PyStr s \<Rightarrow> Inr (map (\<lambda>c. PyStr [c]) s)
     | PyDict d \<Rightarrow> Inr (map (\<lambda>(k, _). PyStr k) d)
     | _ \<Rightarrow> Inl (OtherError (CHR 0x27 # type_name v @ CHR 0x27 # '' object is not iterable'')))"

definition as_int :: "pyval \<Rightarrow> py_exc + int" where
  "as_int v = (case py_int v of Some i \<Rightarrow> Inr i | None \<Rightarrow> Inl (OtherError ''not an integer''))"

fun as_ints :: "pyval list \<Rightarrow> py_exc + int list" where
  "as_ints [] = Inr []"
| "as_ints (v # vs) = bindR (as_int v) (\<lambda>i. bindR (as_ints vs) (\<lambda>is. Inr (i # is)))"

definition text_of :: "(rat \<Rightarrow> string) \<Rightarrow> pydict \<Rightarrow> string \<Rightarrow> string" where
  \<comment> \<open>\<open>str(d.get(k, ""))\<close>\<close>
  "text_of fl d k = py_str fl (get_or d k (PyStr []))"

definition rect_of :: "pyval \<Rightarrow> py_exc + rect" where
  "rect_of v =
     bindR (as_items (if truthy v then v else PyList [PyInt 0, PyInt 0, PyInt 0, PyInt 0])) (\<lambda>vs.
     bindR (as_ints (take 4 (take 4 vs @ replicate 4 (PyInt 0)))) (\<lambda>is.
       Inr \<lparr>rx = is ! 0, ry = is ! 1, rw = is ! 2, rh = is ! 3\<rparr>))"

definition browser_control ::
  "(rat \<Rightarrow> string) \<Rightarrow> (string \<times> pydict) list \<Rightarrow> string \<Rightarrow> py_exc + control option" where
  "browser_control fl scan r =
     (case map_of scan r of
        None \<Rightarrow> Inr None
      | Some found \<Rightarrow>
          (let role' = text_of fl found ''role''; name = text_of fl found ''name'';
               val = or_else (text_of fl found ''value'') (if name = [] then text_of fl found ''href'' else [])
           in bindR (rect_of (get_val found ''rect'')) (\<lambda>rc.
                Inr (Some \<lparr>ref = r, role = (case map_of browser_roles role' of None \<Rightarrow> role' | Some x \<Rightarrow> x),
                   cname = name, cvalue = val, crect = rc, capp = browser_app,
                   patterns = (if role' \<in> set fillable_roles then [''Value''] else [''Invoke'']), enabled = True\<rparr>))))"

definition browser_action :: "string \<Rightarrow> pydict \<Rightarrow> pydict" where
  "browser_action op kwargs =
     foldl (\<lambda>d (k, v). AList.update k v d) [(''kind'', PyStr (''browser.'' @ op))]
       (filter (\<lambda>(k, v). k \<noteq> ''permit'' \<and> v \<noteq> PyNone) kwargs)"

definition browser_result_keys :: "string list" where
  "browser_result_keys = [''loaded'', ''url'', ''title'', ''text'', ''controls'', ''tabs'', ''screenshot_png'']"

definition browser_payload :: "pydict option \<Rightarrow> pydict" where
  "browser_payload p = (case p of None \<Rightarrow> [] | Some d \<Rightarrow> filter (\<lambda>(k, v). k \<in> set browser_result_keys) d)"

text \<open>\<open>result.update(extra)\<close>\<close>

definition merged :: "pydict \<Rightarrow> pydict \<Rightarrow> pydict" where
  "merged d extra = foldl (\<lambda>d (k, v). AList.update k v d) d extra"

definition first_tab :: "pydict \<Rightarrow> pydict" where
  "first_tab payload = (case get_val payload ''tabs'' of PyList (PyDict d # _) \<Rightarrow> d | _ \<Rightarrow> [])"

section \<open>Redaction\<close>

definition secret_roles :: "string list" where
  "secret_roles = [''PasswordBox'', ''AXSecureTextField'']"

definition secret_keys :: "string list" where "secret_keys = [''text'', ''value'']"
definition secret_kinds :: "string list" where "secret_kinds = [''type'', ''set_value'', ''browser.fill'']"
definition redacted :: string where "redacted = ''<redacted:credential>''"

definition redact :: "pydict \<Rightarrow> string list \<Rightarrow> control option \<Rightarrow> pydict" where
  "redact action classes c =
     (if get_val action ''kind'' \<notin> PyStr ` set secret_kinds then action
      else if ''credential'' \<notin> set classes \<and> (case c of None \<Rightarrow> True | Some c \<Rightarrow> role c \<notin> set secret_roles)
      then action
      else map (\<lambda>(k, v). (k, if k \<in> set secret_keys then PyStr redacted else v)) action)"

section \<open>Results\<close>

fun exc_str :: "py_exc \<Rightarrow> string" where
  "exc_str (HandsError code t) = code @ '': '' @ t"
| "exc_str (OtherError t) = t"

definition refusal_of :: "string \<Rightarrow> pydict" where
  "refusal_of t = [(''ok'', PyBool False), (''error'', PyStr t)]"

definition texts :: "string list \<Rightarrow> pyval" where
  "texts ss = PyList (map PyStr ss)"

definition rect_json :: "rect \<Rightarrow> pyval" where
  "rect_json r = PyList [PyInt (rx r), PyInt (ry r), PyInt (rw r), PyInt (rh r)]"

definition control_json :: "control \<Rightarrow> pyval" where
  "control_json c = PyDict [(''ref'', PyStr (ref c)), (''role'', PyStr (role c)), (''name'', PyStr (cname c)),
     (''value'', PyStr (cvalue c)), (''rect'', rect_json (crect c)), (''app'', PyStr (capp c)), (''enabled'', PyBool (enabled c))]"

definition window_json :: "window_info option \<Rightarrow> pyval" where
  "window_json w = (case w of None \<Rightarrow> PyNone
     | Some w \<Rightarrow> PyDict [(''app'', PyStr (wapp w)), (''title'', PyStr (wtitle w)), (''pid'', PyInt (wpid w)),
         (''rect'', rect_json (wrect w)), (''elevated'', PyBool (elevated w))])"

definition clamp :: "pyval \<Rightarrow> int \<Rightarrow> int \<Rightarrow> py_exc + int" where
  "clamp v alt most =
     (case v of PyNone \<Rightarrow> Inr alt | PyInt i \<Rightarrow> Inr (max 1 (min i most))
      | _ \<Rightarrow> Inl (HandsError ''invalid_action'' (''expected a whole number, not '' @ type_name v)))"

definition find_limit_ceiling :: int where "find_limit_ceiling = 50"

definition window_centre :: "window_info option \<Rightarrow> py_exc + point" where
  "window_centre w = (case w of None \<Rightarrow> Inl (HandsError ''not_found'' ''there is no active window to scroll'')
     | Some w \<Rightarrow> Inr (center (wrect w)))"

definition lease_refusal :: "(rat \<Rightarrow> string) \<Rightarrow> pydict \<Rightarrow> rat \<Rightarrow> py_exc + string" where
  "lease_refusal fl lease now =
     (let holder = str_or fl (get_val lease ''held_by'') ''another session''
      in case py_int (get_val lease ''expires_in'') of
           None \<Rightarrow> Inr (''hands is leased by '' @ holder @ '' -- wait for it to lapse or end that session'')
         | Some s \<Rightarrow>
             (let t = \<lfloor>now + of_int (max 0 s)\<rfloor>
              in if end_of_time \<le> t then Inl (OtherError ''date value out of range'')
                 else Inr (''hands is leased by '' @ holder @ '' until '' @ format_utc t @
                        '' -- wait for it to lapse or end that session'')))"

section \<open>What the texts promise\<close>

lemma split_words_printable:
  "list_all P acc \<Longrightarrow> list_all P s \<Longrightarrow> w \<in> set (split_words acc s) \<Longrightarrow> list_all P w"
  by (induction acc s rule: split_words.induct) (auto split: if_splits simp: list_all_iff)

lemma py_join_all: "list_all P sep \<Longrightarrow> \<forall>w \<in> set ws. list_all P w \<Longrightarrow> list_all P (py_join sep ws)"
  by (induction sep ws rule: py_join.induct) auto

lemma py_split_printable: "list_all P s \<Longrightarrow> w \<in> set (py_split s) \<Longrightarrow> list_all P w"
  unfolding py_split_def by (rule split_words_printable [of P "[]"]) simp_all

lemma clean_printable: "list_all is_printable (clean n t)"
proof -
  have dots: "list_all is_printable ''...''" and sp: "list_all is_printable '' ''" by code_simp+
  have "list_all is_printable (filter is_printable t)" by (simp add: list_all_iff)
  then have "\<forall>w \<in> set (py_split (filter is_printable t)). list_all is_printable w"
    by (blast intro: py_split_printable)
  then have joined: "list_all is_printable (py_join '' '' (py_split (filter is_printable t)))"
    by (rule py_join_all [OF sp])
  have "list_all is_printable (take m xs @ ''...'')" if "list_all is_printable xs" for m xs
    using that dots by (auto simp: list_all_iff dest: in_set_takeD)
  with joined show ?thesis by (simp add: clean_def Let_def del: list_all_append)
qed

lemma clean_length: "3 \<le> n \<Longrightarrow> length (clean n t) \<le> n"
  by (auto simp: clean_def Let_def)

end
