(* ===== verification/Hands_Session.thy ===== *)
theory Hands_Session
  imports Hands_Step
begin

text \<open>
  \<open>hands/src/firekeep_hands/session.py\<close>: the state machine of one task. A session carries its own
  fields, the link to the Keep, the broker's process it talks to over the loopback, and the trace of
  everything it asked of the outside. What the outside does is the environment: each oracle is a
  function of the trace so far, so it stands for any desktop, browser, policy file, disk, clock and
  network.
\<close>

section \<open>The outside\<close>

datatype desk_call =
    D_Invoke control | D_Set_Value control string | D_Click "point option" string bool
  | D_Type string | D_Press string | D_Scroll point pyval | D_Focus string | D_Open string | D_Clipboard string

datatype web_call =
    W_Open | W_Tabs | W_Navigate string | W_Read pyval int | W_Find string pyval int
  | W_Click string pyval | W_Fill string string pyval | W_Shot pyval int | W_Url pyval | W_Ensure string pyval

text \<open>
  The trace: a window read, a scan, a search, an action on the desktop, a call to the browser, a sleep,
  a look at a file or a clock, an exchange with the broker, a write to the ledger. \<open>E_Consumed\<close> notes
  the answer of \<open>broker.consume\<close>.
\<close>

datatype event =
    E_Window | E_Scan "string option" bool | E_Search string | E_Desk desk_call | E_Web web_call
  | E_Sleep rat | E_Look | E_Exchange http_method string | E_Consumed string bool | E_Ledger

type_synonym trace = "event list"

record browser_oracle =
  br_open :: "trace \<Rightarrow> py_exc + pydict"
  br_tabs :: "trace \<Rightarrow> py_exc + pydict list"
  br_page :: "trace \<Rightarrow> web_call \<Rightarrow> py_exc + pydict"
  br_find :: "trace \<Rightarrow> web_call \<Rightarrow> py_exc + pydict list"
  br_act :: "trace \<Rightarrow> web_call \<Rightarrow> py_exc option"
  br_shot :: "trace \<Rightarrow> web_call \<Rightarrow> py_exc + bytes"
  br_url :: "trace \<Rightarrow> web_call \<Rightarrow> py_exc + string"

record env =
  x_cfg :: hands_config
  x_machine :: string
  x_session :: string
  x_darwin :: bool
  x_sha :: "string \<Rightarrow> string"
  x_sha_bytes :: "bytes \<Rightarrow> string"
  x_float :: "rat \<Rightarrow> string"
  x_lib :: stdlib
  x_quote :: "string \<Rightarrow> string"
  x_dumps :: "pyval \<Rightarrow> string"
  x_broker :: broker
  x_port :: int
  x_around :: surroundings
  x_up :: "trace \<Rightarrow> bool"
  x_info :: "trace \<Rightarrow> pyval option"
  x_keep :: keep
  x_clock :: "trace \<Rightarrow> rat"
  x_mtime :: "trace \<Rightarrow> rat option"
  x_policy :: "trace \<Rightarrow> py_exc + policy"
  x_window :: "trace \<Rightarrow> py_exc + window_info option"
  x_observe :: "trace \<Rightarrow> py_exc + observation"
  x_find :: "trace \<Rightarrow> py_exc + control list"
  x_desk :: "trace \<Rightarrow> desk_call \<Rightarrow> py_exc option"
  x_browser :: "browser_oracle option"
  x_fault :: "trace \<Rightarrow> write_fault"
  x_close_fault :: "trace \<Rightarrow> string option"
  x_note_fault :: "trace \<Rightarrow> bool"
  x_open_fault :: "trace \<Rightarrow> string option"
  x_task_id :: "trace \<Rightarrow> string"
  x_evidence :: "trace \<Rightarrow> task_dir list option"
  x_dir :: "string \<Rightarrow> string"
  x_defrag :: "string \<Rightarrow> string"
  x_platform :: string
  x_backend :: string
  x_permissions :: pydict

record session =
  ss_policy :: policy
  ss_mtime :: "rat option"
  ss_broker :: "(int \<times> string) option"
  ss_link :: link
  ss_task :: "string option"
  ss_goal :: string
  ss_apps :: "string list"
  ss_hosts :: "string list"
  ss_ledger :: "ledger option"
  ss_action_id :: pyval
  ss_step :: int
  ss_obs :: "observation option"
  ss_last_task :: "pydict option"
  ss_hint :: "control option"
  ss_scan :: "(string \<times> pydict) list"
  ss_page :: "string \<times> string"
  ss_srv :: served
  ss_trace :: trace

definition new_session :: "policy \<Rightarrow> rat option \<Rightarrow> (int \<times> string) option \<Rightarrow> link \<Rightarrow> served \<Rightarrow> session" where
  "new_session p mtime client l srv =
     \<lparr>ss_policy = p, ss_mtime = mtime, ss_broker = client, ss_link = l, ss_task = None, ss_goal = [], ss_apps = [],
      ss_hosts = [], ss_ledger = None, ss_action_id = PyNone, ss_step = 0, ss_obs = None, ss_last_task = None,
      ss_hint = None, ss_scan = [], ss_page = ([], []), ss_srv = srv, ss_trace = []\<rparr>"

definition log_event :: "event \<Rightarrow> session \<Rightarrow> session" where
  "log_event e w = w\<lparr>ss_trace := ss_trace w @ [e]\<rparr>"

definition ask :: "(trace \<Rightarrow> 'a) \<Rightarrow> event \<Rightarrow> session \<Rightarrow> 'a \<times> session" where
  "ask f e w = (f (ss_trace w), log_event e w)"

text \<open>An oracle that only acts: \<open>Inr\<close> when it did not raise\<close>

definition acted :: "py_exc option \<Rightarrow> py_exc + unit" where
  "acted r = (case r of None \<Rightarrow> Inr () | Some e \<Rightarrow> Inl e)"

definition desk :: "env \<Rightarrow> desk_call \<Rightarrow> session \<Rightarrow> (py_exc + unit) \<times> session" where
  "desk x c w = ask (\<lambda>t. acted (x_desk x t c)) (E_Desk c) w"

definition no_browser :: py_exc where
  "no_browser = HandsError ''unsupported'' ''no browser is available in this session''"

definition web :: "env \<Rightarrow> (browser_oracle \<Rightarrow> trace \<Rightarrow> py_exc + 'a) \<Rightarrow> web_call \<Rightarrow> session \<Rightarrow> (py_exc + 'a) \<times> session" where
  "web x f c w = (case x_browser x of None \<Rightarrow> (Inl no_browser, w) | Some br \<Rightarrow> ask (f br) (E_Web c) w)"

text \<open>Sequencing: the second step runs when the first did not raise\<close>

definition thenS :: "(py_exc + 'a) \<times> session \<Rightarrow> ('a \<Rightarrow> session \<Rightarrow> (py_exc + 'b) \<times> session) \<Rightarrow> (py_exc + 'b) \<times> session" where
  "thenS r f = (case r of (Inl e, w) \<Rightarrow> (Inl e, w) | (Inr a, w) \<Rightarrow> f a w)"

section \<open>The broker's client\<close>

definition link_up :: "env \<Rightarrow> int \<Rightarrow> session \<Rightarrow> bool" where
  "link_up x port w \<longleftrightarrow> x_up x (ss_trace w) \<and> port = x_port x"

definition wire_to :: "env \<Rightarrow> int \<times> string \<Rightarrow> session transport" where
  "wire_to x client m path body w =
     (case client of (port, token) \<Rightarrow>
       let up = link_up x port w; w = log_event (E_Exchange m path) w
       in if \<not> up then (Unreached, w)
          else (case loopback (x_lib x) (x_broker x) (x_around x) token (x_dumps x) m path body (ss_srv w) of
                  (r, srv) \<Rightarrow> (r, w\<lparr>ss_srv := srv\<rparr>)))"

definition ensure_broker :: "env \<Rightarrow> session \<Rightarrow> (int \<times> string) option \<times> session" where
  "ensure_broker x w =
     (case ss_broker w of
        Some c \<Rightarrow> (Some c, w)
      | None \<Rightarrow>
          (case ask (\<lambda>t. broker_info (x_float x) (x_info x t)) E_Look w of
             (None, w) \<Rightarrow> (None, w)
           | (Some c, w) \<Rightarrow>
               (case client_health (wire_to x c) w of
                  (None, w) \<Rightarrow> (None, w)
                | (Some d, w) \<Rightarrow> (Some c, w\<lparr>ss_broker := Some c\<rparr>))))"

definition consume_via :: "env \<Rightarrow> int \<times> string \<Rightarrow> string \<Rightarrow> session \<Rightarrow> bool \<times> session" where
  "consume_via x c challenge w =
     (case client_consume (wire_to x c) (x_quote x) challenge w of
        (ok, w) \<Rightarrow> (ok, log_event (E_Consumed challenge ok) w))"

section \<open>The policy file, the guards, the end of a step\<close>

definition refresh_policy :: "env \<Rightarrow> session \<Rightarrow> session" where
  "refresh_policy x w =
     (let (mtime, w) = ask (x_mtime x) E_Look w
      in if mtime = ss_mtime w then w
         else (case ask (x_policy x) E_Look w of
                 (Inl e, w) \<Rightarrow> w | (Inr p, w) \<Rightarrow> w\<lparr>ss_policy := p, ss_mtime := mtime\<rparr>))"

definition no_task :: "session \<Rightarrow> pydict option" where
  "no_task w = (if ss_task w = None then Some (refusal_of ''no_task: call hands_task_start first'') else None)"

definition step_guard :: "env \<Rightarrow> session \<Rightarrow> pydict option" where
  "step_guard x w =
     (case no_task w of
        Some d \<Rightarrow> Some d
      | None \<Rightarrow> if max_steps (x_cfg x) \<le> ss_step w
                then Some (refusal_of (''budget: this task has used its '' @ str_of_int (max_steps (x_cfg x)) @
                       '' step budget; call hands_task_end''))
                else None)"

definition renew_every :: int where "renew_every = 10"

definition advance :: "env \<Rightarrow> session \<Rightarrow> session" where
  "advance x w =
     (let w = (if ss_step w \<noteq> 0 \<and> ss_step w mod renew_every = 0
               then w\<lparr>ss_link := renew_lease (x_keep x) (ss_link w)\<rparr> else w)
      in w\<lparr>ss_step := ss_step w + 1, ss_obs := None\<rparr>)"

definition reset :: "session \<Rightarrow> session" where
  "reset w = w\<lparr>ss_task := None, ss_goal := [], ss_apps := [], ss_hosts := [], ss_ledger := None,
     ss_action_id := PyNone, ss_step := 0, ss_obs := None, ss_hint := None, ss_scan := [], ss_page := ([], [])\<rparr>"

section \<open>The gate\<close>

definition decision_classes :: "decision \<Rightarrow> string list" where
  "decision_classes d = map cls_name (dclasses d)"

datatype gate = Refused pydict | Granted pydict "string list" "string list"

definition broker_refusal :: "decision \<Rightarrow> pydict" where
  "broker_refusal d = refusal_of broker_down @ [(''classes'', texts (decision_classes d))]"

definition tampered_text :: string where
  "tampered_text = ''permit_tampered: a permit for this step already existed with a different description; refusing''"

text \<open>\<open>list(reply.get("classes") or [])\<close> against the classes; a JSON array arrives as a list\<close>

definition tampered :: "pydict option \<Rightarrow> string \<Rightarrow> decision \<Rightarrow> pydict option" where
  "tampered reply title d =
     (case reply of
        None \<Rightarrow> None
      | Some r \<Rightarrow>
          if get_val r ''title'' = PyStr title \<and>
             (if truthy (get_val r ''classes'') then get_val r ''classes'' else PyList []) = texts (decision_classes d)
          then None
          else Some (refusal_of tampered_text @ [(''classes'', texts (decision_classes d))]))"

definition challenge_of :: "env \<Rightarrow> session \<Rightarrow> pydict \<Rightarrow> string" where
  "challenge_of x w action =
     challenge_id_for (x_sha x) (x_machine x) (x_session x) (the (ss_task w)) (ss_step w)
       (action_hash (x_sha x) (x_float x) action)"

definition needs_permit :: "env \<Rightarrow> string \<Rightarrow> string \<Rightarrow> decision \<Rightarrow> pyval" where
  "needs_permit x challenge title d = PyDict
     [(''challenge'', PyStr challenge), (''title'', PyStr title), (''classes'', texts (decision_classes d)),
      (''reason'', PyStr (dreason d)), (''expires_in_s'', PyInt (permit_ttl_s (x_cfg x)))]"

definition ask_permit ::
  "env \<Rightarrow> int \<times> string \<Rightarrow> string \<Rightarrow> string \<Rightarrow> decision \<Rightarrow> session \<Rightarrow> gate \<times> session" where
  "ask_permit x c challenge title d w =
     (case client_request (wire_to x c)
             [(''challenge'', PyStr challenge), (''title'', PyStr title), (''classes'', texts (decision_classes d)),
              (''task_id'', PyStr (the (ss_task w))), (''step_index'', PyInt (ss_step w))] w of
        (reply, w) \<Rightarrow>
          if get_val reply ''state'' \<in> {PyStr ''unreachable'', PyStr ''error''}
          then (Refused (broker_refusal d), w\<lparr>ss_broker := None\<rparr>)
          else (case tampered (Some reply) title d of
                  Some t \<Rightarrow> (Refused t, w)
                | None \<Rightarrow> (Refused [(''ok'', PyBool False), (''needs_permit'', needs_permit x challenge title d)], w)))"

definition spend_permit ::
  "env \<Rightarrow> int \<times> string \<Rightarrow> string \<Rightarrow> string \<Rightarrow> string list \<Rightarrow> string list \<Rightarrow> decision \<Rightarrow> session \<Rightarrow> gate \<times> session" where
  "spend_permit x c challenge title widen_apps widen_hosts d w =
     (case client_get (wire_to x c) (x_quote x) challenge w of
        (held, w) \<Rightarrow>
          (case tampered held title d of
             Some t \<Rightarrow> (Refused t, w)
           | None \<Rightarrow>
               (case consume_via x c challenge w of
                  (False, w) \<Rightarrow>
                    (Refused (refusal_of ''permit not approved, expired or already used'' @
                        [(''needs_permit'', needs_permit x challenge title d)]), w)
                | (True, w) \<Rightarrow>
                    (case client_get (wire_to x c) (x_quote x) challenge w of
                       (granted, w) \<Rightarrow>
                         (Granted [(''challenge'', PyStr challenge),
                                   (''via'', get_val (case granted of None \<Rightarrow> [] | Some g \<Rightarrow> g) ''via'')]
                            widen_apps widen_hosts, w)))))"

definition gate_step ::
  "env \<Rightarrow> pydict \<Rightarrow> routed \<Rightarrow> window_info option \<Rightarrow> decision \<Rightarrow> string option \<Rightarrow> session \<Rightarrow> (py_exc + gate) \<times> session" where
  "gate_step x action r win d permit w =
     (case ensure_broker x w of
        (None, w) \<Rightarrow> (Inr (Refused (broker_refusal d)), w)
      | (Some c, w) \<Rightarrow>
          (case titled r win (decision_classes d) (fst (ss_page w)) of
             Inl e \<Rightarrow> (Inl e, w)
           | Inr (title, widen_apps, widen_hosts) \<Rightarrow>
               (let challenge = challenge_of x w action;
                    (g, w) = (if permit \<noteq> Some challenge then ask_permit x c challenge title d w
                              else spend_permit x c challenge title widen_apps widen_hosts d w)
                in (Inr g, w))))"

definition widen_names :: "string list \<Rightarrow> string list \<Rightarrow> string list" where
  "widen_names new names = foldl (\<lambda>ns n. if n \<noteq> [] \<and> \<not> named n ns then ns @ [n] else ns) names new"

definition widen :: "string list \<Rightarrow> string list \<Rightarrow> decision \<Rightarrow> session \<Rightarrow> session" where
  "widen new_apps new_hosts d w =
     (if Boundary \<notin> set (dclasses d) then w
      else w\<lparr>ss_apps := widen_names new_apps (ss_apps w), ss_hosts := widen_names new_hosts (ss_hosts w)\<rparr>)"

section \<open>Executing a step\<close>

definition seconds_of :: "pydict \<Rightarrow> rat" where
  "seconds_of d = (case as_number (get_val d ''seconds'') of None \<Rightarrow> 0 | Some q \<Rightarrow> q)"

definition page_of :: "(rat \<Rightarrow> string) \<Rightarrow> pydict \<Rightarrow> string \<times> string" where
  "page_of fl d = (str_or fl (get_val d ''url'') [], str_or fl (get_val d ''title'') [])"

definition remember_page :: "env \<Rightarrow> pydict \<Rightarrow> session \<Rightarrow> session" where
  "remember_page x d w =
     (if has_key d ''url'' \<or> has_key d ''title'' then w\<lparr>ss_page := page_of (x_float x) d\<rparr> else w)"

definition done_with :: "(py_exc + unit) \<times> session \<Rightarrow> (py_exc + pydict option) \<times> session" where
  "done_with r = thenS r (\<lambda>_ w. (Inr None, w))"

definition execute :: "env \<Rightarrow> routed \<Rightarrow> window_info option \<Rightarrow> session \<Rightarrow> (py_exc + pydict option) \<times> session" where
  "execute x r win w =
     (let p = rpayload r; c = the (rcontrol r) in
      case rkind r of
        Invoke \<Rightarrow> done_with (if rroute r = Accessibility then desk x (D_Invoke c) w
                             else desk x (D_Click (rpoint r) ''left'' False) w)
      | SetValue \<Rightarrow> done_with (if rroute r = Accessibility then desk x (D_Set_Value c (get_str p ''value'')) w
                               else thenS (desk x (D_Click (rpoint r) ''left'' False) w) (\<lambda>_ w.
                                    thenS (desk x (D_Press (if x_darwin x then ''cmd+a'' else ''ctrl+a'')) w) (\<lambda>_ w.
                                          desk x (D_Type (get_str p ''value'')) w)))
      | Click \<Rightarrow> done_with (desk x (D_Click (rpoint r)
                    (case map_of p ''button'' of Some (PyStr b) \<Rightarrow> b | _ \<Rightarrow> ''left'') (truthy (get_val p ''double''))) w)
      | TypeText \<Rightarrow> done_with (desk x (D_Type (get_str p ''text'')) w)
      | Key \<Rightarrow> done_with (desk x (D_Press (get_str p ''chord'')) w)
      | Scroll \<Rightarrow> (case (case rpoint r of Some pt \<Rightarrow> Inr pt | None \<Rightarrow> window_centre win) of
                     Inl e \<Rightarrow> (Inl e, w)
                   | Inr pt \<Rightarrow> done_with (desk x (D_Scroll pt (get_val p ''dy'')) w))
      | FocusApp \<Rightarrow> done_with (desk x (D_Focus (get_str p ''app'')) w)
      | OpenApp \<Rightarrow> done_with (desk x (D_Open (get_str p ''app'')) w)
      | OpenUrl \<Rightarrow>
          thenS (web x (\<lambda>br t. br_page br t (W_Navigate (get_str p ''url''))) (W_Navigate (get_str p ''url'')) w)
            (\<lambda>d w. (Inr (Some d), remember_page x d (w\<lparr>ss_scan := []\<rparr>)))
      | ClipboardSet \<Rightarrow> done_with (desk x (D_Clipboard (get_str p ''text'')) w)
      | Wait \<Rightarrow> (Inr None, log_event (E_Sleep (max 0 (min 10 (seconds_of p)))) w))"

definition update_focus_hint :: "routed \<Rightarrow> session \<Rightarrow> session" where
  "update_focus_hint r w =
     (if rkind r \<in> {Click, Invoke, SetValue} \<and> rcontrol r \<noteq> None then w\<lparr>ss_hint := rcontrol r\<rparr>
      else if rkind r \<in> {FocusApp, OpenApp} then w\<lparr>ss_hint := None\<rparr> else w)"

text \<open>A screenshot for the evidence; a failure gives none\<close>

definition capture :: "env \<Rightarrow> bool \<Rightarrow> pyval \<Rightarrow> session \<Rightarrow> bytes option \<times> session" where
  "capture x via_browser tab w =
     (let width = screenshot_max_width (x_cfg x) in
      if via_browser
      then (case web x (\<lambda>br t. br_shot br t (W_Shot tab width)) (W_Shot tab width) w of
              (Inl e, w) \<Rightarrow> (None, w) | (Inr b, w) \<Rightarrow> (Some b, w))
      else (case ask (x_observe x) (E_Scan None True) w of
              (Inl e, w) \<Rightarrow> (None, w) | (Inr ob, w) \<Rightarrow> (screenshot_png ob, w)))"

definition capture_if :: "env \<Rightarrow> bool \<Rightarrow> bool \<Rightarrow> pyval \<Rightarrow> session \<Rightarrow> bytes option \<times> session" where
  "capture_if x keep_it via_browser tab w = (if keep_it then capture x via_browser tab w else (None, w))"

text \<open>\<open>_record\<close>: the message where the write failed\<close>

definition record_in_ledger ::
  "env \<Rightarrow> pydict \<Rightarrow> string \<Rightarrow> string list \<Rightarrow> pydict option \<Rightarrow> bytes option \<Rightarrow> bytes option \<Rightarrow> string \<Rightarrow> string option \<Rightarrow>
   session \<Rightarrow> string option \<times> session" where
  "record_in_ledger x action route_name classes permit before after outcome error w =
     (let a = \<lparr>s_index = ss_step w, s_action = action, s_route = route_name, s_classes = classes, s_permit = permit,
               s_before = before, s_after = after, s_outcome = outcome, s_error = error\<rparr>;
          iso = format_utc \<lfloor>x_clock x (ss_trace w)\<rfloor>;
          (r, l) = record_step (x_sha x) (x_sha_bytes x) (x_float x) (x_fault x (ss_trace w)) iso a (the (ss_ledger w));
          w = (log_event E_Ledger w)\<lparr>ss_ledger := Some l\<rparr>
      in (case r of
            Inl e \<Rightarrow> (Some (''step '' @ str_of_int (ss_step w) @ '' ran but was not recorded: '' @ exc_text e), w)
          | Inr _ \<Rightarrow> (None, w)))"

text \<open>The outcome and the error of an attempt, as the ledger and the result spell them\<close>

definition attempt_error :: "(py_exc + 'a) \<Rightarrow> string option" where
  "attempt_error r =
     (case r of Inr _ \<Rightarrow> None | Inl (HandsError c t) \<Rightarrow> Some (c @ '': '' @ t) | Inl (OtherError t) \<Rightarrow> Some (''backend: '' @ t))"

definition attempt_outcome :: "(py_exc + 'a) \<Rightarrow> string" where
  "attempt_outcome r = (case r of Inr _ \<Rightarrow> ''ok'' | Inl _ \<Rightarrow> ''error'')"

definition with_evidence_error :: "string option \<Rightarrow> pydict \<Rightarrow> pydict" where
  "with_evidence_error e d = (case e of None \<Rightarrow> d | Some t \<Rightarrow> AList.update ''evidence_error'' (PyStr t) d)"

text \<open>The part of \<open>act\<close> that costs a step: everything from the permit on\<close>

definition run_step ::
  "env \<Rightarrow> pydict \<Rightarrow> routed \<Rightarrow> window_info option \<Rightarrow> control option \<Rightarrow> decision \<Rightarrow> pydict option \<Rightarrow> session \<Rightarrow> pydict \<times> session" where
  "run_step x action r win c d permit w =
     (let in_browser = (rroute r = InBrowser); index = ss_step w;
          (before, w) = capture_if x (permit \<noteq> None) in_browser PyNone w;
          (out, w) = execute x r win w;
          (after, w) = capture_if x (permit \<noteq> None) in_browser PyNone w;
          w = (if attempt_error out = None then update_focus_hint r w else w);
          (lost, w) = record_in_ledger x (redact action (decision_classes d) c) (how_name (rroute r)) (decision_classes d)
                        permit before after (attempt_outcome out) (attempt_error out) w;
          w = advance x w
      in (with_evidence_error lost
            (merged [(''ok'', PyBool (attempt_error out = None)), (''step_index'', PyInt index),
                     (''route'', PyStr (how_name (rroute r))), (''classes'', texts (decision_classes d)),
                     (''error'', opt_str (attempt_error out))]
               (browser_payload (case out of Inl _ \<Rightarrow> None | Inr p \<Rightarrow> p))), w))"

definition url_field :: "pydict \<Rightarrow> string option" where
  "url_field d = (case map_of d ''url'' of Some (PyStr s) \<Rightarrow> Some s | _ \<Rightarrow> None)"

definition as_action :: "pyval \<Rightarrow> pydict" where
  "as_action v = (case v of PyDict d \<Rightarrow> d | _ \<Rightarrow> [])"

text \<open>What a step is judged against: typing has no control of its own\<close>

definition judged_control :: "routed \<Rightarrow> session \<Rightarrow> control option" where
  "judged_control r w = (if rcontrol r = None \<and> rkind r = TypeText then ss_hint w else rcontrol r)"

definition judge :: "env \<Rightarrow> pydict \<Rightarrow> routed \<Rightarrow> window_info option \<Rightarrow> session \<Rightarrow> py_exc + decision" where
  "judge x action r win w =
     Hands_Policy.decide action (judged_control r w) win (url_field action) (ss_policy w) (ss_apps w)
       (x_clock x (ss_trace w)) (ss_hosts w) False"

definition act :: "env \<Rightarrow> pyval \<Rightarrow> string option \<Rightarrow> session \<Rightarrow> (py_exc + pydict) \<times> session" where
  "act x action permit w =
     (case step_guard x w of
        Some d \<Rightarrow> (Inr d, w)
      | None \<Rightarrow>
         (let w = refresh_policy x w in
          case route action (ss_obs w) of
            Inl e \<Rightarrow> (Inr (refusal_of (exc_str e)), w)
          | Inr r \<Rightarrow>
             (case ask (x_window x) E_Window w of
                (Inl e, w) \<Rightarrow> (Inl e, w)
              | (Inr win, w) \<Rightarrow>
                 (case judge x (as_action action) r win w of
                    Inl e \<Rightarrow> (Inl e, w)
                  | Inr d \<Rightarrow>
                     if dverdict d = Permit
                     then (case gate_step x (as_action action) r win d permit w of
                             (Inl e, w) \<Rightarrow> (Inl e, w)
                           | (Inr (Refused g), w) \<Rightarrow> (Inr g, w)
                           | (Inr (Granted rec new_apps new_hosts), w) \<Rightarrow>
                               (case run_step x (as_action action) r win (judged_control r w) d (Some rec)
                                       (widen new_apps new_hosts d w) of (res, w) \<Rightarrow> (Inr res, w)))
                     else (case run_step x (as_action action) r win (judged_control r w) d None w of
                             (res, w) \<Rightarrow> (Inr res, w))))))"

end
