(* ===== verification/Hands_Task.thy ===== *)
theory Hands_Task
  imports Hands_Session
begin

text \<open>
  The rest of \<open>hands/src/firekeep_hands/session.py\<close>: perception, the browser steps, the wait for a permit,
  and the life of a task from \<open>task_start\<close> to \<open>task_end\<close> or \<open>abandon\<close>; then the session as a machine.
\<close>

section \<open>Perception\<close>

definition details :: "string list" where
  "details = [''summary'', ''controls'', ''screenshot'']"

definition observe ::
  "env \<Rightarrow> string \<Rightarrow> string option \<Rightarrow> int list option \<Rightarrow> pyval \<Rightarrow> session \<Rightarrow> (py_exc + pydict) \<times> session" where
  "observe x detail app region max_n w =
     (case no_task w of
        Some d \<Rightarrow> (Inr d, w)
      | None \<Rightarrow>
         if detail \<notin> set details
         then (Inl (HandsError ''invalid_action'' (''detail must be one of '' @ py_repr_list details)), w)
         else if (case region of None \<Rightarrow> False | Some r \<Rightarrow> r \<noteq> [] \<and> length r \<noteq> 4)
         then (Inl (OtherError ''wrong number of coordinates''), w)
         else (case clamp max_n (max_nodes (x_cfg x)) (max_nodes (x_cfg x)) of
                 Inl e \<Rightarrow> (Inl e, w)
               | Inr n \<Rightarrow>
                   thenS (ask (x_observe x) (E_Scan app (detail = ''screenshot'')) w) (\<lambda>ob w.
                     (Inr ([(''ok'', PyBool True), (''detail'', PyStr detail), (''window'', window_json (window ob)),
                            (''control_count'', PyInt (int (length (controls ob)))), (''text'', PyStr (otext ob)),
                            (''truncated'', PyBool (truncated ob))] @
                           (if detail \<noteq> ''summary'' then [(''controls'', PyList (map control_json (controls ob)))] else []) @
                           (case screenshot_png ob of None \<Rightarrow> [] | Some b \<Rightarrow> [(''screenshot_png'', PyStr b)])),
                      w\<lparr>ss_obs := Some ob\<rparr>))))"

text \<open>\<open>[fresh.pop(c.ref, c) for c in old]\<close>, and what is left of \<open>fresh\<close>\<close>

fun pop_refs :: "(string \<times> control) list \<Rightarrow> control list \<Rightarrow> control list \<times> (string \<times> control) list" where
  "pop_refs fresh [] = ([], fresh)"
| "pop_refs fresh (c # cs) =
     (case map_of fresh (ref c) of
        None \<Rightarrow> (case pop_refs fresh cs of (ms, f) \<Rightarrow> (c # ms, f))
      | Some c' \<Rightarrow> (case pop_refs (AList.delete (ref c) fresh) cs of (ms, f) \<Rightarrow> (c' # ms, f)))"

definition by_ref :: "control list \<Rightarrow> (string \<times> control) list" where
  "by_ref cs = foldl (\<lambda>d c. AList.update (ref c) c d) [] cs"

definition merge_controls :: "control list \<Rightarrow> control list \<Rightarrow> control list" where
  "merge_controls new old = (case pop_refs (by_ref new) old of (ms, f) \<Rightarrow> ms @ map snd f)"

definition merge_into_observation :: "env \<Rightarrow> control list \<Rightarrow> session \<Rightarrow> (py_exc + unit) \<times> session" where
  "merge_into_observation x cs w =
     (if cs = [] then (Inr (), w)
      else (case ss_obs w of
              None \<Rightarrow> thenS (ask (x_window x) E_Window w) (\<lambda>win w.
                 (Inr (), w\<lparr>ss_obs := Some \<lparr>generation = 0, window = win, controls = cs, otext = [],
                                          screenshot_png = None, truncated = False\<rparr>\<rparr>))
            | Some ob \<Rightarrow> (Inr (), w\<lparr>ss_obs := Some (ob\<lparr>controls := merge_controls cs (controls ob)\<rparr>)\<rparr>)))"

definition find_controls :: "env \<Rightarrow> string \<Rightarrow> pyval \<Rightarrow> session \<Rightarrow> (py_exc + pydict) \<times> session" where
  "find_controls x query limit w =
     (case no_task w of
        Some d \<Rightarrow> (Inr d, w)
      | None \<Rightarrow>
         (case clamp limit 10 find_limit_ceiling of
            Inl e \<Rightarrow> (Inl e, w)
          | Inr n \<Rightarrow>
              thenS (ask (x_find x) (E_Search query) w) (\<lambda>cs w.
                thenS (merge_into_observation x cs w) (\<lambda>_ w.
                  (Inr [(''ok'', PyBool True), (''count'', PyInt (int (length cs))),
                        (''controls'', PyList (map control_json cs))], w)))))"

section \<open>The browser\<close>

definition browser_direct :: "string list" where
  "browser_direct = [''open'', ''tabs'', ''read'', ''find'', ''click'', ''fill'', ''screenshot'']"

definition browser_navigate :: "string list" where
  "browser_navigate = [''navigate'', ''open_url'']"

datatype browser_gate = B_Refused pydict | B_Go decision "pydict option" control

definition policy_action :: "(rat \<Rightarrow> string) \<Rightarrow> string \<Rightarrow> string \<Rightarrow> pydict \<Rightarrow> pydict" where
  "policy_action fl op r kwargs =
     (if op = ''click'' then [(''kind'', PyStr ''click''), (''ref'', PyStr r)]
      else [(''kind'', PyStr ''set_value''), (''ref'', PyStr r), (''value'', PyStr (text_of fl kwargs ''text''))])"

definition permit_arg :: "pydict \<Rightarrow> string option" where
  "permit_arg kwargs = (case get_val kwargs ''permit'' of PyStr s \<Rightarrow> Some s | _ \<Rightarrow> None)"

definition page_window :: "string \<times> string \<Rightarrow> window_info" where
  "page_window page = \<lparr>wapp = browser_app, wtitle = snd page, wpid = 0,
     wrect = \<lparr>rx = 0, ry = 0, rw = 0, rh = 0\<rparr>, elevated = False\<rparr>"

definition ensure_clickable :: "env \<Rightarrow> string \<Rightarrow> string \<Rightarrow> pyval \<Rightarrow> session \<Rightarrow> (py_exc + unit) \<times> session" where
  "ensure_clickable x op r tab w =
     (if op = ''click'' then web x (\<lambda>br t. acted (br_act br t (W_Ensure r tab))) (W_Ensure r tab) w else (Inr (), w))"

definition gate_browser :: "env \<Rightarrow> string \<Rightarrow> pydict \<Rightarrow> pydict \<Rightarrow> session \<Rightarrow> (py_exc + browser_gate) \<times> session" where
  "gate_browser x op kwargs ledger_action w =
     (let r = text_of (x_float x) kwargs ''ref''
      in case browser_control (x_float x) (ss_scan w) r of
           Inl e \<Rightarrow> (Inl e, w)
         | Inr None \<Rightarrow> (Inr (B_Refused (refusal_of (''stale_ref: '' @ py_repr r @
                        '' is not in the current page scan; run hands_browser op=find again''))), w)
         | Inr (Some c) \<Rightarrow>
            (let action = policy_action (x_float x) op r kwargs; win = Some (page_window (ss_page w))
             in case Hands_Policy.decide action (Some c) win (Some (fst (ss_page w))) (ss_policy w) (ss_apps w)
                       (x_clock x (ss_trace w)) (ss_hosts w) True of
                  Inl e \<Rightarrow> (Inl e, w)
                | Inr d \<Rightarrow>
                   if dverdict d \<noteq> Permit then (Inr (B_Go d None c), w)
                   else (case ensure_clickable x op r (get_val kwargs ''tab'') w of
                           (Inl (HandsError code t), w) \<Rightarrow> (Inr (B_Refused (refusal_of (code @ '': '' @ t))), w)
                         | (Inl (OtherError t), w) \<Rightarrow> (Inl (OtherError t), w)
                         | (Inr _, w) \<Rightarrow>
                            (let r' = routed_step (if op = ''click'' then Click else SetValue) InBrowser (Some c) None []
                             in case gate_step x ledger_action r' win d (permit_arg kwargs) w of
                                  (Inl e, w) \<Rightarrow> (Inl e, w)
                                | (Inr (Refused g), w) \<Rightarrow> (Inr (B_Refused g), w)
                                | (Inr (Granted rec new_apps new_hosts), w) \<Rightarrow>
                                    (Inr (B_Go d (Some rec) c), widen new_apps new_hosts d w)))))"

definition browser_call :: "env \<Rightarrow> string \<Rightarrow> pydict \<Rightarrow> session \<Rightarrow> (py_exc + pydict) \<times> session" where
  "browser_call x op kwargs w =
     (let fl = x_float x; tab = get_val kwargs ''tab''; r = text_of fl kwargs ''ref''
      in if x_browser x = None then (Inl no_browser, w)
         else if op = ''open'' then web x br_open W_Open w
         else if op = ''tabs''
         then thenS (web x br_tabs W_Tabs w) (\<lambda>ts w. (Inr [(''tabs'', PyList (map PyDict ts))], w))
         else if op = ''read''
         then web x (\<lambda>br t. br_page br t (W_Read tab (text_budget (x_cfg x)))) (W_Read tab (text_budget (x_cfg x))) w
         else if op = ''find''
         then (case clamp (get_val kwargs ''limit'') 10 find_limit_ceiling of
                 Inl e \<Rightarrow> (Inl e, w)
               | Inr n \<Rightarrow>
                   (let call = W_Find (text_of fl kwargs ''query'') tab n
                    in thenS (web x (\<lambda>br t. br_find br t call) call w) (\<lambda>cs w.
                         (Inr [(''controls'', PyList (map PyDict cs))], w))))
         else if op = ''click''
         then thenS (web x (\<lambda>br t. acted (br_act br t (W_Click r tab))) (W_Click r tab) w) (\<lambda>_ w. (Inr [], w))
         else if op = ''fill''
         then (let call = W_Fill r (text_of fl kwargs ''text'') tab
               in thenS (web x (\<lambda>br t. acted (br_act br t call)) call w) (\<lambda>_ w. (Inr [], w)))
         else (let call = W_Shot tab (screenshot_max_width (x_cfg x))
               in thenS (web x (\<lambda>br t. br_shot br t call) call w) (\<lambda>b w. (Inr [(''screenshot_png'', PyStr b)], w))))"

definition refresh_page_url :: "env \<Rightarrow> pyval \<Rightarrow> session \<Rightarrow> session" where
  "refresh_page_url x tab w =
     (case web x (\<lambda>br t. br_url br t (W_Url tab)) (W_Url tab) w of
        (Inl e, w) \<Rightarrow> w
      | (Inr url, w) \<Rightarrow>
          w\<lparr>ss_page := (url, if x_defrag x url = x_defrag x (fst (ss_page w)) then snd (ss_page w) else [])\<rparr>)"

definition scan_of :: "(rat \<Rightarrow> string) \<Rightarrow> pydict \<Rightarrow> (string \<times> pydict) list" where
  "scan_of fl payload =
     (case get_val payload ''controls'' of
        PyList cs \<Rightarrow>
          foldl (\<lambda>d c. case c of PyDict k \<Rightarrow> if truthy (get_val k ''ref'')
                                             then AList.update (py_str fl (get_val k ''ref'')) k d else d | _ \<Rightarrow> d) [] cs
      | _ \<Rightarrow> [])"

definition after_browser_op :: "env \<Rightarrow> string \<Rightarrow> pyval \<Rightarrow> pydict \<Rightarrow> control option \<Rightarrow> session \<Rightarrow> session" where
  "after_browser_op x op tab payload c w =
     (if op = ''find'' then refresh_page_url x tab (w\<lparr>ss_scan := scan_of (x_float x) payload\<rparr>)
      else if op = ''read'' then remember_page x payload w
      else if op \<in> {''open'', ''tabs''} then remember_page x (first_tab payload) w
      else if op \<in> {''click'', ''fill''} \<and> c \<noteq> None then w\<lparr>ss_hint := c\<rparr> else w)"

definition run_browser_op ::
  "env \<Rightarrow> string \<Rightarrow> pydict \<Rightarrow> pydict \<Rightarrow> string list \<Rightarrow> pydict option \<Rightarrow> control option \<Rightarrow> session \<Rightarrow> pydict \<times> session" where
  "run_browser_op x op kwargs ledger_action classes permit c w =
     (let tab = get_val kwargs ''tab''; index = ss_step w;
          (before, w) = capture_if x (classes \<noteq> []) True tab w;
          (out, w) = browser_call x op kwargs w;
          (after, w) = capture_if x (classes \<noteq> []) True tab w;
          (lost, w) = record_in_ledger x (redact ledger_action classes c) ''browser'' classes permit before after
                        (attempt_outcome out) (attempt_error out) w;
          w = advance x w;
          payload = (case out of Inl _ \<Rightarrow> [] | Inr d \<Rightarrow> d);
          w = (if attempt_error out = None then after_browser_op x op tab payload c w else w)
      in (with_evidence_error lost
            (merged [(''ok'', PyBool (attempt_error out = None)), (''step_index'', PyInt index), (''route'', PyStr ''browser''),
                     (''op'', PyStr op), (''classes'', texts classes), (''error'', opt_str (attempt_error out))]
               (browser_payload (Some payload))), w))"

definition browser_op :: "env \<Rightarrow> string \<Rightarrow> pydict \<Rightarrow> session \<Rightarrow> (py_exc + pydict) \<times> session" where
  "browser_op x op kwargs w =
     (if op \<in> set browser_navigate
      then (if \<not> truthy (get_val kwargs ''url'') then (Inr (refusal_of ''invalid_action: navigate needs a url''), w)
            else act x (PyDict [(''kind'', PyStr ''open_url''), (''url'', get_val kwargs ''url'')]) (permit_arg kwargs) w)
      else (case step_guard x w of
              Some d \<Rightarrow> (Inr d, w)
            | None \<Rightarrow>
               if op \<notin> set browser_direct
               then (Inr (refusal_of (''invalid_action: unknown browser op '' @ py_repr op)), w)
               else
                (let w = refresh_policy x w; action = browser_action op kwargs
                 in if op \<in> {''click'', ''fill''}
                    then (case gate_browser x op kwargs action w of
                            (Inl e, w) \<Rightarrow> (Inl e, w)
                          | (Inr (B_Refused g), w) \<Rightarrow> (Inr g, w)
                          | (Inr (B_Go d rec c), w) \<Rightarrow>
                              (case run_browser_op x op kwargs action (decision_classes d) rec (Some c) w of
                                 (res, w) \<Rightarrow> (Inr res, w)))
                    else (case run_browser_op x op kwargs action [] None None w of (res, w) \<Rightarrow> (Inr res, w)))))"

section \<open>The life of a task\<close>

definition outcomes :: "string list" where
  "outcomes = [''done'', ''failed'', ''abandoned'']"

definition iso_now :: "env \<Rightarrow> session \<Rightarrow> string" where
  "iso_now x w = format_utc \<lfloor>x_clock x (ss_trace w)\<rfloor>"

text \<open>\<open>ledger.close\<close>, which an \<open>OSError\<close> of the disk may stop\<close>

definition close_evidence :: "env \<Rightarrow> string \<Rightarrow> string \<Rightarrow> session \<Rightarrow> (py_exc + unit) \<times> session" where
  "close_evidence x outcome summary w =
     (case ask (x_close_fault x) E_Ledger w of
        (Some e, w) \<Rightarrow> (Inl (OtherError e), w)
      | (None, w) \<Rightarrow> (Inr (), w\<lparr>ss_ledger := map_option (close_ledger (iso_now x w) outcome summary) (ss_ledger w)\<rparr>))"

definition release :: "env \<Rightarrow> session \<Rightarrow> bool \<times> session" where
  "release x w = (case release_lease (x_keep x) (ss_link w) of (b, l) \<Rightarrow> (b, w\<lparr>ss_link := l\<rparr>))"

definition busy :: "string \<Rightarrow> py_exc" where "busy t = HandsError ''busy'' t"

definition started_result :: "env \<Rightarrow> session \<Rightarrow> pydict" where
  "started_result x w =
     [(''ok'', PyBool True), (''task_id'', PyStr (the (ss_task w))), (''goal'', PyStr (ss_goal w)), (''apps'', texts (ss_apps w)),
      (''evidence'', PyStr (x_dir x (the (ss_task w)))), (''max_steps'', PyInt (max_steps (x_cfg x))),
      (''keep'', PyDict [(''online'', PyBool (\<not> k_offline (ss_link w))), (''action_id'', ss_action_id w)]),
      (''keep_action_id'', ss_action_id w)]"

text \<open>The refusal of a Keep that blocked the task: release, close, forget, whatever fails on the way\<close>

definition blocked_start :: "env \<Rightarrow> session \<Rightarrow> py_exc \<times> session" where
  "blocked_start x w =
     (let reason = or_else (kreason (last_decision (ss_link w))) ''the Keep blocked this task'';
          (_, w) = release x w;
          (_, w) = close_evidence x ''abandoned'' (''blocked by the Keep: '' @ reason) w
      in (HandsError ''blocked'' reason, reset w))"

definition tell_keep :: "env \<Rightarrow> session \<Rightarrow> session" where
  "tell_keep x w =
     (case action_before (x_float x) (x_keep x) (ss_goal w) (the (ss_task w)) (ss_apps w) (ss_link w) of
        (i, l) \<Rightarrow>
          (let w = w\<lparr>ss_link := l, ss_action_id := i\<rparr>; (failed, w) = ask (x_note_fault x) E_Ledger w
           in if failed then w
              else w\<lparr>ss_ledger := map_option (note_keep_action (x_float x) i) (ss_ledger w)\<rparr>))"

definition begin_task :: "env \<Rightarrow> string \<Rightarrow> string list \<Rightarrow> string \<Rightarrow> ledger \<Rightarrow> session \<Rightarrow> (py_exc + pydict) \<times> session" where
  "begin_task x goal app_names task l w =
     (let w = tell_keep x (w\<lparr>ss_task := Some task, ss_goal := goal, ss_apps := app_names, ss_ledger := Some l,
                             ss_step := 0, ss_obs := None\<rparr>)
      in if blocked (last_decision (ss_link w))
         then (case blocked_start x w of (e, w) \<Rightarrow> (Inl e, w))
         else (Inr (started_result x w), w))"

text \<open>A lost race for the machine: the directory just opened is closed, then the refusal is raised\<close>

definition lost_race :: "env \<Rightarrow> pydict \<Rightarrow> session \<Rightarrow> (py_exc + pydict) \<times> session" where
  "lost_race x lease w =
     (case ask (x_close_fault x) E_Ledger w of
        (Some e, w) \<Rightarrow> (Inl (OtherError e), w)
      | (None, w) \<Rightarrow>
          (Inl (case lease_refusal (x_float x) lease (x_clock x (ss_trace w)) of Inl e \<Rightarrow> e | Inr t \<Rightarrow> busy t), w))"

definition task_start :: "env \<Rightarrow> string \<Rightarrow> string list \<Rightarrow> session \<Rightarrow> (py_exc + pydict) \<times> session" where
  "task_start x goal app_names w =
     (case ss_task w of
        Some t \<Rightarrow> (Inl (busy (''task '' @ t @ '' is still open; call hands_task_end first'')), w)
      | None \<Rightarrow>
         (case ask (\<lambda>t. prune (x_evidence x t) (evidence_retention_days (x_cfg x)) (x_clock x t)) E_Look w of
            (Inl e, w) \<Rightarrow> (Inl e, w)
          | (Inr _, w) \<Rightarrow>
             (case ask (\<lambda>t. (x_task_id x t, x_open_fault x t)) E_Ledger w of
                ((task, Some e), w) \<Rightarrow> (Inl (OtherError e), w)
              | ((task, None), w) \<Rightarrow>
                  (let l = open_ledger goal app_names (x_machine x) (x_session x) (iso_now x w) (Missing, [], []);
                       (lease, k) = acquire_lease (x_keep x) DEFAULT_LEASE_TTL True (ss_link w); w = w\<lparr>ss_link := k\<rparr>
                   in case lease of
                        Some d \<Rightarrow> if get_val d ''acquired'' = PyBool False then lost_race x d w
                                  else begin_task x goal app_names task l w
                      | None \<Rightarrow> begin_task x goal app_names task l w))))"

definition task_end :: "env \<Rightarrow> string \<Rightarrow> string \<Rightarrow> session \<Rightarrow> (py_exc + pydict) \<times> session" where
  "task_end x outcome summary w =
     (case ss_task w of
        None \<Rightarrow> (Inl (HandsError ''no_task'' ''no task is open''), w)
      | Some t \<Rightarrow>
         if outcome \<notin> set outcomes
         then (Inl (HandsError ''invalid_action'' (''outcome must be one of '' @ py_repr_list outcomes)), w)
         else
          (let (r, w) = close_evidence x outcome summary w;
               steps = (case r of Inr _ \<Rightarrow> int (length (parsed_lines (the (ss_ledger w)))) | Inl e \<Rightarrow> ss_step w);
               res = [(''ok'', PyBool True), (''task_id'', PyStr t), (''outcome'', PyStr outcome), (''summary'', PyStr summary),
                      (''steps'', PyInt steps), (''evidence'', PyStr (x_dir x t))] @
                     (case r of Inr _ \<Rightarrow> []
                      | Inl e \<Rightarrow> [(''evidence_error'', PyStr (''the evidence ledger did not close: '' @ exc_text e))]);
               w = w\<lparr>ss_link := action_after (x_keep x) (ss_action_id w) outcome summary (ss_link w)\<rparr>;
               (released, w) = release x w;
               res = res @ [(''lease'', PyStr (if released then ''released'' else ''not held''))]
           in (Inr res, reset (w\<lparr>ss_last_task := Some res\<rparr>))))"

text \<open>\<open>abandon\<close> never raises; with a task open \<open>task_end\<close> does not either, so the second release is idle\<close>

definition abandon :: "env \<Rightarrow> string \<Rightarrow> session \<Rightarrow> pydict option \<times> session" where
  "abandon x summary w =
     (if ss_task w = None then (None, w)
      else (case task_end x ''abandoned'' summary w of
              (Inr d, w) \<Rightarrow> (Some d, w)
            | (Inl e, w) \<Rightarrow> (case release x w of (_, w) \<Rightarrow> (None, reset w))))"

section \<open>Waiting for a person\<close>

definition max_wait_s :: int where "max_wait_s = 55"

text \<open>\<open>None\<close> stands for a wait that is not over after \<open>fuel\<close> polls\<close>

definition request_permit :: "env \<Rightarrow> nat \<Rightarrow> string \<Rightarrow> int \<Rightarrow> session \<Rightarrow> (pydict \<times> session) option" where
  "request_permit x fuel challenge wait_s w =
     (case ensure_broker x w of
        (None, w) \<Rightarrow> Some ([(''state'', PyStr ''unavailable''), (''challenge'', PyStr challenge),
                            (''error'', PyStr broker_down)], w)
      | (Some c, w) \<Rightarrow>
          (case client_wait (wire_to x c) (\<lambda>w. x_clock x (ss_trace w)) (\<lambda>d. log_event (E_Sleep d)) (x_quote x) challenge
                  (of_int (min (max 0 wait_s) max_wait_s)) fuel w of
             None \<Rightarrow> None
           | Some (reply, w) \<Rightarrow>
               Some ([(''state'', get_val reply ''state''), (''via'', get_val reply ''via''), (''challenge'', PyStr challenge),
                      (''expires_in_s'', get_val reply ''expires_in_s'')], w)))"

section \<open>Status\<close>

definition phone_switch :: string where
  "phone_switch = ''`firekeep hands config set phone_approvals true`''"

definition approvals_text :: "(rat \<Rightarrow> string) \<Rightarrow> pydict option \<Rightarrow> pydict \<Rightarrow> string" where
  "approvals_text fl hl listeners =
     (case hl of
        None \<Rightarrow> ''No approval broker is running, so every protected step is refused. '' @
          ''Start it with `firekeep-hands-broker run`. Phone approvals are off by '' @
          ''default; turn them on with '' @ phone_switch @ '' and restart the broker. '' @
          ''docs/guides/hands.md explains what that trusts.''
      | Some h \<Rightarrow> ''A protected step needs the '' @ py_str fl (get_val h ''chord'') @ '' chord on this keyboard '' @
          ''(listener: '' @ py_str fl (get_or listeners ''chord'' (PyStr ''unknown'')) @ ''). Phone approvals are '' @
          py_str fl (get_or listeners ''phone'' (PyStr ''off'')) @ ''; turn them on with '' @ phone_switch @
          '' and restart the broker. docs/guides/hands.md explains what that trusts.'')"

definition listeners_of :: "pydict option \<Rightarrow> pydict" where
  "listeners_of hl = (case hl of None \<Rightarrow> [] | Some h \<Rightarrow> (case get_val h ''listeners'' of PyDict d \<Rightarrow> d | _ \<Rightarrow> []))"

definition task_status :: "env \<Rightarrow> session \<Rightarrow> pyval" where
  "task_status x w =
     (case ss_task w of
        None \<Rightarrow> PyNone
      | Some t \<Rightarrow> PyDict [(''task_id'', PyStr t), (''goal'', PyStr (ss_goal w)), (''apps'', texts (ss_apps w)),
          (''hosts'', texts (ss_hosts w)), (''step_index'', PyInt (ss_step w)),
          (''steps_left'', PyInt (max 0 (max_steps (x_cfg x) - ss_step w))),
          (''evidence'', if ss_ledger w = None then PyNone else PyStr (x_dir x t)), (''action_id'', ss_action_id w)])"

definition status :: "env \<Rightarrow> session \<Rightarrow> pydict \<times> session" where
  "status x w =
     (let w = refresh_policy x w; (c, w) = ensure_broker x w;
          (hl, w) = (case c of None \<Rightarrow> (None, w) | Some c \<Rightarrow> client_health (wire_to x c) w);
          listeners = listeners_of hl
      in ([(''ok'', PyBool True), (''platform'', PyStr (x_platform x)), (''backend'', PyStr (x_backend x)),
           (''permissions'', PyDict (x_permissions x)),
           (''broker'', PyDict (case hl of
              None \<Rightarrow> [(''running'', PyBool False)]
            | Some h \<Rightarrow> [(''running'', PyBool True), (''chord'', get_val h ''chord''), (''listeners'', PyDict listeners),
                         (''pending'', get_val h ''pending'')])),
           (''approvals'', PyStr (approvals_text (x_float x) hl listeners)),
           (''task'', task_status x w),
           (''last_task'', case ss_last_task w of None \<Rightarrow> PyNone | Some d \<Rightarrow> PyDict d),
           (''policy'', PyDict [(''apps'', PyInt (int (length (apps (ss_policy w))))),
              (''domains'', PyInt (int (length (domains (ss_policy w))))),
              (''remembered'', PyInt (int (length (remembereds (ss_policy w)))))]),
           (''keep'', PyDict [(''offline'', PyBool (k_offline (ss_link w)))]),
           (''limits'', PyDict [(''max_steps'', PyInt (max_steps (x_cfg x))), (''max_nodes'', PyInt (max_nodes (x_cfg x))),
              (''permit_ttl_s'', PyInt (permit_ttl_s (x_cfg x))),
              (''evidence_retention_days'', PyInt (evidence_retention_days (x_cfg x)))])], w))"

section \<open>The session as a machine\<close>

datatype session_op =
    S_Status | S_Start string "string list" | S_End string string | S_Abandon string
  | S_Observe string "string option" "int list option" pyval | S_Find string pyval
  | S_Act pyval "string option" | S_Browser string pydict | S_Wait nat string int

fun session_step :: "env \<Rightarrow> session_op \<Rightarrow> session \<Rightarrow> session" where
  "session_step x S_Status w = snd (status x w)"
| "session_step x (S_Start goal names) w = snd (task_start x goal names w)"
| "session_step x (S_End outcome summary) w = snd (task_end x outcome summary w)"
| "session_step x (S_Abandon summary) w = snd (abandon x summary w)"
| "session_step x (S_Observe detail app region n) w = snd (observe x detail app region n w)"
| "session_step x (S_Find query limit) w = snd (find_controls x query limit w)"
| "session_step x (S_Act action permit) w = snd (act x action permit w)"
| "session_step x (S_Browser op kwargs) w = snd (browser_op x op kwargs w)"
| "session_step x (S_Wait fuel challenge secs) w =
     (case request_permit x fuel challenge secs w of None \<Rightarrow> w | Some (d, w) \<Rightarrow> w)"

end
