(* ===== verification/Hands_Safety.thy ===== *)
theory Hands_Safety
  imports Hands_Task
begin

text \<open>
  What a session guarantees: every operation's effect on the trace and on the broker is followed step by
  step (\<open>moved\<close>), and from there that a protected step reaches the desktop only behind a permit bound to
  it, that permits are spent at most as often as a person approved, that scope grows only by names
  shown, and what the bookkeeping of a task ensures.
\<close>

section \<open>Progress of a session\<close>

definition spent_in :: "string \<Rightarrow> trace \<Rightarrow> nat" where
  "spent_in c t = length (filter (\<lambda>e. e = E_Consumed c True) t)"

definition moved :: "(event \<Rightarrow> bool) \<Rightarrow> store \<Rightarrow> string \<Rightarrow> session \<Rightarrow> session \<Rightarrow> bool" where
  "moved P init c w w' \<longleftrightarrow>
     (\<exists>new. ss_trace w' = ss_trace w @ new \<and> list_all P new \<and> grew init (spent_in c new) c (ss_srv w) (ss_srv w'))"

text \<open>The events of an action on the desktop or the page\<close>

fun acting :: "event \<Rightarrow> bool" where
  "acting (E_Desk c) = True"
| "acting (E_Web (W_Navigate u)) = True"
| "acting (E_Web (W_Click r t)) = True"
| "acting (E_Web (W_Fill r s t)) = True"
| "acting _ = False"

definition any_event :: "event \<Rightarrow> bool" where "any_event e = True"

text \<open>Neither an action nor a spent permit\<close>

definition idle :: "event \<Rightarrow> bool" where
  "idle e \<longleftrightarrow> \<not> acting e \<and> (\<forall>c ok. e \<noteq> E_Consumed c ok)"

definition watching :: "event \<Rightarrow> bool" where
  "watching e \<longleftrightarrow> \<not> acting e"

lemma spent_in_simps [simp]:
  "spent_in c [] = 0" "spent_in c (s @ t) = spent_in c s + spent_in c t"
  "spent_in c (e # t) = (if e = E_Consumed c True then 1 else 0) + spent_in c t"
  by (simp_all add: spent_in_def)

lemma idle_watching: "idle e \<Longrightarrow> watching e" and watching_any: "P e \<Longrightarrow> any_event e"
  by (simp_all add: idle_def watching_def any_event_def)

lemma moved_refl [simp, intro]: "moved P init c w w"
  by (auto simp: moved_def)

lemma moved_mono: "moved P init c w w' \<Longrightarrow> (\<And>e. P e \<Longrightarrow> Q e) \<Longrightarrow> moved Q init c w w'"
  by (auto simp: moved_def list_all_iff)

lemma moved_trans [trans]:
  assumes "moved P init c w w'" and "moved P init c w' w''"
  shows "moved P init c w w''"
proof -
  from assms obtain s t where "ss_trace w' = ss_trace w @ s" "list_all P s" "grew init (spent_in c s) c (ss_srv w) (ss_srv w')"
    "ss_trace w'' = ss_trace w' @ t" "list_all P t" "grew init (spent_in c t) c (ss_srv w') (ss_srv w'')"
    by (auto simp: moved_def)
  then show ?thesis unfolding moved_def by (intro exI [of _ "s @ t"]) (auto intro: grew_trans)
qed

lemma moved_log: "P e \<Longrightarrow> (\<forall>ok. e \<noteq> E_Consumed c ok) \<Longrightarrow> moved P init c w (log_event e w)"
  unfolding moved_def by (intro exI [of _ "[e]"]) (auto simp: log_event_def)

lemma moved_fields [simp]:
  "moved P init c w (w'\<lparr>ss_policy := a1\<rparr>) = moved P init c w w'" "moved P init c w (w'\<lparr>ss_mtime := a2\<rparr>) = moved P init c w w'"
  "moved P init c w (w'\<lparr>ss_broker := a3\<rparr>) = moved P init c w w'" "moved P init c w (w'\<lparr>ss_link := a4\<rparr>) = moved P init c w w'"
  "moved P init c w (w'\<lparr>ss_task := a5\<rparr>) = moved P init c w w'" "moved P init c w (w'\<lparr>ss_goal := a6\<rparr>) = moved P init c w w'"
  "moved P init c w (w'\<lparr>ss_apps := a7\<rparr>) = moved P init c w w'" "moved P init c w (w'\<lparr>ss_hosts := a8\<rparr>) = moved P init c w w'"
  "moved P init c w (w'\<lparr>ss_ledger := a9\<rparr>) = moved P init c w w'" "moved P init c w (w'\<lparr>ss_action_id := b1\<rparr>) = moved P init c w w'"
  "moved P init c w (w'\<lparr>ss_step := b2\<rparr>) = moved P init c w w'" "moved P init c w (w'\<lparr>ss_obs := b3\<rparr>) = moved P init c w w'"
  "moved P init c w (w'\<lparr>ss_last_task := b4\<rparr>) = moved P init c w w'" "moved P init c w (w'\<lparr>ss_hint := b5\<rparr>) = moved P init c w w'"
  "moved P init c w (w'\<lparr>ss_scan := b6\<rparr>) = moved P init c w w'" "moved P init c w (w'\<lparr>ss_page := b7\<rparr>) = moved P init c w w'"
  by (simp_all add: moved_def)

lemma moved_fields_left [simp]:
  "moved P init c (w\<lparr>ss_link := a4\<rparr>) w' = moved P init c w w'" "moved P init c (w\<lparr>ss_scan := b6\<rparr>) w' = moved P init c w w'"
  by (simp_all add: moved_def)

text \<open>Chaining through the sequencing operators\<close>

lemma moved_ask: "P e \<Longrightarrow> (\<forall>ok. e \<noteq> E_Consumed c ok) \<Longrightarrow> moved P init c w (snd (ask f e w))"
  by (simp add: ask_def moved_log)

lemma moved_pair: "moved P init c w (snd r) \<Longrightarrow> (\<And>a v. r = (a, v) \<Longrightarrow> moved P init c v (snd (f a v))) \<Longrightarrow>
    moved P init c w (snd (case r of (a, v) \<Rightarrow> f a v))"
  by (cases r) (auto intro: moved_trans)

lemma moved_thenS:
  assumes "moved P init c w (snd r)" and "\<And>a v. r = (Inr a, v) \<Longrightarrow> moved P init c v (snd (f a v))"
  shows "moved P init c w (snd (thenS r f))"
proof (cases r)
  case (Pair a v)
  with assms show ?thesis by (cases a) (auto simp: thenS_def intro: moved_trans)
qed

lemma moved_web: "P (E_Web k) \<Longrightarrow> moved P init c w (snd (web x f k w))"
  by (auto simp: web_def intro: moved_ask split: option.split)

lemma moved_desk: "P (E_Desk k) \<Longrightarrow> moved P init c w (snd (desk x k w))"
  unfolding desk_def by (rule moved_ask) simp_all

lemma moved_done_with: "moved P init c w (snd r) \<Longrightarrow> moved P init c w (snd (done_with r))"
  unfolding done_with_def by (rule moved_thenS) simp_all

section \<open>The broker's client\<close>

lemma snd_client_call: "snd (client_call send m p b w) = snd (send m p b w)"
  by (simp add: client_call_def case_prod_beta)

definition loopback_request :: "http_method \<Rightarrow> string \<Rightarrow> string \<Rightarrow> (pyval \<Rightarrow> string) \<Rightarrow> pyval option \<Rightarrow> http_request" where
  "loopback_request m path token dumps body =
     (let t = (case body of None \<Rightarrow> [] | Some v \<Rightarrow> dumps v)
      in \<lparr>hmethod = m, hpath = path, hauth = ''Bearer '' @ token,
          hlength = (if body = None then [] else str_of_nat (length t)), hbody = t\<rparr>)"

definition wire_of :: "reply \<Rightarrow> wire" where
  "wire_of a = (case a of Reply st v \<Rightarrow> Wire st (Some v) | Status st \<Rightarrow> Wire st (Some PyNone) | Dropped \<Rightarrow> Unreached)"

lemma loopback_handle:
  "loopback lib b o' token dumps m path body srv =
     (case handle lib b o' (loopback_request m path token dumps body) srv of (a, srv') \<Rightarrow> (wire_of a, srv'))"
  by (simp add: loopback_def loopback_request_def wire_of_def Let_def split: prod.split reply.split)

lemma wire_to_cases:
  obtains (down) "wire_to x k m path body w = (Unreached, log_event (E_Exchange m path) w)"
  | (up) a srv where "handle (x_lib x) (x_broker x) (x_around x)
        (loopback_request m path (snd k) (x_dumps x) body) (ss_srv w) = (a, srv)"
      "wire_to x k m path body w = (wire_of a, (log_event (E_Exchange m path) w)\<lparr>ss_srv := srv\<rparr>)"
proof (cases "link_up x (fst k) w")
  case False
  then show ?thesis using down by (cases k) (simp add: wire_to_def Let_def)
next
  case True
  then show ?thesis
    using up by (cases k; cases "handle (x_lib x) (x_broker x) (x_around x)
        (loopback_request m path (snd k) (x_dumps x) body) (ss_srv w)")
      (simp add: wire_to_def loopback_handle Let_def log_event_def)
qed

lemma moved_srv:
  "grew init 0 c (ss_srv w) srv \<Longrightarrow> P e \<Longrightarrow> (\<forall>ok. e \<noteq> E_Consumed c ok) \<Longrightarrow>
     moved P init c w ((log_event e w)\<lparr>ss_srv := srv\<rparr>)"
  unfolding moved_def by (intro exI [of _ "[e]"]) (auto simp: log_event_def)

lemma idle_simps [simp]:
  "idle (E_Exchange m p)" "idle E_Look" "idle E_Window" "idle (E_Scan a b)" "idle (E_Search q)" "idle (E_Sleep d)"
  "idle E_Ledger" "idle (E_Web (W_Shot t n))" "idle (E_Web (W_Url t))" "idle (E_Web (W_Ensure r t))"
  "idle (E_Web W_Open)" "idle (E_Web W_Tabs)" "idle (E_Web (W_Read t n))" "idle (E_Web (W_Find q t n))"
  by (simp_all add: idle_def)

lemma moved_wire: "moved idle init c w (snd (wire_to x k m path body w))"
proof (cases rule: wire_to_cases [of x k m path body w])
  case down
  then show ?thesis by (simp add: moved_log)
next
  case (up a srv)
  have "grew init 0 c (ss_srv w) srv"
    using handle_grew [of init "x_lib x" c "loopback_request m path (snd k) (x_dumps x) body" "x_broker x" "x_around x"
        "ss_srv w"] up(1) by (auto elim: grew_mono)
  with up(2) show ?thesis by (simp add: moved_srv)
qed

lemma moved_client:
  "moved idle init c w (snd (client_health (wire_to x k) w))"
  "moved idle init c w (snd (client_request (wire_to x k) d w))"
  "moved idle init c w (snd (client_get (wire_to x k) q i w))"
  "moved idle init c w (snd (client_consume (wire_to x k) q i w))"
  using moved_wire
  by (simp_all add: client_health_def client_request_def client_get_def client_consume_def case_prod_beta snd_client_call)

lemma moved_ensure_broker: "moved idle init c w (snd (ensure_broker x w))"
proof (cases "ss_broker w")
  case None
  obtain k v where k: "ask (\<lambda>t. broker_info (x_float x) (x_info x t)) E_Look w = (k, v)"
    by (cases "ask (\<lambda>t. broker_info (x_float x) (x_info x t)) E_Look w")
  have v: "moved idle init c w v"
    using moved_ask [of idle E_Look c init w "\<lambda>t. broker_info (x_float x) (x_info x t)"] k by simp
  show ?thesis
  proof (cases k)
    case (Some cl)
    obtain d u where u: "client_health (wire_to x cl) v = (d, u)" by (cases "client_health (wire_to x cl) v")
    have "moved idle init c w u" using moved_trans [OF v] moved_client(1) [of init c v x cl] u by simp
    with None k Some u show ?thesis by (cases d) (simp_all add: ensure_broker_def)
  qed (use None k v in \<open>simp add: ensure_broker_def\<close>)
qed (simp add: ensure_broker_def)

lemma moved_refresh_policy: "moved idle init c w (refresh_policy x w)"
proof -
  obtain t v where t: "ask (x_mtime x) E_Look w = (t, v)" by (cases "ask (x_mtime x) E_Look w")
  have v: "moved idle init c w v" using moved_ask [of idle E_Look c init w "x_mtime x"] t by simp
  obtain p u where p: "ask (x_policy x) E_Look v = (p, u)" by (cases "ask (x_policy x) E_Look v")
  have u: "moved idle init c w u" using moved_trans [OF v] moved_ask [of idle E_Look c init v "x_policy x"] p by simp
  from t v p u show ?thesis by (cases p) (simp_all add: refresh_policy_def)
qed

lemma moved_capture: "moved idle init c w (snd (capture x via tab w))"
proof (cases via)
  case True
  let ?n = "screenshot_max_width (x_cfg x)"
  obtain r v where r: "web x (\<lambda>br t. br_shot br t (W_Shot tab ?n)) (W_Shot tab ?n) w = (r, v)"
    by (cases "web x (\<lambda>br t. br_shot br t (W_Shot tab ?n)) (W_Shot tab ?n) w")
  moreover have "moved idle init c w v"
    using moved_web [of idle "W_Shot tab ?n" init c w x "\<lambda>br t. br_shot br t (W_Shot tab ?n)"] r by simp
  ultimately show ?thesis using True by (cases r) (simp_all add: capture_def Let_def)
next
  case False
  obtain r v where r: "ask (x_observe x) (E_Scan None True) w = (r, v)"
    by (cases "ask (x_observe x) (E_Scan None True) w")
  moreover have "moved idle init c w v"
    using moved_ask [of idle "E_Scan None True" c init w "x_observe x"] r by simp
  ultimately show ?thesis using False by (cases r) (simp_all add: capture_def Let_def)
qed

lemma moved_capture_if: "moved idle init c w (snd (capture_if x b via tab w))"
  by (simp add: capture_if_def moved_capture)

lemma moved_advance: "moved P init c w (advance x w)"
  by (simp add: advance_def Let_def)

lemma moved_record: "moved idle init c w (snd (record_in_ledger x a r cls p before after out er w))"
proof -
  have "moved idle init c w (log_event E_Ledger w)" by (rule moved_log) simp_all
  then show ?thesis by (simp add: record_in_ledger_def Let_def case_prod_beta split: sum.split)
qed

section \<open>Spending a permit\<close>

text \<open>Quoting the challenge into a path and unquoting it again gives the challenge back\<close>

definition quoting_ok :: "env \<Rightarrow> string \<Rightarrow> bool" where
  "quoting_ok x c \<longleftrightarrow> url_unquote (x_lib x) (x_quote x c) = c \<and> route_id (x_quote x c)"

lemma consume_yes:
  assumes "fst (client_consume (wire_to x k) (x_quote x) d w)"
  obtains a srv v where "handle (x_lib x) (x_broker x) (x_around x)
      (loopback_request POST (permit_path (x_quote x) d @ ''/consume'') (snd k) (x_dumps x) None) (ss_srv w) = (a, srv)"
    "a = Reply 200 v" "ss_srv (snd (client_consume (wire_to x k) (x_quote x) d w)) = srv"
proof (cases rule: wire_to_cases [of x k POST "permit_path (x_quote x) d @ ''/consume''" None w])
  case down
  with assms show ?thesis by (simp add: client_consume_def client_call_def call_result_def)
next
  case (up a srv)
  with assms that show ?thesis
    by (cases a) (auto simp: client_consume_def client_call_def call_result_def wire_of_def split: pyval.splits)
qed

lemma confirms_consume:
  assumes "quoting_ok x c"
  shows "confirms (x_lib x) c (loopback_request POST (permit_path (x_quote x) c @ ''/consume'') t dumps None, Reply 200 v)"
proof -
  have "permit_path (x_quote x) c @ ''/consume'' = ''/permits/'' @ x_quote x c @ ''/consume''"
    by (simp add: permit_path_def)
  with assms consume_route_path [of "x_quote x c"] show ?thesis
    by (simp add: confirms_def loopback_request_def quoting_ok_def)
qed

lemma moved_consume_via:
  assumes "d = c \<Longrightarrow> quoting_ok x c"
  shows "moved watching init c w (snd (consume_via x k d w))"
proof -
  obtain ok v where v: "client_consume (wire_to x k) (x_quote x) d w = (ok, v)"
    by (cases "client_consume (wire_to x k) (x_quote x) d w")
  have quiet: "moved watching init c w v"
    using moved_client(4) [of init c w x k "x_quote x" d] v by (auto intro: moved_mono simp: idle_watching)
  have snd: "snd (consume_via x k d w) = log_event (E_Consumed d ok) v" by (simp add: consume_via_def v)
  show ?thesis
  proof (cases "ok \<and> d = c")
    case False
    then have "moved watching init c v (log_event (E_Consumed d ok) v)"
      unfolding moved_def by (intro exI [of _ "[E_Consumed d ok]"]) (auto simp: log_event_def watching_def)
    with quiet show ?thesis unfolding snd by (rule moved_trans)
  next
    case True
    then have "fst (client_consume (wire_to x k) (x_quote x) c w)" using v by simp
    from consume_yes [OF this] obtain a srv y where h:
      "handle (x_lib x) (x_broker x) (x_around x)
        (loopback_request POST (permit_path (x_quote x) c @ ''/consume'') (snd k) (x_dumps x) None) (ss_srv w) = (a, srv)"
      "a = Reply 200 y" "ss_srv v = srv"
      using v True by (metis snd_conv)
    have "grew init 1 c (ss_srv w) srv"
      using handle_grew [of init "x_lib x" c "loopback_request POST (permit_path (x_quote x) c @ ''/consume'') (snd k) (x_dumps x) None"
          "x_broker x" "x_around x" "ss_srv w"] h confirms_consume [OF assms] True by simp
    moreover obtain new where "ss_trace v = ss_trace w @ new" "list_all watching new" "spent_in c new = 0"
    proof -
      from moved_client(4) [of init c w x k "x_quote x" d] v obtain new
        where new: "ss_trace v = ss_trace w @ new" "list_all idle new" by (auto simp: moved_def)
      then have "spent_in c new = 0" by (auto simp: spent_in_def list_all_iff idle_def filter_empty_conv)
      with new that show ?thesis by (auto simp: list_all_iff idle_watching)
    qed
    ultimately show ?thesis
      unfolding snd moved_def using True h(3)
      by (intro exI [of _ "new @ [E_Consumed d ok]"]) (simp add: log_event_def watching_def)
  qed
qed

section \<open>The gate\<close>

lemma moved_idle_watching: "moved idle init c w w' \<Longrightarrow> moved watching init c w w'"
  by (erule moved_mono) (rule idle_watching)

lemma moved_any: "moved P init c w w' \<Longrightarrow> moved any_event init c w w'"
  by (erule moved_mono) (rule watching_any)

lemma moved_ask_permit: "moved idle init c w (snd (ask_permit x k ch title d w))"
proof -
  let ?f = "[(''challenge'', PyStr ch), (''title'', PyStr title), (''classes'', texts (decision_classes d)),
    (''task_id'', PyStr (the (ss_task w))), (''step_index'', PyInt (ss_step w))]"
  obtain r v where r: "client_request (wire_to x k) ?f w = (r, v)" by (cases "client_request (wire_to x k) ?f w")
  have "moved idle init c w v" using moved_client(2) [of init c w x k ?f] r by simp
  then show ?thesis by (simp add: ask_permit_def r split: option.split)
qed

lemma ask_permit_refuses: "\<exists>g. fst (ask_permit x k ch title d w) = Refused g"
  by (auto simp: ask_permit_def split: prod.split option.split)

lemma spend_permit_cases:
  obtains (refused) g w' where "spend_permit x k ch title wa wh d w = (Refused g, w')"
      "(ch = c \<Longrightarrow> quoting_ok x c) \<Longrightarrow> moved watching init c w w'"
  | (granted) rec w' v u where "spend_permit x k ch title wa wh d w = (Granted rec wa wh, w')"
      "moved idle init c w v" "consume_via x k ch v = (True, u)" "moved idle init c u w'"
proof -
  obtain held v where held: "client_get (wire_to x k) (x_quote x) ch w = (held, v)"
    by (cases "client_get (wire_to x k) (x_quote x) ch w")
  have v: "moved idle init c w v" using moved_client(3) [of init c w x k "x_quote x" ch] held by simp
  show ?thesis
  proof (cases "tampered held title d")
    case (Some t)
    with held v refused show ?thesis by (simp add: spend_permit_def moved_idle_watching)
  next
    case None
    obtain ok u where ok: "consume_via x k ch v = (ok, u)" by (cases "consume_via x k ch v")
    show ?thesis
    proof (cases ok)
      case False
      have "(ch = c \<Longrightarrow> quoting_ok x c) \<Longrightarrow> moved watching init c w u"
        using moved_trans [OF moved_idle_watching [OF v] moved_consume_via, of ch x k] ok by simp
      with held None ok False refused show ?thesis by (simp add: spend_permit_def)
    next
      case True
      obtain g z where g: "client_get (wire_to x k) (x_quote x) ch u = (g, z)"
        by (cases "client_get (wire_to x k) (x_quote x) ch u")
      have "moved idle init c u z" using moved_client(3) [of init c u x k "x_quote x" ch] g by simp
      with held None ok True g v granted show ?thesis by (simp add: spend_permit_def)
    qed
  qed
qed

lemma moved_keeps_fields_consume:
  "consume_via x k ch v = (True, u) \<Longrightarrow> \<exists>new. ss_trace u = ss_trace v @ new @ [E_Consumed ch True] \<and> list_all idle new"
proof -
  assume c: "consume_via x k ch v = (True, u)"
  obtain ok z where z: "client_consume (wire_to x k) (x_quote x) ch v = (ok, z)"
    by (cases "client_consume (wire_to x k) (x_quote x) ch v")
  from moved_client(4) [of undefined undefined v x k "x_quote x" ch] z
  obtain new where "ss_trace z = ss_trace v @ new" "list_all idle new" by (auto simp: moved_def)
  with c z show ?thesis by (auto simp: consume_via_def log_event_def)
qed

lemma client_keeps_task:
  "ss_task (snd (wire_to x k m path body w)) = ss_task w" "ss_step (snd (wire_to x k m path body w)) = ss_step w"
  "ss_page (snd (wire_to x k m path body w)) = ss_page w" "ss_apps (snd (wire_to x k m path body w)) = ss_apps w"
  "ss_hosts (snd (wire_to x k m path body w)) = ss_hosts w" "ss_link (snd (wire_to x k m path body w)) = ss_link w"
  "ss_hint (snd (wire_to x k m path body w)) = ss_hint w" "ss_scan (snd (wire_to x k m path body w)) = ss_scan w"
  "ss_ledger (snd (wire_to x k m path body w)) = ss_ledger w" "ss_obs (snd (wire_to x k m path body w)) = ss_obs w"
  "ss_goal (snd (wire_to x k m path body w)) = ss_goal w" "ss_action_id (snd (wire_to x k m path body w)) = ss_action_id w"
  by (cases rule: wire_to_cases [of x k m path body w]; simp add: log_event_def)+

text \<open>What an operation leaves as it was; the broker client and the policy may change\<close>

definition same_task :: "session \<Rightarrow> session \<Rightarrow> bool" where
  "same_task w w' \<longleftrightarrow> ss_task w' = ss_task w \<and> ss_step w' = ss_step w \<and> ss_page w' = ss_page w \<and> ss_apps w' = ss_apps w \<and>
     ss_hosts w' = ss_hosts w \<and> ss_link w' = ss_link w \<and> ss_hint w' = ss_hint w \<and> ss_scan w' = ss_scan w \<and>
     ss_ledger w' = ss_ledger w \<and> ss_obs w' = ss_obs w \<and> ss_goal w' = ss_goal w \<and> ss_action_id w' = ss_action_id w"

lemma same_task_refl [simp, intro]: "same_task w w"
  by (simp add: same_task_def)

lemma same_task_trans: "same_task w w' \<Longrightarrow> same_task w' w'' \<Longrightarrow> same_task w w''"
  by (simp add: same_task_def)

lemma same_task_simps [simp]:
  "same_task w (w'\<lparr>ss_broker := k\<rparr>) = same_task w w'" "same_task w (w'\<lparr>ss_policy := p\<rparr>) = same_task w w'"
  "same_task w (w'\<lparr>ss_mtime := m\<rparr>) = same_task w w'" "same_task w (log_event e w') = same_task w w'"
  by (simp_all add: same_task_def log_event_def)

lemma same_wire: "same_task w (snd (wire_to x k m path body w))"
  by (simp add: same_task_def client_keeps_task)

lemma same_client:
  "same_task w (snd (client_health (wire_to x k) w))" "same_task w (snd (client_request (wire_to x k) d w))"
  "same_task w (snd (client_get (wire_to x k) q i w))" "same_task w (snd (client_consume (wire_to x k) q i w))"
  using same_wire
  by (simp_all add: client_health_def client_request_def client_get_def client_consume_def case_prod_beta snd_client_call)

lemma same_ask [simp]: "same_task w (snd (ask f e w'))  = same_task w w'"
  by (simp add: ask_def)

lemma same_ensure_broker: "same_task w (snd (ensure_broker x w))"
proof (cases "ss_broker w")
  case None
  obtain k v where k: "ask (\<lambda>t. broker_info (x_float x) (x_info x t)) E_Look w = (k, v)"
    by (cases "ask (\<lambda>t. broker_info (x_float x) (x_info x t)) E_Look w")
  then have v: "same_task w v" using same_ask [of w "\<lambda>t. broker_info (x_float x) (x_info x t)" E_Look w] by simp
  show ?thesis
  proof (cases k)
    case (Some cl)
    obtain d u where u: "client_health (wire_to x cl) v = (d, u)" by (cases "client_health (wire_to x cl) v")
    have "same_task w u" using same_task_trans [OF v] same_client(1) [of v x cl] u by simp
    with None k Some u show ?thesis by (cases d) (simp_all add: ensure_broker_def)
  qed (use None k v in \<open>simp add: ensure_broker_def\<close>)
qed (simp add: ensure_broker_def)

lemma same_refresh_policy: "same_task w (refresh_policy x w)"
  by (auto simp: refresh_policy_def ask_def Let_def split: sum.split)

lemma same_consume_via: "same_task w (snd (consume_via x k ch w))"
  using same_client(4) [of w x k "x_quote x" ch] by (simp add: consume_via_def case_prod_beta)

lemma same_ask_permit: "same_task w (snd (ask_permit x k ch title d w))"
  using same_client(2) [of w x k] by (auto simp: ask_permit_def case_prod_beta split: option.split)

lemma same_spend_permit: "same_task w (snd (spend_permit x k ch title wa wh d w))"
proof -
  obtain held v where held: "client_get (wire_to x k) (x_quote x) ch w = (held, v)"
    by (cases "client_get (wire_to x k) (x_quote x) ch w")
  obtain ok u where ok: "consume_via x k ch v = (ok, u)" by (cases "consume_via x k ch v")
  obtain g z where g: "client_get (wire_to x k) (x_quote x) ch u = (g, z)"
    by (cases "client_get (wire_to x k) (x_quote x) ch u")
  have v: "same_task w v" using same_client(3) [of w x k "x_quote x" ch] held by simp
  have u: "same_task w u" using same_task_trans [OF v] same_consume_via [of v x k ch] ok by simp
  have z: "same_task w z" using same_task_trans [OF u] same_client(3) [of u x k "x_quote x" ch] g by simp
  from held ok g v u z show ?thesis by (cases ok) (auto simp: spend_permit_def split: option.split)
qed

lemma same_gate_step: "same_task w (snd (gate_step x a r win d p w))"
proof -
  obtain k v where k: "ensure_broker x w = (k, v)" by (cases "ensure_broker x w")
  have v: "same_task w v" using same_ensure_broker [of w x] k by simp
  show ?thesis
    using k v same_task_trans [OF v same_ask_permit] same_task_trans [OF v same_spend_permit]
    by (auto simp: gate_step_def Let_def case_prod_beta split: option.split sum.split)
qed

lemma challenge_same: "same_task w v \<Longrightarrow> challenge_of x v a = challenge_of x w a"
  by (simp add: same_task_def challenge_of_def)

lemma gate_moved:
  assumes quoting: "challenge_of x w a = c \<Longrightarrow> quoting_ok x c"
  shows "moved watching init c w (snd (gate_step x a r win d p w))"
proof -
  obtain k v where k: "ensure_broker x w = (k, v)" by (cases "ensure_broker x w")
  have v: "moved watching init c w v"
    using moved_ensure_broker [of init c w x] k by (simp add: moved_idle_watching)
  have a: "moved watching init c w (snd (ask_permit x cl ch title d v))" for cl ch title
    using moved_trans [OF v moved_idle_watching [OF moved_ask_permit]] .
  have same: "challenge_of x v a = challenge_of x w a"
    using same_ensure_broker [of w x] k by (simp add: challenge_same)
  have s: "moved watching init c w (snd (spend_permit x cl ch title wa wh d v))" if "ch = challenge_of x v a" for cl ch title wa wh
  proof (cases rule: spend_permit_cases [where x = x and k = cl and ch = ch and title = title and wa = wa and wh = wh and d = d and w = v and c = c and init = init])
    case (refused g w')
    with that same quoting show ?thesis using moved_trans [OF v] by simp
  next
    case (granted rec w' y u)
    have "moved watching init c v u"
      using moved_trans [OF moved_idle_watching [OF granted(2)] moved_consume_via [of ch c x init y cl]] granted(3)
        that same quoting by simp
    from moved_trans [OF v moved_trans [OF this moved_idle_watching [OF granted(4)]]] granted(1) show ?thesis by simp
  qed
  from k v a s show ?thesis
    by (auto simp: gate_step_def Let_def case_prod_beta split: option.split sum.split)
qed

lemma moved_traces: "moved P init c w w' \<Longrightarrow> \<exists>new. ss_trace w' = ss_trace w @ new \<and> list_all P new"
  by (auto simp: moved_def)

lemma gate_granted:
  assumes "gate_step x a r win d p w = (Inr (Granted rec wa wh), w')"
  shows "p = Some (challenge_of x w a)"
    and "\<exists>title. titled r win (decision_classes d) (fst (ss_page w)) = Inr (title, wa, wh)"
    and "\<exists>s t. ss_trace w' = ss_trace w @ s @ E_Consumed (challenge_of x w a) True # t \<and> list_all idle s \<and> list_all idle t"
proof -
  obtain k v where k: "ensure_broker x w = (k, v)" by (cases "ensure_broker x w")
  have v: "same_task w v" using same_ensure_broker [of w x] k by simp
  then have ch: "challenge_of x v a = challenge_of x w a" and page: "ss_page v = ss_page w"
    by (rule challenge_same) (use v in \<open>simp add: same_task_def\<close>)
  from assms k obtain cl title wb wi where
    cl: "k = Some cl" and t: "titled r win (decision_classes d) (fst (ss_page v)) = Inr (title, wb, wi)" and
    g: "(if p \<noteq> Some (challenge_of x v a) then ask_permit x cl (challenge_of x v a) title d v
         else spend_permit x cl (challenge_of x v a) title wb wi d v) = (Granted rec wa wh, w')"
    by (auto simp: gate_step_def Let_def case_prod_beta prod_eq_iff split: option.splits sum.splits if_splits)
  have p: "p = Some (challenge_of x v a)"
    using g ask_permit_refuses [of x cl "challenge_of x v a" title d v] by (auto split: if_splits)
  with ch show "p = Some (challenge_of x w a)" by simp
  from g p have sp: "spend_permit x cl (challenge_of x v a) title wb wi d v = (Granted rec wa wh, w')" by simp
  show "\<exists>title. titled r win (decision_classes d) (fst (ss_page w)) = Inr (title, wa, wh)"
    and "\<exists>s t. ss_trace w' = ss_trace w @ s @ E_Consumed (challenge_of x w a) True # t \<and> list_all idle s \<and> list_all idle t"
  proof -
    from sp show "\<exists>title. titled r win (decision_classes d) (fst (ss_page w)) = Inr (title, wa, wh)"
      using t page by (cases rule: spend_permit_cases [where x = x and k = cl and ch = "challenge_of x v a" and title = title and wa = wb and wh = wi and d = d and w = v and c = "[]" and init = undefined]) auto
    from moved_traces [OF moved_ensure_broker [of undefined undefined w x]] k
    obtain s0 where s0: "ss_trace v = ss_trace w @ s0" "list_all idle s0" by auto
    from sp show "\<exists>s t. ss_trace w' = ss_trace w @ s @ E_Consumed (challenge_of x w a) True # t \<and> list_all idle s \<and> list_all idle t"
    proof (cases rule: spend_permit_cases [where x = x and k = cl and ch = "challenge_of x v a" and title = title and wa = wb and wh = wi and d = d and w = v and c = "[]" and init = undefined])
      case (granted rec' w'' y u)
      from moved_traces [OF granted(2)] obtain s1 where s1: "ss_trace y = ss_trace v @ s1" "list_all idle s1" by auto
      from moved_keeps_fields_consume [OF granted(3)] obtain s2
        where s2: "ss_trace u = ss_trace y @ s2 @ [E_Consumed (challenge_of x v a) True]" "list_all idle s2" by auto
      from moved_traces [OF granted(4)] obtain s3 where s3: "ss_trace w'' = ss_trace u @ s3" "list_all idle s3" by auto
      have "w'' = w'" using granted(1) sp by simp
      with s0 s1 s2 s3 show ?thesis
        unfolding ch by (intro exI [of _ "s0 @ s1 @ s2"] exI [of _ s3]) simp
    qed (use sp in simp)
  qed
qed

section \<open>A step\<close>

lemma moved_execute: "moved any_event init c w (snd (execute x r win w))"
proof -
  have d: "moved any_event init c v (snd (desk x k v))" for k v
    by (rule moved_desk) (simp add: any_event_def)
  have wb: "moved any_event init c v (snd (web x f k v))" for f :: "browser_oracle \<Rightarrow> trace \<Rightarrow> py_exc + pydict" and k v
    by (rule moved_web) (simp add: any_event_def)
  have z: "moved any_event init c w (log_event (E_Sleep q) w)" for q
    by (rule moved_log) (simp_all add: any_event_def)
  have rp: "moved any_event init c v (remember_page x y (v\<lparr>ss_scan := []\<rparr>))" for v y
    by (simp add: remember_page_def)
  show ?thesis
    by (cases "rkind r")
      (auto simp: execute_def Let_def z intro!: moved_done_with moved_thenS d wb split: option.split sum.split,
       simp_all add: rp)
qed

lemma moved_run_step: "moved any_event init c w (snd (run_step x a r win ctl d p w))"
proof -
  let ?b = "rroute r = InBrowser"
  obtain b1 w1 where 1: "capture_if x (p \<noteq> None) ?b PyNone w = (b1, w1)"
    by (cases "capture_if x (p \<noteq> None) ?b PyNone w")
  obtain out w2 where 2: "execute x r win w1 = (out, w2)" by (cases "execute x r win w1")
  obtain b3 w3 where 3: "capture_if x (p \<noteq> None) ?b PyNone w2 = (b3, w3)"
    by (cases "capture_if x (p \<noteq> None) ?b PyNone w2")
  define w4 where "w4 = (if attempt_error out = None then update_focus_hint r w3 else w3)"
  obtain lost w5 where 5: "record_in_ledger x (redact a (decision_classes d) ctl) (how_name (rroute r)) (decision_classes d)
      p b1 b3 (attempt_outcome out) (attempt_error out) w4 = (lost, w5)"
    by (cases "record_in_ledger x (redact a (decision_classes d) ctl) (how_name (rroute r)) (decision_classes d)
      p b1 b3 (attempt_outcome out) (attempt_error out) w4")
  have "moved any_event init c w w1" using moved_any [OF moved_capture_if] 1 by (metis snd_conv)
  also have "moved any_event init c w1 w2" using moved_execute [of init c w1 x r win] 2 by simp
  also have "moved any_event init c w2 w3" using moved_any [OF moved_capture_if] 3 by (metis snd_conv)
  also have "moved any_event init c w3 w4" by (simp add: w4_def update_focus_hint_def)
  also have "moved any_event init c w4 w5"
    using moved_any [OF moved_record] 5 by (metis snd_conv)
  also have "moved any_event init c w5 (advance x w5)" by (rule moved_advance)
  finally show ?thesis
    by (simp add: run_step_def Let_def 1 2 3 w4_def [symmetric] 5 del: not_None_eq)
qed

lemma moved_widen [simp]: "moved P init c w (widen wa wh d w') = moved P init c w w'"
  by (simp add: widen_def)

text \<open>What \<open>act\<close> decided before anything was done: the routed step, the window, the decision, the session then\<close>

definition planned :: "env \<Rightarrow> pyval \<Rightarrow> session \<Rightarrow> (routed \<times> window_info option \<times> decision \<times> session) option" where
  "planned x action w =
     (if step_guard x w \<noteq> None then None
      else let v = refresh_policy x w
           in case route action (ss_obs v) of
                Inl e \<Rightarrow> None
              | Inr r \<Rightarrow>
                 (case ask (x_window x) E_Window v of
                    (Inl e, u) \<Rightarrow> None
                  | (Inr win, u) \<Rightarrow> (case judge x (as_action action) r win u of Inl e \<Rightarrow> None | Inr d \<Rightarrow> Some (r, win, d, u))))"

lemma act_cases:
  obtains (stopped) "moved idle init c w (snd (act x action p w))" "planned x action w = None"
  | (allowed) r win d u where "planned x action w = Some (r, win, d, u)" "dverdict d \<noteq> Permit"
      "act x action p w = (case run_step x (as_action action) r win (judged_control r u) d None u of (res, w) \<Rightarrow> (Inr res, w))"
  | (refused) r win d u g v where "planned x action w = Some (r, win, d, u)" "dverdict d = Permit"
      "gate_step x (as_action action) r win d p u = (g, v)" "\<forall>rec wa wh. g \<noteq> Inr (Granted rec wa wh)"
      "snd (act x action p w) = v"
  | (granted) r win d u rec wa wh v where "planned x action w = Some (r, win, d, u)" "dverdict d = Permit"
      "gate_step x (as_action action) r win d p u = (Inr (Granted rec wa wh), v)"
      "act x action p w = (case run_step x (as_action action) r win (judged_control r v) d (Some rec) (widen wa wh d v) of
         (res, w) \<Rightarrow> (Inr res, w))"
proof (cases "step_guard x w")
  case (Some g)
  then show ?thesis using stopped by (simp add: act_def planned_def)
next
  case None
  define v where "v = refresh_policy x w"
  have v: "moved idle init c w v" unfolding v_def by (rule moved_refresh_policy)
  show ?thesis
  proof (cases "route action (ss_obs v)")
    case (Inl e)
    with None v stopped show ?thesis by (simp add: act_def planned_def v_def Let_def)
  next
    case (Inr r)
    obtain win' u where u: "ask (x_window x) E_Window v = (win', u)" by (cases "ask (x_window x) E_Window v")
    have mu: "moved idle init c w u"
      using moved_trans [OF v] moved_ask [of idle E_Window c init v "x_window x"] u by simp
    show ?thesis
    proof (cases win')
      case (Inl e)
      with None Inr u mu stopped show ?thesis by (simp add: act_def planned_def v_def Let_def)
    next
      case win: (Inr win)
      show ?thesis
      proof (cases "judge x (as_action action) r win u")
        case (Inl e)
        with None Inr u win mu stopped show ?thesis by (simp add: act_def planned_def v_def Let_def)
      next
        case d: (Inr d)
        have plan: "planned x action w = Some (r, win, d, u)"
          using None Inr u win d by (simp add: planned_def v_def Let_def)
        show ?thesis
        proof (cases "dverdict d = Permit")
          case False
          with plan None Inr u win d allowed show ?thesis by (simp add: act_def v_def Let_def)
        next
          case True
          obtain g z where g: "gate_step x (as_action action) r win d p u = (g, z)"
            by (cases "gate_step x (as_action action) r win d p u")
          consider e where "g = Inl e" | f where "g = Inr (Refused f)" | rec wa wh where "g = Inr (Granted rec wa wh)"
            by (cases g) (metis gate.exhaust)+
          then show ?thesis
          proof cases
            case 3
            with plan True None Inr u win d g granted show ?thesis by (simp add: act_def v_def Let_def)
          qed (use plan True None Inr u win d g refused in \<open>simp_all add: act_def v_def Let_def\<close>)
        qed
      qed
    qed
  qed
qed

end
