(* ===== verification/Hands_Guard.thy ===== *)
theory Hands_Guard
  imports Hands_Safety
begin

text \<open>
  The properties of a session: a protected step needs its permit, steps of the browser alike; permits are
  spent at most as often as a person approved, whatever the runtime calls; what the ledger's copy hides;
  the step budget; the end of a task.
\<close>

section \<open>A protected step\<close>

lemma planned_cases:
  assumes "planned x action w = Some (r, win, d, u)"
  shows "moved idle init c w u \<and> same_task w u"
proof -
  define v where "v = refresh_policy x w"
  have v: "moved idle init c w v" "same_task w v"
    unfolding v_def by (rule moved_refresh_policy same_refresh_policy)+
  obtain q u' where q: "ask (x_window x) E_Window v = (q, u')" by (cases "ask (x_window x) E_Window v")
  have u: "moved idle init c w u'" "same_task w u'"
    using moved_trans [OF v(1)] moved_ask [of idle E_Window c init v "x_window x"] v(2)
      same_ask [of w "x_window x" E_Window v] q by simp_all
  from assms q have "u = u'"
    by (auto simp: planned_def Let_def v_def [symmetric] split: if_splits sum.splits)
  with u show ?thesis by simp
qed

lemma acting_not_idle: "acting e \<Longrightarrow> \<not> idle e" and acting_not_watching: "acting e \<Longrightarrow> \<not> watching e"
  by (simp_all add: idle_def watching_def)

lemma idle_part:
  "list_all P new \<Longrightarrow> t0 @ new = t0 @ s @ e # t \<Longrightarrow> P e"
  by auto

text \<open>An action stands after a spent permit when nothing acted before it\<close>

lemma behind_the_permit:
  assumes "xs @ k # ys = s @ e # t" and "list_all P xs" and "\<not> P e" and "e \<noteq> k"
  shows "k \<in> set s"
  using assms
proof (induction xs arbitrary: s)
  case Nil
  then show ?case by (cases s) auto
next
  case (Cons z xs)
  then show ?case by (cases s) auto
qed

lemma gate_watches: "\<exists>new. ss_trace (snd (gate_step x a r win d p w)) = ss_trace w @ new \<and> list_all watching new"
  using moved_traces [OF gate_moved [of x w a "challenge_of x w a @ ''x''" undefined r win d p]] by simp

text \<open>
  C15. A protected step needs its own permit: whatever the runtime passes to \<open>act\<close>, in any state of the
  session and of the world around it, if anything is done to the desktop or the page, then the step
  had been routed and judged by the policy, and where the verdict was to ask, the runtime held
  exactly the challenge bound to this action at this step of this task, and the broker had confirmed
  spending it before the first such event.
\<close>

theorem protected_step_needs_its_permit:
  assumes trace: "ss_trace (snd (act x action p w)) = ss_trace w @ s @ e # t" and "acting e"
  shows "\<exists>r win d u. planned x action w = Some (r, win, d, u) \<and>
    (dverdict d = Permit \<longrightarrow> p = Some (challenge_of x w (as_action action)) \<and>
       E_Consumed (challenge_of x w (as_action action)) True \<in> set s)"
proof (cases rule: act_cases [where x = x and action = action and p = p and w = w and init = undefined and c = undefined])
  case stopped
  from moved_traces [OF stopped(1)] trace have "idle e" by (auto simp: list_all_iff)
  with \<open>acting e\<close> show ?thesis by (simp add: acting_not_idle)
next
  case (allowed r win d u)
  then show ?thesis by auto
next
  case (refused r win d u g v)
  from planned_cases [OF refused(1), of undefined undefined] obtain n1
    where n1: "ss_trace u = ss_trace w @ n1" "list_all idle n1" by (auto simp: moved_def)
  from gate_watches [of x "as_action action" r win d p u] refused(3) obtain n2
    where n2: "ss_trace v = ss_trace u @ n2" "list_all watching n2" by auto
  from trace n1 n2 refused(5) have "n1 @ n2 = s @ e # t" by simp
  then have "e \<in> set (n1 @ n2)" by simp
  with n1 n2 have "watching e" by (auto simp: list_all_iff idle_watching)
  with \<open>acting e\<close> show ?thesis by (simp add: acting_not_watching)
next
  case (granted r win d u rec wa wh v)
  let ?c = "challenge_of x w (as_action action)"
  from planned_cases [OF granted(1), of undefined undefined] obtain n1
    where n1: "ss_trace u = ss_trace w @ n1" "list_all idle n1" and same: "same_task w u" by (auto simp: moved_def)
  from gate_granted(1,3) [OF granted(3)] challenge_same [OF same] obtain n2 n3
    where p: "p = Some ?c" and n2: "ss_trace v = ss_trace u @ n2 @ E_Consumed ?c True # n3" "list_all idle n2"
    by auto
  obtain n4 where n4: "ss_trace (snd (act x action p w)) = ss_trace v @ n4"
    using granted(4) moved_traces [OF moved_run_step [of undefined undefined "widen wa wh d v" x "as_action action" r win
        "judged_control r v" d "Some rec"]]
    by (auto simp: case_prod_beta widen_def)
  from trace n1 n2 n4 have "(n1 @ n2) @ E_Consumed ?c True # (n3 @ n4) = s @ e # t" by simp
  moreover have "e \<noteq> E_Consumed ?c True" using \<open>acting e\<close> by auto
  ultimately have "E_Consumed ?c True \<in> set s"
    using behind_the_permit [of "n1 @ n2" _ "n3 @ n4" s e t idle] n1 n2 acting_not_idle [OF \<open>acting e\<close>] by simp
  with granted(1) p show ?thesis by auto
qed

text \<open>A world: nothing fails, the broker holds an approved permit for opening an app\<close>

definition example_page :: browser_oracle where
  "example_page = \<lparr>br_open = (\<lambda>t. Inr []), br_tabs = (\<lambda>t. Inr []), br_page = (\<lambda>t k. Inr []),
     br_find = (\<lambda>t k. Inr []), br_act = (\<lambda>t k. None), br_shot = (\<lambda>t k. Inr []), br_url = (\<lambda>t k. Inr [])\<rparr>"

definition example_env :: env where
  "example_env = \<lparr>x_cfg = default_config, x_machine = ''m'', x_session = ''s'', x_darwin = False,
     x_sha = (\<lambda>s. ''c1''), x_sha_bytes = (\<lambda>s. []), x_float = (\<lambda>q. []), x_lib = example_lib, x_quote = id,
     x_dumps = (\<lambda>v. []), x_broker = example_broker, x_port = 1,
     x_around = \<lparr>o_ops = (\<lambda>n. []), o_clock = (\<lambda>n k. 1)\<rparr>, x_up = (\<lambda>t. True), x_info = (\<lambda>t. None),
     x_keep = (\<lambda>cs k. Raises []), x_clock = (\<lambda>t. 0), x_mtime = (\<lambda>t. None), x_policy = (\<lambda>t. Inr empty_policy),
     x_window = (\<lambda>t. Inr None), x_observe = (\<lambda>t. Inl (OtherError [])), x_find = (\<lambda>t. Inr []),
     x_desk = (\<lambda>t k. None), x_browser = Some example_page, x_fault = (\<lambda>t. WritesOk), x_close_fault = (\<lambda>t. None),
     x_note_fault = (\<lambda>t. False), x_open_fault = (\<lambda>t. None), x_task_id = (\<lambda>t. ''k1''), x_evidence = (\<lambda>t. None),
     x_dir = id, x_defrag = id, x_platform = ''win32'', x_backend = ''win'', x_permissions = []\<rparr>"

definition example_store :: store where
  "example_store = store_after 60 True
     [Op_Request 0 0 ''c1'' (''open the app the runtime asked for: '' @ quoted ''mail'') [''boundary''] ''k1'' 0,
      Op_Decide 1 ''c1'' ''approve'' ''chord'']"

definition example_start :: session where
  "example_start = new_session empty_policy None (Some (1, ''k''))
     (new_link ''hands'' ''m'' (Some True) False False ''s'') (serving example_store)"

definition example_session :: session where
  "example_session = session_step example_env (S_Start ''mail'' []) example_start"

definition open_mail :: pyval where
  "open_mail = PyDict [(''kind'', PyStr ''open_app''), (''app'', PyStr ''mail'')]"

lemma example_step:
  "ss_trace (snd (act example_env open_mail (Some ''c1'') example_session)) = ss_trace example_session @
     [E_Look, E_Window, E_Exchange GET ''/permits/c1'', E_Exchange POST ''/permits/c1/consume'', E_Consumed ''c1'' True,
      E_Exchange GET ''/permits/c1'', E_Scan None True] @ E_Desk (D_Open ''mail'') # [E_Scan None True, E_Ledger]"
  by code_simp


theorem protected_step_needs_its_permit_witness:
  "\<exists>r win d u. planned example_env open_mail example_session = Some (r, win, d, u) \<and> dverdict d = Permit \<and>
     E_Consumed ''c1'' True \<in> set [E_Look, E_Window, E_Exchange GET ''/permits/c1'', E_Exchange POST ''/permits/c1/consume'',
       E_Consumed ''c1'' True, E_Exchange GET ''/permits/c1'', E_Scan None True]"
proof -
  have "map_option (\<lambda>(r, win, d, u). dverdict d) (planned example_env open_mail example_session) = Some Permit"
    by code_simp
  moreover have "challenge_of example_env example_session (as_action open_mail) = ''c1''" by code_simp
  ultimately show ?thesis using protected_step_needs_its_permit [OF example_step] by auto
qed

section \<open>A click or a fill in the browser\<close>

text \<open>The control and the decision of a step on a page\<close>

definition browser_judged :: "env \<Rightarrow> string \<Rightarrow> pydict \<Rightarrow> session \<Rightarrow> (control \<times> decision) option" where
  "browser_judged x op kwargs w =
     (let r = text_of (x_float x) kwargs ''ref''
      in case browser_control (x_float x) (ss_scan w) r of
           Inr (Some c) \<Rightarrow>
             (case Hands_Policy.decide (policy_action (x_float x) op r kwargs) (Some c) (Some (page_window (ss_page w)))
                     (Some (fst (ss_page w))) (ss_policy w) (ss_apps w) (x_clock x (ss_trace w)) (ss_hosts w) True of
                Inr d \<Rightarrow> Some (c, d) | Inl e \<Rightarrow> None)
         | _ \<Rightarrow> None)"

lemma moved_ensure_clickable: "moved idle init c w (snd (ensure_clickable x op r tab w))"
  by (simp add: ensure_clickable_def moved_web)

lemma same_web: "same_task w (snd (web x f k w))"
  by (simp add: web_def split: option.split)

lemma same_ensure_clickable: "same_task w (snd (ensure_clickable x op r tab w))"
  by (simp add: ensure_clickable_def same_web)

lemma gate_browser_cases:
  obtains (refused) g w' where "gate_browser x op kwargs a w = (g, w')" "\<forall>d rec k. g \<noteq> Inr (B_Go d rec k)"
      "(challenge_of x w a = c \<Longrightarrow> quoting_ok x c) \<Longrightarrow> moved watching init c w w'"
  | (allowed) d k where "gate_browser x op kwargs a w = (Inr (B_Go d None k), w)" "browser_judged x op kwargs w = Some (k, d)"
      "dverdict d \<noteq> Permit"
  | (granted) d rec k w' n t where "gate_browser x op kwargs a w = (Inr (B_Go d (Some rec) k), w')"
      "browser_judged x op kwargs w = Some (k, d)" "permit_arg kwargs = Some (challenge_of x w a)"
      "ss_trace w' = ss_trace w @ n @ E_Consumed (challenge_of x w a) True # t" "list_all idle n"
      "(challenge_of x w a = c \<Longrightarrow> quoting_ok x c) \<Longrightarrow> moved watching init c w w'"
proof -
  let ?r = "text_of (x_float x) kwargs ''ref''"
  let ?d = "\<lambda>k. Hands_Policy.decide (policy_action (x_float x) op ?r kwargs) (Some k) (Some (page_window (ss_page w)))
    (Some (fst (ss_page w))) (ss_policy w) (ss_apps w) (x_clock x (ss_trace w)) (ss_hosts w) True"
  consider e where "browser_control (x_float x) (ss_scan w) ?r = Inl e"
    | "browser_control (x_float x) (ss_scan w) ?r = Inr None"
    | k e where "browser_control (x_float x) (ss_scan w) ?r = Inr (Some k)" "?d k = Inl e"
    | k d where "browser_control (x_float x) (ss_scan w) ?r = Inr (Some k)" "?d k = Inr d"
    by (metis old.sum.exhaust not_None_eq)
  then show ?thesis
  proof cases
    case 4
    then have judged: "browser_judged x op kwargs w = Some (k, d)" by (simp add: browser_judged_def)
    show ?thesis
    proof (cases "dverdict d = Permit")
      case False
      with 4 judged allowed show ?thesis by (simp add: gate_browser_def Let_def)
    next
      case True
      obtain q v where q: "ensure_clickable x op ?r (get_val kwargs ''tab'') w = (q, v)"
        by (cases "ensure_clickable x op ?r (get_val kwargs ''tab'') w")
      have v: "moved idle i' c' w v" "same_task w v" for i' c'
        using moved_ensure_clickable [of i' c' w x op ?r] same_ensure_clickable [of w x op ?r] q by (metis snd_conv)+
      let ?r' = "routed_step (if op = ''click'' then Click else SetValue) InBrowser (Some k) None []"
      show ?thesis
      proof (cases q)
        case (Inl e)
        with 4 True q v(1) refused show ?thesis
          by (cases e) (simp_all add: gate_browser_def Let_def moved_idle_watching)
      next
        case (Inr z)
        obtain g y where g: "gate_step x a ?r' (Some (page_window (ss_page w))) d (permit_arg kwargs) v = (g, y)"
          by (cases "gate_step x a ?r' (Some (page_window (ss_page w))) d (permit_arg kwargs) v")
        have ch: "challenge_of x v a = challenge_of x w a" by (rule challenge_same [OF v(2)])
        have y: "(challenge_of x w a = c \<Longrightarrow> quoting_ok x c) \<Longrightarrow> moved watching init c w y"
          using moved_trans [OF moved_idle_watching [OF v(1)] gate_moved [of x v a c]] ch g by (metis snd_conv)
        consider e where "g = Inl e" | f where "g = Inr (Refused f)" | rec wa wh where "g = Inr (Granted rec wa wh)"
          by (cases g) (metis gate.exhaust)+
        then show ?thesis
        proof cases
          case 3
          from gate_granted(1,3) [OF g [unfolded 3]] ch obtain n t where
            p: "permit_arg kwargs = Some (challenge_of x w a)" and
            n: "ss_trace y = ss_trace v @ n @ E_Consumed (challenge_of x w a) True # t" "list_all idle n" by auto
          from moved_traces [OF v(1)] obtain m where m: "ss_trace v = ss_trace w @ m" "list_all idle m" by auto
          show ?thesis
          proof (rule granted [of d rec k "widen wa wh d y" "m @ n" t])
            show "gate_browser x op kwargs a w = (Inr (B_Go d (Some rec) k), widen wa wh d y)"
              using 4 True q Inr g 3 by (simp add: gate_browser_def Let_def)
            show "ss_trace (widen wa wh d y) = ss_trace w @ (m @ n) @ E_Consumed (challenge_of x w a) True # t"
              using n m by (simp add: widen_def)
          qed (use judged p m n y in simp_all)
        qed (use 4 True q Inr g y refused in \<open>simp_all add: gate_browser_def Let_def\<close>)
      qed
    qed
  qed (use refused in \<open>simp_all add: gate_browser_def Let_def\<close>)
qed

lemma moved_web_any: "moved any_event init c w (snd (web x f k w))"
  by (rule moved_web) (simp add: any_event_def)

lemma moved_if:
  "moved P init c w (snd t) \<Longrightarrow> moved P init c w (snd e) \<Longrightarrow> moved P init c w (snd (if b then t else e))"
  by simp

lemma moved_clamp:
  "(\<And>n. moved P init c w (snd (f n))) \<Longrightarrow> moved P init c w (snd (case k of Inl e \<Rightarrow> (Inl e, w) | Inr n \<Rightarrow> f n))"
  by (cases k) simp_all

lemma moved_return: "moved P init c w (snd (r, w))"
  by simp

lemma moved_browser_call: "moved any_event init c w (snd (browser_call x op kwargs w))"
  unfolding browser_call_def Let_def
  by (intro moved_if moved_clamp moved_thenS moved_web_any moved_return)

lemma moved_refresh_page_url: "moved any_event init c w (refresh_page_url x tab w)"
proof -
  obtain r v where r: "web x (\<lambda>br t. br_url br t (W_Url tab)) (W_Url tab) w = (r, v)"
    by (cases "web x (\<lambda>br t. br_url br t (W_Url tab)) (W_Url tab) w")
  moreover have "moved any_event init c w v" using moved_web_any r by (metis snd_conv)
  ultimately show ?thesis by (cases r) (simp_all add: refresh_page_url_def)
qed

lemma moved_after_browser_op: "moved any_event init c w (after_browser_op x op tab payload k w)"
  using moved_refresh_page_url [of init c "w\<lparr>ss_scan := scan_of (x_float x) payload\<rparr>" x tab]
  by (simp add: after_browser_op_def remember_page_def)

lemma moved_run_browser_op: "moved any_event init c w (snd (run_browser_op x op kwargs a cls p k w))"
proof -
  let ?tab = "get_val kwargs ''tab''"
  obtain b1 w1 where 1: "capture_if x (cls \<noteq> []) True ?tab w = (b1, w1)" by (cases "capture_if x (cls \<noteq> []) True ?tab w")
  obtain out w2 where 2: "browser_call x op kwargs w1 = (out, w2)" by (cases "browser_call x op kwargs w1")
  obtain b3 w3 where 3: "capture_if x (cls \<noteq> []) True ?tab w2 = (b3, w3)" by (cases "capture_if x (cls \<noteq> []) True ?tab w2")
  obtain lost w4 where 4: "record_in_ledger x (redact a cls k) ''browser'' cls p b1 b3 (attempt_outcome out)
      (attempt_error out) w3 = (lost, w4)"
    by (cases "record_in_ledger x (redact a cls k) ''browser'' cls p b1 b3 (attempt_outcome out) (attempt_error out) w3")
  have "moved any_event init c w w1" using moved_any [OF moved_capture_if] 1 by (metis snd_conv)
  also have "moved any_event init c w1 w2" using moved_browser_call 2 by (metis snd_conv)
  also have "moved any_event init c w2 w3" using moved_any [OF moved_capture_if] 3 by (metis snd_conv)
  also have "moved any_event init c w3 w4" using moved_any [OF moved_record] 4 by (metis snd_conv)
  also have "moved any_event init c w4 (advance x w4)" by (rule moved_advance)
  also have "moved any_event init c (advance x w4) (if attempt_error out = None then
      after_browser_op x op ?tab (case out of Inl e \<Rightarrow> [] | Inr d \<Rightarrow> d) k (advance x w4) else advance x w4)"
    by (simp add: moved_after_browser_op)
  finally show ?thesis by (simp add: run_browser_op_def Let_def 1 2 3 4)
qed

text \<open>
  A click or a fill in the browser is held to the same rule: if anything is done to the page, the
  element was in the last scan, the policy judged the step against that element and the page as the
  session last knew it, and where the verdict was to ask, the runtime held the challenge of exactly
  this call and the broker had confirmed spending it before.
\<close>

theorem browser_step_needs_its_permit:
  assumes op: "op = ''click'' \<or> op = ''fill''"
    and trace: "ss_trace (snd (browser_op x op kwargs w)) = ss_trace w @ s @ e # t" and "acting e"
  shows "\<exists>k d. browser_judged x op kwargs (refresh_policy x w) = Some (k, d) \<and>
    (dverdict d = Permit \<longrightarrow> permit_arg kwargs = Some (challenge_of x w (browser_action op kwargs)) \<and>
       E_Consumed (challenge_of x w (browser_action op kwargs)) True \<in> set s)"
proof -
  let ?a = "browser_action op kwargs"
  define v where "v = refresh_policy x w"
  obtain n0 where n0: "ss_trace v = ss_trace w @ n0" "list_all idle n0"
    using moved_refresh_policy [of undefined undefined w x] by (auto simp: moved_def v_def)
  have ch: "challenge_of x v ?a = challenge_of x w ?a"
    unfolding v_def by (rule challenge_same [OF same_refresh_policy])
  have guard: "step_guard x w = None"
    using op trace by (auto simp: browser_op_def browser_navigate_def split: option.splits)
  then have run: "browser_op x op kwargs w = (case gate_browser x op kwargs ?a v of
      (Inl e, w) \<Rightarrow> (Inl e, w) | (Inr (B_Refused g), w) \<Rightarrow> (Inr g, w)
    | (Inr (B_Go d rec c), w) \<Rightarrow>
        (case run_browser_op x op kwargs ?a (decision_classes d) rec (Some c) w of (res, w) \<Rightarrow> (Inr res, w)))"
    using op by (auto simp: browser_op_def browser_navigate_def browser_direct_def v_def Let_def)
  show ?thesis
  proof (cases rule: gate_browser_cases [where x = x and op = op and kwargs = kwargs and a = ?a and w = v
        and c = "challenge_of x v ?a @ ''x''" and init = undefined])
    case (refused g w')
    then have "snd (browser_op x op kwargs w) = w'"
      by (auto simp: run split: sum.split browser_gate.split)
    moreover obtain n where "ss_trace w' = ss_trace v @ n" "list_all watching n"
      using refused(3) by (auto simp: moved_def)
    ultimately have "n0 @ n = s @ e # t" using trace n0 by simp
    then have "e \<in> set (n0 @ n)" by simp
    with n0 \<open>list_all watching n\<close> have "watching e" by (auto simp: list_all_iff idle_watching)
    with \<open>acting e\<close> show ?thesis by (simp add: acting_not_watching)
  next
    case (allowed d k)
    then show ?thesis by (simp add: v_def)
  next
    case (granted d rec k w' n m)
    obtain n4 where n4: "ss_trace (snd (browser_op x op kwargs w)) = ss_trace w' @ n4"
      using granted(1) moved_traces [OF moved_run_browser_op [of undefined undefined w' x op kwargs ?a
          "decision_classes d" "Some rec" "Some k"]]
      by (auto simp: run case_prod_beta)
    from trace n0 n4 granted(4) ch
    have "(n0 @ n) @ E_Consumed (challenge_of x w ?a) True # (m @ n4) = s @ e # t" by simp
    moreover have "e \<noteq> E_Consumed (challenge_of x w ?a) True" using \<open>acting e\<close> by auto
    ultimately have "E_Consumed (challenge_of x w ?a) True \<in> set s"
      using behind_the_permit [of "n0 @ n" _ "m @ n4" s e t idle] n0 granted(5) acting_not_idle [OF \<open>acting e\<close>] by simp
    with granted(2,3) ch show ?thesis by (auto simp: v_def)
  qed
qed

definition fill_pin :: pydict where
  "fill_pin = [(''ref'', PyStr ''e1''), (''text'', PyStr ''4711''), (''permit'', PyStr ''c1'')]"

definition fill_session :: session where
  "fill_session = example_session\<lparr>ss_scan := [(''e1'', [(''role'', PyStr ''password''), (''name'', PyStr ''Pin'')])],
     ss_srv := serving (store_after 60 True
       [Op_Request 0 0 ''c1'' (''set_value '' @ quoted ''Pin'' @ '' on an unnamed site (in the browser)'')
          [''credential'', ''boundary''] ''k1'' 0, Op_Decide 1 ''c1'' ''approve'' ''chord''])\<rparr>"

lemma fill_step:
  "ss_trace (snd (browser_op example_env ''fill'' fill_pin fill_session)) = ss_trace fill_session @
     [E_Look, E_Exchange GET ''/permits/c1'', E_Exchange POST ''/permits/c1/consume'', E_Consumed ''c1'' True,
      E_Exchange GET ''/permits/c1'', E_Web (W_Shot PyNone 1280)] @ E_Web (W_Fill ''e1'' ''4711'' PyNone) #
     [E_Web (W_Shot PyNone 1280), E_Ledger]"
  by code_simp

theorem browser_step_needs_its_permit_witness:
  "\<exists>k d. browser_judged example_env ''fill'' fill_pin (refresh_policy example_env fill_session) = Some (k, d) \<and>
     dverdict d = Permit \<and> E_Consumed ''c1'' True \<in> set [E_Look, E_Exchange GET ''/permits/c1'',
       E_Exchange POST ''/permits/c1/consume'', E_Consumed ''c1'' True, E_Exchange GET ''/permits/c1'', E_Web (W_Shot PyNone 1280)]"
proof -
  have "map_option (\<lambda>(k, d). dverdict d)
      (browser_judged example_env ''fill'' fill_pin (refresh_policy example_env fill_session)) = Some Permit"
    by code_simp
  moreover have "challenge_of example_env fill_session (browser_action ''fill'' fill_pin) = ''c1''" by code_simp
  ultimately show ?thesis using browser_step_needs_its_permit [OF _ fill_step] by auto
qed

end
