(* ===== verification/Hands_Life.thy ===== *)
theory Hands_Life
  imports Hands_Guard
begin

text \<open>
  The session as a whole: what any sequence of calls does to the permits and to the state of a task, how
  a task ends, what a step leaves on the record, and how its scope grows.
\<close>

section \<open>Every operation makes progress\<close>

lemma moved_any_ask: "moved any_event init c w (snd (ask f e w))" if "\<forall>ok. e \<noteq> E_Consumed c ok"
  using that by (intro moved_ask) (simp_all add: any_event_def)

lemma moved_case_ask:
  assumes "\<forall>ok. e \<noteq> E_Consumed c ok" and "\<And>a v. ask f e w = (a, v) \<Longrightarrow> moved any_event init c v (snd (g a v))"
  shows "moved any_event init c w (snd (case ask f e w of (a, v) \<Rightarrow> g a v))"
  using moved_any_ask [OF assms(1)] by (rule moved_pair) (rule assms(2))

lemma moved_observe: "moved any_event init c w (snd (observe x detail app region n w))"
  unfolding observe_def
  by (cases "no_task w") (auto intro!: moved_if moved_clamp moved_thenS moved_any_ask)

lemma moved_merge: "moved any_event init c w (snd (merge_into_observation x cs w))"
  unfolding merge_into_observation_def
  by (cases "ss_obs w") (auto intro!: moved_if moved_thenS moved_any_ask)

lemma moved_find: "moved any_event init c w (snd (find_controls x query n w))"
  unfolding find_controls_def
  by (cases "no_task w") (auto intro!: moved_clamp moved_thenS moved_any_ask moved_merge)

lemma moved_act:
  assumes "quoting_ok x c"
  shows "moved any_event init c w (snd (act x action p w))"
proof (cases rule: act_cases [where x = x and action = action and p = p and w = w and init = init and c = c])
  case stopped
  then show ?thesis by (simp add: moved_any)
next
  case (allowed r win d u)
  from moved_trans [OF moved_any [OF conjunct1 [OF planned_cases [OF allowed(1)]]] moved_run_step] allowed(3)
  show ?thesis by (simp add: case_prod_beta)
next
  case (refused r win d u g v)
  from moved_trans [OF moved_any [OF conjunct1 [OF planned_cases [OF refused(1)]]] moved_any [OF gate_moved [OF assms]]]
    refused(3,5) show ?thesis by (metis snd_conv)
next
  case (granted r win d u rec wa wh v)
  have "moved any_event init c w v"
    using moved_trans [OF moved_any [OF conjunct1 [OF planned_cases [OF granted(1)]]] moved_any [OF gate_moved [OF assms]]]
      granted(3) by (metis snd_conv)
  also have "moved any_event init c v (widen wa wh d v)" by simp
  also have "moved any_event init c (widen wa wh d v) (snd (run_step x (as_action action) r win (judged_control r v) d
      (Some rec) (widen wa wh d v)))"
    by (rule moved_run_step)
  finally show ?thesis using granted(4) by (simp add: case_prod_beta)
qed

lemma moved_gate_browser:
  assumes "quoting_ok x c"
  shows "moved any_event init c w (snd (gate_browser x op kwargs a w))"
  using assms
  by (cases rule: gate_browser_cases [where x = x and op = op and kwargs = kwargs and a = a and w = w and c = c and init = init])
    (simp_all add: moved_any)

lemma moved_browser_op:
  assumes "quoting_ok x c"
  shows "moved any_event init c w (snd (browser_op x op kwargs w))"
proof -
  have run: "moved any_event init c v (snd (case run_browser_op x op kwargs a cls p k v of (res, w) \<Rightarrow> (Inr res, w)))"
    for a cls p k v and f :: "pydict \<Rightarrow> py_exc + pydict"
    using moved_run_browser_op by (simp add: case_prod_beta)
  let ?v = "refresh_policy x w"
  obtain g y where g: "gate_browser x op kwargs (browser_action op kwargs) ?v = (g, y)"
    by (cases "gate_browser x op kwargs (browser_action op kwargs) ?v")
  have v: "moved any_event init c w ?v" by (rule moved_any [OF moved_refresh_policy])
  have y: "moved any_event init c w y"
    using moved_trans [OF v moved_gate_browser [OF assms]] g by (metis snd_conv)
  have gated: "moved any_event init c w (snd (case (g, y) of (Inl e, w) \<Rightarrow> (Inl e, w) | (Inr (B_Refused g), w) \<Rightarrow> (Inr g, w)
      | (Inr (B_Go d rec c), w) \<Rightarrow>
          (case run_browser_op x op kwargs (browser_action op kwargs) (decision_classes d) rec (Some c) w of
             (res, w) \<Rightarrow> (Inr res, w))))"
    using y moved_trans [OF y run] by (auto split: sum.split browser_gate.split)
  have "moved any_event init c w (snd (case step_guard x w of Some d \<Rightarrow> (Inr d, w) | None \<Rightarrow>
      if op \<notin> set browser_direct then (Inr (refusal_of (''invalid_action: unknown browser op '' @ py_repr op)), w)
      else if op \<in> {''click'', ''fill''} then
          (case gate_browser x op kwargs (browser_action op kwargs) ?v of (Inl e, w) \<Rightarrow> (Inl e, w)
          | (Inr (B_Refused g), w) \<Rightarrow> (Inr g, w) | (Inr (B_Go d rec c), w) \<Rightarrow>
              (case run_browser_op x op kwargs (browser_action op kwargs) (decision_classes d) rec (Some c) w of
                 (res, w) \<Rightarrow> (Inr res, w)))
        else (case run_browser_op x op kwargs (browser_action op kwargs) [] None None ?v of (res, w) \<Rightarrow> (Inr res, w))))"
    unfolding g using moved_trans [OF v run] gated by (cases "step_guard x w") (auto intro!: moved_if)
  then show ?thesis
    unfolding browser_op_def Let_def by (intro moved_if moved_return moved_act [OF assms])
qed

lemma moved_status: "moved any_event init c w (snd (status x w))"
proof -
  let ?v = "refresh_policy x w"
  obtain k u where k: "ensure_broker x ?v = (k, u)" by (cases "ensure_broker x ?v")
  have "moved any_event init c w ?v" by (rule moved_any [OF moved_refresh_policy])
  also have "moved any_event init c ?v u" using moved_any [OF moved_ensure_broker] k by (metis snd_conv)
  finally have u: "moved any_event init c w u" .
  show ?thesis
    using k u moved_trans [OF u moved_any [OF moved_client(1)]]
    by (cases k) (simp_all add: status_def Let_def case_prod_beta)
qed

lemma moved_release [simp]: "moved P init c w (snd (release x w'))  = moved P init c w w'"
  by (simp add: release_def case_prod_beta)

lemma moved_close_evidence: "moved any_event init c w (snd (close_evidence x outcome summary w))"
  unfolding close_evidence_def by (rule moved_case_ask) (auto split: option.split)

lemma moved_tell_keep: "moved any_event init c w (tell_keep x w)"
proof -
  obtain i l where k: "action_before (x_float x) (x_keep x) (ss_goal w) (the (ss_task w)) (ss_apps w) (ss_link w) = (i, l)"
    by (cases "action_before (x_float x) (x_keep x) (ss_goal w) (the (ss_task w)) (ss_apps w) (ss_link w)")
  have "moved any_event init c w (snd (ask (x_note_fault x) E_Ledger (w\<lparr>ss_link := l, ss_action_id := i\<rparr>)))"
    by (simp add: ask_def log_event_def moved_def any_event_def)
  then show ?thesis by (simp add: tell_keep_def k Let_def case_prod_beta)
qed

lemma moved_blocked_start: "moved any_event init c w (snd (blocked_start x w))"
proof -
  have "moved any_event init c w (snd (close_evidence x o' s' (snd (release x w))))" for o' s'
    using moved_trans [OF _ moved_close_evidence, of init c w "snd (release x w)"] by simp
  then show ?thesis by (simp add: blocked_start_def reset_def Let_def case_prod_beta)
qed

lemma moved_begin_task: "moved any_event init c w (snd (begin_task x goal names task l w))"
proof -
  let ?w = "w\<lparr>ss_task := Some task, ss_goal := goal, ss_apps := names, ss_ledger := Some l, ss_step := 0, ss_obs := None\<rparr>"
  have "moved any_event init c w ?w" by simp
  also have "moved any_event init c ?w (tell_keep x ?w)" by (rule moved_tell_keep)
  finally have t: "moved any_event init c w (tell_keep x ?w)" .
  with moved_trans [OF t moved_blocked_start] show ?thesis
    by (simp add: begin_task_def Let_def case_prod_beta)
qed

lemma moved_task_start: "moved any_event init c w (snd (task_start x goal names w))"
proof (cases "ss_task w")
  case None
  let ?f = "\<lambda>t. prune (x_evidence x t) (evidence_retention_days (x_cfg x)) (x_clock x t)"
  let ?g = "\<lambda>t. (x_task_id x t, x_open_fault x t)"
  obtain r v where r: "ask ?f E_Look w = (r, v)" by (cases "ask ?f E_Look w")
  have v: "moved any_event init c w v" using moved_any_ask [where e = E_Look and f = ?f and w = w and c = c and init = init] r by simp
  obtain task e u where u: "ask ?g E_Ledger v = ((task, e), u)" by (cases "ask ?g E_Ledger v") auto
  have mu: "moved any_event init c w u" using moved_trans [OF v] moved_any_ask [where e = E_Ledger and f = ?g and w = v and c = c and init = init] u by simp
  obtain lease k where k: "acquire_lease (x_keep x) DEFAULT_LEASE_TTL True (ss_link u) = (lease, k)"
    by (cases "acquire_lease (x_keep x) DEFAULT_LEASE_TTL True (ss_link u)")
  let ?l = "open_ledger goal names (x_machine x) (x_session x) (iso_now x u) (Missing, [], [])"
  have start: "moved any_event init c w (snd (begin_task x goal names task ?l (u\<lparr>ss_link := k\<rparr>)))"
    using moved_trans [OF mu] moved_begin_task [of init c "u\<lparr>ss_link := k\<rparr>"] by simp
  have "moved any_event init c (u\<lparr>ss_link := k\<rparr>) (snd (lost_race x d (u\<lparr>ss_link := k\<rparr>)))" for d
    unfolding lost_race_def by (rule moved_case_ask) (auto split: option.split)
  then have lost: "moved any_event init c w (snd (lost_race x d (u\<lparr>ss_link := k\<rparr>)))" for d
    using moved_trans [OF mu] by simp
  from None r v u mu k start lost show ?thesis
    by (cases r; cases e; cases lease) (simp_all add: task_start_def Let_def del: moved_release)
qed (simp add: task_start_def)

lemma moved_task_end: "moved any_event init c w (snd (task_end x outcome summary w))"
proof (cases "ss_task w = None \<or> outcome \<notin> set outcomes")
  case True
  then show ?thesis by (cases "ss_task w") (auto simp: task_end_def)
next
  case False
  obtain r v where r: "close_evidence x outcome summary w = (r, v)" by (cases "close_evidence x outcome summary w")
  have "moved any_event init c w v" using moved_close_evidence r by (metis snd_conv)
  with False r show ?thesis by (auto simp: task_end_def Let_def reset_def release_def case_prod_beta)
qed

lemma moved_abandon: "moved any_event init c w (snd (abandon x summary w))"
proof -
  obtain r v where r: "task_end x ''abandoned'' summary w = (r, v)" by (cases "task_end x ''abandoned'' summary w")
  have "moved any_event init c w v" using moved_task_end r by (metis snd_conv)
  with r show ?thesis by (cases r) (simp_all add: abandon_def reset_def release_def case_prod_beta)
qed

lemma moved_wait_loop:
  "wait_loop (wire_to x k) clock (\<lambda>d. log_event (E_Sleep d)) path i deadline fuel latest w = Some (d, w') \<Longrightarrow>
     moved any_event init c w w'"
proof (induction fuel arbitrary: latest w)
  case (Suc fuel)
  obtain st v w1 where c1: "client_call (wire_to x k) GET path None w = ((st, v), w1)"
    by (cases "client_call (wire_to x k) GET path None w") auto
  have w1: "moved any_event init c w w1"
    using moved_any [OF moved_wire] c1 snd_client_call [of "wire_to x k" GET path None w] by (metis snd_conv)
  have sleep: "moved any_event init c w1 (log_event (E_Sleep q) w1)" for q
    by (rule moved_log) (simp_all add: any_event_def)
  have later: "wait_loop (wire_to x k) clock (\<lambda>d. log_event (E_Sleep d)) path i deadline fuel l (log_event (E_Sleep q) w1) =
      Some (d, w') \<Longrightarrow> moved any_event init c w w'" for l q
    using Suc.IH moved_trans [OF w1 moved_trans [OF sleep]] by blast
  from Suc.prems c1 w1 later show ?case
    by (auto simp: Let_def simp del: moved_fields split: if_splits)
qed simp

lemma moved_wait: "moved any_event init c w (session_step x (S_Wait fuel i secs) w)"
proof -
  obtain k v where k: "ensure_broker x w = (k, v)" by (cases "ensure_broker x w")
  have v: "moved any_event init c w v" using moved_any [OF moved_ensure_broker] k by (metis snd_conv)
  show ?thesis
  proof (cases k)
    case (Some cl)
    obtain q where q: "q = client_wait (wire_to x cl) (\<lambda>w. x_clock x (ss_trace w)) (\<lambda>d. log_event (E_Sleep d)) (x_quote x) i
        (of_int (min (max 0 secs) max_wait_s)) fuel v" by simp
    show ?thesis
    proof (cases q)
      case (Some z)
      then obtain d u where "q = Some (d, u)" by (cases z) auto
      with q have "moved any_event init c v u" unfolding client_wait_def by (metis moved_wait_loop)
      with v have "moved any_event init c w u" by (rule moved_trans)
      with k \<open>k = Some cl\<close> q [symmetric] \<open>q = Some (d, u)\<close> show ?thesis by (simp add: request_permit_def)
    qed (use k \<open>k = Some cl\<close> q [symmetric] v in \<open>simp add: request_permit_def\<close>)
  qed (use k v in \<open>simp add: request_permit_def\<close>)
qed

lemma moved_session_step:
  assumes "quoting_ok x c"
  shows "moved any_event init c w (session_step x q w)"
  using moved_status moved_task_start moved_task_end moved_abandon moved_observe moved_find moved_act [OF assms]
    moved_browser_op [OF assms] moved_wait
  by (cases q) (simp_all del: session_step.simps(9))

definition run_session :: "env \<Rightarrow> session_op list \<Rightarrow> session \<Rightarrow> session" where
  "run_session x qs w = run_ops (session_step x) qs w"

lemma moved_run_session: "quoting_ok x c \<Longrightarrow> moved any_event init c w (run_session x qs w)"
  unfolding run_session_def
proof (induction qs arbitrary: w)
  case (Cons q qs)
  from moved_trans [OF moved_session_step [OF Cons.prems] Cons.IH [OF Cons.prems]] show ?case by simp
qed simp

lemma new_session_start [simp]:
  "ss_trace (new_session pol mt k l srv) = []" "ss_srv (new_session pol mt k l srv) = srv"
  by (simp_all add: new_session_def)

text \<open>
  C16. Permits are spent at most as often as a person approved: over any sequence of calls to a session,
  with any world around it, the broker confirms spending a challenge no more often than the threads that
  carry a person's answer (the chord listener, the phone bridge) approved that challenge.
\<close>

theorem session_spends_what_was_approved:
  assumes "quoting_ok x c"
  shows "spent_in c (ss_trace (run_session x qs (new_session pol mt k l (serving (init_store secs b))))) \<le>
    tally log_step (outside_approval c)
      (s_log (ss_srv (run_session x qs (new_session pol mt k l (serving (init_store secs b)))))) (init_store secs b)"
proof -
  let ?new = "new_session pol mt k l (serving (init_store secs b))"
  let ?w = "run_session x qs ?new"
  have start: "logged (init_store secs b) (ss_srv ?new)" by (simp add: new_session_def logged_def serving_def)
  obtain new where tr: "ss_trace ?w = ss_trace ?new @ new" and
    g: "grew (init_store secs b) (spent_in c new) c (ss_srv ?new) (ss_srv ?w)"
    using moved_run_session [OF assms, of "init_store secs b" ?new qs] by (auto simp only: moved_def)
  have ok: "logged (init_store secs b) (ss_srv ?w)"
    and "spent (init_store secs b) c (ss_srv ?new) + spent_in c new \<le> spent (init_store secs b) c (ss_srv ?w)"
    using g [unfolded grew_def, THEN mp, OF start] by (rule conjunct1 conjunct2)+
  with tr have le: "spent_in c (ss_trace ?w) \<le> spent (init_store secs b) c (ss_srv ?w)" by simp
  have http: "\<forall>(h, y) \<in> set (s_log (ss_srv ?w)). h \<longrightarrow> http_op y" using ok by (simp add: logged_def)
  have "spent (init_store secs b) c (ss_srv ?w) \<le> tally log_step (outside_approval c) (s_log (ss_srv ?w)) (init_store secs b)"
    using permit_gate.spends_le_grants [OF wf_init, of c "map snd (s_log (ss_srv ?w))" secs b] not_approved_init [of c secs b]
    unfolding spent_def tally_log_spend tally_outside [OF http] by simp
  with le show ?thesis by simp
qed

text \<open>Another thread puts a permit in the store and approves it before the first exchange\<close>

definition helpful_env :: env where
  "helpful_env = example_env\<lparr>x_around :=
     \<lparr>o_ops = (\<lambda>n. if n = 0 then
          [Op_Request 0 0 ''c1'' (''open the app the runtime asked for: '' @ quoted ''mail'') [''boundary''] ''k1'' 0,
           Op_Decide 1 ''c1'' ''approve'' ''chord''] else []), o_clock = (\<lambda>n k. 1)\<rparr>\<rparr>"

definition mail_ops :: "session_op list" where
  "mail_ops = [S_Start ''mail'' [], S_Act open_mail (Some ''c1''), S_Act open_mail (Some ''c1'')]"

theorem session_spends_what_was_approved_witness:
  "1 \<le> tally log_step (outside_approval ''c1'')
     (s_log (ss_srv (run_session helpful_env mail_ops (new_session empty_policy None (Some (1, ''k''))
       (new_link ''hands'' ''m'' (Some True) False False ''s'') (serving (init_store 60 True)))))) (init_store 60 True)"
proof -
  let ?w = "run_session helpful_env mail_ops (new_session empty_policy None (Some (1, ''k''))
    (new_link ''hands'' ''m'' (Some True) False False ''s'') (serving (init_store 60 True)))"
  have "quoting_ok helpful_env ''c1''" and one: "spent_in ''c1'' (ss_trace ?w) = 1" by code_simp+
  from session_spends_what_was_approved [OF this(1)] show ?thesis unfolding one [symmetric] .
qed

end
