(* ===== verification/Hands_Books.thy ===== *)
theory Hands_Books
  imports Hands_Life "HOL-Library.Sublist"
begin

text \<open>
  The bookkeeping of a session: the invariant between calls, the end of a task, the step budget, what an
  acted step leaves in the ledger, and how the scope of a task grows.
\<close>

section \<open>What a step leaves alone\<close>

text \<open>The fields only the life of a task and the end of a step touch\<close>

definition keeps :: "session \<Rightarrow> session \<Rightarrow> bool" where
  "keeps w w' \<longleftrightarrow> ss_task w' = ss_task w \<and> ss_step w' = ss_step w \<and> ss_apps w' = ss_apps w \<and> ss_hosts w' = ss_hosts w \<and>
     ss_ledger w' = ss_ledger w \<and> ss_link w' = ss_link w \<and> ss_goal w' = ss_goal w \<and> ss_action_id w' = ss_action_id w"

lemma keeps_refl [simp, intro]: "keeps w w"
  by (simp add: keeps_def)

lemma keeps_trans: "keeps w w' \<Longrightarrow> keeps w' w'' \<Longrightarrow> keeps w w''"
  by (simp add: keeps_def)

lemma keeps_simps [simp]:
  "keeps w (w'\<lparr>ss_broker := a1\<rparr>) = keeps w w'" "keeps w (w'\<lparr>ss_policy := a2\<rparr>) = keeps w w'"
  "keeps w (w'\<lparr>ss_mtime := a3\<rparr>) = keeps w w'" "keeps w (w'\<lparr>ss_obs := a4\<rparr>) = keeps w w'"
  "keeps w (w'\<lparr>ss_hint := a5\<rparr>) = keeps w w'" "keeps w (w'\<lparr>ss_scan := a6\<rparr>) = keeps w w'"
  "keeps w (w'\<lparr>ss_page := a7\<rparr>) = keeps w w'" "keeps w (w'\<lparr>ss_srv := a8\<rparr>) = keeps w w'"
  "keeps w (log_event e w') = keeps w w'"
  by (simp_all add: keeps_def log_event_def)

lemma keeps_ask [simp]: "keeps w (snd (ask f e w')) = keeps w w'"
  by (simp add: ask_def)

lemma keeps_desk [simp]: "keeps w (snd (desk x k w')) = keeps w w'"
  by (simp add: desk_def)

lemma keeps_web [simp]: "keeps w (snd (web x f k w')) = keeps w w'"
  by (simp add: web_def split: option.split)

lemma keeps_remember_page [simp]: "keeps w (remember_page x d w') = keeps w w'"
  by (simp add: remember_page_def)

lemma keeps_thenS:
  assumes "keeps w (snd r)" and "\<And>a v. r = (Inr a, v) \<Longrightarrow> keeps v (snd (f a v))"
  shows "keeps w (snd (thenS r f))"
proof (cases r)
  case (Pair a v)
  with assms show ?thesis by (cases a) (auto simp: thenS_def intro: keeps_trans)
qed

lemma keeps_done_with: "keeps w (snd r) \<Longrightarrow> keeps w (snd (done_with r))"
  unfolding done_with_def by (rule keeps_thenS) simp_all

text \<open>The gate and everything before it leave even more alone\<close>

lemma same_task_keeps: "same_task w w' \<Longrightarrow> keeps w w'"
  by (simp add: same_task_def keeps_def)

lemma keeps_capture_if: "keeps w (snd (capture_if x b via tab w))"
proof -
  let ?n = "screenshot_max_width (x_cfg x)"
  obtain r v where r: "web x (\<lambda>br t. br_shot br t (W_Shot tab ?n)) (W_Shot tab ?n) w = (r, v)"
    by (cases "web x (\<lambda>br t. br_shot br t (W_Shot tab ?n)) (W_Shot tab ?n) w")
  obtain q u where q: "ask (x_observe x) (E_Scan None True) w = (q, u)"
    by (cases "ask (x_observe x) (E_Scan None True) w")
  have "keeps w v" using keeps_web r by (metis keeps_refl snd_conv)
  moreover have "keeps w u" using keeps_ask q by (metis keeps_refl snd_conv)
  ultimately show ?thesis using r q
    by (cases r; cases q) (auto simp: capture_if_def capture_def Let_def split: sum.split)
qed

lemma keeps_execute: "keeps w (snd (execute x r win w))"
  by (cases "rkind r")
    (auto simp: execute_def Let_def intro!: keeps_done_with keeps_thenS split: option.split sum.split)

lemma keeps_update_focus_hint [simp]: "keeps w (update_focus_hint r w') = keeps w w'"
  by (simp add: update_focus_hint_def)

section \<open>The end of a step\<close>

definition stepped :: "session \<Rightarrow> session \<Rightarrow> bool" where
  "stepped w w' \<longleftrightarrow> ss_task w' = ss_task w \<and> ss_step w' = ss_step w + 1 \<and> ss_ledger w' \<noteq> None \<and> ss_apps w' = ss_apps w \<and>
     ss_hosts w' = ss_hosts w \<and> holds_lease (ss_link w') = holds_lease (ss_link w)"

lemma renew_keeps_lease [simp]: "holds_lease (renew_lease k l) = holds_lease l"
  by (simp add: renew_lease_def call_def Let_def)

lemma stepped_advance:
  "keeps w v \<Longrightarrow> stepped w ((advance x (v\<lparr>ss_ledger := Some l\<rparr>)))"
  by (simp add: keeps_def stepped_def advance_def Let_def)

text \<open>The line of a step in the ledger\<close>

definition noted :: "env \<Rightarrow> session \<Rightarrow> session \<Rightarrow> step_args \<Rightarrow> bool" where
  "noted x w w' a \<longleftrightarrow> (\<exists>iso chain. step_lines (the (ss_ledger w')) = step_lines (the (ss_ledger w)) @
     [Line (sort_keys (PyDict (step_line (x_sha_bytes x) iso a @ [(''chain'', PyStr chain)])))])"

lemma record_inr:
  assumes "record_step H HB fl fault now_iso a l = (Inr line, l')"
  shows "\<exists>chain. step_lines l' =
    step_lines l @ [Line (sort_keys (PyDict (step_line HB now_iso a @ [(''chain'', PyStr chain)])))]"
proof -
  obtain prev where "prev_chain l = PyStr prev" and "fault = WritesOk"
    using assms by (auto simp: record_step_def Let_def simp del: sort_keys.simps split: write_fault.splits pyval.splits)
  with assms show ?thesis by (auto simp: record_step_def Let_def simp del: sort_keys.simps)
qed

lemma record_books:
  assumes "record_in_ledger x a rt cls p before after out er w = (lost, w')"
  obtains l where "w' = (log_event E_Ledger w)\<lparr>ss_ledger := Some l\<rparr>"
    "lost = None \<Longrightarrow> noted x w w' \<lparr>s_index = ss_step w, s_action = a, s_route = rt, s_classes = cls, s_permit = p,
       s_before = before, s_after = after, s_outcome = out, s_error = er\<rparr>"
proof -
  let ?a = "\<lparr>s_index = ss_step w, s_action = a, s_route = rt, s_classes = cls, s_permit = p,
    s_before = before, s_after = after, s_outcome = out, s_error = er\<rparr>"
  let ?iso = "format_utc \<lfloor>x_clock x (ss_trace w)\<rfloor>"
  obtain r l where r: "record_step (x_sha x) (x_sha_bytes x) (x_float x) (x_fault x (ss_trace w)) ?iso ?a (the (ss_ledger w))
      = (r, l)"
    by (cases "record_step (x_sha x) (x_sha_bytes x) (x_float x) (x_fault x (ss_trace w)) ?iso ?a (the (ss_ledger w))")
  have w': "w' = (log_event E_Ledger w)\<lparr>ss_ledger := Some l\<rparr>" and lost: "lost = None \<Longrightarrow> \<exists>line. r = Inr line"
    using assms r by (auto simp: record_in_ledger_def Let_def split: sum.splits)
  have "noted x w w' ?a" if "lost = None"
  proof -
    from lost [OF that] obtain line where "r = Inr line" by blast
    with record_inr r obtain chain where
      "step_lines l = step_lines (the (ss_ledger w)) @
         [Line (sort_keys (PyDict (step_line (x_sha_bytes x) ?iso ?a @ [(''chain'', PyStr chain)])))]"
      by metis
    then show ?thesis using w' unfolding noted_def by auto
  qed
  with w' that show ?thesis by blast
qed

lemma with_evidence_error_key: "map_of d ''evidence_error'' = None \<Longrightarrow>
    map_of (with_evidence_error lost d) ''evidence_error'' = map_option PyStr lost"
  by (cases lost) (simp_all add: with_evidence_error_def update_conv')

lemma merged_key: "k \<notin> fst ` set e \<Longrightarrow> map_of (merged d e) k = map_of d k"
  unfolding merged_def by (induction e arbitrary: d) (auto simp: update_conv')

lemma browser_payload_keys: "fst ` set (browser_payload p) \<subseteq> set browser_result_keys"
  by (auto simp: browser_payload_def split: option.split)

lemma no_evidence_key: "''evidence_error'' \<notin> set browser_result_keys"
  by code_simp

lemma run_step_books:
  obtains lost s where "map_of (fst (run_step x a r win c d p w)) ''evidence_error'' = map_option PyStr lost"
    "stepped w (snd (run_step x a r win c d p w))"
    "lost = None \<Longrightarrow> noted x w (snd (run_step x a r win c d p w)) s"
    "s_index s = ss_step w" "s_action s = redact a (decision_classes d) c" "s_classes s = decision_classes d" "s_permit s = p"
proof -
  let ?b = "rroute r = InBrowser"
  obtain b1 w1 where 1: "capture_if x (p \<noteq> None) ?b PyNone w = (b1, w1)"
    by (cases "capture_if x (p \<noteq> None) ?b PyNone w")
  obtain out w2 where 2: "execute x r win w1 = (out, w2)" by (cases "execute x r win w1")
  obtain b3 w3 where 3: "capture_if x (p \<noteq> None) ?b PyNone w2 = (b3, w3)"
    by (cases "capture_if x (p \<noteq> None) ?b PyNone w2")
  define w4 where "w4 = (if attempt_error out = None then update_focus_hint r w3 else w3)"
  let ?cls = "decision_classes d"
  obtain lost w5 where 5: "record_in_ledger x (redact a ?cls c) (how_name (rroute r)) ?cls
      p b1 b3 (attempt_outcome out) (attempt_error out) w4 = (lost, w5)"
    by (cases "record_in_ledger x (redact a ?cls c) (how_name (rroute r)) ?cls
      p b1 b3 (attempt_outcome out) (attempt_error out) w4")
  have "keeps w w1" using keeps_capture_if 1 by (metis snd_conv)
  moreover have "keeps w1 w2" using keeps_execute 2 by (metis snd_conv)
  moreover have "keeps w2 w3" using keeps_capture_if 3 by (metis snd_conv)
  ultimately have w4: "keeps w w4" unfolding w4_def by (auto intro: keeps_trans)
  from record_books [OF 5] obtain l where w5: "w5 = (log_event E_Ledger w4)\<lparr>ss_ledger := Some l\<rparr>" and
    line: "lost = None \<Longrightarrow> noted x w4 w5 \<lparr>s_index = ss_step w4, s_action = redact a ?cls c,
      s_route = how_name (rroute r), s_classes = ?cls, s_permit = p, s_before = b1, s_after = b3,
      s_outcome = attempt_outcome out, s_error = attempt_error out\<rparr>"
    by blast
  have run: "run_step x a r win c d p w = (with_evidence_error lost
      (merged [(''ok'', PyBool (attempt_error out = None)), (''step_index'', PyInt (ss_step w)),
               (''route'', PyStr (how_name (rroute r))), (''classes'', texts ?cls), (''error'', opt_str (attempt_error out))]
         (browser_payload (case out of Inl _ \<Rightarrow> None | Inr p \<Rightarrow> p))), advance x w5)"
    by (simp add: run_step_def Let_def 1 2 3 w4_def [symmetric] 5 del: not_None_eq)
  show ?thesis
  proof (rule that [of lost "\<lparr>s_index = ss_step w4, s_action = redact a ?cls c, s_route = how_name (rroute r),
      s_classes = ?cls, s_permit = p, s_before = b1, s_after = b3, s_outcome = attempt_outcome out,
      s_error = attempt_error out\<rparr>"])
    show "map_of (fst (run_step x a r win c d p w)) ''evidence_error'' = map_option PyStr lost"
      unfolding run fst_conv using browser_payload_keys no_evidence_key
      by (intro with_evidence_error_key) (subst merged_key, blast, simp)
    show "stepped w (snd (run_step x a r win c d p w))"
      unfolding run w5 snd_conv using stepped_advance [of w "log_event E_Ledger w4" x l] w4 by simp
    have "noted x w (advance x w5) z" if "noted x w4 w5 z" for z
      using that w4 by (simp add: noted_def advance_def keeps_def Let_def)
    with line show "lost = None \<Longrightarrow> noted x w (snd (run_step x a r win c d p w)) \<lparr>s_index = ss_step w4,
        s_action = redact a ?cls c, s_route = how_name (rroute r), s_classes = ?cls, s_permit = p, s_before = b1,
        s_after = b3, s_outcome = attempt_outcome out, s_error = attempt_error out\<rparr>"
      unfolding run snd_conv by blast
  qed (use w4 in \<open>simp_all add: keeps_def\<close>)
qed

section \<open>The three ways \<open>act\<close> goes\<close>

lemma refresh_then_ask_keeps: "planned x action w = Some (r, win, d, u) \<Longrightarrow> same_task w u"
  using planned_cases [of x action w r win d u undefined undefined] by simp

lemma act_books:
  obtains (still) "keeps w (snd (act x action p w))"
      "\<forall>s e t. ss_trace (snd (act x action p w)) = ss_trace w @ s @ e # t \<longrightarrow> \<not> acting e"
  | (ran) r win d u rec wa wh v z where "planned x action w = Some (r, win, d, u)" "step_guard x w = None"
      "act x action p w = (Inr (fst z), snd z)" "z = run_step x (as_action action) r win (judged_control r w) d rec v"
      "rec = None \<and> keeps w v \<and> dverdict d \<noteq> Permit \<or>
       rec \<noteq> None \<and> dverdict d = Permit \<and> (\<exists>y. keeps w y \<and> v = widen wa wh d y) \<and>
         (\<exists>title. titled r win (decision_classes d) (fst (ss_page w)) = Inr (title, wa, wh)) \<and>
         p = Some (challenge_of x w (as_action action)) \<and>
         (\<exists>s t. ss_trace v = ss_trace w @ s @ E_Consumed (challenge_of x w (as_action action)) True # t)"
proof (cases "step_guard x w")
  case (Some g)
  then show ?thesis using still by (simp add: act_def)
next
  case guard: None
  have hint: "judged_control r v = judged_control r w" if "same_task w v" for r v
    using that by (simp add: same_task_def judged_control_def)
  show ?thesis
  proof (cases rule: act_cases [where x = x and action = action and p = p and w = w and init = undefined and c = undefined])
    case stopped
    show ?thesis
    proof (rule still)
      have "same_task w (snd (act x action p w))"
        using stopped(2) guard same_refresh_policy [of w x]
        by (auto simp: act_def planned_def Let_def ask_def split: sum.splits)
      then show "keeps w (snd (act x action p w))" by (rule same_task_keeps)
      from moved_traces [OF stopped(1)]
      show "\<forall>s e t. ss_trace (snd (act x action p w)) = ss_trace w @ s @ e # t \<longrightarrow> \<not> acting e"
        by (auto simp: list_all_iff idle_def)
    qed
  next
    case (allowed r win d u)
    from allowed(1) have u: "same_task w u" by (rule refresh_then_ask_keeps)
    show ?thesis
      by (rule ran [OF allowed(1) guard _ refl, where rec = None and v = u])
        (use allowed(2,3) hint [OF u] same_task_keeps [OF u] in \<open>auto simp: case_prod_beta\<close>)
  next
    case (refused r win d u g v)
    from refused(1) have u: "same_task w u" by (rule refresh_then_ask_keeps)
    with refused(3) have v: "same_task w v" using same_task_trans same_gate_step by (metis snd_conv)
    from planned_cases [OF refused(1), of undefined undefined] obtain n1
      where n1: "ss_trace u = ss_trace w @ n1" "list_all idle n1" by (auto simp: moved_def)
    from gate_watches [of x "as_action action" r win d p u] refused(3) obtain n2
      where n2: "ss_trace v = ss_trace u @ n2" "list_all watching n2" by auto
    show ?thesis
    proof (rule still)
      show "keeps w (snd (act x action p w))" using v refused(5) by (simp add: same_task_keeps)
      show "\<forall>s e t. ss_trace (snd (act x action p w)) = ss_trace w @ s @ e # t \<longrightarrow> \<not> acting e"
      proof (intro allI impI)
        fix s e t assume "ss_trace (snd (act x action p w)) = ss_trace w @ s @ e # t"
        with n1 n2 refused(5) have "n1 @ n2 = s @ e # t" by simp
        then have "e \<in> set (n1 @ n2)" by simp
        with n1 n2 show "\<not> acting e" by (auto simp: list_all_iff idle_def watching_def)
      qed
    qed
  next
    case (granted r win d u rec wa wh v)
    have u: "same_task w u" using granted(1) by (rule refresh_then_ask_keeps)
    have v: "same_task w v" using same_task_trans [OF u] same_gate_step granted(3) by (metis snd_conv)
    from planned_cases [OF granted(1), of undefined undefined] obtain n1
      where n1: "ss_trace u = ss_trace w @ n1" by (auto simp: moved_def)
    from u have page: "ss_page u = ss_page w" by (simp add: same_task_def)
    note g = gate_granted [OF granted(3), unfolded challenge_same [OF u] page]
    from g(3) n1 obtain s t where
      "ss_trace v = ss_trace w @ (n1 @ s) @ E_Consumed (challenge_of x w (as_action action)) True # t" by auto
    then have "ss_trace (widen wa wh d v) =
        ss_trace w @ (n1 @ s) @ E_Consumed (challenge_of x w (as_action action)) True # t"
      by (simp add: widen_def)
    then have "\<exists>s t. ss_trace (widen wa wh d v) = ss_trace w @ s @ E_Consumed (challenge_of x w (as_action action)) True # t"
      by blast
    then show ?thesis
      by (intro ran [OF granted(1) guard _ refl, where rec = "Some rec" and v = "widen wa wh d v" and wa = wa and wh = wh])
        (use granted(2,4) g(1,2) hint [OF v] same_task_keeps [OF v] in \<open>auto simp: case_prod_beta\<close>)
  qed
qed

lemma widen_fields [simp]:
  "ss_step (widen wa wh d y) = ss_step y" "ss_task (widen wa wh d y) = ss_task y" "ss_ledger (widen wa wh d y) = ss_ledger y"
  "ss_link (widen wa wh d y) = ss_link y"
  by (simp_all add: widen_def)



section \<open>The scope of a task\<close>

lemma sublist_inside: "sublist m (a @ m @ b)"
  by (auto simp: sublist_def)

text \<open>Every name a title would widen the scope by is in the title, as far as \<open>_clean\<close> leaves it\<close>

lemma window_where_shows: "n \<in> set (one_name (window_app w)) \<Longrightarrow> sublist (clean 40 n) (window_where w)"
  by (auto simp: one_name_def window_where_def or_else_def split: if_splits)

lemma shows_inside: "sublist m t \<Longrightarrow> sublist m (a @ t @ b)"
  by (metis append_assoc sublist_def)

lemma titled_control_shows:
  assumes "titled_control r c w cls url = Inr (title, new_apps, new_hosts)" and "''boundary'' \<in> set cls"
    and "n \<in> set new_apps \<union> set new_hosts"
  shows "sublist (clean 40 n) title"
proof (cases "rroute r = InBrowser")
  case True
  have "sublist (clean 40 browser_app) '' (in the browser)''" by code_simp
  then have "sublist (clean 40 browser_app) (t @ '' (in the browser)'' @ [])" for t by (rule shows_inside)
  moreover obtain host where "browser_host url = Inr host"
    using assms(1) True by (cases "browser_host url") (auto simp: titled_control_def)
  moreover from this have "title = (kind_name (rkind r) @ '' '' @ quoted (clean title_limit (cname c)) @ '' on '' @ host) @
      '' (in the browser)'' @ []" and "n = browser_app"
    using assms True by (auto simp: titled_control_def)
  ultimately show ?thesis by metis
next
  case False
  let ?n = "or_else (capp c) (window_app w)"
  have n: "n = ?n" "?n \<noteq> []" using assms False by (auto simp: titled_control_def Let_def one_name_def split: if_splits)
  have t: "title = (kind_name (rkind r) @ '' '' @ quoted (clean title_limit (cname c)) @ '' in '') @
      or_else (clean 40 ?n) (window_where w) @
      (if capp c \<noteq> [] \<and> window_app w \<noteq> [] \<and> py_lower (capp c) \<noteq> py_lower (window_app w)
       then '' (window: '' @ clean 40 (window_app w) @ '')'' else [])"
    using assms(1) False by (auto simp: titled_control_def Let_def)
  have "sublist (clean 40 n) (or_else (clean 40 ?n) (window_where w))" by (simp add: n(1) or_else_def)
  then show ?thesis unfolding t by (rule shows_inside)
qed

lemma titled_shows:
  assumes "titled r w cls url = Inr (title, new_apps, new_hosts)" and "''boundary'' \<in> set cls"
    and "n \<in> set new_apps \<union> set new_hosts"
  shows "\<exists>k \<ge> 40. sublist (clean k n) title"
proof (cases "rcontrol r")
  case (Some c)
  with assms(1) have "titled_control r c w cls url = Inr (title, new_apps, new_hosts)" by (simp add: titled_def)
  from titled_control_shows [OF this assms(2,3)] show ?thesis by blast
next
  case None
  have inside: "sublist (clean k m) (a @ quoted (clean k m))" for k m a
    using shows_inside [OF sublist_inside [of "clean k m" "[CHR 0x22]" "[CHR 0x22]"], of a "[]"] by (simp add: quoted_def)
  have seen: "\<exists>k \<ge> 40. sublist (clean k n) title" if "suffix (window_where w) title" "n \<in> set (one_name (window_app w))"
  proof -
    from that(1) obtain a where "title = a @ window_where w" by (auto simp: suffix_def)
    with shows_inside [OF window_where_shows [OF that(2)], of a "[]"] show ?thesis by auto
  qed
  show ?thesis
  proof (cases "rkind r")
    case OpenUrl
    then obtain host where "url_hostname (get_str (rpayload r) ''url'') = Inr host"
      using assms(1) None by (cases "url_hostname (get_str (rpayload r) ''url'')") (auto simp: titled_def)
    moreover have "sublist (clean 60 m) (''open '' @ clean 60 m @ b)" for m b by (rule sublist_inside)
    ultimately show ?thesis using assms None OpenUrl
      by (auto simp: titled_def Let_def one_name_def or_else_def title_limit_def intro!: exI [of _ 60] split: if_splits)
  next
    case OpenApp
    have "sublist (clean 60 m) (''open the app the runtime asked for: '' @ quoted (clean 60 m))" for m by (rule inside)
    with assms None OpenApp show ?thesis
      by (auto simp: titled_def Let_def title_limit_def intro!: exI [of _ 60] split: if_splits)
  next
    case FocusApp
    have "sublist (clean 60 m) (''switch to the app the runtime asked for: '' @ quoted (clean 60 m))" for m by (rule inside)
    with assms None FocusApp show ?thesis
      by (auto simp: titled_def Let_def title_limit_def intro!: exI [of _ 60] split: if_splits)
  qed (rule seen; use assms None in \<open>auto simp: titled_def suffix_Cons suffix_appendI\<close>)+
qed

lemma set_widen_names: "set (widen_names new names) \<subseteq> set names \<union> set new"
proof -
  have "set (foldl (\<lambda>ns n. if n \<noteq> [] \<and> \<not> named n ns then ns @ [n] else ns) names new) \<subseteq> set names \<union> set new"
    by (induction new arbitrary: names) (auto split: if_splits, (fastforce split: if_splits)+)
  then show ?thesis by (simp add: widen_names_def)
qed

lemma boundary_class: "Boundary \<in> set (dclasses d) \<Longrightarrow> ''boundary'' \<in> set (decision_classes d)"
  unfolding decision_classes_def by (metis cls_name.simps(6) image_eqI list.set_map)



end
