(* ===== verification/Hands_Steady.thy ===== *)
theory Hands_Steady
  imports Hands_Books
begin

text \<open>
  The state of a session between calls: the invariant that ties the task, its ledger, its lease and its
  budget together, kept by every operation, and what ending a task always does.
\<close>

section \<open>Operations of an open task\<close>

text \<open>What an operation may do while a task is open\<close>

definition moves_on :: "env \<Rightarrow> session \<Rightarrow> session \<Rightarrow> bool" where
  "moves_on x w w' \<longleftrightarrow> ss_task w' = ss_task w \<and> (ss_ledger w \<noteq> None \<longrightarrow> ss_ledger w' \<noteq> None) \<and>
     (ss_step w' = ss_step w \<or> ss_step w' = ss_step w + 1 \<and> ss_step w < max_steps (x_cfg x))"

lemma keeps_moves_on: "keeps w w' \<Longrightarrow> moves_on x w w'"
  by (auto simp: keeps_def moves_on_def)

lemma keeps_stepped: "keeps w v \<Longrightarrow> stepped v w' \<Longrightarrow> step_guard x w = None \<Longrightarrow> moves_on x w w'"
  by (auto simp: keeps_def stepped_def moves_on_def step_guard_def split: if_splits option.splits)

lemma keeps_widen: "stepped (widen wa wh d v) w' \<Longrightarrow> keeps w v \<Longrightarrow> step_guard x w = None \<Longrightarrow> moves_on x w w'"
  by (auto simp: keeps_def stepped_def moves_on_def step_guard_def widen_def split: if_splits option.splits)

lemma act_moves_on: "moves_on x w (snd (act x action p w))"
proof (cases rule: act_books [where x = x and action = action and p = p and w = w])
  case still
  then show ?thesis by (intro keeps_moves_on)
next
  case (ran r win d u rec wa wh v z)
  have "stepped v (snd z)"
    using run_step_books [of x "as_action action" r win "judged_control r w" d rec v] ran(4) by blast
  with ran(2,3,5) show ?thesis by (auto intro: keeps_stepped keeps_widen)
qed

lemma keeps_if: "keeps w (snd t) \<Longrightarrow> keeps w (snd e) \<Longrightarrow> keeps w (snd (if b then t else e))"
  by simp

lemma keeps_clamp:
  "(\<And>n. keeps w (snd (f n))) \<Longrightarrow> keeps w (snd (case k of Inl e \<Rightarrow> (Inl e, w) | Inr n \<Rightarrow> f n))"
  by (cases k) simp_all

lemma keeps_return: "keeps w (snd (r, w))"
  by simp

lemma keeps_web_self: "keeps w (snd (web x f k w))" and keeps_ask_self: "keeps w (snd (ask g e w))"
  by simp_all

lemma keeps_browser_call: "keeps w (snd (browser_call x op kwargs w))"
  unfolding browser_call_def Let_def
  by (intro keeps_if keeps_clamp keeps_thenS keeps_web_self keeps_return)

lemma keeps_refresh_page_url: "keeps w (refresh_page_url x tab w)"
proof -
  obtain r v where r: "web x (\<lambda>br t. br_url br t (W_Url tab)) (W_Url tab) w = (r, v)"
    by (cases "web x (\<lambda>br t. br_url br t (W_Url tab)) (W_Url tab) w")
  moreover have "keeps w v" using keeps_web_self r by (metis snd_conv)
  ultimately show ?thesis by (cases r) (simp_all add: refresh_page_url_def)
qed

lemma stepped_after: "stepped w v \<Longrightarrow> keeps v w' \<Longrightarrow> stepped w w'"
  by (simp add: stepped_def keeps_def)

lemma keeps_left_scan [simp]: "keeps (w\<lparr>ss_scan := b\<rparr>) w' = keeps w w'"
  by (simp add: keeps_def)

lemma keeps_after_browser_op: "keeps w (after_browser_op x op tab payload k w)"
  using keeps_refresh_page_url [of "w\<lparr>ss_scan := scan_of (x_float x) payload\<rparr>" x tab]
  by (simp add: after_browser_op_def)

lemma run_browser_op_stepped: "stepped w (snd (run_browser_op x op kwargs a cls p k w))"
proof -
  let ?tab = "get_val kwargs ''tab''"
  obtain b1 w1 where 1: "capture_if x (cls \<noteq> []) True ?tab w = (b1, w1)" by (cases "capture_if x (cls \<noteq> []) True ?tab w")
  obtain out w2 where 2: "browser_call x op kwargs w1 = (out, w2)" by (cases "browser_call x op kwargs w1")
  obtain b3 w3 where 3: "capture_if x (cls \<noteq> []) True ?tab w2 = (b3, w3)" by (cases "capture_if x (cls \<noteq> []) True ?tab w2")
  obtain lost w4 where 4: "record_in_ledger x (redact a cls k) ''browser'' cls p b1 b3 (attempt_outcome out)
      (attempt_error out) w3 = (lost, w4)"
    by (cases "record_in_ledger x (redact a cls k) ''browser'' cls p b1 b3 (attempt_outcome out) (attempt_error out) w3")
  have "keeps w w1" using keeps_capture_if 1 by (metis snd_conv)
  moreover have "keeps w1 w2" using keeps_browser_call 2 by (metis snd_conv)
  moreover have "keeps w2 w3" using keeps_capture_if 3 by (metis snd_conv)
  ultimately have w3: "keeps w w3" by (auto intro: keeps_trans)
  from record_books [OF 4] obtain l where w4: "w4 = (log_event E_Ledger w3)\<lparr>ss_ledger := Some l\<rparr>" by blast
  have "stepped w (advance x w4)" unfolding w4 using stepped_advance [of w "log_event E_Ledger w3" x l] w3 by simp
  then have "stepped w (if attempt_error out = None then
      after_browser_op x op ?tab (case out of Inl e \<Rightarrow> [] | Inr d \<Rightarrow> d) k (advance x w4) else advance x w4)"
    by (auto intro: stepped_after keeps_after_browser_op)
  then show ?thesis by (simp add: run_browser_op_def Let_def 1 2 3 4)
qed

lemma same_after: "same_task w y \<Longrightarrow> same_task w (snd (gate_step x a r win d p y))"
  by (blast intro: same_task_trans same_gate_step)

lemma gate_browser_state:
  "\<exists>y. keeps w y \<and> (snd (gate_browser x op kwargs a w) = y \<or>
     (\<exists>wa wh d. snd (gate_browser x op kwargs a w) = widen wa wh d y))"
proof -
  let ?r = "text_of (x_float x) kwargs ''ref''"
  let ?d = "\<lambda>k. Hands_Policy.decide (policy_action (x_float x) op ?r kwargs) (Some k) (Some (page_window (ss_page w)))
    (Some (fst (ss_page w))) (ss_policy w) (ss_apps w) (x_clock x (ss_trace w)) (ss_hosts w) True"
  obtain q v where q: "ensure_clickable x op ?r (get_val kwargs ''tab'') w = (q, v)"
    by (cases "ensure_clickable x op ?r (get_val kwargs ''tab'') w")
  have v: "same_task w v" using same_ensure_clickable q by (metis snd_conv)
  have trivial: "snd (gate_browser x op kwargs a w) = w \<Longrightarrow> ?thesis" by (intro exI [of _ w]) simp
  show ?thesis
  proof (cases "browser_control (x_float x) (ss_scan w) ?r")
    case (Inl e)
    then show ?thesis by (intro trivial) (simp add: gate_browser_def Let_def)
  next
    case b: (Inr b)
    show ?thesis
    proof (cases b)
      case None
      with b show ?thesis by (intro trivial) (simp add: gate_browser_def Let_def)
    next
      case k: (Some k)
      show ?thesis
      proof (cases "?d k")
        case (Inl e)
        with b k show ?thesis by (intro trivial) (simp add: gate_browser_def Let_def)
      next
        case d: (Inr d)
        show ?thesis
        proof (cases "dverdict d = Permit")
          case False
          with b k d show ?thesis by (intro trivial) (simp add: gate_browser_def Let_def)
        next
          case True
          let ?g = "gate_step x a (routed_step (if op = ''click'' then Click else SetValue) InBrowser (Some k) None [])
            (Some (page_window (ss_page w))) d (permit_arg kwargs) v"
          obtain g y where g: "?g = (g, y)" by (cases ?g)
          have y: "keeps w y" using same_after [OF v] g same_task_keeps by (metis snd_conv)
          show ?thesis
          proof (cases q)
            case (Inl e)
            with b k d True q same_task_keeps [OF v] show ?thesis
              by (intro exI [of _ v]) (cases e; simp add: gate_browser_def Let_def)
          next
            case (Inr u)
            with b k d True q g y show ?thesis
              by (intro exI [of _ y]) (auto simp: gate_browser_def Let_def split: sum.split gate.split)
          qed
        qed
      qed
    qed
  qed
qed

lemma browser_op_moves_on: "moves_on x w (snd (browser_op x op kwargs w))"
proof (cases "op \<in> set browser_navigate \<or> step_guard x w \<noteq> None \<or> op \<notin> set browser_direct")
  case True
  have "moves_on x w (snd (browser_op x op kwargs w))" if "op \<in> set browser_navigate"
    using that by (simp add: browser_op_def act_moves_on keeps_moves_on)
  moreover have "moves_on x w (snd (browser_op x op kwargs w))" if "op \<notin> set browser_navigate"
    using that True by (auto simp: browser_op_def keeps_moves_on simp del: not_None_eq split: option.split)
  ultimately show ?thesis by blast
next
  case False
  let ?a = "browser_action op kwargs"
  let ?v = "refresh_policy x w"
  have v: "keeps w ?v" by (rule same_task_keeps [OF same_refresh_policy])
  have guard: "step_guard x w = None" using False by simp
  obtain y where y: "keeps ?v y" "snd (gate_browser x op kwargs ?a ?v) = y \<or>
      (\<exists>wa wh d. snd (gate_browser x op kwargs ?a ?v) = widen wa wh d y)"
    using gate_browser_state by blast
  obtain g z where g: "gate_browser x op kwargs ?a ?v = (g, z)" by (cases "gate_browser x op kwargs ?a ?v")
  have wy: "keeps w y" by (rule keeps_trans [OF v y(1)])
  have z: "moves_on x w z" using y(2) g wy by (auto simp: moves_on_def keeps_def)
  have run: "moves_on x w (snd (run_browser_op x op kwargs a' cls p k z))" for a' cls p k
    using y(2) g wy run_browser_op_stepped [of z x op kwargs a' cls p k] guard
    by (auto intro: keeps_stepped keeps_widen)
  have run': "moves_on x w (snd (run_browser_op x op kwargs a' cls p k ?v))" for a' cls p k
    by (rule keeps_stepped [OF v run_browser_op_stepped guard])
  from z run have gated: "moves_on x w (snd (case (g, z) of (Inl e, w) \<Rightarrow> (Inl e, w) | (Inr (B_Refused g), w) \<Rightarrow> (Inr g, w)
      | (Inr (B_Go d rec c), w) \<Rightarrow>
          (case run_browser_op x op kwargs ?a (decision_classes d) rec (Some c) w of (res, w) \<Rightarrow> (Inr res, w))))"
    by (auto simp: case_prod_beta split: sum.split browser_gate.split)
  have "browser_op x op kwargs w = (if op \<in> {''click'', ''fill''} then (case (g, z) of
        (Inl e, w) \<Rightarrow> (Inl e, w) | (Inr (B_Refused g), w) \<Rightarrow> (Inr g, w) | (Inr (B_Go d rec c), w) \<Rightarrow>
          (case run_browser_op x op kwargs ?a (decision_classes d) rec (Some c) w of (res, w) \<Rightarrow> (Inr res, w)))
      else (case run_browser_op x op kwargs ?a [] None None ?v of (res, w) \<Rightarrow> (Inr res, w)))"
    using False g guard unfolding browser_op_def Let_def by simp
  with gated run' show ?thesis by (simp add: case_prod_beta)
qed

lemma keeps_observe: "keeps w (snd (observe x detail app region n w))"
  unfolding observe_def
  by (cases "no_task w") (auto intro!: keeps_if keeps_clamp keeps_thenS keeps_ask_self)

lemma keeps_merge: "keeps w (snd (merge_into_observation x cs w))"
  unfolding merge_into_observation_def
  by (cases "ss_obs w") (auto intro!: keeps_if keeps_thenS keeps_ask_self)

lemma keeps_find: "keeps w (snd (find_controls x query n w))"
  unfolding find_controls_def
  by (cases "no_task w") (auto intro!: keeps_clamp keeps_thenS keeps_ask_self keeps_merge)

lemma same_status: "same_task w (snd (status x w))"
proof -
  let ?v = "refresh_policy x w"
  obtain k u where k: "ensure_broker x ?v = (k, u)" by (cases "ensure_broker x ?v")
  have u: "same_task w u"
    using same_task_trans [OF same_refresh_policy same_ensure_broker] k by (metis snd_conv)
  show ?thesis
    using k u same_task_trans [OF u same_client(1)]
    by (cases k) (simp_all add: status_def Let_def case_prod_beta)
qed

lemma same_wait_loop:
  "wait_loop (wire_to x k) clock (\<lambda>d. log_event (E_Sleep d)) path i deadline fuel latest w = Some (d, w') \<Longrightarrow>
     same_task w w'"
proof (induction fuel arbitrary: latest w)
  case (Suc fuel)
  obtain st v w1 where c1: "client_call (wire_to x k) GET path None w = ((st, v), w1)"
    by (cases "client_call (wire_to x k) GET path None w") auto
  have w1: "same_task w w1"
    using same_wire [of w x k GET path None] c1 snd_client_call [of "wire_to x k" GET path None w] by (metis snd_conv)
  have later: "wait_loop (wire_to x k) clock (\<lambda>d. log_event (E_Sleep d)) path i deadline fuel l (log_event (E_Sleep q) w1) =
      Some (d, w') \<Longrightarrow> same_task w w'" for l q
    using Suc.IH same_task_trans [of w "log_event (E_Sleep q) w1"] w1 by (metis same_task_simps(4))
  from Suc.prems c1 w1 later show ?case
    by (auto simp: Let_def split: if_splits)
qed simp

lemma same_wait: "same_task w (session_step x (S_Wait fuel i secs) w)"
proof -
  obtain k v where k: "ensure_broker x w = (k, v)" by (cases "ensure_broker x w")
  have v: "same_task w v" using same_ensure_broker k by (metis snd_conv)
  show ?thesis
  proof (cases k)
    case (Some cl)
    obtain q where q: "q = client_wait (wire_to x cl) (\<lambda>w. x_clock x (ss_trace w)) (\<lambda>d. log_event (E_Sleep d)) (x_quote x) i
        (of_int (min (max 0 secs) max_wait_s)) fuel v" by simp
    show ?thesis
    proof (cases q)
      case (Some z)
      then obtain d u where z: "q = Some (d, u)" by (cases z) auto
      with q have "same_task v u" unfolding client_wait_def by (metis same_wait_loop)
      with v have "same_task w u" by (rule same_task_trans)
      with k \<open>k = Some cl\<close> q [symmetric] z show ?thesis by (simp add: request_permit_def)
    qed (use k \<open>k = Some cl\<close> q [symmetric] v in \<open>simp add: request_permit_def\<close>)
  qed (use k v in \<open>simp add: request_permit_def\<close>)
qed

section \<open>Without a task\<close>

lemma without_a_task:
  assumes "ss_task w = None"
  shows "act x action p w = (Inr (the (no_task w)), w)" "observe x detail app region n w = (Inr (the (no_task w)), w)"
    "find_controls x query m w = (Inr (the (no_task w)), w)" "snd (browser_op x op kwargs w) = w"
    "abandon x summary w = (None, w)" "snd (task_end x outcome summary w) = w"
  using assms
  by (auto simp: act_def observe_def find_controls_def browser_op_def step_guard_def no_task_def abandon_def task_end_def)

section \<open>The invariant\<close>

text \<open>Nothing of the last task is left\<close>

definition tidy :: "session \<Rightarrow> bool" where
  "tidy w \<longleftrightarrow> ss_ledger w = None \<and> \<not> holds_lease (ss_link w) \<and> ss_goal w = [] \<and> ss_apps w = [] \<and> ss_hosts w = [] \<and>
     ss_action_id w = PyNone \<and> ss_step w = 0 \<and> ss_obs w = None \<and> ss_hint w = None \<and> ss_scan w = [] \<and> ss_page w = ([], [])"

definition session_ok :: "env \<Rightarrow> session \<Rightarrow> bool" where
  "session_ok x w \<longleftrightarrow> (if ss_task w = None then tidy w else ss_ledger w \<noteq> None) \<and>
     0 \<le> ss_step w \<and> ss_step w \<le> max 0 (max_steps (x_cfg x))"

lemma moves_on_ok: "session_ok x w \<Longrightarrow> ss_task w \<noteq> None \<Longrightarrow> moves_on x w w' \<Longrightarrow> session_ok x w'"
  by (auto simp: session_ok_def moves_on_def)

lemma unchanged_ok: "session_ok x w \<Longrightarrow> (ss_task w = None \<Longrightarrow> w' = w) \<Longrightarrow> moves_on x w w' \<Longrightarrow> session_ok x w'"
  using moves_on_ok by (cases "ss_task w = None") auto

lemma same_ok: "session_ok x w \<Longrightarrow> same_task w w' \<Longrightarrow> session_ok x w'"
  by (auto simp: session_ok_def tidy_def same_task_def)

lemma reset_tidy: "\<not> holds_lease (ss_link w) \<Longrightarrow> tidy (reset w) \<and> ss_task (reset w) = None"
  by (simp add: tidy_def reset_def)

lemma release_lets_go: "\<not> holds_lease (ss_link (snd (release x w)))"
  by (simp add: release_def release_lease_def)

lemma call_keeps_lease [simp]: "holds_lease (snd (call k svc t args l)) = holds_lease l"
  by (simp add: call_def Let_def)

lemma close_evidence_keeps:
  "ss_task (snd (close_evidence x o' s' w)) = ss_task w" "ss_link (snd (close_evidence x o' s' w)) = ss_link w"
  "ss_step (snd (close_evidence x o' s' w)) = ss_step w"
  by (auto simp: close_evidence_def ask_def log_event_def split: option.split)

lemma refused_lease_not_held:
  assumes "acquire_lease k minutes reclaim l = (Some d, l')" and "get_val d ''acquired'' = PyBool False"
  shows "\<not> holds_lease l'"
proof -
  have "map_of d ''acquired'' = Some (PyBool False)" using assms(2) by (auto simp: get_val_def split: option.splits)
  then have "\<not> acquired d" by (simp add: acquired_def)
  with assms(1) show ?thesis by (auto simp: acquire_lease_def Let_def adopt_lease_def case_prod_beta)
qed

lemma tell_keep_fields:
  "ss_task (tell_keep x w) = ss_task w" "ss_step (tell_keep x w) = ss_step w"
  "ss_ledger (tell_keep x w) = None \<longleftrightarrow> ss_ledger w = None"
  by (auto simp: tell_keep_def Let_def ask_def log_event_def split: prod.split)

lemma begin_task_ok: "session_ok x (snd (begin_task x goal names task l w))"
proof -
  let ?w = "w\<lparr>ss_task := Some task, ss_goal := goal, ss_apps := names, ss_ledger := Some l, ss_step := 0, ss_obs := None\<rparr>"
  have "session_ok x (snd (blocked_start x v))" for v
    using reset_tidy [of "snd (close_evidence x a b (snd (release x v)))" for a b] release_lets_go [of x v]
    by (auto simp: blocked_start_def Let_def case_prod_beta session_ok_def close_evidence_keeps tidy_def reset_def)
  moreover have "session_ok x (tell_keep x ?w)" by (simp add: session_ok_def tell_keep_fields)
  ultimately show ?thesis by (simp add: begin_task_def Let_def case_prod_beta)
qed

lemma task_start_ok:
  assumes "session_ok x w"
  shows "session_ok x (snd (task_start x goal names w))"
proof (cases "ss_task w")
  case None
  let ?f = "\<lambda>t. prune (x_evidence x t) (evidence_retention_days (x_cfg x)) (x_clock x t)"
  let ?g = "\<lambda>t. (x_task_id x t, x_open_fault x t)"
  obtain r v where r: "ask ?f E_Look w = (r, v)" by (cases "ask ?f E_Look w")
  have v: "same_task w v" using same_ask [of w ?f E_Look w] r by simp
  obtain task e u where u: "ask ?g E_Ledger v = ((task, e), u)" by (cases "ask ?g E_Ledger v") auto
  have u': "same_task w u" using same_ask [of w ?g E_Ledger v] v u by simp
  obtain lease k where k: "acquire_lease (x_keep x) DEFAULT_LEASE_TTL True (ss_link u) = (lease, k)"
    by (cases "acquire_lease (x_keep x) DEFAULT_LEASE_TTL True (ss_link u)")
  have "session_ok x u" using assms u' by (rule same_ok)
  then have lost: "session_ok x (snd (lost_race x d (u\<lparr>ss_link := k\<rparr>)))" if "\<not> holds_lease k" for d
    using that None u' by (auto simp: lost_race_def ask_def log_event_def session_ok_def tidy_def same_task_def split: option.split)
  have "session_ok x v" using assms v by (rule same_ok)
  with None r u k \<open>session_ok x u\<close> lost begin_task_ok refused_lease_not_held [of "x_keep x" DEFAULT_LEASE_TTL True "ss_link u"]
  show ?thesis by (cases r; cases e; cases lease) (simp_all add: task_start_def Let_def)
qed (use assms in \<open>simp add: task_start_def\<close>)

lemma task_end_ends:
  assumes "ss_task w = Some t" and "outcome \<in> set outcomes"
  obtains d where "fst (task_end x outcome summary w) = Inr d" "map_of d ''ok'' = Some (PyBool True)"
    "map_of d ''task_id'' = Some (PyStr t)" "map_of d ''outcome'' = Some (PyStr outcome)"
    "map_of d ''lease'' = Some (PyStr (if holds_lease (ss_link w) then ''released'' else ''not held''))"
    "tidy (snd (task_end x outcome summary w))" "ss_task (snd (task_end x outcome summary w)) = None"
    "ss_last_task (snd (task_end x outcome summary w)) = Some d"
proof -
  obtain r v where r: "close_evidence x outcome summary w = (r, v)" by (cases "close_evidence x outcome summary w")
  then have link: "ss_link v = ss_link w" using close_evidence_keeps(2) by (metis snd_conv)
  have lease: "holds_lease (action_after k i o' s' l) = holds_lease l" for k i o' s' l
    by (simp add: action_after_def)
  define d where "d = [(''ok'', PyBool True), (''task_id'', PyStr t), (''outcome'', PyStr outcome), (''summary'', PyStr summary),
      (''steps'', PyInt (case r of Inr _ \<Rightarrow> int (length (parsed_lines (the (ss_ledger v)))) | Inl e \<Rightarrow> ss_step v)),
      (''evidence'', PyStr (x_dir x t))] @
    (case r of Inr _ \<Rightarrow> [] | Inl e \<Rightarrow> [(''evidence_error'', PyStr (''the evidence ledger did not close: '' @ exc_text e))]) @
    [(''lease'', PyStr (if holds_lease (ss_link w) then ''released'' else ''not held''))]"
  obtain v' where out: "task_end x outcome summary w = (Inr d, reset v')" and "\<not> holds_lease (ss_link v')"
    "ss_last_task v' = Some d"
    using assms r link lease
    by (cases "holds_lease (ss_link w)") (auto simp: task_end_def Let_def release_def release_lease_def d_def)
  then show ?thesis
    using that [of d] reset_tidy [of v'] unfolding out
    by (cases r) (simp_all add: d_def reset_def)
qed

lemma abandon_ends: "ss_task w \<noteq> None \<Longrightarrow> tidy (snd (abandon x summary w)) \<and> ss_task (snd (abandon x summary w)) = None"
proof -
  assume "ss_task w \<noteq> None"
  then obtain t where "ss_task w = Some t" by blast
  moreover have "''abandoned'' \<in> set outcomes" by (simp add: outcomes_def)
  ultimately obtain d v where "task_end x ''abandoned'' summary w = (Inr d, v)" "tidy v" "ss_task v = None"
    by (metis prod.collapse task_end_ends)
  then show ?thesis using \<open>ss_task w = Some t\<close> by (simp add: abandon_def)
qed

lemma ended_ok: "tidy w \<Longrightarrow> ss_task w = None \<Longrightarrow> session_ok x w"
  by (simp add: session_ok_def tidy_def)

lemma session_step_ok:
  assumes ok: "session_ok x w"
  shows "session_ok x (session_step x q w)"
proof (cases q)
  case (S_End outcome summary)
  show ?thesis
  proof (cases "ss_task w \<noteq> None \<and> outcome \<in> set outcomes")
    case True
    then obtain t where "ss_task w = Some t" "outcome \<in> set outcomes" by blast
    then show ?thesis using S_End ended_ok by (metis session_step.simps(3) task_end_ends)
  next
    case False
    then have "snd (task_end x outcome summary w) = w" by (auto simp: task_end_def split: option.split)
    with ok S_End show ?thesis by simp
  qed
next
  case (S_Abandon summary)
  show ?thesis
  proof (cases "ss_task w = None")
    case True
    with ok S_Abandon show ?thesis by (simp add: without_a_task)
  next
    case False
    with abandon_ends [OF False] S_Abandon show ?thesis by (simp add: ended_ok)
  qed
next
  case S_Status
  with same_ok [OF ok same_status] show ?thesis by simp
next
  case (S_Wait fuel i secs)
  with same_ok [OF ok same_wait] show ?thesis by simp
next
  case (S_Observe detail app region n)
  have "session_ok x (snd (observe x detail app region n w))"
    by (rule unchanged_ok [OF ok _ keeps_moves_on [OF keeps_observe]]) (simp add: without_a_task)
  with S_Observe show ?thesis by simp
next
  case (S_Find query n)
  have "session_ok x (snd (find_controls x query n w))"
    by (rule unchanged_ok [OF ok _ keeps_moves_on [OF keeps_find]]) (simp add: without_a_task)
  with S_Find show ?thesis by simp
next
  case (S_Act action p)
  have "session_ok x (snd (act x action p w))"
    by (rule unchanged_ok [OF ok _ act_moves_on]) (simp add: without_a_task)
  with S_Act show ?thesis by simp
next
  case (S_Browser op kwargs)
  have "session_ok x (snd (browser_op x op kwargs w))"
    by (rule unchanged_ok [OF ok _ browser_op_moves_on]) (simp add: without_a_task)
  with S_Browser show ?thesis by simp
qed (use task_start_ok [OF ok] in simp)

interpretation hands_session: invariant_machine "session_ok x" "session_step x" for x
  by unfold_locales (rule session_step_ok)

lemma new_session_ok: "session_ok x (new_session pol mt k (new_link agent m off e nk s) srv)"
  by (rule ended_ok) (simp_all add: tidy_def new_session_def new_link_def)

section \<open>Properties of a task's life\<close>

text \<open>
  C19. Between calls a session is either on a task with a ledger, or holds nothing of one: no ledger, no
  machine lease, no scope, no page, no refs of an old scan, no step count; and a task never uses more
  steps than its budget. So it is after any sequence of calls from a new session, in any world.
\<close>

theorem session_stays_ok:
  "session_ok x (run_session x qs (new_session pol mt k (new_link agent m off e nk s) srv))"
  unfolding run_session_def by (rule hands_session.inv_run [OF new_session_ok])

text \<open>
  C20. A task can always be ended: in any state with a task open and for each outcome the code knows,
  \<open>task_end\<close> returns a result that says so, whatever the disk and the Keep do; nothing of the task is
  left, the lease is given back exactly when it was held, and \<open>abandon\<close> ends the task as well.
\<close>

theorem task_always_ends:
  assumes "ss_task w = Some t" and "outcome \<in> set outcomes"
  shows "\<exists>d. fst (task_end x outcome summary w) = Inr d \<and> map_of d ''ok'' = Some (PyBool True) \<and>
    map_of d ''task_id'' = Some (PyStr t) \<and> map_of d ''outcome'' = Some (PyStr outcome) \<and>
    map_of d ''lease'' = Some (PyStr (if holds_lease (ss_link w) then ''released'' else ''not held'')) \<and>
    tidy (snd (task_end x outcome summary w)) \<and> ss_task (snd (task_end x outcome summary w)) = None \<and>
    ss_last_task (snd (task_end x outcome summary w)) = Some d \<and>
    tidy (snd (abandon x summary w)) \<and> ss_task (snd (abandon x summary w)) = None"
  using task_end_ends [OF assms, of x summary] abandon_ends [of w x summary] assms(1)
  by (metis option.distinct(1))

theorem task_always_ends_witness:
  "\<exists>d. fst (task_end example_env ''done'' ''fine'' example_session) = Inr d \<and>
     tidy (snd (task_end example_env ''done'' ''fine'' example_session))"
proof -
  have "ss_task example_session = Some ''k1''" and "''done'' \<in> set outcomes" by code_simp+
  from task_always_ends [OF this, of example_env "''fine''"] show ?thesis by metis
qed



end
