(* ===== verification/Hands_Chord.thy ===== *)
theory Hands_Chord
  imports Hands_Permits "HOL-Library.Word"
begin

unbundle bit_operations_syntax

text \<open>
  The chord grammar (\<open>hands/src/firekeep_hands/broker/__init__.py\<close>) and the two input listeners
  (\<open>broker/listeners/win.py\<close>, \<open>broker/listeners/mac.py\<close>): which keystrokes are a person's answer.
  An event is what the operating system hands the callback; virtual keys and flag words have their
  width. Installing the hook and the redacted debug line are not modelled.
\<close>

section \<open>The grammar of a chord\<close>

datatype modifier = Ctrl | Alt | Shift | Cmd

fun modifier_name :: "modifier \<Rightarrow> string" where
  "modifier_name Ctrl = ''ctrl''" | "modifier_name Alt = ''alt''"
| "modifier_name Shift = ''shift''" | "modifier_name Cmd = ''cmd''"

definition modifier_aliases :: "(string \<times> modifier) list" where
  "modifier_aliases =
     [(''ctrl'', Ctrl), (''control'', Ctrl), (''alt'', Alt), (''option'', Alt), (''opt'', Alt),
      (''shift'', Shift), (''cmd'', Cmd), (''command'', Cmd), (''win'', Cmd), (''meta'', Cmd), (''super'', Cmd)]"

definition function_keys :: "string list" where
  "function_keys = [''f1'', ''f2'', ''f3'', ''f4'', ''f5'', ''f6'', ''f7'', ''f8'', ''f9'', ''f10'', ''f11'', ''f12'']"

definition named_trigger_keys :: "string list" where
  "named_trigger_keys = function_keys @
     [''space'', ''enter'', ''return'', ''tab'', ''escape'', ''esc'', ''backspace'', ''delete'', ''forwarddelete'',
      ''insert'', ''home'', ''end'', ''pageup'', ''pagedown'', ''up'', ''down'', ''left'', ''right'']"

definition ascii_alnum :: "char \<Rightarrow> bool" where
  "ascii_alnum c = (let n = code_of c in (48 \<le> n \<and> n \<le> 57) \<or> (65 \<le> n \<and> n \<le> 90) \<or> (97 \<le> n \<and> n \<le> 122))"

fun canonical :: "string \<Rightarrow> modifier list \<Rightarrow> string list \<Rightarrow> string + modifier list" where
  "canonical given seen [] = Inr seen"
| "canonical given seen (m # ms) =
     (case map_of modifier_aliases m of
        None \<Rightarrow> Inl (''unknown modifier '' @ py_repr m @ '' in '' @ py_repr given)
      | Some name \<Rightarrow>
          if name \<in> set seen
          then Inl (''modifier '' @ py_repr (modifier_name name) @ '' repeated in '' @ py_repr given)
          else canonical given (seen @ [name]) ms)"

definition single_key :: "string \<Rightarrow> bool" where
  "single_key k \<longleftrightarrow> length k = 1 \<and> ascii_alnum (hd k)"

definition parse_chord :: "pyval \<Rightarrow> string + modifier set \<times> string" where
  "parse_chord v =
     (case v of
        PyStr given \<Rightarrow>
          (let parts = map (\<lambda>p. py_lower (py_strip p)) (split_on (CHR ''+'') given)
           in if length parts < 2 \<or> [] \<in> set parts
              then Inl (''not a chord: '' @ py_repr given @ '' (want e.g. '' @ CHR 0x27 # ''ctrl+alt+y'' @ CHR 0x27 # '')'')
              else bindR (canonical given [] (butlast parts)) (\<lambda>mods.
                     if single_key (last parts) \<or> last parts \<in> set named_trigger_keys
                     then Inr (set mods, last parts)
                     else Inl (''unknown trigger key '' @ py_repr (last parts) @ '' in '' @ py_repr given)))
      | _ \<Rightarrow> Inl (''chord must be a string, got '' @ type_name v))"

section \<open>Windows\<close>

definition injected_lower :: "32 word" where "injected_lower = 0x02"
definition injected :: "32 word" where "injected = 0x10"

definition kb_event_is_real :: "32 word \<Rightarrow> bool" where
  "kb_event_is_real flags \<longleftrightarrow> flags AND injected = 0 \<and> flags AND injected_lower = 0"

definition modifier_vks :: "(32 word \<times> modifier) list" where
  "modifier_vks =
     [(0x11, Ctrl), (0xA2, Ctrl), (0xA3, Ctrl), (0x12, Alt), (0xA4, Alt), (0xA5, Alt),
      (0x10, Shift), (0xA0, Shift), (0xA1, Shift), (0x5B, Cmd), (0x5C, Cmd)]"

definition named_vks :: "(string \<times> 32 word) list" where
  "named_vks =
     [(''space'', 0x20), (''enter'', 0x0D), (''return'', 0x0D), (''tab'', 0x09), (''escape'', 0x1B), (''esc'', 0x1B),
      (''backspace'', 0x08), (''delete'', 0x2E), (''forwarddelete'', 0x2E), (''insert'', 0x2D), (''home'', 0x24),
      (''end'', 0x23), (''pageup'', 0x21), (''pagedown'', 0x22), (''left'', 0x25), (''up'', 0x26), (''right'', 0x27),
      (''down'', 0x28)] @ zip function_keys [0x70, 0x71, 0x72, 0x73, 0x74, 0x75, 0x76, 0x77, 0x78, 0x79, 0x7A, 0x7B]"

text \<open>\<open>ord(key.upper())\<close> of one ASCII letter or digit\<close>

definition upper_code :: "char \<Rightarrow> nat" where
  "upper_code c = (let n = code_of c in if 97 \<le> n \<and> n \<le> 122 then n - 32 else n)"

definition trigger_vk :: "string \<Rightarrow> string + 32 word" where
  "trigger_vk key =
     (if length key = 1 then Inr (of_nat (upper_code (hd key)))
      else (case map_of named_vks key of
              Some vk \<Rightarrow> Inr vk | None \<Rightarrow> Inl (''no Windows virtual-key for '' @ py_repr key)))"

record win_tracker =
  approve_chord :: "modifier set \<times> 32 word"
  deny_chord_of :: "modifier set \<times> 32 word"
  held :: "modifier set"
  pressed :: "32 word set"

definition win_compile :: "pyval \<Rightarrow> string + modifier set \<times> 32 word" where
  "win_compile v = bindR (parse_chord v) (\<lambda>(mods, key). bindR (trigger_vk key) (\<lambda>vk. Inr (mods, vk)))"

definition new_win_tracker :: "pyval \<Rightarrow> pyval \<Rightarrow> string + win_tracker" where
  "new_win_tracker approve deny =
     bindR (parse_chord approve) (\<lambda>(am, ak). bindR (parse_chord deny) (\<lambda>(dm, dk).
     bindR (trigger_vk ak) (\<lambda>av. bindR (trigger_vk dk) (\<lambda>dv.
       Inr \<lparr>approve_chord = (am, av), deny_chord_of = (dm, dv), held = {}, pressed = {}\<rparr>))))"

datatype key_class = Modifier | Trigger | Other_Key

definition is_trigger :: "win_tracker \<Rightarrow> 32 word \<Rightarrow> bool" where
  "is_trigger t vk \<longleftrightarrow> vk = snd (approve_chord t) \<or> vk = snd (deny_chord_of t)"

definition win_classify :: "win_tracker \<Rightarrow> 32 word \<Rightarrow> key_class" where
  "win_classify t vk =
     (if map_of modifier_vks vk \<noteq> None then Modifier else if is_trigger t vk then Trigger else Other_Key)"

text \<open>The decision a press of \<open>vk\<close> completes, the approve chord tried first\<close>

definition completed :: "win_tracker \<Rightarrow> 32 word \<Rightarrow> string option" where
  "completed t vk =
     (if vk = snd (approve_chord t) \<and> fst (approve_chord t) \<subseteq> held t then Some ''approve''
      else if vk = snd (deny_chord_of t) \<and> fst (deny_chord_of t) \<subseteq> held t then Some ''deny'' else None)"

definition win_feed :: "32 word \<Rightarrow> bool \<Rightarrow> bool \<Rightarrow> win_tracker \<Rightarrow> string option \<times> win_tracker" where
  "win_feed vk down is_real t =
     (if \<not> is_real then (None, t)
      else (case map_of modifier_vks vk of
              Some m \<Rightarrow> (None, t\<lparr>held := if down then insert m (held t) else held t - {m}\<rparr>)
            | None \<Rightarrow>
                if \<not> is_trigger t vk then (None, t)
                else if \<not> down then (None, t\<lparr>pressed := pressed t - {vk}\<rparr>)
                else if vk \<in> pressed t then (None, t)
                else (completed t vk, t\<lparr>pressed := insert vk (pressed t)\<rparr>)))"

text \<open>A keyboard event as the hook gets it: \<open>vkCode\<close>, whether it is a press, and \<open>flags\<close>\<close>

record key_event =
  ev_vk :: "32 word"
  ev_down :: bool
  ev_flags :: "32 word"

definition genuine :: "key_event \<Rightarrow> bool" where
  "genuine e = kb_event_is_real (ev_flags e)"

definition win_event :: "key_event \<Rightarrow> win_tracker \<Rightarrow> string option \<times> win_tracker" where
  "win_event e t = win_feed (ev_vk e) (ev_down e) (genuine e) t"

fun win_run :: "key_event list \<Rightarrow> win_tracker \<Rightarrow> win_tracker" where
  "win_run [] t = t"
| "win_run (e # es) t = win_run es (snd (win_event e t))"

fun win_decisions :: "key_event list \<Rightarrow> win_tracker \<Rightarrow> string list" where
  "win_decisions [] t = []"
| "win_decisions (e # es) t =
     (case win_event e t of (None, t) \<Rightarrow> win_decisions es t | (Some d, t) \<Rightarrow> d # win_decisions es t)"

section \<open>macOS\<close>

definition hands_tag :: int where "hands_tag = 0x46494B48"
definition source_state_hid :: int where "source_state_hid = 1"

definition event_is_real :: "int \<Rightarrow> int \<Rightarrow> bool" where
  "event_is_real user_data source_state_id \<longleftrightarrow> user_data \<noteq> hands_tag \<and> source_state_id = source_state_hid"

fun flag_for :: "modifier \<Rightarrow> 64 word" where
  "flag_for Ctrl = 0x40000" | "flag_for Alt = 0x80000" | "flag_for Shift = 0x20000" | "flag_for Cmd = 0x100000"

definition mac_keycodes :: "(string \<times> int) list" where
  "mac_keycodes =
     [(''a'', 0), (''s'', 1), (''d'', 2), (''f'', 3), (''h'', 4), (''g'', 5), (''z'', 6), (''x'', 7), (''c'', 8),
      (''v'', 9), (''b'', 11), (''q'', 12), (''w'', 13), (''e'', 14), (''r'', 15), (''y'', 16), (''t'', 17),
      (''1'', 18), (''2'', 19), (''3'', 20), (''4'', 21), (''6'', 22), (''5'', 23), (''9'', 25), (''7'', 26),
      (''8'', 28), (''0'', 29), (''o'', 31), (''u'', 32), (''i'', 34), (''p'', 35), (''l'', 37), (''j'', 38),
      (''k'', 40), (''n'', 45), (''m'', 46), (''return'', 36), (''tab'', 48), (''space'', 49), (''delete'', 51),
      (''backspace'', 51), (''escape'', 53), (''esc'', 53), (''enter'', 76), (''forwarddelete'', 117),
      (''home'', 115), (''pageup'', 116), (''end'', 119), (''pagedown'', 121), (''left'', 123), (''right'', 124),
      (''down'', 125), (''up'', 126), (''f1'', 122), (''f2'', 120), (''f3'', 99), (''f4'', 118), (''f5'', 96),
      (''f6'', 97), (''f7'', 98), (''f8'', 100), (''f9'', 101), (''f10'', 109), (''f11'', 103), (''f12'', 111)]"

definition mask_of :: "modifier set \<Rightarrow> 64 word" where
  "mask_of ms = (if Ctrl \<in> ms then flag_for Ctrl else 0) OR (if Alt \<in> ms then flag_for Alt else 0) OR
     (if Shift \<in> ms then flag_for Shift else 0) OR (if Cmd \<in> ms then flag_for Cmd else 0)"

definition mac_compile :: "pyval \<Rightarrow> string + 64 word \<times> int" where
  "mac_compile v =
     bindR (parse_chord v) (\<lambda>(mods, key).
       case map_of mac_keycodes key of
         None \<Rightarrow> Inl (''no macOS keycode for '' @ py_repr key)
       | Some keycode \<Rightarrow> Inr (mask_of mods, keycode))"

record mac_tracker =
  mac_approve :: "64 word \<times> int"
  mac_deny :: "64 word \<times> int"

definition new_mac_tracker :: "pyval \<Rightarrow> pyval \<Rightarrow> string + mac_tracker" where
  "new_mac_tracker approve deny =
     bindR (mac_compile approve) (\<lambda>a. bindR (mac_compile deny) (\<lambda>d. Inr \<lparr>mac_approve = a, mac_deny = d\<rparr>))"

definition mac_classify :: "mac_tracker \<Rightarrow> int \<Rightarrow> key_class" where
  "mac_classify t keycode =
     (if keycode \<in> {snd (mac_approve t), snd (mac_deny t)} then Trigger else Other_Key)"

definition mac_feed :: "int \<Rightarrow> 64 word \<Rightarrow> bool \<Rightarrow> mac_tracker \<Rightarrow> string option" where
  "mac_feed keycode flags is_real t =
     (if \<not> is_real then None
      else if keycode = snd (mac_approve t) \<and> flags AND fst (mac_approve t) = fst (mac_approve t)
      then Some ''approve''
      else if keycode = snd (mac_deny t) \<and> flags AND fst (mac_deny t) = fst (mac_deny t)
      then Some ''deny'' else None)"

text \<open>What the tap's callback does with a key-down event; repeats of a held key are dropped first\<close>

record tap_event =
  tap_disabled :: bool
  tap_repeat :: bool
  tap_keycode :: int
  tap_flags :: "64 word"
  tap_user_data :: int
  tap_source_state :: int

definition tap_callback :: "mac_tracker \<Rightarrow> tap_event \<Rightarrow> string option" where
  "tap_callback t e =
     (if tap_disabled e \<or> tap_repeat e then None
      else mac_feed (tap_keycode e) (tap_flags e) (event_is_real (tap_user_data e) (tap_source_state e)) t)"

section \<open>Lemmas\<close>

lemma win_feed_synthetic [simp]: "\<not> genuine e \<Longrightarrow> win_event e t = (None, t)"
  by (simp add: win_event_def win_feed_def)

lemma win_run_append [simp]: "win_run (xs @ ys) t = win_run ys (win_run xs t)"
  by (induction xs t rule: win_run.induct) auto

lemma win_event_chords [simp]:
  "approve_chord (snd (win_event e t)) = approve_chord t" "deny_chord_of (snd (win_event e t)) = deny_chord_of t"
  by (auto simp: win_event_def win_feed_def split: option.split)

lemma win_run_chords [simp]:
  "approve_chord (win_run es t) = approve_chord t" "deny_chord_of (win_run es t) = deny_chord_of t"
  by (induction es t rule: win_run.induct) simp_all

text \<open>A real event of a modifier's key, a press or a release\<close>

definition moves :: "modifier \<Rightarrow> bool \<Rightarrow> key_event \<Rightarrow> bool" where
  "moves m down e \<longleftrightarrow> genuine e \<and> map_of modifier_vks (ev_vk e) = Some m \<and> ev_down e = down"

lemma win_event_held:
  "m \<in> held (snd (win_event e t)) \<longleftrightarrow> moves m True e \<or> (m \<in> held t \<and> \<not> moves m False e)"
proof (cases "map_of modifier_vks (ev_vk e)")
  case None
  then show ?thesis by (simp add: win_event_def win_feed_def moves_def)
next
  case (Some n)
  then show ?thesis by (cases "ev_down e"; cases "genuine e") (auto simp: win_event_def win_feed_def moves_def)
qed

lemma held_means_pressed:
  "m \<in> held (win_run es t) \<Longrightarrow> m \<notin> held t \<Longrightarrow>
     \<exists>pre e post. es = pre @ e # post \<and> moves m True e \<and> (\<forall>f \<in> set post. \<not> moves m False f)"
proof (induction es arbitrary: m rule: rev_induct)
  case (snoc f es)
  show ?case
  proof (cases "moves m True f")
    case True
    then show ?thesis by (intro exI [of _ es] exI [of _ f] exI [of _ "[]"]) simp
  next
    case False
    with snoc.prems(1) have h: "m \<in> held (win_run es t)" and f: "\<not> moves m False f"
      by (simp_all add: win_event_held)
    from snoc.IH [OF h snoc.prems(2)] obtain pre e post
      where "es = pre @ e # post" "moves m True e" "\<forall>f \<in> set post. \<not> moves m False f" by blast
    with f show ?thesis by (intro exI [of _ pre] exI [of _ e] exI [of _ "post @ [f]"]) simp
  qed
qed simp

definition release_of :: "32 word \<Rightarrow> key_event \<Rightarrow> bool" where
  "release_of vk e \<longleftrightarrow> genuine e \<and> ev_vk e = vk \<and> \<not> ev_down e"

lemma pressed_stays:
  "vk \<in> pressed t \<Longrightarrow> \<forall>e \<in> set es. \<not> release_of vk e \<Longrightarrow> vk \<in> pressed (win_run es t)"
proof (induction es t rule: win_run.induct)
  case (2 e es t)
  then have "vk \<in> pressed (snd (win_event e t))"
    by (auto simp: win_event_def win_feed_def release_of_def split: option.split)
  with 2 show ?case by simp
qed simp

lemma win_event_decides:
  assumes "fst (win_event e t) = Some d"
  shows "genuine e" "ev_down e" "ev_vk e \<notin> pressed t" "ev_vk e \<in> pressed (snd (win_event e t))"
    "completed t (ev_vk e) = Some d"
  using assms by (auto simp: win_event_def win_feed_def split: if_splits option.splits)

lemma completed_cases:
  assumes "completed t vk = Some d"
  obtains (approve) "d = ''approve''" "vk = snd (approve_chord t)" "fst (approve_chord t) \<subseteq> held t"
    | (deny) "d = ''deny''" "vk = snd (deny_chord_of t)" "fst (deny_chord_of t) \<subseteq> held t"
  using assms by (auto simp: completed_def split: if_splits)

lemma canonical_nonempty: "canonical g seen ms = Inr out \<Longrightarrow> ms \<noteq> [] \<or> seen \<noteq> [] \<Longrightarrow> out \<noteq> []"
  by (induction g seen ms rule: canonical.induct) (auto split: option.splits if_splits)

text \<open>What the grammar accepts\<close>

lemma parse_chord_Inr:
  assumes "parse_chord v = Inr (mods, key)"
  shows "mods \<noteq> {}" and "(\<exists>w. key = py_lower w) \<and> (single_key key \<or> key \<in> set named_trigger_keys)"
proof -
  obtain g where v: "v = PyStr g" using assms by (cases v) (auto simp: parse_chord_def)
  define parts where "parts = map (\<lambda>p. py_lower (py_strip p)) (split_on (CHR ''+'') g)"
  have two: "2 \<le> length parts"
    using assms by (auto simp: parse_chord_def v Let_def parts_def split: if_splits)
  from assms two obtain ms where ms: "canonical g [] (butlast parts) = Inr ms" "mods = set ms"
      "key = last parts" "single_key key \<or> key \<in> set named_trigger_keys"
    by (auto simp: parse_chord_def v Let_def parts_def [symmetric] bindR_Inr_iff split: if_splits)
  have "butlast parts \<noteq> []" using two by (metis length_butlast length_greater_0_conv less_diff_conv
        nat_1_add_1 not_numeral_le_zero order_less_le_trans plus_nat.add_0 one_less_numeral_iff semiring_norm(76))
  with ms(1,2) canonical_nonempty show "mods \<noteq> {}" by fastforce
  have "parts \<noteq> []" using two by auto
  then have "last parts \<in> set parts" by simp
  then have "\<exists>w. key = py_lower w" unfolding ms(3) parts_def by auto
  with ms(4) show "(\<exists>w. key = py_lower w) \<and> (single_key key \<or> key \<in> set named_trigger_keys)" by simp
qed

lemma lower_char_range: "code_of (lower_char c) < 65 \<or> 90 < code_of (lower_char c)"
proof (cases "(65 \<le> code_of c \<and> code_of c \<le> 90) \<or> (192 \<le> code_of c \<and> code_of c \<le> 222 \<and> code_of c \<noteq> 215)")
  case True
  then have "code_of (lower_char c) = code_of c + 32"
    by (auto simp: lower_char_def Let_def) (auto simp: code_of_def)
  with True show ?thesis by auto
next
  case False
  then have "lower_char c = c" unfolding lower_char_def Let_def by (simp only: if_False)
  with False show ?thesis by auto
qed

lemma lower_alnum:
  assumes "ascii_alnum (lower_char c)"
  shows "lower_char c \<in> set (map char_of ([48..<58] @ [97..<123]))"
proof -
  have "code_of (lower_char c) \<in> set ([48..<58] @ [97..<123])"
    unfolding set_append set_upt Un_iff atLeastLessThan_iff
    using assms lower_char_range [of c] by (simp add: ascii_alnum_def Let_def) linarith
  moreover have "lower_char c = char_of (code_of (lower_char c))" by (simp add: code_of_def)
  ultimately show ?thesis unfolding set_map by (rule rev_image_eqI)
qed

lemma accepted_key:
  assumes "parse_chord v = Inr (mods, key)"
  shows "key \<in> set (map (\<lambda>n. [char_of n]) ([48..<58] @ [97..<123]) @ named_trigger_keys)"
proof -
  from parse_chord_Inr(2) [OF assms] obtain w where w: "key = py_lower w"
    and k: "single_key key \<or> key \<in> set named_trigger_keys" by blast
  from k show ?thesis
  proof
    assume "single_key key"
    with w obtain c where "key = [lower_char c]" "ascii_alnum (lower_char c)"
      by (cases w) (auto simp: single_key_def py_lower_def)
    with lower_alnum [of c] show ?thesis by auto
  qed simp
qed

lemma all_keys_compile:
  "list_all (\<lambda>k. \<not> isl (trigger_vk k) \<and> (map_of mac_keycodes k = None \<longleftrightarrow> k = ''insert''))
     (map (\<lambda>n. [char_of (n::nat)]) ([48..<58] @ [97..<123]) @ named_trigger_keys)"
  by code_simp

lemma compile_parsed:
  assumes "parse_chord v = Inr (mods, key)"
  shows "\<exists>vk. trigger_vk key = Inr vk" and "map_of mac_keycodes key = None \<longleftrightarrow> key = ''insert''"
proof -
  from accepted_key [OF assms] all_keys_compile
  have k: "\<not> isl (trigger_vk key)" "map_of mac_keycodes key = None \<longleftrightarrow> key = ''insert''"
    unfolding list_all_iff by (metis (no_types, lifting))+
  from k(1) show "\<exists>vk. trigger_vk key = Inr vk" by (cases "trigger_vk key") auto
  from k(2) show "map_of mac_keycodes key = None \<longleftrightarrow> key = ''insert''" .
qed

section \<open>Properties of the listeners\<close>


text \<open>
  C32. An answer is a gesture: when a stream of events makes the Windows tracker answer, the last event
  is a genuine press of the trigger key of the chord of that answer, that chord has at least one
  modifier, and for each of its modifiers a genuine press came before, with no release of it since.
\<close>

theorem answer_needs_the_held_chord:
  assumes "new_win_tracker approve deny = Inr t" and "fst (win_event e (win_run es t)) = Some d"
  shows "\<exists>mods. win_compile (if d = ''approve'' then approve else deny) = Inr (mods, ev_vk e) \<and>
    mods \<noteq> {} \<and> genuine e \<and> ev_down e \<and>
    (\<forall>m \<in> mods. \<exists>pre f post. es = pre @ f # post \<and> moves m True f \<and> (\<forall>g \<in> set post. \<not> moves m False g))"
proof -
  obtain am ak dm dk av dv where p: "parse_chord approve = Inr (am, ak)" "parse_chord deny = Inr (dm, dk)"
      "trigger_vk ak = Inr av" "trigger_vk dk = Inr dv"
    and t: "t = \<lparr>approve_chord = (am, av), deny_chord_of = (dm, dv), held = {}, pressed = {}\<rparr>"
    using assms(1) by (auto simp: new_win_tracker_def bindR_Inr_iff)
  have held: "\<exists>pre f post. es = pre @ f # post \<and> moves m True f \<and> (\<forall>g \<in> set post. \<not> moves m False g)"
    if "m \<in> held (win_run es t)" for m
    using that by (rule held_means_pressed) (simp add: t)
  note ev = win_event_decides [OF assms(2)]
  from ev(5) show ?thesis
  proof (cases rule: completed_cases)
    case approve
    moreover from approve p have "win_compile approve = Inr (am, ev_vk e)"
      by (simp add: win_compile_def t)
    ultimately show ?thesis
      using parse_chord_Inr(1) [OF p(1)] ev(1,2) held by (intro exI [of _ am]) (auto simp: t)
  next
    case deny
    moreover from deny p have "win_compile deny = Inr (dm, ev_vk e)"
      by (simp add: win_compile_def t)
    ultimately show ?thesis
      using parse_chord_Inr(1) [OF p(2)] ev(1,2) held by (intro exI [of _ dm]) (auto simp: t)
  qed
qed

definition key_down :: "32 word \<Rightarrow> key_event" where
  "key_down vk = \<lparr>ev_vk = vk, ev_down = True, ev_flags = 0\<rparr>"

definition example_tracker :: win_tracker where
  "example_tracker = \<lparr>approve_chord = ({Ctrl, Alt}, 0x59), deny_chord_of = ({Ctrl, Alt}, 0x4E), held = {}, pressed = {}\<rparr>"

lemma example_tracker_made:
  "new_win_tracker (PyStr ''ctrl+alt+y'') (PyStr ''ctrl+alt+n'') = Inr example_tracker"
  by code_simp

theorem answer_needs_the_held_chord_witness:
  "\<exists>mods. win_compile (PyStr ''ctrl+alt+y'') = Inr (mods, 0x59) \<and> mods \<noteq> {} \<and>
     (\<forall>m \<in> mods. \<exists>f \<in> set [key_down 0xA2, key_down 0xA4]. moves m True f)"
proof -
  have "fst (win_event (key_down 0x59) (win_run [key_down 0xA2, key_down 0xA4] example_tracker)) = Some ''approve''"
    by code_simp
  from answer_needs_the_held_chord [OF example_tracker_made this] obtain mods
    where m: "win_compile (PyStr ''ctrl+alt+y'') = Inr (mods, ev_vk (key_down 0x59))" "mods \<noteq> {}"
      "\<forall>m \<in> mods. \<exists>pre f post. [key_down 0xA2, key_down 0xA4] = pre @ f # post \<and> moves m True f"
    by (simp only: if_True refl) blast
  have vk: "ev_vk (key_down 0x59) = 0x59" by (simp add: key_down_def)
  have "\<exists>f \<in> set [key_down 0xA2, key_down 0xA4]. moves m True f" if "m \<in> mods" for m
    using m(3) that by (metis in_set_conv_decomp)
  with m(1,2) vk show ?thesis by auto
qed

text \<open>
  One press, one answer: between two answers given by the same key a genuine release of that key
  lies, however long the key is held and however often the system repeats it.
\<close>

theorem one_press_one_answer:
  assumes "fst (win_event e (win_run es t)) = Some d"
    and "fst (win_event f (win_run (es @ e # mid) t)) = Some d'" and "ev_vk f = ev_vk e"
  shows "\<exists>g \<in> set mid. genuine g \<and> ev_vk g = ev_vk e \<and> \<not> ev_down g"
proof (rule ccontr)
  assume "\<not> ?thesis"
  then have "\<forall>g \<in> set mid. \<not> release_of (ev_vk e) g" by (auto simp: release_of_def)
  with win_event_decides(4) [OF assms(1)]
  have "ev_vk e \<in> pressed (win_run mid (snd (win_event e (win_run es t))))" by (rule pressed_stays)
  with win_event_decides(3) [OF assms(2)] assms(3) show False by simp
qed

theorem one_press_one_answer_witness:
  "\<exists>g \<in> set [\<lparr>ev_vk = 0x59, ev_down = False, ev_flags = 0x80\<rparr>]. genuine g \<and> ev_vk g = 0x59 \<and> \<not> ev_down g"
proof -
  let ?es = "[key_down 0xA2, key_down 0xA4]"
  let ?mid = "[\<lparr>ev_vk = 0x59, ev_down = False, ev_flags = 0x80\<rparr>]"
  have "fst (win_event (key_down 0x59) (win_run ?es example_tracker)) = Some ''approve''"
    "fst (win_event (key_down 0x59) (win_run (?es @ key_down 0x59 # ?mid) example_tracker)) = Some ''approve''"
    by code_simp+
  from one_press_one_answer [OF this] show ?thesis by (simp add: key_down_def)
qed

text \<open>
  A chord the grammar accepts can be pressed: on Windows every accepted chord compiles to a
  trigger key, on macOS exactly those whose trigger is not \<open>insert\<close>, a key that keyboard lacks.
\<close>

theorem accepted_chord_compiles:
  "((\<exists>r. win_compile v = Inr r) \<longleftrightarrow> (\<exists>r. parse_chord v = Inr r)) \<and>
   ((\<exists>r. mac_compile v = Inr r) \<longleftrightarrow> (\<exists>mods key. parse_chord v = Inr (mods, key) \<and> key \<noteq> ''insert''))"
proof (cases "parse_chord v")
  case (Inl e)
  then show ?thesis by (simp add: win_compile_def mac_compile_def)
next
  case (Inr r)
  obtain mods key where r: "r = (mods, key)" by (cases r)
  obtain vk where "trigger_vk key = Inr vk" using compile_parsed(1) [OF Inr [unfolded r]] ..
  with Inr r compile_parsed(2) [OF Inr [unfolded r]] show ?thesis
    by (cases "map_of mac_keycodes key") (simp_all add: win_compile_def mac_compile_def)
qed


definition shadowed_tracker :: win_tracker where
  "shadowed_tracker = \<lparr>approve_chord = ({Ctrl, Alt}, 0x59), deny_chord_of = ({Ctrl, Alt, Shift}, 0x59),
     held = {}, pressed = {}\<rparr>"


end
