(* ===== verification/Hands_Config.thy ===== *)
theory Hands_Config
  imports Hands_Step Hands_Chord
begin

text \<open>
  \<open>hands/src/firekeep_hands/config.py\<close> and the commands of \<open>hands/src/firekeep_hands/cli.py\<close> that write what
  it reads: the settings (\<open>config.json\<close>) and the allow-list (\<open>policy.json\<close>). A file is what
  \<open>json.loads\<close> makes of it (\<open>Missing\<close>, \<open>Unreadable\<close> or a value), so writing and parsing JSON back is
  taken to give the value with its keys in order. A command is its exit code and the file it leaves.
\<close>

section \<open>Coercion\<close>

definition true_words :: "string list" where "true_words = [''true'', ''1'', ''yes'']"
definition false_words :: "string list" where "false_words = [''false'', ''0'', ''no'']"

text \<open>\<open>INT_RE.fullmatch\<close>, and \<open>int\<close> on a text it matches\<close>

definition int_re :: "string \<Rightarrow> bool" where
  "int_re s \<longleftrightarrow> (let ds = (if s \<noteq> [] \<and> hd s = CHR ''-'' then tl s else s) in ds \<noteq> [] \<and> list_all is_digit ds)"

definition int_of_text :: "string \<Rightarrow> py_exc + int" where
  "int_of_text s =
     (let ds = filter is_digit s; n = digits_value 0 ds
      in if 4300 < length ds
         then Inl (OtherError (''Exceeds the limit (4300 digits) for integer string conversion: value has '' @
                str_of_nat (length ds) @ '' digits; use sys.set_int_max_str_digits() to increase the limit''))
         else Inr (if hd s = CHR ''-'' then - n else n))"

definition word_bool :: "string \<Rightarrow> bool option" where
  "word_bool s = (if s \<in> set true_words then Some True else if s \<in> set false_words then Some False else None)"

text \<open>\<open>None\<close> is \<open>_UNSET\<close>\<close>

definition coerce_field :: "pyval \<Rightarrow> pyval \<Rightarrow> py_exc + pyval option" where
  "coerce_field preset v =
     (case preset of
        PyBool _ \<Rightarrow>
          (case v of PyBool b \<Rightarrow> Inr (Some v)
           | PyStr s \<Rightarrow> Inr (map_option PyBool (word_bool (py_lower (py_strip s)))) | _ \<Rightarrow> Inr None)
      | PyInt _ \<Rightarrow>
          (case v of PyInt i \<Rightarrow> Inr (Some v)
           | PyStr s \<Rightarrow> if int_re (py_strip s) then bindR (int_of_text (py_strip s)) (\<lambda>i. Inr (Some (PyInt i))) else Inr None
           | _ \<Rightarrow> Inr None)
      | PyStr _ \<Rightarrow> (case v of PyStr s \<Rightarrow> Inr (Some v) | _ \<Rightarrow> Inr None)
      | _ \<Rightarrow> Inr (Some v))"

section \<open>The settings\<close>

text \<open>\<open>dataclasses.asdict(cfg)\<close>\<close>

definition config_items :: "hands_config \<Rightarrow> pydict" where
  "config_items c =
     [(''chord'', PyStr (chord c)), (''deny_chord'', PyStr (deny_chord c)), (''permit_ttl_s'', PyInt (permit_ttl_s c)),
      (''phone_approvals'', PyBool (phone_approvals c)), (''phone_approvers'', PyStr (phone_approvers c)),
      (''max_steps'', PyInt (max_steps c)), (''max_nodes'', PyInt (max_nodes c)), (''text_budget'', PyInt (text_budget c)),
      (''screenshot_max_width'', PyInt (screenshot_max_width c)),
      (''evidence_retention_days'', PyInt (evidence_retention_days c)), (''browser'', PyStr (browser_kind c))]"

definition config_fields :: "string list" where
  "config_fields = map fst (config_items default_config)"

definition int_or :: "int \<Rightarrow> pyval \<Rightarrow> int" where "int_or d v = (case v of PyInt i \<Rightarrow> i | _ \<Rightarrow> d)"
definition str_val_or :: "string \<Rightarrow> pyval \<Rightarrow> string" where "str_val_or d v = (case v of PyStr s \<Rightarrow> s | _ \<Rightarrow> d)"
definition bool_or :: "bool \<Rightarrow> pyval \<Rightarrow> bool" where "bool_or d v = (case v of PyBool b \<Rightarrow> b | _ \<Rightarrow> d)"

text \<open>\<open>setattr(cfg, name, value)\<close> for a value of the field's type\<close>

definition set_field :: "string \<Rightarrow> pyval \<Rightarrow> hands_config \<Rightarrow> hands_config" where
  "set_field k v c =
     (if k = ''chord'' then c\<lparr>chord := str_val_or (chord c) v\<rparr>
      else if k = ''deny_chord'' then c\<lparr>deny_chord := str_val_or (deny_chord c) v\<rparr>
      else if k = ''permit_ttl_s'' then c\<lparr>permit_ttl_s := int_or (permit_ttl_s c) v\<rparr>
      else if k = ''phone_approvals'' then c\<lparr>phone_approvals := bool_or (phone_approvals c) v\<rparr>
      else if k = ''phone_approvers'' then c\<lparr>phone_approvers := str_val_or (phone_approvers c) v\<rparr>
      else if k = ''max_steps'' then c\<lparr>max_steps := int_or (max_steps c) v\<rparr>
      else if k = ''max_nodes'' then c\<lparr>max_nodes := int_or (max_nodes c) v\<rparr>
      else if k = ''text_budget'' then c\<lparr>text_budget := int_or (text_budget c) v\<rparr>
      else if k = ''screenshot_max_width'' then c\<lparr>screenshot_max_width := int_or (screenshot_max_width c) v\<rparr>
      else if k = ''evidence_retention_days'' then c\<lparr>evidence_retention_days := int_or (evidence_retention_days c) v\<rparr>
      else if k = ''browser'' then c\<lparr>browser_kind := str_val_or (browser_kind c) v\<rparr>
      else c)"

definition read_json :: "json_file \<Rightarrow> pydict option" where
  "read_json f = (case f of Holds (PyDict d) \<Rightarrow> Some d | _ \<Rightarrow> None)"

definition split_known_extra :: "string list \<Rightarrow> pydict \<Rightarrow> pydict \<times> pydict" where
  "split_known_extra names d = (filter (\<lambda>(k, v). k \<in> set names) d, filter (\<lambda>(k, v). k \<notin> set names) d)"

fun load_fields :: "pydict \<Rightarrow> hands_config \<Rightarrow> py_exc + hands_config" where
  "load_fields [] c = Inr c"
| "load_fields ((k, v) # kvs) c =
     bindR (coerce_field (the (map_of (config_items default_config) k)) v) (\<lambda>r.
       load_fields kvs (case r of None \<Rightarrow> c | Some v \<Rightarrow> set_field k v c))"

definition load_config :: "json_file \<Rightarrow> py_exc + hands_config \<times> pydict" where
  "load_config f =
     (case split_known_extra config_fields (case read_json f of None \<Rightarrow> [] | Some d \<Rightarrow> d) of
        (known, extra) \<Rightarrow> bindR (load_fields known default_config) (\<lambda>c. Inr (c, extra)))"

definition save_config :: "hands_config \<Rightarrow> pydict \<Rightarrow> json_file" where
  "save_config c extra = Holds (sort_keys (PyDict (merged (config_items c) extra)))"

section \<open>The allow-list\<close>

text \<open>As loaded: entries of the lists are not looked at, a remembered entry is its four fields\<close>

record raw_policy =
  raw_apps :: "pyval list"
  raw_domains :: "pyval list"
  raw_remembered :: "pydict list"

definition remembered_fields :: "string list" where
  "remembered_fields = [''cls'', ''app'', ''match'', ''until'']"

definition policy_fields :: "string list" where
  "policy_fields = [''apps'', ''domains'', ''remembered'']"

definition remembered_item :: "pyval \<Rightarrow> pydict list" where
  "remembered_item v =
     (case v of
        PyDict d \<Rightarrow> if list_all (has_key d) remembered_fields
                    then [map (\<lambda>k. (k, the (map_of d k))) remembered_fields] else []
      | _ \<Rightarrow> [])"

definition remembered_list_from_raw :: "pyval \<Rightarrow> pydict list" where
  "remembered_list_from_raw v = (case v of PyList vs \<Rightarrow> concat (map remembered_item vs) | _ \<Rightarrow> [])"

definition list_or_empty :: "pyval \<Rightarrow> pyval list" where
  "list_or_empty v = (case v of PyList vs \<Rightarrow> vs | _ \<Rightarrow> [])"

definition load_policy :: "json_file \<Rightarrow> raw_policy \<times> pydict" where
  "load_policy f =
     (case split_known_extra policy_fields (case read_json f of None \<Rightarrow> [] | Some d \<Rightarrow> d) of
        (known, extra) \<Rightarrow>
          (\<lparr>raw_apps = list_or_empty (get_val known ''apps''), raw_domains = list_or_empty (get_val known ''domains''),
            raw_remembered = remembered_list_from_raw (get_val known ''remembered'')\<rparr>, extra))"

definition policy_items :: "raw_policy \<Rightarrow> pydict" where
  "policy_items p = [(''apps'', PyList (raw_apps p)), (''domains'', PyList (raw_domains p)),
     (''remembered'', PyList (map PyDict (raw_remembered p)))]"

definition save_policy :: "raw_policy \<Rightarrow> pydict \<Rightarrow> json_file" where
  "save_policy p extra = Holds (sort_keys (PyDict (merged (policy_items p) extra)))"

section \<open>The commands\<close>

definition cli_coerce :: "pyval \<Rightarrow> string \<Rightarrow> py_exc + pyval" where
  "cli_coerce current raw =
     (case current of
        PyBool _ \<Rightarrow> (case word_bool (py_lower raw) of
            Some b \<Rightarrow> Inr (PyBool b)
          | None \<Rightarrow> Inl (OtherError (''not a bool: '' @ py_repr raw @ '' (use true/false, 1/0, or yes/no)'')))
      | PyInt _ \<Rightarrow> if int_re raw then bindR (int_of_text raw) (\<lambda>i. Inr (PyInt i))
                    else Inl (OtherError (''not an int: '' @ py_repr raw))
      | _ \<Rightarrow> Inr (PyStr raw))"

definition cmd_config_set :: "string \<Rightarrow> string \<Rightarrow> json_file \<Rightarrow> int \<times> json_file" where
  "cmd_config_set key raw f =
     (case load_config f of
        Inl e \<Rightarrow> (1, f)
      | Inr (c, extra) \<Rightarrow>
          if key \<notin> set config_fields then (2, f)
          else (case cli_coerce (the (map_of (config_items c) key)) raw of
                  Inl e \<Rightarrow> (2, f)
                | Inr v \<Rightarrow> (0, save_config (set_field key v c) extra)))"

text \<open>\<open>chord set\<close> and \<open>chord set-deny\<close>\<close>

definition cmd_chord_set :: "bool \<Rightarrow> string \<Rightarrow> json_file \<Rightarrow> int \<times> json_file" where
  "cmd_chord_set deny raw f =
     (case load_config f of
        Inl e \<Rightarrow> (1, f)
      | Inr (c, extra) \<Rightarrow>
          (case parse_chord (PyStr raw) of
             Inl e \<Rightarrow> (2, f)
           | Inr x \<Rightarrow> (0, save_config (if deny then c\<lparr>deny_chord := raw\<rparr> else c\<lparr>chord := raw\<rparr>) extra)))"

datatype allow_command = Allow_App string | Allow_Domain string | Allow_List | Allow_Forget string string string

definition entry_is :: "string \<Rightarrow> string \<Rightarrow> string \<Rightarrow> pydict \<Rightarrow> bool" where
  "entry_is cl app m e \<longleftrightarrow> get_val e ''cls'' = PyStr cl \<and> get_val e ''app'' = PyStr app \<and> get_val e ''match'' = PyStr m"

definition cmd_allow :: "allow_command \<Rightarrow> json_file \<Rightarrow> int \<times> json_file" where
  "cmd_allow cmd f =
     (case load_policy f of (p, extra) \<Rightarrow>
        (case cmd of
           Allow_App name \<Rightarrow>
             (0, if PyStr name \<notin> set (raw_apps p) then save_policy (p\<lparr>raw_apps := raw_apps p @ [PyStr name]\<rparr>) extra else f)
         | Allow_Domain host \<Rightarrow>
             (0, if PyStr host \<notin> set (raw_domains p)
                 then save_policy (p\<lparr>raw_domains := raw_domains p @ [PyStr host]\<rparr>) extra else f)
         | Allow_List \<Rightarrow> (0, f)
         | Allow_Forget cl app m \<Rightarrow>
             (let kept = filter (\<lambda>e. \<not> entry_is cl app m e) (raw_remembered p)
              in if length kept = length (raw_remembered p) then (1, f)
                 else (0, save_policy (p\<lparr>raw_remembered := kept\<rparr>) extra))))"

section \<open>Reading back what was written\<close>

lemma merged_append:
  "distinct (map fst e) \<Longrightarrow> fst ` set e \<inter> fst ` set d = {} \<Longrightarrow> merged d e = d @ e"
proof (induction e arbitrary: d)
  case (Cons x e)
  obtain k v where x: "x = (k, v)" by (cases x)
  have "AList.update k v d = d @ [(k, v)]" using Cons.prems(2) x by (induction d) auto
  moreover have "merged (d @ [(k, v)]) e = (d @ [(k, v)]) @ e"
    using Cons.prems x by (intro Cons.IH) auto
  ultimately show ?case by (simp add: merged_def x)
qed (simp add: merged_def)

lemma filter_sorted_items:
  "filter (\<lambda>(k, v). P k) (sorted_items d) = sorted_items (filter (\<lambda>(k, v). P k) d)"
proof -
  have "filter (\<lambda>(k, v). P k) (map (\<lambda>(k, v). (k, sort_keys v)) d) =
      map (\<lambda>(k, v). (k, sort_keys v)) (filter (\<lambda>(k, v). P k) d)"
    by (induction d) auto
  then show ?thesis unfolding sorted_items_def filter_sort by (rule arg_cong)
qed

lemma keys_of_config: "map fst (config_items c) = config_fields"
  by (simp add: config_items_def config_fields_def)

lemma config_sorted:
  "sorted_items (config_items c) =
     [(''browser'', PyStr (browser_kind c)), (''chord'', PyStr (chord c)), (''deny_chord'', PyStr (deny_chord c)),
      (''evidence_retention_days'', PyInt (evidence_retention_days c)), (''max_nodes'', PyInt (max_nodes c)),
      (''max_steps'', PyInt (max_steps c)), (''permit_ttl_s'', PyInt (permit_ttl_s c)),
      (''phone_approvals'', PyBool (phone_approvals c)), (''phone_approvers'', PyStr (phone_approvers c)),
      (''screenshot_max_width'', PyInt (screenshot_max_width c)), (''text_budget'', PyInt (text_budget c))]"
  by code_simp

lemma load_sorted: "load_fields (sorted_items (config_items c)) default_config = Inr c"
  unfolding config_sorted
  by (simp add: coerce_field_def config_items_def default_config_def set_field_def str_val_or_def int_or_def bool_or_def)

lemma load_saved:
  assumes "distinct (map fst extra)" and "fst ` set extra \<inter> set config_fields = {}"
  shows "load_config (save_config c extra) = Inr (c, sorted_items extra)"
proof -
  let ?names = "set config_fields"
  have keys: "fst ` set (config_items c) = ?names" by (metis keys_of_config list.set_map)
  with assms(2) have "merged (config_items c) extra = config_items c @ extra"
    by (intro merged_append [OF assms(1)]) auto
  then have stored: "save_config c extra = Holds (PyDict (sorted_items (config_items c @ extra)))"
    by (simp only: save_config_def sort_keys_PyDict)
  have "filter (\<lambda>(k, v). k \<in> ?names) (config_items c) = config_items c" "filter (\<lambda>(k, v). k \<notin> ?names) (config_items c) = []"
    using keys by (force simp: filter_id_conv filter_empty_conv)+
  moreover have "filter (\<lambda>(k, v). k \<in> ?names) extra = []" "filter (\<lambda>(k, v). k \<notin> ?names) extra = extra"
    using assms(2) by (auto simp: filter_id_conv filter_empty_conv)
  ultimately have "split_known_extra config_fields (sorted_items (config_items c @ extra)) =
      (sorted_items (config_items c), sorted_items extra)"
    by (simp add: split_known_extra_def filter_sorted_items)
  then show ?thesis by (simp add: load_config_def stored read_json_def load_sorted)
qed

lemma loaded_extra:
  assumes "load_config f = Inr (c, extra)" and "\<forall>d. f = Holds (PyDict d) \<longrightarrow> distinct (map fst d)"
  shows "distinct (map fst extra)" and "fst ` set extra \<inter> set config_fields = {}"
proof -
  define d where "d = (case read_json f of None \<Rightarrow> [] | Some d \<Rightarrow> d)"
  have d: "extra = filter (\<lambda>(k, v). k \<notin> set config_fields) d"
    using assms(1) by (auto simp: load_config_def split_known_extra_def bindR_Inr_iff d_def)
  have "distinct (map fst d)"
    using assms(2) by (auto simp: d_def read_json_def split: json_file.splits pyval.splits option.splits)
  with d show "distinct (map fst extra)" by (simp add: distinct_map_filter)
  show "fst ` set extra \<inter> set config_fields = {}" using d by auto
qed

lemma set_field_sets:
  assumes "key \<in> set config_fields" and "cli_coerce (the (map_of (config_items c) key)) raw = Inr v"
  shows "map_of (config_items (set_field key v c)) = (map_of (config_items c))(key \<mapsto> v)"
  using assms
  by (auto simp: config_fields_def config_items_def set_field_def cli_coerce_def bindR_Inr_iff str_val_or_def int_or_def
      bool_or_def default_config_def fun_upd_twist split: if_splits option.splits)

text \<open>
  C38. What \<open>firekeep hands config set\<close> writes is what the next start reads: when the command succeeds, loading
  the file gives the settings that were in force with exactly the one field changed to the value of the
  text, and the keys of a newer client are still there.
\<close>

theorem config_set_is_read_back:
  assumes "cmd_config_set key raw f = (0, f')" and "\<forall>d. f = Holds (PyDict d) \<longrightarrow> distinct (map fst d)"
  shows "\<exists>c extra v. load_config f = Inr (c, extra) \<and> cli_coerce (the (map_of (config_items c) key)) raw = Inr v \<and>
    load_config f' = Inr (set_field key v c, sorted_items extra) \<and>
    map_of (config_items (set_field key v c)) = (map_of (config_items c))(key \<mapsto> v)"
proof -
  from assms(1) obtain c extra v where c: "load_config f = Inr (c, extra)" "key \<in> set config_fields"
    "cli_coerce (the (map_of (config_items c) key)) raw = Inr v" "f' = save_config (set_field key v c) extra"
    by (auto simp: cmd_config_set_def split: sum.splits if_splits)
  from load_saved [OF loaded_extra [OF c(1) assms(2)]] c(4) have "load_config f' = Inr (set_field key v c, sorted_items extra)"
    by simp
  with c set_field_sets [OF c(2,3)] show ?thesis by blast
qed

theorem config_set_is_read_back_witness:
  "\<exists>c extra. load_config (snd (cmd_config_set ''max_steps'' ''12''
     (Holds (PyDict [(''theme'', PyStr ''dark''), (''max_nodes'', PyStr ''7'')])))) = Inr (c, extra) \<and>
     map_of (config_items c) ''max_steps'' = Some (PyInt 12)"
proof -
  let ?f = "Holds (PyDict [(''theme'', PyStr ''dark''), (''max_nodes'', PyStr ''7'')])"
  have "fst (cmd_config_set ''max_steps'' ''12'' ?f) = 0" by code_simp
  then have run: "cmd_config_set ''max_steps'' ''12'' ?f = (0, snd (cmd_config_set ''max_steps'' ''12'' ?f))"
    by (simp add: prod_eq_iff)
  have twelve: "cli_coerce (PyInt n) ''12'' = Inr (PyInt 12)" for n by code_simp
  from config_set_is_read_back [OF run] obtain c extra v where
    c: "cli_coerce (the (map_of (config_items c) ''max_steps'')) ''12'' = Inr v"
    "load_config (snd (cmd_config_set ''max_steps'' ''12'' ?f)) = Inr (set_field ''max_steps'' v c, sorted_items extra)"
    "map_of (config_items (set_field ''max_steps'' v c)) = (map_of (config_items c))(''max_steps'' \<mapsto> v)"
    by auto
  have "the (map_of (config_items c) ''max_steps'') = PyInt (max_steps c)" by (simp add: config_items_def)
  with c(1) twelve have "v = PyInt 12" by simp
  with c(2,3) show ?thesis by (metis fun_upd_same)
qed

section \<open>When loading fails\<close>

text \<open>A text of more digits than \<open>int\<close> converts, where a whole number is expected\<close>

definition too_long_for :: "string \<Rightarrow> pyval \<Rightarrow> bool" where
  "too_long_for k v \<longleftrightarrow> (\<exists>i. map_of (config_items default_config) k = Some (PyInt i)) \<and>
     (case v of PyStr s \<Rightarrow> int_re (py_strip s) \<and> 4300 < length (filter is_digit (py_strip s)) | _ \<Rightarrow> False)"

lemma coerce_field_raises:
  assumes "k \<in> set config_fields"
  shows "(\<exists>e. coerce_field (the (map_of (config_items default_config) k)) v = Inl e) \<longleftrightarrow> too_long_for k v"
proof -
  obtain pre where pre: "map_of (config_items default_config) k = Some pre"
    using assms unfolding config_fields_def by (metis map_of_eq_None_iff not_None_eq list.set_map)
  show ?thesis
    unfolding too_long_for_def pre
    by (cases pre; cases v) (auto simp: coerce_field_def int_of_text_def Let_def)
qed

lemma load_fields_raises:
  "fst ` set kvs \<subseteq> set config_fields \<Longrightarrow>
     (\<exists>e. load_fields kvs c = Inl e) \<longleftrightarrow> (\<exists>(k, v) \<in> set kvs. too_long_for k v)"
proof (induction kvs arbitrary: c)
  case (Cons x kvs)
  obtain k v where x: "x = (k, v)" by (cases x)
  have k: "k \<in> set config_fields" and "fst ` set kvs \<subseteq> set config_fields" using Cons.prems x by auto
  note ih = Cons.IH [OF this(2)]
  show ?case
  proof (cases "coerce_field (the (map_of (config_items default_config) k)) v")
    case (Inl e)
    with coerce_field_raises [OF k, of v] show ?thesis by (auto simp: x)
  next
    case (Inr r)
    with coerce_field_raises [OF k, of v] have "\<not> too_long_for k v" by simp
    with Inr ih show ?thesis by (simp add: x)
  qed
qed simp

text \<open>
  C39. \<open>load_config\<close> raises for one kind of file only: an object that gives a field of whole numbers a
  text of digits longer than Python converts; every other file, however damaged, gives settings.
\<close>

theorem load_config_raises_iff:
  "(\<exists>e. load_config f = Inl e) \<longleftrightarrow> (\<exists>d. f = Holds (PyDict d) \<and> (\<exists>(k, v) \<in> set d. too_long_for k v))"
proof -
  define d where "d = (case read_json f of None \<Rightarrow> [] | Some d \<Rightarrow> d)"
  let ?known = "filter (\<lambda>(k, v). k \<in> set config_fields) d"
  have known: "too_long_for k v \<Longrightarrow> k \<in> set config_fields" for k v
    unfolding too_long_for_def config_fields_def by (auto dest: map_of_SomeD intro: rev_image_eqI)
  have "(\<exists>e. load_config f = Inl e) \<longleftrightarrow> (\<exists>e. load_fields ?known default_config = Inl e)"
    by (cases "load_fields ?known default_config") (auto simp: load_config_def split_known_extra_def d_def [symmetric])
  also have "\<dots> \<longleftrightarrow> (\<exists>(k, v) \<in> set ?known. too_long_for k v)"
    by (rule load_fields_raises) auto
  also have "\<dots> \<longleftrightarrow> (\<exists>(k, v) \<in> set d. too_long_for k v)" using known by auto
  also have "\<dots> \<longleftrightarrow> (\<exists>d. f = Holds (PyDict d) \<and> (\<exists>(k, v) \<in> set d. too_long_for k v))"
    by (auto simp: d_def read_json_def split: json_file.splits pyval.splits)
  finally show ?thesis .
qed

end
