(* ===== verification/Hands_Phone.thy ===== *)
theory Hands_Phone
  imports Hands_Permits Hands_Keep Py_Time
begin

text \<open>
  \<open>hands/src/firekeep_hands/broker/phone.py\<close>: the bridge that posts a waiting permit as a Keep task,
  reads the answer and closes the task. The bridge runs beside the other threads of the broker, so
  every access to the store is preceded by whatever the others did meanwhile: the environment lists
  their operations (keystrokes, requests, consumptions) and the clock readings, one entry per access.
  The world keeps the history of all operations on the store with who did them.
\<close>

section \<open>Who may approve\<close>

definition predates :: "string \<Rightarrow> string" where
  "predates who = ''relay did not record '' @ who @
     '' -- the Keep predates principal stamping on relay tasks; upgrade the server before using phone approvals''"

definition auth_disabled :: string where
  "auth_disabled = ''the Keep has authentication disabled, so every caller is the same anonymous '' @
     ''owner and an approval cannot be told apart from the agent'' @ CHR 0x27 # ''s own; phone '' @
     ''approvals need AUTH_ENABLED=true on the Keep''"

definition own_key :: "string \<Rightarrow> string" where
  "own_key approver = ''approved by the requesting credential '' @ approver @ '' -- this machine'' @ CHR 0x27 #
     ''s own key, which the driving agent also holds''"

definition credential_of :: "(rat \<Rightarrow> string) \<Rightarrow> pydict \<Rightarrow> string" where
  "credential_of fl stamp = py_strip (str_or fl (get_val stamp ''credential_id'') [])"

definition approval_refusal ::
  "(rat \<Rightarrow> string) \<Rightarrow> pyval \<Rightarrow> pyval \<Rightarrow> string list \<Rightarrow> string option" where
  "approval_refusal fl created_by completed_by approvers =
    (case created_by of
       PyDict created \<Rightarrow>
        (case completed_by of
           PyDict completed \<Rightarrow>
             if get_val created ''authenticated'' \<noteq> PyBool True \<or> get_val completed ''authenticated'' \<noteq> PyBool True
             then Some auth_disabled
             else (let approver = credential_of fl completed; requester = credential_of fl created
                   in if approver = [] \<or> requester = [] then Some ''the approval carries no credential id''
                      else if \<not> py_eq (get_val completed ''workspace_id'') (get_val created ''workspace_id'')
                      then Some (''approved by credential '' @ approver @ '' from a different workspace'')
                      else if approver = requester then Some (own_key approver)
                      else if approvers \<noteq> [] \<and> approver \<notin> set approvers
                      then Some (''approved by credential '' @ approver @ '', which is not in phone_approvers'')
                      else None)
         | _ \<Rightarrow> Some (predates ''who approved the permit''))
     | _ \<Rightarrow> Some (predates ''who requested the permit''))"

section \<open>The bridge and its world\<close>

record bridge =
  tasks :: "(string \<times> string) list"
  answered_here :: "string set"
  refused :: "(string \<times> string) list"

text \<open>Who performed an operation on the store; the bridge's decisions carry the task they rest on\<close>

datatype actor = Elsewhere | Bridge "pydict option"

record phone_world =
  w_store :: store
  w_link :: link
  w_bridge :: bridge
  w_tick :: nat
  w_history :: "(actor \<times> op) list"

text \<open>
  The environment: what the other threads do before the bridge's \<open>n\<close>-th access, its clock reading
  there, the wall clock when a deadline is printed, the Keep, and the configured approvers.
\<close>

record phone_env =
  e_others :: "nat \<Rightarrow> op list"
  e_clock :: "nat \<Rightarrow> rat"
  e_wall :: "nat \<Rightarrow> rat"
  e_keep :: keep
  e_float :: "rat \<Rightarrow> string"
  e_approvers :: "string list"

definition init_bridge :: bridge where
  "init_bridge = \<lparr>tasks = [], answered_here = {}, refused = []\<rparr>"

definition do_ops :: "(actor \<times> op) list \<Rightarrow> phone_world \<Rightarrow> phone_world" where
  "do_ops xs w = w\<lparr>w_store := run_ops apply_op (map snd xs) (w_store w), w_history := w_history w @ xs\<rparr>"

text \<open>The others run, then the clock is read\<close>

definition visit :: "phone_env \<Rightarrow> phone_world \<Rightarrow> phone_world" where
  "visit e w = (do_ops (map (Pair Elsewhere) (e_others e (w_tick w))) w)\<lparr>w_tick := Suc (w_tick w)\<rparr>"

definition now_at :: "phone_env \<Rightarrow> phone_world \<Rightarrow> rat" where
  "now_at e w = e_clock e (w_tick w)"

definition bridge_op :: "pydict option \<Rightarrow> op \<Rightarrow> phone_world \<Rightarrow> phone_world" where
  "bridge_op why x w = do_ops [(Bridge why, x)] w"

definition with_link :: "(link \<Rightarrow> 'a \<times> link) \<Rightarrow> phone_world \<Rightarrow> 'a \<times> phone_world" where
  "with_link f w = (case f (w_link w) of (r, l) \<Rightarrow> (r, w\<lparr>w_link := l\<rparr>))"

definition store_pending :: "phone_env \<Rightarrow> phone_world \<Rightarrow> permit list \<times> phone_world" where
  "store_pending e w =
     (let w = visit e w; n = now_at e w
      in (fst (pending n (w_store w)), bridge_op None (Op_Pending n) w))"

definition store_get :: "phone_env \<Rightarrow> string \<Rightarrow> phone_world \<Rightarrow> permit option \<times> phone_world" where
  "store_get e c w =
     (let w = visit e w; n = now_at e w
      in (fst (get n c (w_store w)), bridge_op None (Op_Get n c) w))"

definition store_decide ::
  "phone_env \<Rightarrow> pydict \<Rightarrow> string \<Rightarrow> string \<Rightarrow> string \<Rightarrow> phone_world \<Rightarrow> permit option \<times> phone_world" where
  "store_decide e task c word via w =
     (let w = visit e w; n = now_at e w
      in (fst (decide n c word via (w_store w)), bridge_op (Some task) (Op_Decide n c word via) w))"

section \<open>One poll\<close>

definition expires_at_iso :: "phone_env \<Rightarrow> permit \<Rightarrow> phone_world \<Rightarrow> string" where
  "expires_at_iso e p w = format_utc \<lfloor>e_wall e (w_tick w) + max 0 (pexpires p - now_at e w)\<rfloor>"

definition has_phone_task :: "permit \<Rightarrow> bool" where
  "has_phone_task p \<longleftrightarrow> (case pphone p of None \<Rightarrow> False | Some t \<Rightarrow> t \<noteq> [])"

definition post_one :: "phone_env \<Rightarrow> permit \<Rightarrow> phone_world \<Rightarrow> phone_world" where
  "post_one e p w =
     (if has_phone_task p then w
      else let w = visit e w in
           (case with_link (post_permit_task (e_float e) (e_keep e) (pchallenge p) (ptitle p) (pclasses p)
                              (ptask p) (pstep p) (expires_at_iso e p w)) w of
              (None, w) \<Rightarrow> w
            | (Some task, w) \<Rightarrow>
                (if truthy (get_val task ''id'')
                 then (let i = py_str (e_float e) (get_val task ''id'');
                           w = bridge_op None (Op_PhoneTask p i) (visit e w)
                       in w\<lparr>w_bridge := (w_bridge w)\<lparr>tasks := AList.update (pchallenge p) i (tasks (w_bridge w))\<rparr>\<rparr>)
                 else w)))"

definition post_new :: "phone_env \<Rightarrow> phone_world \<Rightarrow> phone_world" where
  "post_new e w = (case store_pending e w of (ps, w) \<Rightarrow> foldl (\<lambda>w p. post_one e p w) w ps)"

definition refuse :: "phone_env \<Rightarrow> pydict \<Rightarrow> string \<Rightarrow> string \<Rightarrow> phone_world \<Rightarrow> phone_world" where
  "refuse e task c reason w =
     (case store_decide e task c ''deny'' ''phone-refused'' w of
        (None, w) \<Rightarrow> w
      | (Some p, w) \<Rightarrow> w\<lparr>w_bridge := (w_bridge w)\<lparr>refused := AList.update c reason (refused (w_bridge w))\<rparr>\<rparr>)"

definition answer_one :: "phone_env \<Rightarrow> string \<Rightarrow> pydict \<Rightarrow> string \<Rightarrow> phone_world \<Rightarrow> phone_world" where
  "answer_one e c task answer w =
     (case store_decide e task c answer ''phone'' w of
        (None, w) \<Rightarrow> w
      | (Some p, w) \<Rightarrow> w\<lparr>w_bridge := (w_bridge w)\<lparr>answered_here := insert c (answered_here (w_bridge w))\<rparr>\<rparr>)"

definition poll_one :: "phone_env \<Rightarrow> permit \<Rightarrow> phone_world \<Rightarrow> phone_world" where
  "poll_one e p w =
     (if \<not> has_phone_task p then w
      else (case with_link (permit_task (e_keep e) (pchallenge p) (the (pphone p))) w of
              (None, w) \<Rightarrow> w
            | (Some task, w) \<Rightarrow>
                if get_val task ''id'' \<noteq> PyStr (the (pphone p)) then w
                else (let answer = answer_from_task (e_float e) task
                      in if answer = Some ''approve''
                         then (case approval_refusal (e_float e) (get_val task ''created_by'')
                                      (get_val task ''completed_by'') (e_approvers e) of
                                 Some reason \<Rightarrow> refuse e task (pchallenge p) reason w
                               | None \<Rightarrow> answer_one e (pchallenge p) task ''approve'' w)
                         else if answer = Some ''deny'' then answer_one e (pchallenge p) task ''deny'' w
                         else w)))"

definition poll_open :: "phone_env \<Rightarrow> phone_world \<Rightarrow> phone_world" where
  "poll_open e w = (case store_pending e w of (ps, w) \<Rightarrow> foldl (\<lambda>w p. poll_one e p w) w ps)"

definition drop_task :: "string \<Rightarrow> bridge \<Rightarrow> bridge" where
  "drop_task c b = b\<lparr>tasks := AList.delete c (tasks b)\<rparr>"

definition close_one :: "phone_env \<Rightarrow> string \<times> string \<Rightarrow> phone_world \<Rightarrow> phone_world" where
  "close_one e ct w =
     (case ct of (c, task_id) \<Rightarrow>
       (case store_get e c w of (p, w) \<Rightarrow>
         if (case p of None \<Rightarrow> False | Some p \<Rightarrow> pstate p = Pending) then w
         else (let b = drop_task c (w_bridge w)
               in if c \<in> answered_here b
                  then w\<lparr>w_bridge := b\<lparr>answered_here := answered_here b - {c}\<rparr>\<rparr>
                  else (let result = (case map_of (refused b) c of
                                        Some reason \<Rightarrow> ''refused: '' @ reason
                                      | None \<Rightarrow> (case p of None \<Rightarrow> ''expired'' | Some p \<Rightarrow> state_name (pstate p)))
                        in w\<lparr>w_bridge := b\<lparr>refused := AList.delete c (refused b)\<rparr>,
                             w_link := close_permit_task (e_keep e) task_id result (w_link w)\<rparr>))))"

definition close_resolved :: "phone_env \<Rightarrow> phone_world \<Rightarrow> phone_world" where
  "close_resolved e w = foldl (\<lambda>w ct. close_one e ct w) w (tasks (w_bridge w))"

definition phone_tick :: "phone_env \<Rightarrow> phone_world \<Rightarrow> phone_world" where
  "phone_tick e w = close_resolved e (poll_open e (post_new e w))"

text \<open>\<open>run\<close>: the loop until it is stopped after \<open>n\<close> polls\<close>

primrec phone_run :: "phone_env \<Rightarrow> nat \<Rightarrow> phone_world \<Rightarrow> phone_world" where
  "phone_run e 0 w = w"
| "phone_run e (Suc n) w = phone_run e n (phone_tick e w)"

definition init_world :: "store \<Rightarrow> link \<Rightarrow> phone_world" where
  "init_world s l = \<lparr>w_store = s, w_link = l, w_bridge = init_bridge, w_tick = 0, w_history = []\<rparr>"

section \<open>What the bridge does to the store\<close>

text \<open>The challenges with a phone task, and the tasks the bridge posted according to the history\<close>

definition phones :: "store \<Rightarrow> (string \<times> string) set" where
  "phones s = {(c, t). \<exists>p. find_permit s c = Some p \<and> pphone p = Some t}"

definition posted :: "(actor \<times> op) list \<Rightarrow> (string \<times> string) set" where
  "posted h = {(pchallenge q, t) | q t. (Bridge None, Op_PhoneTask q t) \<in> set h}"

definition vetted :: "phone_env \<Rightarrow> (actor \<times> op) list \<Rightarrow> string \<Rightarrow> pydict \<Rightarrow> bool" where
  "vetted e h c task \<longleftrightarrow> answer_from_task (e_float e) task = Some ''approve'' \<and>
     approval_refusal (e_float e) (get_val task ''created_by'') (get_val task ''completed_by'') (e_approvers e) = None \<and>
     (\<exists>t. (c, t) \<in> posted h \<and> get_val task ''id'' = PyStr t)"

fun allowed :: "phone_env \<Rightarrow> (actor \<times> op) list \<Rightarrow> actor \<times> op \<Rightarrow> bool" where
  "allowed e h (Elsewhere, x) = (\<forall>q t. x \<noteq> Op_PhoneTask q t)"
| "allowed e h (Bridge None, x) = ((\<exists>n. x = Op_Pending n) \<or> (\<exists>n c. x = Op_Get n c) \<or> (\<exists>q t. x = Op_PhoneTask q t))"
| "allowed e h (Bridge (Some task), x) =
     ((\<exists>n c via. x = Op_Decide n c ''deny'' via) \<or> (\<exists>n c. x = Op_Decide n c ''approve'' ''phone'' \<and> vetted e h c task))"

definition good :: "phone_env \<Rightarrow> store \<Rightarrow> phone_world \<Rightarrow> bool" where
  "good e s0 w \<longleftrightarrow> wf_store (w_store w) \<and> w_store w = run_ops apply_op (map snd (w_history w)) s0 \<and>
     phones (w_store w) \<subseteq> posted (w_history w) \<and>
     (\<forall>y \<in> set (w_history w). allowed e (w_history w) y)"

definition leads :: "phone_env \<Rightarrow> store \<Rightarrow> phone_world \<Rightarrow> phone_world \<Rightarrow> bool" where
  "leads e s0 w w' \<longleftrightarrow> (good e s0 w \<longrightarrow> good e s0 w') \<and> posted (w_history w) \<subseteq> posted (w_history w')"

definition only_bridge_posts :: "phone_env \<Rightarrow> bool" where
  "only_bridge_posts e \<longleftrightarrow> (\<forall>n q t. Op_PhoneTask q t \<notin> set (e_others e n))"

lemma leads_refl [simp, intro]: "leads e s0 w w"
  by (simp add: leads_def)

lemma leads_trans [trans]: "leads e s0 w w' \<Longrightarrow> leads e s0 w' w'' \<Longrightarrow> leads e s0 w w''"
  by (auto simp: leads_def)

lemma phones_evolve:
  assumes "wf_store s" and "(c, t) \<in> phones (apply_op x s)"
  shows "(c, t) \<in> phones s \<or> (\<exists>q. x = Op_PhoneTask q t \<and> pchallenge q = c)"
proof -
  have sw: "\<exists>p. find_permit s c = Some p \<and> pphone p = Some t"
    if "wf_store s" "find_permit (sweep n s) c = Some q" "pphone q = Some t" for n q s
    using find_sweepD [OF that(1,2)] that(3) by (auto simp: expire_def split: if_splits)
  have sw2: "\<exists>p. find_permit s c = Some p \<and> pphone p = Some t"
    if "find_permit (sweep n (sweep m s)) c = Some q" "pphone q = Some t" for n m q
    using sw [OF wf_sweep [OF assms(1)] that] sw [OF assms(1)] by blast
  from assms(2) obtain q where q: "find_permit (apply_op x s) c = Some q" "pphone q = Some t"
    by (auto simp: phones_def)
  show ?thesis
  proof (cases x)
    case (Op_Request n1 n2 c' ti cls task step)
    with q find_request [OF assms(1)] sw [OF assms(1)] show ?thesis
      by (auto simp: phones_def new_permit_def simp del: apply_op.simps split: if_splits)
  next
    case (Op_Decide n c' w via)
    with q sw [OF assms(1)] show ?thesis
      by (auto simp: phones_def decide_apply decide_locked_find simp del: apply_op.simps split: option.splits if_splits)
  next
    case (Op_DecideOldest n1 n2 w via)
    with q sw [OF assms(1)] sw2 show ?thesis
      by (auto simp: phones_def decide_oldest_apply decide_locked_find simp del: apply_op.simps
          split: option.splits if_splits list.splits)
  next
    case (Op_Consume n c')
    with q sw [OF assms(1)] show ?thesis
      by (auto simp: phones_def find_consume simp del: apply_op.simps split: option.splits if_splits)
  next
    case (Op_PhoneTask r u)
    with q show ?thesis by (auto simp: phones_def find_phone_task split: if_splits)
  qed (use q sw [OF assms(1)] in \<open>auto simp: phones_def get_def pending_def pending_locked_def Let_def\<close>)
qed

lemma posted_mono: "posted h \<subseteq> posted (h @ h')"
  by (auto simp: posted_def)

lemma vetted_mono: "vetted e h c task \<Longrightarrow> vetted e (h @ h') c task"
  using posted_mono by (fastforce simp: vetted_def)

lemma allowed_mono: "allowed e h y \<Longrightarrow> allowed e (h @ h') y"
  by (induction e h y rule: allowed.induct) (auto intro: vetted_mono)

lemma allowed_phone_task:
  "allowed e h (a, Op_PhoneTask q t) \<Longrightarrow> (pchallenge q, t) \<in> posted (h @ [(a, Op_PhoneTask q t)])"
  by (cases "(e, h, a, Op_PhoneTask q t)" rule: allowed.cases) (auto simp: posted_def)

lemma do_one_phones:
  assumes "good e s0 w" and "allowed e (w_history w) (a, x)"
  shows "phones (apply_op x (w_store w)) \<subseteq> posted (w_history w @ [(a, x)])"
proof
  fix ct assume in': "ct \<in> phones (apply_op x (w_store w))"
  obtain c t where ct: "ct = (c, t)" by (cases ct)
  from in' consider "(c, t) \<in> phones (w_store w)" | q where "x = Op_PhoneTask q t" "pchallenge q = c"
    using phones_evolve [of "w_store w" c t x] assms(1) unfolding ct good_def by blast
  then show "ct \<in> posted (w_history w @ [(a, x)])"
  proof cases
    case 1
    with assms(1) posted_mono show ?thesis unfolding ct good_def by blast
  next
    case 2
    with assms(2) allowed_phone_task show ?thesis unfolding ct by blast
  qed
qed

lemma do_one_good:
  assumes "good e s0 w" and "allowed e (w_history w) (a, x)"
  shows "good e s0 (do_ops [(a, x)] w)"
proof -
  have "\<forall>y \<in> set (w_history w @ [(a, x)]). allowed e (w_history w @ [(a, x)]) y"
  proof
    fix y assume "y \<in> set (w_history w @ [(a, x)])"
    then have "allowed e (w_history w) y" using assms by (auto simp: good_def)
    then show "allowed e (w_history w @ [(a, x)]) y" by (rule allowed_mono)
  qed
  moreover have "wf_store (apply_op x (w_store w))" using assms(1) wf_apply_op unfolding good_def by blast
  ultimately show ?thesis
    using do_one_phones [OF assms] assms(1) by (simp add: good_def do_ops_def run_ops_append)
qed

lemma do_one_leads: "(good e s0 w \<Longrightarrow> allowed e (w_history w) (a, x)) \<Longrightarrow> leads e s0 w (do_ops [(a, x)] w)"
  using do_one_good [of e s0 w a x] posted_mono by (auto simp: leads_def do_ops_def)

lemma do_ops_Cons: "do_ops (y # ys) w = do_ops ys (do_ops [y] w)"
  by (simp add: do_ops_def)

lemma others_lead: "\<forall>x \<in> set xs. \<forall>q t. x \<noteq> Op_PhoneTask q t \<Longrightarrow> leads e s0 w (do_ops (map (Pair Elsewhere) xs) w)"
proof (induction xs arbitrary: w)
  case Nil
  show ?case by (simp add: do_ops_def)
next
  case (Cons x xs)
  have "leads e s0 w (do_ops [(Elsewhere, x)] w)"
    using Cons.prems by (intro do_one_leads) simp
  also have "leads e s0 (do_ops [(Elsewhere, x)] w) (do_ops (map (Pair Elsewhere) xs) (do_ops [(Elsewhere, x)] w))"
    using Cons by simp
  finally show ?case by (subst list.map, subst do_ops_Cons)
qed

lemma leads_fields [simp]:
  "leads e s0 w (w'\<lparr>w_bridge := b\<rparr>) = leads e s0 w w'" "leads e s0 w (w'\<lparr>w_link := l\<rparr>) = leads e s0 w w'"
  "leads e s0 w (w'\<lparr>w_tick := n\<rparr>) = leads e s0 w w'"
  by (simp_all add: leads_def good_def)

section \<open>Every step of a poll keeps it\<close>

definition known :: "permit \<Rightarrow> phone_world \<Rightarrow> bool" where
  "known p w \<longleftrightarrow> (has_phone_task p \<longrightarrow> (pchallenge p, the (pphone p)) \<in> posted (w_history w))"

lemma known_leads: "known p w \<Longrightarrow> leads e s0 w w' \<Longrightarrow> known p w'"
  by (auto simp: known_def leads_def)

lemma visit_leads: "only_bridge_posts e \<Longrightarrow> leads e s0 w (visit e w)"
  unfolding visit_def leads_fields by (rule others_lead) (auto simp: only_bridge_posts_def)

lemma bridge_op_leads: "allowed e (w_history w) (Bridge why, x) \<Longrightarrow> leads e s0 w (bridge_op why x w)"
  unfolding bridge_op_def by (rule do_one_leads)

lemma with_link_leads: "leads e s0 w (snd (with_link f w))"
  by (simp add: with_link_def case_prod_beta)

lemma with_link_history [simp]: "w_history (snd (with_link f w)) = w_history w"
  by (simp add: with_link_def case_prod_beta)

lemma store_pending_leads:
  assumes "only_bridge_posts e"
  shows "leads e s0 w (snd (store_pending e w))"
  using leads_trans [OF visit_leads [OF assms] bridge_op_leads]
  by (simp add: store_pending_def Let_def)

lemma store_get_leads:
  assumes "only_bridge_posts e"
  shows "leads e s0 w (snd (store_get e c w))"
  using leads_trans [OF visit_leads [OF assms] bridge_op_leads]
  by (simp add: store_get_def Let_def)

lemma pending_known:
  assumes "good e s0 w" and "only_bridge_posts e" and "p \<in> set (fst (store_pending e w))"
  shows "known p (snd (store_pending e w))"
proof -
  let ?w = "snd (store_pending e w)"
  have ok: "good e s0 ?w" using assms(1) store_pending_leads [OF assms(2), of s0 w] by (simp add: leads_def)
  have "\<exists>c. (c, p) \<in> set (permits (w_store ?w))"
    using assms(3) by (auto simp: store_pending_def Let_def pending_def pending_locked_def bridge_op_def do_ops_def
        pending_list_def fire_change_def)
  then have "find_permit (w_store ?w) (pchallenge p) = Some p"
    using ok unfolding good_def wf_store_def find_permit_def by fastforce
  then have "pphone p = Some t \<Longrightarrow> (pchallenge p, t) \<in> posted (w_history ?w)" for t
    using ok by (auto simp: good_def phones_def)
  then show ?thesis by (auto simp: known_def has_phone_task_def split: option.splits)
qed

lemma fold_leads:
  assumes "\<And>p w. p \<in> set ps \<Longrightarrow> known p w \<Longrightarrow> leads e s0 w (f w p)" and "\<forall>p \<in> set ps. known p w"
  shows "leads e s0 w (foldl f w ps)"
  using assms
proof (induction ps arbitrary: w)
  case (Cons p ps)
  have first: "leads e s0 w (f w p)" using Cons.prems by simp
  also have "leads e s0 (f w p) (foldl f (f w p) ps)"
    using Cons.prems known_leads [OF _ first] by (intro Cons.IH) auto
  finally show ?case by simp
qed simp

lemma store_decide_leads:
  assumes "only_bridge_posts e" and "word = ''deny'' \<or> word = ''approve'' \<and> via = ''phone'' \<and> vetted e (w_history w) c task"
  shows "leads e s0 w (snd (store_decide e task c word via w))"
proof -
  have "word = ''approve'' \<Longrightarrow> vetted e (w_history (visit e w)) c task"
    using assms(2) by (auto simp: visit_def do_ops_def intro: vetted_mono)
  with assms(2) have "allowed e (w_history (visit e w)) (Bridge (Some task), Op_Decide n c word via)" for n
    by auto
  with leads_trans [OF visit_leads [OF assms(1)] bridge_op_leads] show ?thesis
    by (simp add: store_decide_def Let_def del: allowed.simps)
qed

lemma answer_one_leads:
  assumes "only_bridge_posts e" and "answer = ''deny'' \<or> answer = ''approve'' \<and> vetted e (w_history w) c task"
  shows "leads e s0 w (answer_one e c task answer w)"
  using store_decide_leads [OF assms(1), of answer "''phone''" w c task s0] assms(2)
  by (auto simp: answer_one_def split: prod.split option.split)

lemma refuse_leads: "only_bridge_posts e \<Longrightarrow> leads e s0 w (refuse e task c reason w)"
  using store_decide_leads [of e "''deny''" "''phone-refused''" w c task s0]
  by (auto simp: refuse_def split: prod.split option.split)

lemma post_one_leads:
  assumes "only_bridge_posts e"
  shows "leads e s0 w (post_one e p w)"
proof (cases "has_phone_task p")
  case False
  obtain a v where r: "with_link (post_permit_task (e_float e) (e_keep e) (pchallenge p) (ptitle p) (pclasses p)
    (ptask p) (pstep p) (expires_at_iso e p (visit e w))) (visit e w) = (a, v)" (is "?r = _") by (cases ?r)
  have v: "leads e s0 w v"
    using leads_trans [OF visit_leads [OF assms] with_link_leads] r by (metis snd_conv)
  have "leads e s0 v (bridge_op None (Op_PhoneTask p i) (visit e v))" for i
    using leads_trans [OF visit_leads [OF assms] bridge_op_leads] by simp
  then have "leads e s0 w (bridge_op None (Op_PhoneTask p i) (visit e v))" for i
    by (rule leads_trans [OF v])
  with r v False show ?thesis
    by (simp add: post_one_def Let_def split: option.split)
qed (simp add: post_one_def)

lemma poll_one_leads:
  assumes "only_bridge_posts e" and "known p w"
  shows "leads e s0 w (poll_one e p w)"
proof (cases "has_phone_task p")
  case True
  let ?r = "with_link (permit_task (e_keep e) (pchallenge p) (the (pphone p))) w"
  obtain a v where r: "?r = (a, v)" by (cases ?r)
  with with_link_leads [of e s0 w] have v: "leads e s0 w v" by (metis snd_conv)
  have id: "(pchallenge p, the (pphone p)) \<in> posted (w_history v)"
    using known_leads [OF assms(2) v] True by (simp add: known_def)
  show ?thesis
  proof (cases a)
    case None
    with True r v show ?thesis by (simp add: poll_one_def)
  next
    case (Some task)
    have deny: "leads e s0 w (answer_one e (pchallenge p) task ''deny'' v)"
      using leads_trans [OF v answer_one_leads [OF assms(1)]] by simp
    have ref: "leads e s0 w (refuse e task (pchallenge p) reason v)" for reason
      using leads_trans [OF v refuse_leads [OF assms(1)]] .
    have app: "leads e s0 w (answer_one e (pchallenge p) task ''approve'' v)"
      if "get_val task ''id'' = PyStr (the (pphone p))" "answer_from_task (e_float e) task = Some ''approve''"
        "approval_refusal (e_float e) (get_val task ''created_by'') (get_val task ''completed_by'') (e_approvers e) = None"
    proof -
      have "vetted e (w_history v) (pchallenge p) task" using that id unfolding vetted_def by blast
      then show ?thesis using leads_trans [OF v answer_one_leads [OF assms(1)]] by simp
    qed
    show ?thesis
      using True r Some v deny ref app by (simp add: poll_one_def Let_def split: option.split)
  qed
qed (simp add: poll_one_def)

lemma close_one_leads:
  assumes "only_bridge_posts e"
  shows "leads e s0 w (close_one e ct w)"
  using store_get_leads [OF assms, of s0 w "fst ct"]
  by (auto simp: close_one_def Let_def case_prod_beta)

lemma close_resolved_leads:
  assumes "only_bridge_posts e"
  shows "leads e s0 w (close_resolved e w)"
proof -
  have "leads e s0 w (foldl (\<lambda>w ct. close_one e ct w) w cts)" for cts
  proof (induction cts rule: rev_induct)
    case (snoc ct cts)
    then show ?case using leads_trans [OF _ close_one_leads [OF assms]] by simp
  qed simp
  then show ?thesis by (simp add: close_resolved_def)
qed

lemma pass_good:
  assumes "only_bridge_posts e" and "good e s0 w"
    and "\<And>p w. known p w \<Longrightarrow> leads e s0 w (f w p)"
  shows "good e s0 (case store_pending e w of (ps, w) \<Rightarrow> foldl f w ps)"
proof -
  obtain ps v where ps: "store_pending e w = (ps, v)" by (cases "store_pending e w")
  have "good e s0 v" using assms(2) store_pending_leads [OF assms(1), of s0 w] ps by (simp add: leads_def)
  moreover have "\<forall>p \<in> set ps. known p v" using pending_known [OF assms(2,1)] ps by simp
  then have "leads e s0 v (foldl f v ps)" by (intro fold_leads assms(3))
  ultimately show ?thesis using ps by (simp add: leads_def)
qed

lemma tick_good:
  assumes "only_bridge_posts e" and "good e s0 w"
  shows "good e s0 (phone_tick e w)"
proof -
  have "good e s0 (post_new e w)"
    unfolding post_new_def using assms by (rule pass_good) (rule post_one_leads [OF assms(1)])
  then have "good e s0 (poll_open e (post_new e w))"
    unfolding poll_open_def by (rule pass_good [OF assms(1)]) (rule poll_one_leads [OF assms(1)])
  with close_resolved_leads [OF assms(1)] show ?thesis by (simp add: phone_tick_def leads_def)
qed

lemma run_good: "only_bridge_posts e \<Longrightarrow> good e s0 w \<Longrightarrow> good e s0 (phone_run e n w)"
  by (induction n arbitrary: w) (simp_all add: tick_good)

lemma init_good: "good e (init_store t b) (init_world (init_store t b) l)"
  by (auto simp: good_def init_world_def phones_def find_permit_def init_store_def wf_store_def)

section \<open>Properties of the bridge\<close>

lemma approval_refusal_None:
  assumes "approval_refusal fl a b approvers = None"
  obtains created completed where "a = PyDict created" "b = PyDict completed"
    "get_val created ''authenticated'' = PyBool True" "get_val completed ''authenticated'' = PyBool True"
    "credential_of fl completed \<noteq> []" "credential_of fl created \<noteq> []"
    "credential_of fl completed \<noteq> credential_of fl created"
    "py_eq (get_val completed ''workspace_id'') (get_val created ''workspace_id'')"
    "approvers \<noteq> [] \<longrightarrow> credential_of fl completed \<in> set approvers"
  using assms that by (cases a; cases b) (auto simp: approval_refusal_def Let_def split: if_splits)

text \<open>
  C30. No agent approves its own step through the phone. Take any run of the bridge, with the other
  threads of the broker and the answers of the Keep arbitrary, and any decision of the bridge in it
  that approves a permit: it rests on a task with the id the bridge itself posted for that permit, whose
  answer is approve, whose posting and answering principals are both authenticated, in one workspace
  and under different non-empty credentials, the answering one on the configured list if there is one.
\<close>

theorem phone_approval_needs_another_credential:
  assumes "only_bridge_posts e"
    and "w_history (phone_run e n (init_world (init_store t b) l)) = h @ (Bridge why, x) # h'"
    and "approves c x (store_after t b (map snd h))"
  shows "\<exists>task created completed i.
    why = Some task \<and> (c, i) \<in> posted (h @ (Bridge why, x) # h') \<and> get_val task ''id'' = PyStr i \<and>
    answer_from_task (e_float e) task = Some ''approve'' \<and>
    get_val task ''created_by'' = PyDict created \<and> get_val task ''completed_by'' = PyDict completed \<and>
    get_val created ''authenticated'' = PyBool True \<and> get_val completed ''authenticated'' = PyBool True \<and>
    py_eq (get_val completed ''workspace_id'') (get_val created ''workspace_id'') \<and>
    credential_of (e_float e) completed \<noteq> [] \<and>
    credential_of (e_float e) completed \<noteq> credential_of (e_float e) created \<and>
    (e_approvers e = [] \<or> credential_of (e_float e) completed \<in> set (e_approvers e))"
proof -
  let ?h = "h @ (Bridge why, x) # h'"
  have "good e (init_store t b) (phone_run e n (init_world (init_store t b) l))"
    using assms(1) init_good by (rule run_good)
  then have "allowed e ?h (Bridge why, x)" by (simp add: good_def assms(2))
  then obtain task m d where "why = Some task" "x = Op_Decide m d ''approve'' ''phone''" "vetted e ?h d task"
    using assms(3) by (cases "(e, ?h, Bridge why, x)" rule: allowed.cases)
      (auto simp: approved_by_def decide_result decision_of_def decide_locked_result split: option.splits if_splits)
  moreover from this have "d = c"
    using assms(3) find_challenge [OF wf_sweep [OF wf_store_after]]
    by (fastforce simp: approved_by_def decide_result decision_of_def decide_locked_result split: option.splits if_splits)
  ultimately show ?thesis
    unfolding vetted_def by (elim conjE exE approval_refusal_None) blast
qed

definition example_task :: pydict where
  "example_task = [(''id'', PyStr ''t9''), (''status'', PyStr ''completed''), (''result'', PyStr ''Approve''),
     (''created_by'', PyDict [(''authenticated'', PyBool True), (''credential_id'', PyStr ''kit'')]),
     (''completed_by'', PyDict [(''authenticated'', PyBool True), (''credential_id'', PyStr ''dash'')])]"

definition example_relay :: keep where
  "example_relay cs c =
     (if tool c = ''relay_task_post'' then Answer (PyDict [(''task'', PyDict example_task)])
      else if tool c = ''relay_task_list'' then Answer (PyDict [(''tasks'', PyList [PyDict example_task])])
      else Raises ''down'')"

definition example_env :: phone_env where
  "example_env = \<lparr>e_others = (\<lambda>n. if n = 0 then [Op_Request 0 0 ''c1'' ''Send'' [''send''] ''k1'' 1] else []),
     e_clock = (\<lambda>n. 1), e_wall = (\<lambda>n. 0), e_keep = example_relay, e_float = example_float, e_approvers = []\<rparr>"

definition example_world :: phone_world where
  "example_world = init_world (init_store 60 True) (new_link ''a'' ''m'' None False False [])"

definition example_start :: "(actor \<times> op) list" where
  "example_start =
     [(Elsewhere, Op_Request 0 0 ''c1'' ''Send'' [''send''] ''k1'' 1), (Bridge None, Op_Pending 1),
      (Bridge None, Op_PhoneTask (new_permit ''c1'' ''Send'' [''send''] ''k1'' 1 0 60) ''t9''),
      (Bridge None, Op_Pending 1)]"

theorem phone_approval_needs_another_credential_witness:
  "\<exists>created completed. get_val example_task ''created_by'' = PyDict created \<and>
     get_val example_task ''completed_by'' = PyDict completed \<and>
     credential_of example_float completed \<noteq> credential_of example_float created"
proof -
  have "w_history (phone_run example_env 1 example_world) = example_start @
      (Bridge (Some example_task), Op_Decide 1 ''c1'' ''approve'' ''phone'') # [(Bridge None, Op_Get 1 ''c1'')]"
    by code_simp
  moreover have "approves ''c1'' (Op_Decide 1 ''c1'' ''approve'' ''phone'')
      (store_after 60 True (map snd example_start))"
    by code_simp
  moreover have "only_bridge_posts example_env"
    by (simp add: only_bridge_posts_def example_env_def)
  ultimately show ?thesis
    using phone_approval_needs_another_credential [of example_env 1 60 True
        "new_link ''a'' ''m'' None False False []" example_start "Some example_task"
        "Op_Decide 1 ''c1'' ''approve'' ''phone''" "[(Bridge None, Op_Get 1 ''c1'')]" "''c1''"]
    by (auto simp: example_world_def example_env_def)
qed

text \<open>
  Refusing is never gated: when the task the bridge posted for a permit reads as denied, whoever
  answered it and whatever the stamps say, the poll decides deny on that permit's challenge, and the
  permit, if it is still waiting then, is denied.
\<close>

theorem phone_denial_is_never_gated:
  assumes "has_phone_task p"
    and "with_link (permit_task (e_keep e) (pchallenge p) (the (pphone p))) w = (Some task, v)"
    and "get_val task ''id'' = PyStr (the (pphone p))"
    and "answer_from_task (e_float e) task = Some ''deny''"
  shows "w_store (poll_one e p w) =
      apply_op (Op_Decide (now_at e (visit e v)) (pchallenge p) ''deny'' ''phone'') (w_store (visit e v)) \<and>
    (\<forall>q. wf_store (w_store v) \<and> find_permit (w_store (visit e v)) (pchallenge p) = Some q \<and>
       pstate q = Pending \<and> now_at e (visit e v) < pexpires q \<longrightarrow>
       find_permit (w_store (poll_one e p w)) (pchallenge p) = Some (q\<lparr>pstate := Denied, pvia := Some ''phone''\<rparr>))"
proof -
  let ?v = "visit e v"
  let ?n = "now_at e ?v"
  have store: "w_store (poll_one e p w) =
      apply_op (Op_Decide ?n (pchallenge p) ''deny'' ''phone'') (w_store ?v)"
    using assms by (simp add: poll_one_def answer_one_def store_decide_def bridge_op_def do_ops_def Let_def
        del: apply_op.simps split: prod.split option.split)
  moreover have "find_permit (apply_op (Op_Decide ?n (pchallenge p) ''deny'' ''phone'') (w_store ?v)) (pchallenge p) =
      Some (q\<lparr>pstate := Denied, pvia := Some ''phone''\<rparr>)"
    if "wf_store (w_store v)" "find_permit (w_store ?v) (pchallenge p) = Some q" "pstate q = Pending" "?n < pexpires q" for q
  proof -
    have "wf_store (run_ops apply_op xs s)" if "wf_store s" for xs s
      using that by (induction apply_op xs s rule: run_ops.induct) (simp_all add: wf_apply_op)
    then have "wf_store (w_store ?v)" using that(1) by (simp add: visit_def do_ops_def)
    then have "find_permit (sweep ?n (w_store ?v)) (pchallenge p) = Some q"
      using that by (intro sweep_keeps_live) simp_all
    with that(3) show ?thesis
      by (simp add: decide_apply decision_of_def decide_locked_find del: apply_op.simps)
  qed
  ultimately show ?thesis by auto
qed

definition denied_task :: pydict where
  "denied_task = [(''id'', PyStr ''t9''), (''status'', PyStr ''cancelled'')]"

definition waiting_world :: phone_world where
  "waiting_world = do_ops (take 3 example_start) example_world"

theorem phone_denial_is_never_gated_witness:
  "\<exists>e v. w_store (poll_one e (new_permit ''c1'' ''Send'' [''send''] ''k1'' 1 0 60\<lparr>pphone := Some ''t9''\<rparr>) waiting_world) =
     apply_op (Op_Decide (now_at e (visit e v)) ''c1'' ''deny'' ''phone'') (w_store (visit e v))"
proof -
  let ?e = "example_env\<lparr>e_keep := \<lambda>cs c. Answer (PyDict [(''tasks'', PyList [PyDict denied_task])])\<rparr>"
  let ?p = "new_permit ''c1'' ''Send'' [''send''] ''k1'' 1 0 60\<lparr>pphone := Some ''t9''\<rparr>"
  let ?r = "with_link (permit_task (e_keep ?e) (pchallenge ?p) (the (pphone ?p))) waiting_world"
  have "has_phone_task ?p" "get_val denied_task ''id'' = PyStr (the (pphone ?p))"
    "answer_from_task (e_float ?e) denied_task = Some ''deny''" "pchallenge ?p = ''c1''"
    by code_simp+
  moreover have "fst ?r = Some denied_task" by code_simp
  then have "?r = (Some denied_task, snd ?r)" by (simp add: prod_eq_iff)
  ultimately show ?thesis
    using phone_denial_is_never_gated [of ?p ?e waiting_world denied_task "snd ?r"] by metis
qed

end
