(* ===== verification/Py_Loads.thy ===== *)
theory Py_Loads
  imports Py_Json
begin

text \<open>
  \<open>json.loads\<close>, the reader of the documents \<open>json.dumps\<close> writes, with the grammar of CPython's
  decoder: its number token, its strict strings, and a repeated key keeping its last value. The
  float a decimal text denotes is a parameter \<open>fp\<close>, as its printing is the parameter \<open>fl\<close> of
  \<open>Py_Json\<close>. An escape of a code point above 255 lies outside the model's text and reads as an
  error. \<open>loads_dumps\<close>: what was written with the default separators reads back as it was.
\<close>

section \<open>Tokens\<close>

definition json_space :: "char \<Rightarrow> bool" where
  "json_space c \<longleftrightarrow> c = CHR '' '' \<or> c = CHR 0x0A \<or> c = CHR 0x0D \<or> c = CHR 0x09"

definition skip_ws :: "string \<Rightarrow> string" where
  "skip_ws s = dropWhile json_space s"

definition hex_value :: "char \<Rightarrow> nat option" where
  "hex_value c = (let n = code_of c in
     if 48 \<le> n \<and> n \<le> 57 then Some (n - 48) else if 97 \<le> n \<and> n \<le> 102 then Some (n - 87)
     else if 65 \<le> n \<and> n \<le> 70 then Some (n - 55) else None)"

definition unescape :: "char \<Rightarrow> char option" where
  "unescape c =
     (if c = CHR 0x22 \<or> c = CHR 0x5C \<or> c = CHR ''/'' then Some c
      else if c = CHR ''n'' then Some (CHR 0x0A) else if c = CHR ''r'' then Some (CHR 0x0D)
      else if c = CHR ''t'' then Some (CHR 0x09) else if c = CHR ''b'' then Some (CHR 0x08)
      else if c = CHR ''f'' then Some (CHR 0x0C) else None)"

definition hex4 :: "char \<Rightarrow> char \<Rightarrow> char \<Rightarrow> char \<Rightarrow> char option" where
  "hex4 a b c d = (case (hex_value a, hex_value b, hex_value c, hex_value d) of
     (Some i, Some j, Some k, Some l) \<Rightarrow> if i = 0 \<and> j = 0 then Some (char_of (16 * k + l)) else None
   | _ \<Rightarrow> None)"

definition onto :: "char \<Rightarrow> (string \<times> string) option \<Rightarrow> (string \<times> string) option" where
  "onto c = map_option (\<lambda>(s, rest). (c # s, rest))"

text \<open>the body of a text, after its opening quote\<close>

fun read_chars :: "string \<Rightarrow> (string \<times> string) option" where
  "read_chars [] = None"
| "read_chars (c # cs) =
     (if c = CHR 0x22 then Some ([], cs)
      else if c = CHR 0x5C then
        (case cs of [] \<Rightarrow> None
         | d # ds \<Rightarrow>
             if d = CHR ''u'' then
               (case ds of a # b # e # f # rest \<Rightarrow>
                  (case hex4 a b e f of None \<Rightarrow> None | Some h \<Rightarrow> onto h (read_chars rest))
                | _ \<Rightarrow> None)
             else (case unescape d of None \<Rightarrow> None | Some h \<Rightarrow> onto h (read_chars ds)))
      else if code_of c < 32 then None else onto c (read_chars cs))"

definition digits_value :: "string \<Rightarrow> nat" where
  "digits_value s = foldl (\<lambda>n c. 10 * n + (code_of c - 48)) 0 s"

definition int_of_text :: "string \<Rightarrow> int" where
  "int_of_text s = (case s of [] \<Rightarrow> 0
     | c # cs \<Rightarrow> if c = CHR ''-'' then - int (digits_value cs) else int (digits_value s))"

definition int_token :: "string \<Rightarrow> (string \<times> string) option" where
  "int_token s =
     (let sign = (if s \<noteq> [] \<and> hd s = CHR ''-'' then ''-'' else []);
          body = drop (length sign) s; ds = takeWhile is_digit body in
      if ds = [] then None
      else if hd ds = CHR ''0'' then Some (sign @ ''0'', tl body)
      else Some (sign @ ds, dropWhile is_digit body))"

definition frac_token :: "string \<Rightarrow> string \<times> string" where
  "frac_token s =
     (if s \<noteq> [] \<and> hd s = CHR ''.'' \<and> takeWhile is_digit (tl s) \<noteq> []
      then (CHR ''.'' # takeWhile is_digit (tl s), dropWhile is_digit (tl s)) else ([], s))"

definition exp_token :: "string \<Rightarrow> string \<times> string" where
  "exp_token s =
     (if s \<noteq> [] \<and> (hd s = CHR ''e'' \<or> hd s = CHR ''E'') then
        (let sign = (if tl s \<noteq> [] \<and> (hd (tl s) = CHR ''-'' \<or> hd (tl s) = CHR ''+'') then [hd (tl s)] else []);
             body = drop (length sign) (tl s) in
         if takeWhile is_digit body \<noteq> []
         then (hd s # sign @ takeWhile is_digit body, dropWhile is_digit body) else ([], s))
      else ([], s))"

definition read_number :: "(string \<Rightarrow> rat) \<Rightarrow> string \<Rightarrow> (pyval \<times> string) option" where
  "read_number fp s = (case int_token s of None \<Rightarrow> None
     | Some (i, r1) \<Rightarrow>
         (let (f, r2) = frac_token r1; (e, r3) = exp_token r2 in
          Some (if f = [] \<and> e = [] then PyInt (int_of_text i) else PyFloat (fp (i @ f @ e)), r3)))"

section \<open>Values\<close>

definition word :: "string \<Rightarrow> pyval \<Rightarrow> string \<Rightarrow> (pyval \<times> string) option" where
  "word w v s = (if starts_with s w then Some (v, drop (length w) s) else None)"

definition dict_of :: "(string \<times> pyval) list \<Rightarrow> pydict" where
  "dict_of kvs = foldl (\<lambda>d (k, v). AList.update k v d) [] kvs"

text \<open>The fuel bounds the nesting and the number of items read; the length of the text is enough.\<close>

fun read_value :: "(string \<Rightarrow> rat) \<Rightarrow> nat \<Rightarrow> string \<Rightarrow> (pyval \<times> string) option"
  and read_items :: "(string \<Rightarrow> rat) \<Rightarrow> nat \<Rightarrow> string \<Rightarrow> (pyval list \<times> string) option"
  and read_pairs :: "(string \<Rightarrow> rat) \<Rightarrow> nat \<Rightarrow> string \<Rightarrow> ((string \<times> pyval) list \<times> string) option" where
  "read_value fp 0 s = None"
| "read_value fp (Suc n) s =
     (if s = [] then None
      else if hd s = CHR 0x22 then map_option (\<lambda>(t, r). (PyStr t, r)) (read_chars (tl s))
      else if hd s = CHR ''['' then
        (let r = skip_ws (tl s) in
         if r \<noteq> [] \<and> hd r = CHR '']'' then Some (PyList [], tl r)
         else map_option (\<lambda>(vs, r). (PyList vs, r)) (read_items fp n r))
      else if hd s = CHR 0x7B then
        (let r = skip_ws (tl s) in
         if r \<noteq> [] \<and> hd r = CHR 0x7D then Some (PyDict [], tl r)
         else map_option (\<lambda>(kvs, r). (PyDict (dict_of kvs), r)) (read_pairs fp n r))
      else if hd s = CHR ''n'' then word ''null'' PyNone s
      else if hd s = CHR ''t'' then word ''true'' (PyBool True) s
      else if hd s = CHR ''f'' then word ''false'' (PyBool False) s
      else read_number fp s)"
| "read_items fp 0 s = None"
| "read_items fp (Suc n) s =
     (case read_value fp n s of None \<Rightarrow> None
      | Some (v, r) \<Rightarrow>
          (let r = skip_ws r in
           if r = [] then None
           else if hd r = CHR '','' then map_option (\<lambda>(vs, x). (v # vs, x)) (read_items fp n (skip_ws (tl r)))
           else if hd r = CHR '']'' then Some ([v], tl r) else None))"
| "read_pairs fp 0 s = None"
| "read_pairs fp (Suc n) s =
     (if s = [] \<or> hd s \<noteq> CHR 0x22 then None
      else (case read_chars (tl s) of None \<Rightarrow> None
        | Some (k, r) \<Rightarrow>
            (let r = skip_ws r in
             if r = [] \<or> hd r \<noteq> CHR '':'' then None
             else (case read_value fp n (skip_ws (tl r)) of None \<Rightarrow> None
               | Some (v, r) \<Rightarrow>
                   (let r = skip_ws r in
                    if r = [] then None
                    else if hd r = CHR '','' then
                      map_option (\<lambda>(kvs, x). ((k, v) # kvs, x)) (read_pairs fp n (skip_ws (tl r)))
                    else if hd r = CHR 0x7D then Some ([(k, v)], tl r) else None)))))"

text \<open>\<open>json.loads(s)\<close>; None is a \<open>JSONDecodeError\<close>\<close>

definition json_loads :: "(string \<Rightarrow> rat) \<Rightarrow> string \<Rightarrow> pyval option" where
  "json_loads fp s =
     (case read_value fp (Suc (length s)) (skip_ws s) of
        Some (v, r) \<Rightarrow> if skip_ws r = [] then Some v else None
      | None \<Rightarrow> None)"

section \<open>What was written reads back\<close>

text \<open>A Python dictionary holds a key once.\<close>

fun real_val :: "pyval \<Rightarrow> bool" where
  "real_val (PyList vs) \<longleftrightarrow> list_all real_val vs"
| "real_val (PyDict kvs) \<longleftrightarrow> distinct (map fst kvs) \<and> list_all (\<lambda>(k, v). real_val v) kvs"
| "real_val v \<longleftrightarrow> True"

text \<open>The printing of floats is the inverse of their reading, and a number token of the grammar.\<close>

definition float_codec :: "(rat \<Rightarrow> string) \<Rightarrow> (string \<Rightarrow> rat) \<Rightarrow> bool" where
  "float_codec fl fp \<longleftrightarrow>
     (\<forall>q x. (x = [] \<or> hd x \<in> {CHR '','', CHR '']'', CHR 0x7D}) \<longrightarrow> read_number fp (fl q @ x) = Some (PyFloat q, x)) \<and>
     (\<forall>q. fl q \<noteq> [] \<and> number_char (hd (fl q)))"

lemma hex_value_char: "k < 16 \<Longrightarrow> hex_value (hex_char k) = Some k"
  by (auto simp: hex_value_def hex_char_code Let_def)

lemma hex4_u_escape:
  "hex4 (CHR ''0'') (CHR ''0'') (hex_char (code_of c div 16)) (hex_char (code_of c mod 16)) = Some c"
proof -
  have "hex_value (CHR ''0'') = Some 0" by (simp add: hex_value_def code_of_def)
  moreover have "16 * (code_of c div 16) + code_of c mod 16 = code_of c" by simp
  moreover have "code_of c div 16 < 16" "code_of c mod 16 < 16" using code_of_less [of c] by auto
  ultimately show ?thesis
    by (simp add: hex4_def hex_value_char) (simp add: code_of_def)
qed

lemma unescape_short: "short_escape c = Some d \<Longrightarrow> unescape d = Some c \<and> d \<noteq> CHR ''u''"
  by (auto simp: short_escape_def unescape_def split: if_splits)

lemma read_esc: "read_chars (esc c @ x) = onto c (read_chars x)"
proof (cases "short_escape c")
  case None
  then have "c \<noteq> CHR 0x22" "c \<noteq> CHR 0x5C" by (auto simp: short_escape_def)
  with None show ?thesis
    by (simp add: esc_def u_escape_def hex4_u_escape)
next
  case (Some d)
  with unescape_short [OF Some] show ?thesis by (simp add: esc_def)
qed

lemma read_body: "read_chars (concat (map esc s) @ CHR 0x22 # x) = Some (s, x)"
  by (induction s) (simp_all add: read_esc onto_def)

lemma read_quote: "read_chars (tl (quote s @ x)) = Some (s, x)" "hd (quote s @ x) = CHR 0x22" "quote s \<noteq> []"
  by (simp_all add: quote_def read_body)

lemma digits_value_snoc: "digits_value (s @ [c]) = 10 * digits_value s + (code_of c - 48)"
  by (simp add: digits_value_def)

lemma digits_value_str [simp]: "digits_value (str_of_nat n) = n"
proof (induction n rule: str_of_nat.induct)
  case (1 n)
  have digit: "code_of (digit_char k) - 48 = k" if "k < 10" for k
    using that by (simp add: digit_char_def code_of_def)
  have one: "digits_value [c] = code_of c - 48" for c by (simp add: digits_value_def)
  show ?case
  proof (cases "n < 10")
    case True
    then have "str_of_nat n = [digit_char n]" by (subst str_of_nat.simps) simp
    then show ?thesis by (simp only: one digit [OF True])
  next
    case False
    then have "str_of_nat n = str_of_nat (n div 10) @ [digit_char (n mod 10)]"
      by (subst str_of_nat.simps) simp
    with 1 [OF False] show ?thesis by (simp only: digits_value_snoc digit) simp
  qed
qed

lemma str_of_nat_zero: "hd (str_of_nat n) = CHR ''0'' \<Longrightarrow> str_of_nat n = ''0''"
proof (induction n rule: str_of_nat.induct)
  case (1 n)
  have ne: "str_of_nat k \<noteq> []" for k by (rule str_of_nat_number)
  show ?case
  proof (cases "n < 10")
    case True
    then have e: "str_of_nat n = [digit_char n]" by (subst str_of_nat.simps) simp
    with 1 show ?thesis by simp
  next
    case False
    then have e: "str_of_nat n = str_of_nat (n div 10) @ [digit_char (n mod 10)]"
      by (subst str_of_nat.simps) simp
    with "1.prems" ne have "hd (str_of_nat (n div 10)) = CHR ''0''" by simp
    with "1.IH" [OF False] have "str_of_nat (n div 10) = ''0''" by blast
    moreover have "digits_value ''0'' = 0" by (simp add: digits_value_def code_of_def)
    ultimately have "n div 10 = 0" by (metis digits_value_str)
    with False show ?thesis by simp
  qed
qed

definition stops :: "string \<Rightarrow> bool" where
  "stops x \<longleftrightarrow> x = [] \<or> hd x \<in> {CHR '','', CHR '']'', CHR 0x7D}"

lemma stops_tokens:
  assumes "stops x"
  shows "takeWhile is_digit x = []" "dropWhile is_digit x = x" "frac_token x = ([], x)" "exp_token x = ([], x)"
  using assms by (cases x; auto simp: stops_def is_digit_def code_of_def frac_token_def exp_token_def)+

lemma all_digits: "takeWhile is_digit (str_of_nat n) = str_of_nat n" "dropWhile is_digit (str_of_nat n) = []"
  using str_of_nat_digits [of _ n] by (simp_all add: takeWhile_eq_all_conv)

lemma int_token_nat:
  assumes "stops x"
  shows "int_token (str_of_nat n @ x) = Some (str_of_nat n, x)"
proof -
  have ne: "str_of_nat n \<noteq> []" by (rule str_of_nat_number)
  have nm: "hd (str_of_nat n) \<noteq> CHR ''-''"
    using str_of_nat_number(3) [of n] ne by (metis hd_in_set)
  have all: "\<forall>c\<in>set (str_of_nat n). is_digit c" using str_of_nat_digits by blast
  have tw: "takeWhile is_digit (str_of_nat n @ x) = str_of_nat n" "dropWhile is_digit (str_of_nat n @ x) = x"
    using all stops_tokens [OF assms] by (simp_all add: takeWhile_append2 dropWhile_append2)
  show ?thesis
    using ne nm tw str_of_nat_zero [of n] by (auto simp: int_token_def Let_def)
qed

text \<open>the same before a decimal point\<close>

lemma int_token_dot: "int_token (str_of_int i @ CHR ''.'' # x) = Some (str_of_int i, CHR ''.'' # x)"
proof -
  have ne: "str_of_nat m \<noteq> []" for m by (rule str_of_nat_number)
  have nm: "hd (str_of_nat m) \<noteq> CHR ''-''" for m
    using str_of_nat_number(3) [of m] ne by (metis hd_in_set)
  have dot: "\<not> is_digit (CHR ''.'')" by (simp add: is_digit_def code_of_def)
  have all: "\<forall>c\<in>set (str_of_nat m). is_digit c" for m using str_of_nat_digits by blast
  have tw: "takeWhile is_digit (str_of_nat m @ CHR ''.'' # x) = str_of_nat m"
    "dropWhile is_digit (str_of_nat m @ CHR ''.'' # x) = CHR ''.'' # x" for m
    using all dot by (simp_all add: takeWhile_append2 dropWhile_append2)
  show ?thesis
  proof (cases "i < 0")
    case True
    then show ?thesis
      using ne tw str_of_nat_zero [of "nat (- i)"] by (auto simp: int_token_def Let_def str_of_int_def)
  next
    case False
    then show ?thesis
      using ne nm tw str_of_nat_zero [of "nat i"] by (auto simp: int_token_def Let_def str_of_int_def)
  qed
qed

lemma int_token_int:
  assumes "stops x"
  shows "int_token (str_of_int i @ x) = Some (str_of_int i, x)"
proof (cases "i < 0")
  case True
  define m where "m = nat (- i)"
  have ne: "str_of_nat m \<noteq> []" by (rule str_of_nat_number)
  have all: "\<forall>c\<in>set (str_of_nat m). is_digit c" using str_of_nat_digits by blast
  have tw: "takeWhile is_digit (str_of_nat m @ x) = str_of_nat m" "dropWhile is_digit (str_of_nat m @ x) = x"
    using all stops_tokens [OF assms] by (simp_all add: takeWhile_append2 dropWhile_append2)
  have "str_of_int i = CHR ''-'' # str_of_nat m" using True by (simp add: str_of_int_def m_def)
  then show ?thesis
    using ne tw str_of_nat_zero [of m] by (auto simp: int_token_def Let_def)
qed (simp add: str_of_int_def int_token_nat [OF assms])

lemma int_of_str [simp]: "int_of_text (str_of_int i) = i"
proof -
  have "str_of_nat n \<noteq> []" "hd (str_of_nat n) \<noteq> CHR ''-''" for n
    using str_of_nat_number(2,3) [of n] by (auto dest: hd_in_set)
  moreover have "int_of_text s = int (digits_value s)" if "s \<noteq> []" "hd s \<noteq> CHR ''-''" for s
    using that by (cases s) (simp_all add: int_of_text_def)
  ultimately have "int_of_text (str_of_nat n) = int n" for n
    by (metis digits_value_str)
  then show ?thesis by (auto simp: str_of_int_def int_of_text_def)
qed

lemma read_int: "stops x \<Longrightarrow> read_number fp (str_of_int i @ x) = Some (PyInt i, x)"
  by (simp add: read_number_def int_token_int stops_tokens)

lemma first_char:
  assumes "float_codec fl fp"
  shows "enc_spaced fl v \<noteq> []" "\<not> json_space (hd (enc_spaced fl v))" "hd (enc_spaced fl v) \<notin> {CHR '','', CHR '']'', CHR 0x7D}"
proof -
  have num: "\<not> json_space c \<and> c \<notin> {CHR '','', CHR '']'', CHR 0x7D}" if "number_char c" for c
    using that by (auto simp: json_space_def number_char_def is_digit_def code_of_def)
  have int: "number_char (hd (str_of_int i))" "str_of_int i \<noteq> []" for i
    using str_of_int_number(1,2) [of i] by (auto simp: list_all_iff)
  have fl: "number_char (hd (fl q))" "fl q \<noteq> []" for q
    using assms by (auto simp: float_codec_def)
  show "enc_spaced fl v \<noteq> []" using int fl by (cases v) (auto simp: quote_def)
  show "\<not> json_space (hd (enc_spaced fl v))" using num int fl
    by (cases v) (auto simp: quote_def json_space_def)
  show "hd (enc_spaced fl v) \<notin> {CHR '','', CHR '']'', CHR 0x7D}" using num int fl
    by (cases v) (auto simp: quote_def)
qed

lemma skip_ws_stays: "s \<noteq> [] \<Longrightarrow> \<not> json_space (hd s) \<Longrightarrow> skip_ws (s @ x) = s @ x"
  by (cases s) (simp_all add: skip_ws_def)

lemma skip_ws_stops: "stops x \<Longrightarrow> skip_ws x = x"
  by (cases x) (auto simp: stops_def skip_ws_def json_space_def)

lemma skip_ws_space [simp]: "skip_ws (CHR '' '' # s) = skip_ws s"
  by (simp add: skip_ws_def json_space_def)

lemma number_hd: "number_char c \<Longrightarrow> c \<noteq> CHR 0x22 \<and> c \<noteq> CHR ''['' \<and> c \<noteq> CHR 0x7B \<and> c \<noteq> CHR ''n'' \<and> c \<noteq> CHR ''t'' \<and> c \<noteq> CHR ''f''"
  by (auto simp: number_char_def is_digit_def code_of_def)

lemma read_value_number:
  "s \<noteq> [] \<Longrightarrow> number_char (hd s) \<Longrightarrow> read_value fp (Suc n) (s @ x) = read_number fp (s @ x)"
  using number_hd [of "hd s"] by simp

lemma dict_of_distinct:
  assumes "distinct (map fst kvs)"
  shows "dict_of kvs = kvs"
proof -
  have "foldl (\<lambda>d (k, v). AList.update k v d) acc kvs = acc @ kvs"
    if "distinct (map fst kvs)" "fst ` set kvs \<inter> fst ` set acc = {}" for acc :: pydict
    using that
  proof (induction kvs arbitrary: acc)
    case (Cons kv kvs)
    have up: "AList.update k v acc = acc @ [(k, v)]" if "k \<notin> fst ` set acc" for k :: string and v
      using that by (induction acc) auto
    obtain k v where kv: "kv = (k, v)" by (cases kv)
    with Cons.prems have "k \<notin> fst ` set acc" by auto
    with Cons.prems kv show ?case
      using Cons.IH [of "acc @ [(k, v)]"] up by (auto simp: image_iff)
  qed simp
  from this [of "[]"] assms show ?thesis by (simp add: dict_of_def)
qed

declare read_value.simps [simp del] read_items.simps [simp del] read_pairs.simps [simp del]

lemma stops_sep [simp]: "stops (CHR '','' # s)" "stops (CHR '']'' # s)" "stops (CHR 0x7D # s)"
  by (simp_all add: stops_def)

abbreviation reads_back :: "(rat \<Rightarrow> string) \<Rightarrow> (string \<Rightarrow> rat) \<Rightarrow> pyval \<Rightarrow> bool" where
  "reads_back fl fp v \<equiv> (\<forall>n x. stops x \<longrightarrow> length (enc_spaced fl v) \<le> n \<longrightarrow>
     read_value fp n (enc_spaced fl v @ x) = Some (v, x))"

lemma read_items_join:
  assumes codec: "float_codec fl fp"
  shows "list_all (reads_back fl fp) vs \<Longrightarrow> vs \<noteq> [] \<Longrightarrow> length (py_join '', '' (map (enc_spaced fl) vs)) < n \<Longrightarrow>
    read_items fp n (py_join '', '' (map (enc_spaced fl) vs) @ CHR '']'' # x) = Some (vs, x)"
proof (induction vs arbitrary: n)
  case (Cons v vs)
  obtain m where n: "n = Suc m" using Cons.prems(3) by (cases n) auto
  show ?case
  proof (cases vs)
    case Nil
    with Cons.prems n show ?thesis
      by (simp add: read_items.simps skip_ws_stops)
  next
    case (Cons w ws)
    define rest where "rest = py_join '', '' (map (enc_spaced fl) vs)"
    have rest: "rest = enc_spaced fl w @ drop (length (enc_spaced fl w)) rest"
      using Cons by (cases ws) (simp_all add: rest_def)
    have skip: "skip_ws (rest @ y) = rest @ y" for y
      by (subst rest, subst (2) rest) (simp add: skip_ws_stays first_char [OF codec])
    have whole: "py_join '', '' (map (enc_spaced fl) (v # vs)) = enc_spaced fl v @ CHR '','' # CHR '' '' # rest"
      using Cons by (simp add: rest_def)
    have len: "length (enc_spaced fl v) \<le> m" "length rest < m" using Cons.prems(3) n whole by auto
    have "read_items fp m (rest @ CHR '']'' # x) = Some (vs, x)"
      using Cons.IH [of m] Cons.prems(1) Cons len(2) unfolding rest_def by simp
    with Cons.prems(1) len(1) n show ?thesis
      unfolding whole by (simp add: read_items.simps skip skip_ws_stops)
  qed
qed simp

lemma read_pairs_join:
  fixes fl fp defines "item \<equiv> \<lambda>(k, v). quote k @ '': '' @ enc_spaced fl v"
  assumes codec: "float_codec fl fp"
  shows "list_all (\<lambda>(k, v). reads_back fl fp v) kvs \<Longrightarrow> kvs \<noteq> [] \<Longrightarrow> length (py_join '', '' (map item kvs)) < n \<Longrightarrow>
    read_pairs fp n (py_join '', '' (map item kvs) @ CHR 0x7D # x) = Some (kvs, x)"
proof (induction kvs arbitrary: n)
  case (Cons kv kvs)
  obtain m where n: "n = Suc m" using Cons.prems(3) by (cases n) auto
  obtain k v where kv: "kv = (k, v)" by (cases kv)
  have skipv: "skip_ws (enc_spaced fl v @ y) = enc_spaced fl v @ y" for y
    by (simp add: skip_ws_stays first_char [OF codec])
  have colon: "skip_ws (CHR '':'' # s) = CHR '':'' # s" for s by (simp add: skip_ws_def json_space_def)
  have q: "read_chars (tl (quote k) @ y) = Some (k, y)" "hd (quote k) = CHR 0x22" "quote k \<noteq> []" for y
    by (simp_all add: quote_def read_body)
  show ?case
  proof (cases kvs)
    case Nil
    with Cons.prems n kv q show ?thesis
      by (simp add: read_pairs.simps skip_ws_stops item_def skipv colon)
  next
    case (Cons w ws)
    define rest where "rest = py_join '', '' (map item kvs)"
    have rest: "\<exists>r. rest = CHR 0x22 # r"
      using Cons by (cases ws) (auto simp: rest_def item_def quote_def split: prod.splits)
    then have skip: "skip_ws (rest @ y) = rest @ y" for y
      by (auto simp: skip_ws_def json_space_def)
    have whole: "py_join '', '' (map item (kv # kvs)) = quote k @ '': '' @ enc_spaced fl v @ CHR '','' # CHR '' '' # rest"
      using Cons kv by (simp add: rest_def item_def)
    have len: "length (enc_spaced fl v) \<le> m" "length rest < m" using Cons.prems(3) n whole by auto
    have "read_pairs fp m (rest @ CHR 0x7D # x) = Some (kvs, x)"
      using Cons.IH [of m] Cons.prems(1) Cons len(2) unfolding rest_def by simp
    with Cons.prems(1) kv len(1) n q show ?thesis
      unfolding whole by (simp add: read_pairs.simps skip skip_ws_stops skipv colon)
  qed
qed simp

lemma read_back:
  assumes codec: "float_codec fl fp"
  shows "real_val v \<Longrightarrow> reads_back fl fp v"
proof (induction v)
  case (PyBool b)
  then show ?case
    by (auto simp: read_value.simps word_def starts_with_def dest!: Suc_le_D)
next
  case PyNone
  then show ?case
    by (auto simp: read_value.simps word_def starts_with_def dest!: Suc_le_D)
next
  case (PyInt i)
  have "str_of_int i \<noteq> []" "number_char (hd (str_of_int i))"
    using str_of_int_number(1,2) [of i] by (auto simp: list_all_iff)
  then have "read_value fp n (str_of_int i @ x) = Some (PyInt i, x)"
    if "stops x" "length (str_of_int i) \<le> n" for n x
    using that by (cases n) (simp_all add: read_value_number read_int)
  then show ?case by simp
next
  case (PyFloat q)
  have "fl q \<noteq> []" "number_char (hd (fl q))" using codec by (auto simp: float_codec_def)
  moreover have "read_number fp (fl q @ x) = Some (PyFloat q, x)" if "stops x" for x
    using codec that by (auto simp: float_codec_def stops_def)
  ultimately have "read_value fp n (fl q @ x) = Some (PyFloat q, x)"
    if "stops x" "length (fl q) \<le> n" for n x
    using that by (cases n) (simp_all add: read_value_number)
  then show ?case by simp
next
  case (PyStr s)
  then show ?case
    by (auto simp: read_value.simps quote_def read_body dest!: Suc_le_D)
next
  case (PyList vs)
  have "read_value fp n (enc_spaced fl (PyList vs) @ x) = Some (PyList vs, x)"
    if n: "length (enc_spaced fl (PyList vs)) \<le> n" for n x
  proof -
    obtain m where m: "n = Suc m" using n by (cases n) auto
    show ?thesis
    proof (cases "vs = []")
      case True
      with m show ?thesis by (simp add: read_value.simps skip_ws_stops)
    next
      case False
      let ?j = "py_join '', '' (map (enc_spaced fl) vs)"
      obtain v ws where vs: "vs = v # ws" using False by (cases vs) auto
      have j: "?j = enc_spaced fl v @ drop (length (enc_spaced fl v)) ?j"
        using vs by (cases ws) simp_all
      note fc = first_char [OF codec, of v]
      have skip: "skip_ws (?j @ y) = ?j @ y" for y by (subst (1 2) j) (simp add: skip_ws_stays fc)
      have hd: "hd (?j @ y) \<noteq> CHR '']''" for y
        by (subst j) (use fc in \<open>cases "enc_spaced fl v"; simp\<close>)
      have "read_items fp m (?j @ CHR '']'' # x) = Some (vs, x)"
        using PyList False n m by (intro read_items_join [OF codec]) (auto simp: list_all_iff)
      with m skip hd show ?thesis by (simp add: read_value.simps)
    qed
  qed
  then show ?case by blast
next
  case (PyDict kvs)
  have "read_value fp n (enc_spaced fl (PyDict kvs) @ x) = Some (PyDict kvs, x)"
    if n: "length (enc_spaced fl (PyDict kvs)) \<le> n" for n x
  proof -
    obtain m where m: "n = Suc m" using n by (cases n) auto
    show ?thesis
    proof (cases "kvs = []")
      case True
      with m show ?thesis by (simp add: read_value.simps skip_ws_stops)
    next
      case False
      let ?j = "py_join '', '' (map (\<lambda>(k, v). quote k @ '': '' @ enc_spaced fl v) kvs)"
      have "\<exists>r. ?j = CHR 0x22 # r"
        using False by (cases kvs; cases "tl kvs") (auto simp: quote_def split: prod.splits)
      then obtain r where j: "?j = CHR 0x22 # r" ..
      have "read_pairs fp m (?j @ CHR 0x7D # x) = Some (kvs, x)"
      proof (rule read_pairs_join [OF codec])
        show "list_all (\<lambda>(k, v). reads_back fl fp v) kvs"
          using PyDict by (fastforce simp: list_all_iff)
        show "length ?j < m" using n m by simp
      qed (rule False)
      with m j PyDict.prems show ?thesis
        by (simp add: read_value.simps dict_of_distinct skip_ws_def json_space_def)
    qed
  qed
  then show ?case by blast
qed

theorem loads_dumps:
  assumes "float_codec fl fp" and "real_val v"
  shows "json_loads fp (enc_spaced fl v) = Some v"
proof -
  have "skip_ws (enc_spaced fl v @ []) = enc_spaced fl v @ []"
    by (rule skip_ws_stays) (use first_char [OF assms(1)] in auto)
  moreover have "read_value fp (Suc (length (enc_spaced fl v))) (enc_spaced fl v @ []) = Some (v, [])"
    using read_back [OF assms] by (simp only: stops_def) auto
  ultimately show ?thesis by (simp add: json_loads_def skip_ws_def)
qed

end
