(* ===== verification/Relay_Store.thy ===== *)
theory Relay_Store
  imports Py_Loads Gate_Interfaces
begin

text \<open>
  The Redis server Relay and the authentication store keep their state in, as the parameter of everything that follows: a record
  of what a client can do to it (\<open>server\<close>), with the documented effect of each command they send
  (\<open>doc\<close>) as the laws of the locale \<open>redis\<close>. An operation is a program of commands
  (\<open>prog\<close>): between two commands any other operation may run, a command may fail with or without
  having been executed, and time may pass (\<open>turn\<close>, \<open>advance\<close>). A Lua script and a transaction are
  one command of the server, whose own commands run without interruption (\<open>Eval\<close>).
\<close>

section \<open>Commands, replies and what a key holds\<close>

datatype rcmd =
    GET string
  | SET string string bool "int option" \<comment> \<open>key, value, NX, EX seconds\<close>
  | DEL string
  | EXISTS string
  | INCR string
  | EXPIRE string int
  | TTL string
  | RPUSH string string
  | LPUSH string string
  | LPOP string
  | LRANGE string int int
  | LTRIM string int int
  | LLEN string
  | HSET string "(string \<times> string) list"
  | HGET string string
  | HGETALL string
  | HVALS string
  | HSETNX string string string
  | HDEL string "string list"
  | ZADD string string rat
  | ZADDNX string string rat
  | ZSCORE string string
  | ZREM string "string list"
  | ZRANGE string int int
  | ZREVRANGE string int int
  | ZCARD string

datatype reply =
    RNil
  | RInt int
  | RText string
  | RScore rat
  | RTexts "string list"
  | RPairs "(string \<times> string) list"
  | RMulti "reply list"
  | RErr string

datatype robj =
    OStr string
  | OList "string list"
  | OHash "(string \<times> string) list"
  | OZset "(string \<times> rat) list"

text \<open>What each key holds and, for a key that expires, the milliseconds left\<close>

type_synonym keyspace = "string \<Rightarrow> (robj \<times> nat option) option"

section \<open>The documented effect of each command\<close>

definition list_at :: "(robj \<times> nat option) option \<Rightarrow> string list option" where
  "list_at e = (case e of None \<Rightarrow> Some [] | Some (OList xs, t) \<Rightarrow> Some xs | _ \<Rightarrow> None)"

definition hash_at :: "(robj \<times> nat option) option \<Rightarrow> (string \<times> string) list option" where
  "hash_at e = (case e of None \<Rightarrow> Some [] | Some (OHash h, t) \<Rightarrow> Some h | _ \<Rightarrow> None)"

definition zset_at :: "(robj \<times> nat option) option \<Rightarrow> (string \<times> rat) list option" where
  "zset_at e = (case e of None \<Rightarrow> Some [] | Some (OZset z, t) \<Rightarrow> Some z | _ \<Rightarrow> None)"

definition ttl_at :: "(robj \<times> nat option) option \<Rightarrow> nat option" where
  "ttl_at e = (case e of None \<Rightarrow> None | Some (ob, t) \<Rightarrow> t)"

definition wrongtype :: reply where
  "wrongtype = RErr ''WRONGTYPE Operation against a key holding the wrong kind of value''"

text \<open>An aggregate that becomes empty is removed with its key.\<close>

definition kept :: "robj \<Rightarrow> nat option \<Rightarrow> (robj \<times> nat option) option" where
  "kept ob t = (if ob = OList [] \<or> ob = OHash [] \<or> ob = OZset [] then None else Some (ob, t))"

text \<open>\<open>LRANGE\<close>, \<open>LTRIM\<close> and the ranges by rank: negative indices count from the end.\<close>

definition redis_slice :: "int \<Rightarrow> int \<Rightarrow> 'a list \<Rightarrow> 'a list" where
  "redis_slice i j xs =
     (let n = int (length xs); a = max 0 (if i < 0 then i + n else i); b = (if j < 0 then j + n else j)
      in take (nat (b - a + 1)) (drop (nat a) xs))"

text \<open>A sorted set, by score and then by member\<close>

fun zinsert :: "string \<Rightarrow> rat \<Rightarrow> (string \<times> rat) list \<Rightarrow> (string \<times> rat) list" where
  "zinsert m q [] = [(m, q)]"
| "zinsert m q ((n, r) # zs) = (if q < r \<or> q = r \<and> m < n then (m, q) # (n, r) # zs else (n, r) # zinsert m q zs)"

definition zadd :: "string \<Rightarrow> rat \<Rightarrow> (string \<times> rat) list \<Rightarrow> (string \<times> rat) list" where
  "zadd m q zs = zinsert m q (filter (\<lambda>z. fst z \<noteq> m) zs)"

definition hash_update :: "(string \<times> string) list \<Rightarrow> (string \<times> string) list \<Rightarrow> (string \<times> string) list" where
  "hash_update kvs h = fold (\<lambda>(k, v). AList.update k v) kvs h"

text \<open>A counter is a text that is the decimal of a 64-bit integer.\<close>

definition counter_of :: "string \<Rightarrow> int option" where
  "counter_of s = (let i = int_of_text s in
     if str_of_int i = s \<and> - (2 ^ 63) \<le> i \<and> i < 2 ^ 63 then Some i else None)"

fun doc :: "rcmd \<Rightarrow> keyspace \<Rightarrow> reply \<times> keyspace" where
  "doc (GET k) K = (case K k of None \<Rightarrow> (RNil, K) | Some (OStr v, t) \<Rightarrow> (RText v, K) | _ \<Rightarrow> (wrongtype, K))"
| "doc (SET k v nx ex) K =
     (if (case ex of Some n \<Rightarrow> n \<le> 0 | None \<Rightarrow> False) then (RErr ''ERR invalid expire time in 'set' command'', K)
      else if nx \<and> K k \<noteq> None then (RNil, K)
      else (RText ''OK'', K(k \<mapsto> (OStr v, map_option (\<lambda>n. nat (1000 * n)) ex))))"
| "doc (DEL k) K = (RInt (if K k = None then 0 else 1), K(k := None))"
| "doc (EXISTS k) K = (RInt (if K k = None then 0 else 1), K)"
| "doc (INCR k) K = (case K k of None \<Rightarrow> (RInt 1, K(k \<mapsto> (OStr (str_of_int 1), None)))
     | Some (OStr v, t) \<Rightarrow>
         (case counter_of v of None \<Rightarrow> (RErr ''ERR value is not an integer or out of range'', K)
          | Some i \<Rightarrow> if i = 2 ^ 63 - 1 then (RErr ''ERR increment or decrement would overflow'', K)
                    else (RInt (i + 1), K(k \<mapsto> (OStr (str_of_int (i + 1)), t))))
     | _ \<Rightarrow> (wrongtype, K))"
| "doc (EXPIRE k n) K = (case K k of None \<Rightarrow> (RInt 0, K)
     | Some (ob, t) \<Rightarrow> (RInt 1, if n \<le> 0 then K(k := None) else K(k \<mapsto> (ob, Some (nat (1000 * n))))))"
| "doc (TTL k) K = (case K k of None \<Rightarrow> (RInt (- 2), K) | Some (ob, None) \<Rightarrow> (RInt (- 1), K)
     | Some (ob, Some t) \<Rightarrow> (RInt (int ((t + 500) div 1000)), K))"
| "doc (RPUSH k v) K = (case list_at (K k) of None \<Rightarrow> (wrongtype, K)
     | Some xs \<Rightarrow> (RInt (int (length xs) + 1), K(k \<mapsto> (OList (xs @ [v]), ttl_at (K k)))))"
| "doc (LPUSH k v) K = (case list_at (K k) of None \<Rightarrow> (wrongtype, K)
     | Some xs \<Rightarrow> (RInt (int (length xs) + 1), K(k \<mapsto> (OList (v # xs), ttl_at (K k)))))"
| "doc (LPOP k) K = (case list_at (K k) of None \<Rightarrow> (wrongtype, K) | Some [] \<Rightarrow> (RNil, K)
     | Some (x # xs) \<Rightarrow> (RText x, K(k := kept (OList xs) (ttl_at (K k)))))"
| "doc (LRANGE k i j) K = (case list_at (K k) of None \<Rightarrow> (wrongtype, K)
     | Some xs \<Rightarrow> (RTexts (redis_slice i j xs), K))"
| "doc (LTRIM k i j) K = (case list_at (K k) of None \<Rightarrow> (wrongtype, K)
     | Some xs \<Rightarrow> (RText ''OK'', K(k := kept (OList (redis_slice i j xs)) (ttl_at (K k)))))"
| "doc (LLEN k) K = (case list_at (K k) of None \<Rightarrow> (wrongtype, K) | Some xs \<Rightarrow> (RInt (int (length xs)), K))"
| "doc (HSET k kvs) K = (if kvs = [] then (RErr ''ERR wrong number of arguments for 'hset' command'', K)
     else (case hash_at (K k) of None \<Rightarrow> (wrongtype, K)
     | Some h \<Rightarrow> (RInt (int (length (hash_update kvs h)) - int (length h)),
                  K(k \<mapsto> (OHash (hash_update kvs h), ttl_at (K k))))))"
| "doc (HSETNX k f v) K = (case hash_at (K k) of None \<Rightarrow> (wrongtype, K)
     | Some h \<Rightarrow> if map_of h f \<noteq> None then (RInt 0, K)
         else (RInt 1, K(k \<mapsto> (OHash (hash_update [(f, v)] h), ttl_at (K k)))))"
| "doc (HGET k f) K = (case hash_at (K k) of None \<Rightarrow> (wrongtype, K)
     | Some h \<Rightarrow> (case map_of h f of None \<Rightarrow> RNil | Some v \<Rightarrow> RText v, K))"
| "doc (HGETALL k) K = (case hash_at (K k) of None \<Rightarrow> (wrongtype, K) | Some h \<Rightarrow> (RPairs h, K))"
| "doc (HVALS k) K = (case hash_at (K k) of None \<Rightarrow> (wrongtype, K) | Some h \<Rightarrow> (RTexts (map snd h), K))"
| "doc (HDEL k fs) K = (case hash_at (K k) of None \<Rightarrow> (wrongtype, K)
     | Some h \<Rightarrow> (let h' = filter (\<lambda>kv. fst kv \<notin> set fs) h in
         (RInt (int (length h) - int (length h')), K(k := kept (OHash h') (ttl_at (K k))))))"
| "doc (ZADD k m q) K = (case zset_at (K k) of None \<Rightarrow> (wrongtype, K)
     | Some z \<Rightarrow> (RInt (int (length (zadd m q z)) - int (length z)), K(k \<mapsto> (OZset (zadd m q z), ttl_at (K k)))))"
| "doc (ZADDNX k m q) K = (case zset_at (K k) of None \<Rightarrow> (wrongtype, K)
     | Some z \<Rightarrow> if map_of z m \<noteq> None then (RInt 0, K)
         else (RInt 1, K(k \<mapsto> (OZset (zadd m q z), ttl_at (K k)))))"
| "doc (ZSCORE k m) K = (case zset_at (K k) of None \<Rightarrow> (wrongtype, K)
     | Some z \<Rightarrow> (case map_of z m of None \<Rightarrow> RNil | Some q \<Rightarrow> RScore q, K))"
| "doc (ZREM k ms) K = (case zset_at (K k) of None \<Rightarrow> (wrongtype, K)
     | Some z \<Rightarrow> (let z' = filter (\<lambda>x. fst x \<notin> set ms) z in
         (RInt (int (length z) - int (length z')), K(k := kept (OZset z') (ttl_at (K k))))))"
| "doc (ZRANGE k i j) K = (case zset_at (K k) of None \<Rightarrow> (wrongtype, K)
     | Some z \<Rightarrow> (RTexts (redis_slice i j (map fst z)), K))"
| "doc (ZREVRANGE k i j) K = (case zset_at (K k) of None \<Rightarrow> (wrongtype, K)
     | Some z \<Rightarrow> (RTexts (redis_slice i j (rev (map fst z))), K))"
| "doc (ZCARD k) K = (case zset_at (K k) of None \<Rightarrow> (wrongtype, K) | Some z \<Rightarrow> (RInt (int (length z)), K))"

text \<open>Time passes: a key whose time is up is gone.\<close>

definition elapsed :: "nat \<Rightarrow> keyspace \<Rightarrow> keyspace" where
  "elapsed n K = (\<lambda>k. case K k of Some (ob, Some t) \<Rightarrow> if n < t then Some (ob, Some (t - n)) else None | e \<Rightarrow> e)"

section \<open>Programs of commands\<close>

datatype ('c, 'a) prog = Ret 'a | Do 'c "reply \<Rightarrow> ('c, 'a) prog"

text \<open>
  \<open>Eval\<close> is a Lua script or a transaction; \<open>Effect\<close> is anything outside Redis a handler causes and
  does not wait on the content of: a message published, a Bridge write, a replay event.
\<close>

datatype op = Cmd rcmd | Eval "(rcmd, reply) prog" | Effect string pyval

primrec run_prog :: "('c \<Rightarrow> 's \<Rightarrow> reply \<times> 's) \<Rightarrow> ('c, 'a) prog \<Rightarrow> 's \<Rightarrow> 'a \<times> 's" where
  "run_prog ex (Ret a) s = (a, s)"
| "run_prog ex (Do c k) s = run_prog ex (k (fst (ex c s))) (snd (ex c s))"

primrec bindP :: "('c, 'a) prog \<Rightarrow> ('a \<Rightarrow> ('c, 'b) prog) \<Rightarrow> ('c, 'b) prog" where
  "bindP (Ret a) f = f a"
| "bindP (Do c k) f = Do c (\<lambda>r. bindP (k r) f)"

text \<open>A handler ends with a Python exception or its result.\<close>

type_synonym 'a handler = "(op, py_exc + 'a) prog"

abbreviation done_with_value :: "'a \<Rightarrow> 'a handler" where
  "done_with_value a \<equiv> Ret (Inr a)"

abbreviation raises :: "string \<Rightarrow> 'a handler" where
  "raises m \<equiv> Ret (Inl (OtherError m))"

definition ask_op :: "op \<Rightarrow> (reply \<Rightarrow> 'a handler) \<Rightarrow> 'a handler" where
  "ask_op c k = Do c (\<lambda>r. case r of RErr m \<Rightarrow> raises m | _ \<Rightarrow> k r)"

abbreviation redis_call :: "rcmd \<Rightarrow> (reply \<Rightarrow> 'a handler) \<Rightarrow> 'a handler" where
  "redis_call c \<equiv> ask_op (Cmd c)"

definition and_then :: "'a handler \<Rightarrow> ('a \<Rightarrow> 'b handler) \<Rightarrow> 'b handler" where
  "and_then p f = bindP p (\<lambda>r. case r of Inl e \<Rightarrow> Ret (Inl e) | Inr a \<Rightarrow> f a)"

definition catching :: "'a handler \<Rightarrow> (py_exc \<Rightarrow> 'a handler) \<Rightarrow> 'a handler" where
  "catching p h = bindP p (\<lambda>r. case r of Inl e \<Rightarrow> h e | Inr a \<Rightarrow> Ret (Inr a))"

text \<open>An effect whose failure is swallowed\<close>

definition best_effort :: "string \<Rightarrow> pyval \<Rightarrow> 'a handler \<Rightarrow> 'a handler" where
  "best_effort kind v p = Do (Effect kind v) (\<lambda>_. p)"

text \<open>A loop over a list, with a value carried along\<close>

primrec for_each :: "'x list \<Rightarrow> ('x \<Rightarrow> 'a \<Rightarrow> 'a handler) \<Rightarrow> 'a \<Rightarrow> 'a handler" where
  "for_each [] f a = Ret (Inr a)"
| "for_each (x # xs) f a = and_then (f x a) (for_each xs f)"

text \<open>The redis-py reading of a reply\<close>

definition reply_text :: "reply \<Rightarrow> string option" where
  "reply_text r = (case r of RText t \<Rightarrow> Some t | _ \<Rightarrow> None)"

definition reply_int :: "reply \<Rightarrow> int" where
  "reply_int r = (case r of RInt i \<Rightarrow> i | _ \<Rightarrow> 0)"

definition reply_texts :: "reply \<Rightarrow> string list" where
  "reply_texts r = (case r of RTexts ts \<Rightarrow> ts | _ \<Rightarrow> [])"

definition reply_pairs :: "reply \<Rightarrow> (string \<times> string) list" where
  "reply_pairs r = (case r of RPairs h \<Rightarrow> h | _ \<Rightarrow> [])"

text \<open>Inside a script an error of a command ends the script with that error.\<close>

definition lua :: "rcmd \<Rightarrow> (reply \<Rightarrow> (rcmd, reply) prog) \<Rightarrow> (rcmd, reply) prog" where
  "lua c k = Do c (\<lambda>r. case r of RErr m \<Rightarrow> Ret (RErr m) | _ \<Rightarrow> k r)"

text \<open>A transaction runs all its commands, and the client raises the first error among the replies.\<close>

primrec multi :: "rcmd list \<Rightarrow> reply list \<Rightarrow> (rcmd, reply) prog" where
  "multi [] rs = Ret (case find (\<lambda>r. case r of RErr m \<Rightarrow> True | _ \<Rightarrow> False) (rev rs) of Some e \<Rightarrow> e | None \<Rightarrow> RMulti (rev rs))"
| "multi (c # cs) rs = Do c (\<lambda>r. multi cs (r # rs))"

section \<open>A server and its clients\<close>

record 's server =
  execute :: "rcmd \<Rightarrow> 's \<Rightarrow> reply \<times> 's"
  view :: "'s \<Rightarrow> keyspace"
  pass :: "nat \<Rightarrow> 's \<Rightarrow> 's"

definition do_op :: "'s server \<Rightarrow> op \<Rightarrow> 's \<Rightarrow> reply \<times> 's" where
  "do_op srv c s = (case c of Cmd d \<Rightarrow> execute srv d s | Eval p \<Rightarrow> run_prog (execute srv) p s
     | Effect kind v \<Rightarrow> (RNil, s))"

abbreviation run_handler :: "'s server \<Rightarrow> 'a handler \<Rightarrow> 's \<Rightarrow> (py_exc + 'a) \<times> 's" where
  "run_handler srv \<equiv> run_prog (do_op srv)"

text \<open>
  What happens next: a request starts, the \<open>i\<close>-th handler executes its next command, that command
  fails without being executed, is executed but its reply lost, or milliseconds pass.
\<close>

datatype 'q turn = Start 'q | Go nat | Fail nat string | Lost nat string | Wait nat

type_synonym ('s, 'a) sys = "'s \<times> 'a handler list"

definition resume :: "nat \<Rightarrow> (op \<Rightarrow> reply \<times> 's) \<Rightarrow> ('s, 'a) sys \<Rightarrow> ('s, 'a) sys" where
  "resume i answer sy =
     (if i < length (snd sy) then
        (case snd sy ! i of Ret a \<Rightarrow> sy
         | Do c k \<Rightarrow> (snd (answer c), (snd sy)[i := k (fst (answer c))]))
      else sy)"

fun advance :: "'s server \<Rightarrow> ('q \<Rightarrow> 'a handler) \<Rightarrow> 'q turn \<Rightarrow> ('s, 'a) sys \<Rightarrow> ('s, 'a) sys" where
  "advance srv h (Start q) (s, ts) = (s, ts @ [h q])"
| "advance srv h (Go i) (s, ts) = resume i (\<lambda>c. do_op srv c s) (s, ts)"
| "advance srv h (Fail i m) (s, ts) = resume i (\<lambda>c. (RErr m, s)) (s, ts)"
| "advance srv h (Lost i m) (s, ts) = resume i (\<lambda>c. (RErr m, snd (do_op srv c s))) (s, ts)"
| "advance srv h (Wait n) (s, ts) = (pass srv n s, ts)"

text \<open>The commands a program may send, whatever the replies\<close>

primrec only :: "('c \<Rightarrow> bool) \<Rightarrow> ('c, 'a) prog \<Rightarrow> bool" where
  "only P (Ret a) \<longleftrightarrow> True"
| "only P (Do c k) \<longleftrightarrow> P c \<and> (\<forall>r. only P (k r))"

lemma only_bindP: "only P p \<Longrightarrow> (\<And>a. only P (f a)) \<Longrightarrow> only P (bindP p f)"
  by (induction p) auto

named_theorems only_intros \<open>what a composed program may send\<close>

lemma only_and_then [only_intros]: "only P p \<Longrightarrow> (\<And>a. only P (f a)) \<Longrightarrow> only P (and_then p f)"
  unfolding and_then_def by (rule only_bindP) (auto split: sum.split)

lemmas [only_intros] = only_bindP

lemma only_catching [only_intros]: "only P p \<Longrightarrow> (\<And>e. only P (h e)) \<Longrightarrow> only P (catching p h)"
  unfolding catching_def by (rule only_bindP) (auto split: sum.split)

lemma only_ask_op [only_intros]: "P c \<Longrightarrow> (\<And>r. only P (k r)) \<Longrightarrow> only P (ask_op c k)"
  by (auto simp: ask_op_def split: reply.split)

lemma only_best_effort [only_intros]: "P (Effect kind v) \<Longrightarrow> only P p \<Longrightarrow> only P (best_effort kind v p)"
  by (simp add: best_effort_def)

lemma only_for_each [only_intros]: "(\<And>x a. only P (f x a)) \<Longrightarrow> only P (for_each xs f a)"
  by (induction xs arbitrary: a) (auto intro: only_and_then)

lemma only_mono: "only P p \<Longrightarrow> (\<And>c. P c \<Longrightarrow> Q c) \<Longrightarrow> only Q p"
  by (induction p) auto

section \<open>Running one handler\<close>

lemma run_bindP: "run_prog ex (bindP p f) s = run_prog ex (f (fst (run_prog ex p s))) (snd (run_prog ex p s))"
  by (induction p arbitrary: s) simp_all

lemma run_and_then:
  "run_prog ex (and_then p f) s = (case run_prog ex p s of (Inl e, s') \<Rightarrow> (Inl e, s') | (Inr a, s') \<Rightarrow> run_prog ex (f a) s')"
  by (simp add: and_then_def run_bindP split: prod.split sum.split)

lemma run_catching:
  "run_prog ex (catching p h) s = (case run_prog ex p s of (Inl e, s') \<Rightarrow> run_prog ex (h e) s' | (Inr a, s') \<Rightarrow> (Inr a, s'))"
  by (simp add: catching_def run_bindP split: prod.split sum.split)

lemma run_ask_op:
  "run_prog ex (ask_op c k) s = (case fst (ex c s) of RErr m \<Rightarrow> (Inl (OtherError m), snd (ex c s)) | r \<Rightarrow> run_prog ex (k r) (snd (ex c s)))"
  by (simp add: ask_op_def split: reply.split)

lemma run_best_effort [simp]: "run_prog ex (best_effort kind v p) s = run_prog ex p (snd (ex (Effect kind v) s))"
  by (simp add: best_effort_def)

lemma do_effect [simp]: "do_op srv (Effect kind v) s = (RNil, s)"
  by (simp add: do_op_def)

lemmas run_rules = run_bindP run_and_then run_catching run_ask_op

text \<open>A thread left to itself runs to its end: one handler after the other is one of the interleavings.\<close>

lemma thread_runs:
  "i < length ts \<Longrightarrow> ts ! i = p \<Longrightarrow>
   \<exists>n. run_ops (advance srv h) (replicate n (Go i)) (s, ts) =
       (snd (run_handler srv p s), ts[i := Ret (fst (run_handler srv p s))])"
proof (induction p arbitrary: s ts)
  case (Ret a)
  then have "ts[i := Ret a] = ts" by (metis list_update_id)
  then have "run_ops (advance srv h) (replicate 0 (Go i)) (s, ts) = (s, ts[i := Ret a])" by simp
  then show ?case by (intro exI [of _ 0]) simp
next
  case (Do c k)
  let ?r = "fst (do_op srv c s)" and ?s' = "snd (do_op srv c s)"
  have step: "advance srv h (Go i) (s, ts) = (?s', ts[i := k ?r])"
    using Do.prems by (simp add: resume_def)
  obtain n where "run_ops (advance srv h) (replicate n (Go i)) (?s', ts[i := k ?r]) =
      (snd (run_handler srv (k ?r) ?s'), ts[i := Ret (fst (run_handler srv (k ?r) ?s'))])"
    using Do.IH [of "k ?r" "ts[i := k ?r]" ?s'] Do.prems by auto
  then show ?case using step by (intro exI [of _ "Suc n"]) simp
qed

section \<open>The laws of the server\<close>

text \<open>
  The server answers and changes what it holds as its commands are documented, and forgets a key
  when its time is up. What a client sees of it is its keyspace.
\<close>

locale redis =
  fixes srv :: "'s server"
  assumes reply_doc: "fst (execute srv c s) = fst (doc c (view srv s))"
    and view_doc: "view srv (snd (execute srv c s)) = snd (doc c (view srv s))"
    and view_pass: "view srv (pass srv n s) = elapsed n (view srv s)"
begin

lemma run_script:
  "fst (run_prog (execute srv) p s) = fst (run_prog doc p (view srv s)) \<and>
   view srv (snd (run_prog (execute srv) p s)) = snd (run_prog doc p (view srv s))"
  by (induction p arbitrary: s) (simp_all add: reply_doc view_doc)

end

text \<open>The keyspace itself is such a server.\<close>

definition reference :: "keyspace server" where
  "reference = \<lparr>execute = doc, view = (\<lambda>K. K), pass = elapsed\<rparr>"

interpretation keyspace: redis reference
  by unfold_locales (simp_all add: reference_def)

abbreviation kdo :: "op \<Rightarrow> keyspace \<Rightarrow> reply \<times> keyspace" where
  "kdo \<equiv> do_op reference"

lemma kdo_simps [simp]:
  "kdo (Cmd c) K = doc c K" "kdo (Eval p) K = run_prog doc p K" "kdo (Effect kind v) K = (RNil, K)"
  by (simp_all add: do_op_def reference_def)

lemma view_reference [simp]: "view reference K = K"
  by (simp add: reference_def)

context redis begin

lemma op_doc:
  "fst (do_op srv c s) = fst (kdo c (view srv s))" "view srv (snd (do_op srv c s)) = snd (kdo c (view srv s))"
  by (simp_all add: do_op_def reference_def reply_doc view_doc run_script split: op.split)

lemma run_doc:
  "fst (run_handler srv p s) = fst (run_handler reference p (view srv s)) \<and>
   view srv (snd (run_handler srv p s)) = snd (run_handler reference p (view srv s))"
  by (induction p arbitrary: s) (simp_all add: op_doc)

text \<open>What one turn does to the threads, and to the keyspace by the command of one of them\<close>

lemma turn_cases:
  obtains (start) q where "t = Start q" and "advance srv h t sy = (fst sy, snd sy @ [h q])"
    | (idle) "advance srv h t sy = sy" and "\<And>q. t \<noteq> Start q"
    | (fail) i c k m where "i < length (snd sy)" and "snd sy ! i = Do c k"
        and "advance srv h t sy = (fst sy, (snd sy)[i := k (RErr m)])" and "\<And>q. t \<noteq> Start q"
    | (command) i c k r where "i < length (snd sy)" and "snd sy ! i = Do c k" and "t = Go i \<or> (\<exists>m. t = Lost i m)"
        and "advance srv h t sy = (snd (do_op srv c (fst sy)), (snd sy)[i := k r])"
        and "r = fst (do_op srv c (fst sy)) \<or> (\<exists>m. r = RErr m)"
    | (time) n where "t = Wait n" and "advance srv h t sy = (pass srv n (fst sy), snd sy)"
proof -
  obtain s ts where sy: "sy = (s, ts)" by (cases sy)
  have stuck: "resume i a (s, ts) = (s, ts)" if "\<not> (i < length ts \<and> (\<exists>c k. ts ! i = Do c k))" for i and a :: "op \<Rightarrow> reply \<times> 's"
    using that by (cases "ts ! i") (auto simp: resume_def)
  have step: "resume i a (s, ts) = (snd (a c), ts[i := k (fst (a c))])" if "i < length ts" "ts ! i = Do c k"
    for i c k and a :: "op \<Rightarrow> reply \<times> 's"
    using that by (simp add: resume_def)
  show thesis
  proof (cases t)
    case (Start q)
    with start sy show ?thesis by simp
  next
    case (Wait n)
    with time sy show ?thesis by simp
  next
    case (Go i)
    with idle command [of i] sy stuck step [of i] show ?thesis
      by (cases "i < length ts \<and> (\<exists>c k. ts ! i = Do c k)") auto
  next
    case (Fail i m)
    with idle fail [of i] sy stuck step [of i] show ?thesis
      by (cases "i < length ts \<and> (\<exists>c k. ts ! i = Do c k)") auto
  next
    case (Lost i m)
    with idle command [of i] sy stuck step [of i] show ?thesis
      by (cases "i < length ts \<and> (\<exists>c k. ts ! i = Do c k)") auto
  qed
qed

end

text \<open>The requests that have started, in the order of their threads\<close>

fun started :: "'q turn list \<Rightarrow> 'q list" where
  "started [] = []"
| "started (Start q # ts) = q # started ts"
| "started (t # ts) = started ts"

text \<open>The commands a handler may send depend on its request (\<open>P q\<close>).\<close>

locale clients = redis srv for srv :: "'s server" +
  fixes h :: "'q \<Rightarrow> 'a handler" and P :: "'q \<Rightarrow> op \<Rightarrow> bool"
  assumes handlers: "only (P q) (h q)"
begin

definition attuned :: "'q list \<Rightarrow> ('s, 'a) sys \<Rightarrow> bool" where
  "attuned qs sy \<longleftrightarrow> list_all2 (\<lambda>q p. only (P q) p) qs (snd sy)"

lemma attuned_turn:
  assumes "attuned qs sy"
  shows "attuned (qs @ started [t]) (advance srv h t sy)"
proof -
  have len: "length qs = length (snd sy)" using assms by (auto simp: attuned_def dest: list_all2_lengthD)
  have more: "only (P (qs ! i)) (k r)" if "i < length (snd sy)" "snd sy ! i = Do c k" for i c k r
    using assms that by (auto simp: attuned_def list_all2_conv_all_nth)
  have upd: "attuned qs (s', (snd sy)[i := k r])" if "i < length (snd sy)" "snd sy ! i = Do c k" for i c k r s'
    using assms more [OF that] len that
    by (auto simp: attuned_def list_all2_conv_all_nth nth_list_update)
  show ?thesis
    using turn_cases [of t h sy]
  proof cases
    case (start q)
    then show ?thesis using assms by (simp add: attuned_def list_all2_appendI handlers)
  next
    case idle
    then show ?thesis using assms by (cases t) auto
  next
    case (fail i c k m)
    then show ?thesis using upd by (cases t) auto
  next
    case (command i c k r)
    then show ?thesis using upd by auto
  next
    case (time n)
    then show ?thesis using assms by (simp add: attuned_def)
  qed
qed

lemma attuned_command: "attuned qs sy \<Longrightarrow> i < length (snd sy) \<Longrightarrow> snd sy ! i = Do c k \<Longrightarrow> P (qs ! i) c"
  by (force simp: attuned_def list_all2_conv_all_nth)

lemma attuned_run: "attuned qs sy \<Longrightarrow> attuned (qs @ started ts) (run_ops (advance srv h) ts sy)"
proof (induction ts arbitrary: qs sy)
  case (Cons t ts)
  have "started (t # ts) = started [t] @ started ts" by (cases t) auto
  with Cons.IH [OF attuned_turn [OF Cons.prems, of t]] show ?case by simp
qed simp

lemma attuned_start: "attuned [] (s, [])"
  by (simp add: attuned_def)

text \<open>What one turn of a run does to the keyspace: nothing, time, or one command its request may send\<close>

lemma turn_view:
  assumes "sy = run_ops (advance srv h) ts (s, [])"
  shows "view srv (fst (advance srv h t sy)) = view srv (fst sy) \<or>
    (\<exists>n. t = Wait n \<and> view srv (fst (advance srv h t sy)) = elapsed n (view srv (fst sy))) \<or>
    (\<exists>i c. (t = Go i \<or> (\<exists>m. t = Lost i m)) \<and> i < length (started ts) \<and> P (started ts ! i) c \<and>
       view srv (fst (advance srv h t sy)) = snd (kdo c (view srv (fst sy))))"
proof -
  have att: "attuned (started ts) sy"
    using attuned_run [OF attuned_start, of ts s] assms by simp
  then have len: "length (started ts) = length (snd sy)" by (auto simp: attuned_def dest: list_all2_lengthD)
  show ?thesis
    using turn_cases [of t h sy]
  proof cases
    case (command i c k r)
    have "view srv (fst (advance srv h t sy)) = snd (kdo c (view srv (fst sy)))"
      using command(4) by (simp add: op_doc)
    with attuned_command [OF att command(1,2)] command(1,3) len show ?thesis by metis
  next
    case (time n)
    then show ?thesis by (simp add: view_pass)
  qed simp_all
qed

end

text \<open>An invariant of the keyspace that every command of the handlers keeps, and time too\<close>

locale relay_invariant = clients srv h P
  for srv :: "'s server" and h :: "'q \<Rightarrow> 'a handler" and P :: "'q \<Rightarrow> op \<Rightarrow> bool" +
  fixes I :: "keyspace \<Rightarrow> bool"
  assumes command_keeps: "P q c \<Longrightarrow> I K \<Longrightarrow> I (snd (kdo c K))"
    and time_keeps: "I K \<Longrightarrow> I (elapsed n K)"
begin

lemma turn_keeps:
  assumes "I (view srv (fst sy))" and "attuned qs sy"
  shows "I (view srv (fst (advance srv h t sy)))"
  using turn_cases [of t h sy] assms
  by cases (auto simp: op_doc view_pass intro!: command_keeps time_keeps dest: attuned_command)

end

sublocale relay_invariant \<subseteq> invariant_machine "\<lambda>sy. I (view srv (fst sy)) \<and> (\<exists>qs. attuned qs sy)" "advance srv h"
  by unfold_locales (blast intro: turn_keeps attuned_turn)

context relay_invariant begin

lemma run_keeps:
  assumes "I (view srv s)"
  shows "I (view srv (fst (run_ops (advance srv h) ts (s, []))))"
  using inv_run [of "(s, [])" ts] attuned_start assms by auto

end

section \<open>Rules the components share\<close>

named_theorems handler_defs \<open>the programs of the handlers\<close>

lemma elapsed_None [simp]: "K k = None \<Longrightarrow> elapsed n K k = None"
  by (simp add: elapsed_def)

lemma elapsed_lasting [simp]: "K k = Some (ob, None) \<Longrightarrow> elapsed n K k = Some (ob, None)"
  by (simp add: elapsed_def)

lemma elapsed_SomeD: "elapsed n K k = Some (ob, t) \<Longrightarrow> \<exists>t'. K k = Some (ob, t')"
  by (auto simp: elapsed_def split: option.splits prod.splits if_splits)

lemma counter_of_str [simp]: "- (2 ^ 63) \<le> i \<Longrightarrow> i < 2 ^ 63 \<Longrightarrow> counter_of (str_of_int i) = Some i"
  by (simp add: counter_of_def)

text \<open>The keys a command may change\<close>

fun writes :: "rcmd \<Rightarrow> string option" where
  "writes (SET k v nx ex) = Some k"
| "writes (DEL k) = Some k"
| "writes (INCR k) = Some k"
| "writes (EXPIRE k n) = Some k"
| "writes (RPUSH k v) = Some k"
| "writes (LPUSH k v) = Some k"
| "writes (LPOP k) = Some k"
| "writes (LTRIM k i j) = Some k"
| "writes (HSET k kvs) = Some k"
| "writes (HSETNX k f v) = Some k"
| "writes (HDEL k fs) = Some k"
| "writes (ZADD k m q) = Some k"
| "writes (ZADDNX k m q) = Some k"
| "writes (ZREM k ms) = Some k"
| "writes c = None"

lemma doc_frame: "writes c \<noteq> Some k \<Longrightarrow> snd (doc c K) k = K k"
  by (cases c) (simp_all add: Let_def split: option.split prod.split robj.split list.split)

definition touches :: "string \<Rightarrow> op \<Rightarrow> bool" where
  "touches k c \<longleftrightarrow> (case c of Cmd d \<Rightarrow> writes d = Some k | Eval p \<Rightarrow> \<not> only (\<lambda>d. writes d \<noteq> Some k) p | Effect kind v \<Rightarrow> False)"

lemma script_frame: "only (\<lambda>d. writes d \<noteq> Some k) p \<Longrightarrow> snd (run_prog doc p K) k = K k"
  by (induction p arbitrary: K) (simp_all add: doc_frame)

lemma op_frame: "\<not> touches k c \<Longrightarrow> snd (kdo c K) k = K k"
  by (auto simp: touches_def doc_frame script_frame split: op.splits)

text \<open>A command that changes at most keys of a family\<close>

definition inside :: "string set \<Rightarrow> op \<Rightarrow> bool" where
  "inside F c \<longleftrightarrow> (\<forall>k. touches k c \<longrightarrow> k \<in> F)"

lemma inside_simps [simp]:
  "inside F (Cmd d) \<longleftrightarrow> (case writes d of None \<Rightarrow> True | Some k \<Rightarrow> k \<in> F)" "inside F (Effect kind v)"
  by (auto simp: inside_def touches_def split: option.split)

lemma inside_Eval:
  assumes "only (\<lambda>d. case writes d of None \<Rightarrow> True | Some k \<Rightarrow> k \<in> F) p"
  shows "inside F (Eval p)"
  unfolding inside_def
proof (intro allI impI, rule ccontr)
  fix k
  assume k: "touches k (Eval p)" "k \<notin> F"
  have "only (\<lambda>d. writes d \<noteq> Some k) p"
    using assms by (rule only_mono) (use k(2) in \<open>auto split: option.splits\<close>)
  with k(1) show False by (simp add: touches_def)
qed

lemma inside_mono: "inside F c \<Longrightarrow> F \<subseteq> G \<Longrightarrow> inside G c"
  by (auto simp: inside_def)

lemma only_inside_mono: "only (inside F) p \<Longrightarrow> F \<subseteq> G \<Longrightarrow> only (inside G) p"
  by (erule only_mono) (erule inside_mono)

lemma inside_frame: "inside F c \<Longrightarrow> k \<notin> F \<Longrightarrow> snd (kdo c K) k = K k"
  by (rule op_frame) (auto simp: inside_def)

lemma only_lua [only_intros]: "P c \<Longrightarrow> (\<And>r. only P (k r)) \<Longrightarrow> only P (lua c k)"
  by (auto simp: lua_def split: reply.split)

lemma only_multi [only_intros]: "list_all P cs \<Longrightarrow> only P (multi cs rs)"
  by (induction cs arbitrary: rs) auto

end
