(* ===== verification/Relay_Principal.thy ===== *)
theory Relay_Principal
  imports Relay_Store
begin

text \<open>
  The verified principal behind a Relay request and who owns a record
  (\<open>relay/app/principal.py\<close>, the scope sets of \<open>auth/keys.py\<close>, \<open>auth/principal.py\<close> and the scope
  check of \<open>auth/asgi.py\<close>). The deployment's settings are the record \<open>deployment\<close>; the identity the
  middleware attached to a request is a dictionary or absent.
\<close>

section \<open>Scopes\<close>

definition SCOPES :: "string list" where
  "SCOPES = [''memory:read'', ''memory:write'', ''session:read'', ''session:write'', ''replay:read'',
     ''relay:read'', ''relay:write'', ''eval:read'', ''eval:write'', ''vault:read'', ''dex:docdex'', ''dex:maildex'',
     ''admin'', ''eval:grade'', ''session:read:workspace'', ''memory:write:delegated'', ''relay:write:service'']"

definition SERVICE_ONLY_SCOPES :: "string list" where
  "SERVICE_ONLY_SCOPES = [''eval:grade'', ''session:read:workspace'', ''memory:write:delegated'', ''relay:write:service'']"

definition ENROLLABLE_SCOPES :: "string list" where
  "ENROLLABLE_SCOPES = filter (\<lambda>s. s \<noteq> ''admin'' \<and> s \<noteq> ''*'' \<and> s \<notin> set SERVICE_ONLY_SCOPES) SCOPES"

definition ANONYMOUS_SCOPES :: "string list" where
  "ANONYMOUS_SCOPES = sort (filter (\<lambda>s. s \<noteq> ''admin'' \<and> s \<noteq> ''*'' \<and> s \<noteq> ''vault:read'' \<and>
     \<not> starts_with s ''dex:'' \<and> s \<notin> set SERVICE_ONLY_SCOPES) SCOPES)"

definition scopes_allow :: "pyval list \<Rightarrow> string \<Rightarrow> bool \<Rightarrow> bool" where
  "scopes_allow scopes required allow_wildcard \<longleftrightarrow>
     (if allow_wildcard \<and> PyStr ''*'' \<in> set scopes then True else PyStr required \<in> set scopes)"

section \<open>The deployment and the caller\<close>

text \<open>
  \<open>FIREKEEP_WORKSPACE_ID\<close> and \<open>FIREKEEP_OWNER_MEMBER_ID\<close>; a malformed value makes every use raise,
  so a deployment that serves requests has well-formed ones.
\<close>

definition id_char :: "char \<Rightarrow> bool" where
  "id_char c \<longleftrightarrow> (let n = code_of c in (48 \<le> n \<and> n \<le> 57) \<or> (65 \<le> n \<and> n \<le> 90) \<or> (97 \<le> n \<and> n \<le> 122) \<or>
     c = CHR ''_'' \<or> c = CHR ''.'' \<or> c = CHR ''-'')"

definition deployment_id :: "string \<Rightarrow> string \<Rightarrow> string \<Rightarrow> py_exc + string" where
  "deployment_id name given fallback =
     (let value = (if py_strip given \<noteq> [] then py_strip given else fallback) in
      if value \<noteq> [] \<and> length value \<le> 128 \<and> list_all id_char value then Inr value
      else Inl (OtherError (name @ '' must be 1-128 alphanumeric/._- characters'')))"

record deployment =
  d_auth :: bool
  d_workspace :: string
  d_owner :: string

definition deployment_of :: "bool \<Rightarrow> string \<Rightarrow> string \<Rightarrow> py_exc + deployment" where
  "deployment_of enabled workspace_env owner_env =
     bindR (deployment_id ''FIREKEEP_WORKSPACE_ID'' workspace_env ''workspace-local'') (\<lambda>w.
     bindR (deployment_id ''FIREKEEP_OWNER_MEMBER_ID'' owner_env ''member-owner'') (\<lambda>m.
       Inr \<lparr>d_auth = enabled, d_workspace = w, d_owner = m\<rparr>))"

record caller =
  c_workspace :: string
  c_member :: string
  c_credential :: string
  c_authenticated :: bool
  c_admin :: bool

definition OWNER_WORKSPACE :: string where "OWNER_WORKSPACE = ''owner_workspace''"
definition OWNER_MEMBER :: string where "OWNER_MEMBER = ''owner_member''"

definition stamp_of :: "caller \<Rightarrow> pydict" where
  "stamp_of c = [(''workspace_id'', PyStr (c_workspace c)), (''member_id'', PyStr (c_member c)),
     (''credential_id'', PyStr (c_credential c)), (''authenticated'', PyBool (c_authenticated c))]"

definition owner_fields :: "caller \<Rightarrow> (string \<times> string) list" where
  "owner_fields c = [(OWNER_WORKSPACE, c_workspace c), (OWNER_MEMBER, c_member c)]"

definition scope_values :: "pyval \<Rightarrow> pyval list" where
  "scope_values v = (case v of PyList vs \<Rightarrow> vs | _ \<Rightarrow> [])"

definition caller_from_scope :: "(rat \<Rightarrow> string) \<Rightarrow> deployment \<Rightarrow> pydict option \<Rightarrow> caller option" where
  "caller_from_scope fl dep ident =
     (case ident of
        Some d \<Rightarrow>
          (let member = str_or fl (get_val d ''member_id'') [] in
           if member = [] then None
           else Some \<lparr>c_workspace = str_or fl (get_val d ''workspace_id'') (d_workspace dep), c_member = member,
             c_credential = str_or fl (get_val d ''credential_id'') [], c_authenticated = True,
             c_admin = scopes_allow (scope_values (get_val d ''scopes'')) ''admin'' True\<rparr>)
      | None \<Rightarrow>
          if d_auth dep then None
          else Some \<lparr>c_workspace = d_workspace dep, c_member = d_owner dep, c_credential = ''anonymous'',
            c_authenticated = False, c_admin = False\<rparr>)"

text \<open>
  \<open>_scope_refusal\<close>: None when the key has one of the required scopes, else the error of the last one
  tried. An em dash of the message is written as two hyphens.
\<close>

definition scope_ok :: "deployment \<Rightarrow> pydict option \<Rightarrow> string \<Rightarrow> bool" where
  "scope_ok dep ident required \<longleftrightarrow>
     (if \<not> d_auth dep then scopes_allow (map PyStr ANONYMOUS_SCOPES) required False
      else (case ident of None \<Rightarrow> False
        | Some d \<Rightarrow> scopes_allow (scope_values (get_val d ''scopes'')) required True))"

definition anonymous_denied_detail :: "string \<Rightarrow> string" where
  "anonymous_denied_detail required =
     ''Insufficient scope: requires '' @ [CHR 0x27] @ required @ [CHR 0x27] @ ''. Auth is disabled (AUTH_ENABLED=false), so every caller is the anonymous identity, and the anonymous identity is deliberately never granted ''
     @ [CHR 0x27] @ required @ [CHR 0x27] @ '' -- it gates decrypted secret reads (/vault/*) and API-key minting (/auth/*). To use admin routes: set AUTH_ENABLED=true, restart, and send the admin key as X-API-Key. deploy/bootstrap-keys.sh (run by install.sh/update.sh) mints that key and prints it exactly once.''"

definition refusal_detail :: "(rat \<Rightarrow> string) \<Rightarrow> deployment \<Rightarrow> pydict option \<Rightarrow> string \<Rightarrow> string" where
  "refusal_detail fl dep ident required =
     (if \<not> d_auth dep then anonymous_denied_detail required
      else (case ident of
        None \<Rightarrow> ''No identity attached -- auth is enabled but this route is not covered by FirekeepKeyAuthMiddleware''
      | Some d \<Rightarrow> ''Insufficient scope: requires '' @ [CHR 0x27] @ required @ [CHR 0x27] @ '', key has ''
          @ repr_val fl (case map_of d ''scopes'' of None \<Rightarrow> PyList [] | Some v \<Rightarrow> v)))"

definition scope_refusal :: "(rat \<Rightarrow> string) \<Rightarrow> deployment \<Rightarrow> pydict option \<Rightarrow> string list \<Rightarrow> pydict option" where
  "scope_refusal fl dep ident required =
     (if list_ex (scope_ok dep ident) required then None
      else Some [(''error'', PyStr (refusal_detail fl dep ident (last required))),
                 (''status'', PyStr (if d_auth dep \<and> ident = None then ''unauthorized'' else ''forbidden''))])"

section \<open>Ownership\<close>

definition record_workspace :: "(rat \<Rightarrow> string) \<Rightarrow> deployment \<Rightarrow> pydict \<Rightarrow> string" where
  "record_workspace fl dep rec = str_or fl (get_val rec OWNER_WORKSPACE) (d_workspace dep)"

definition is_bound :: "pydict \<Rightarrow> bool" where
  "is_bound rec \<longleftrightarrow> truthy (get_val rec OWNER_MEMBER)"

definition owns :: "(rat \<Rightarrow> string) \<Rightarrow> deployment \<Rightarrow> pydict \<Rightarrow> caller option \<Rightarrow> bool" where
  "owns fl dep rec caller =
     (case caller of None \<Rightarrow> False
      | Some c \<Rightarrow>
          if \<not> c_authenticated c then True
          else if truthy (get_val rec OWNER_MEMBER) then
            get_val rec OWNER_MEMBER = PyStr (c_member c) \<and> record_workspace fl dep rec = c_workspace c
          else c_member c = d_owner dep \<and> c_workspace c = d_workspace dep)"

definition administers :: "(rat \<Rightarrow> string) \<Rightarrow> deployment \<Rightarrow> pydict \<Rightarrow> caller option \<Rightarrow> bool" where
  "administers fl dep rec caller =
     (if owns fl dep rec caller then True
      else (case caller of None \<Rightarrow> False | Some c \<Rightarrow> c_admin c \<and> record_workspace fl dep rec = c_workspace c))"

definition is_deployment_owner :: "deployment \<Rightarrow> caller option \<Rightarrow> bool" where
  "is_deployment_owner dep caller =
     (case caller of None \<Rightarrow> False | Some c \<Rightarrow> c_member c = d_owner dep \<and> c_workspace c = d_workspace dep)"

text \<open>A hash holds texts only.\<close>

definition texts_dict :: "(string \<times> string) list \<Rightarrow> pydict" where
  "texts_dict h = map (\<lambda>(k, v). (k, PyStr v)) h"

lemma map_of_texts_dict [simp]: "map_of (texts_dict h) k = map_option PyStr (map_of h k)"
  by (induction h) (auto simp: texts_dict_def)

lemma get_val_texts_dict: "get_val (texts_dict h) k = (case map_of h k of None \<Rightarrow> PyNone | Some v \<Rightarrow> PyStr v)"
  by (simp add: get_val_def split: option.split)

section \<open>What the caller may be\<close>

text \<open>A bound record is administered by its own member or by an admin key of its own workspace.\<close>

lemma administers_bound:
  assumes "administers fl dep rec (Some c)" and "c_authenticated c" and "is_bound rec"
  shows "record_workspace fl dep rec = c_workspace c \<and> (get_val rec OWNER_MEMBER = PyStr (c_member c) \<or> c_admin c)"
  using assms by (auto simp: administers_def owns_def is_bound_def split: if_splits)

lemma caller_authenticated:
  assumes "caller_from_scope fl dep ident = Some c" and "d_auth dep"
  shows "c_authenticated c \<and> c_member c \<noteq> []"
  using assms by (auto simp: caller_from_scope_def Let_def split: option.splits if_splits)

text \<open>An enrolled or anonymous key carries neither the admin scope nor a service scope.\<close>

lemma enrollable_scopes:
  "s \<in> set ENROLLABLE_SCOPES \<Longrightarrow> s \<noteq> ''admin'' \<and> s \<noteq> ''*'' \<and> s \<notin> set SERVICE_ONLY_SCOPES"
  by (simp add: ENROLLABLE_SCOPES_def)

lemma anonymous_scopes:
  "set ANONYMOUS_SCOPES \<subseteq> set ENROLLABLE_SCOPES - {''vault:read''}"
  by (auto simp: ANONYMOUS_SCOPES_def ENROLLABLE_SCOPES_def)

section \<open>What a tool call runs in\<close>

text \<open>
  The service's surroundings: the printing and reading of floats, the JSON module of Redis's Lua
  (\<open>cjson\<close>), the deployment and Relay's settings (\<open>relay/app/config.py\<close>); and what one request brings:
  the identity the middleware attached, its API key, the clock and a fresh identifier.
\<close>

record relay =
  r_print :: "rat \<Rightarrow> string"
  r_read :: "string \<Rightarrow> rat"
  cj_encode :: "pyval \<Rightarrow> string"
  cj_decode :: "string \<Rightarrow> pyval option"
  r_dep :: deployment
  claim_ttl_minutes :: int
  bulletin_ttl_hours :: int
  backlog_size :: int
  r_bridge_url :: string

record incoming =
  q_ident :: "pydict option"
  q_api_key :: "string option"
  q_now :: rat
  q_later :: rat \<comment> \<open>a second reading of the clock by the same request\<close>
  q_uid :: string

definition settings_ok :: "relay \<Rightarrow> bool" where
  "settings_ok R \<longleftrightarrow> 0 < claim_ttl_minutes R \<and> 0 < bulletin_ttl_hours R \<and> 0 < backlog_size R"

abbreviation dumps :: "relay \<Rightarrow> pyval \<Rightarrow> string" where
  "dumps R \<equiv> enc_spaced (r_print R)"

abbreviation loads :: "relay \<Rightarrow> string \<Rightarrow> pyval option" where
  "loads R \<equiv> json_loads (r_read R)"

definition invalid_json :: string where
  "invalid_json = ''Expecting value''"

text \<open>\<open>json.loads(raw)\<close> where a failure is an exception of the handler\<close>

definition loaded :: "relay \<Rightarrow> string \<Rightarrow> (pyval \<Rightarrow> 'a handler) \<Rightarrow> 'a handler" where
  "loaded R raw k = (case loads R raw of None \<Rightarrow> raises invalid_json | Some v \<Rightarrow> k v)"

definition loaded_dict :: "relay \<Rightarrow> string \<Rightarrow> (pydict \<Rightarrow> 'a handler) \<Rightarrow> 'a handler" where
  "loaded_dict R raw k = loaded R raw (\<lambda>v. case v of PyDict d \<Rightarrow> k d
     | _ \<Rightarrow> raises (CHR 0x27 # type_name v @ [CHR 0x27] @ '' object has no attribute 'get' ''))"

definition caller_of :: "relay \<Rightarrow> incoming \<Rightarrow> caller option" where
  "caller_of R rq = caller_from_scope (r_print R) (r_dep R) (q_ident rq)"

definition no_principal :: pyval where
  "no_principal = PyDict [(''error'', PyStr ''No verified principal: authentication is enabled but no identity is attached''),
     (''status'', PyStr ''unauthorized'')]"

definition forbidden :: "string \<Rightarrow> pyval" where
  "forbidden m = PyDict [(''error'', PyStr m), (''status'', PyStr ''forbidden'')]"

text \<open>
  An exception of a class the handlers tell apart is named by its class: \<open>RelayAccessError\<close> (a
  \<open>ValueError\<close>) and \<open>ValueError\<close>.
\<close>

abbreviation access_error :: "string \<Rightarrow> py_exc" where
  "access_error m \<equiv> HandsError ''RelayAccessError'' m"

abbreviation value_error :: "string \<Rightarrow> py_exc" where
  "value_error m \<equiv> HandsError ''ValueError'' m"

text \<open>\<open>{**a, **b}\<close>\<close>

definition dict_merge :: "pydict \<Rightarrow> pydict \<Rightarrow> pydict" where
  "dict_merge a b = fold (\<lambda>(k, v). AList.update k v) b a"

text \<open>the \<open>except Exception\<close> around every tool\<close>

definition tool :: "pyval handler \<Rightarrow> pyval handler" where
  "tool p = catching p (\<lambda>e. Ret (Inr (PyDict [(''error'', PyStr (exc_text e)), (''status'', PyStr ''unavailable'')])))"

text \<open>the scope check a tool opens with\<close>

definition scoped :: "relay \<Rightarrow> incoming \<Rightarrow> string list \<Rightarrow> pyval handler \<Rightarrow> pyval handler" where
  "scoped R rq required p = (case scope_refusal (r_print R) (r_dep R) (q_ident rq) required of
     Some e \<Rightarrow> Ret (Inr (PyDict e)) | None \<Rightarrow> p)"

text \<open>the caller a tool acts for, or its refusal\<close>

definition with_caller :: "relay \<Rightarrow> incoming \<Rightarrow> (caller \<Rightarrow> pyval handler) \<Rightarrow> pyval handler" where
  "with_caller R rq k = (case caller_of R rq of None \<Rightarrow> Ret (Inr no_principal) | Some c \<Rightarrow> k c)"

text \<open>
  The pattern \<open>^[a-zA-Z0-9._-]{1,200}$\<close> under \<open>re.match\<close>: the dollar also matches before one final
  newline.
\<close>

definition matches_line :: "(char \<Rightarrow> bool) \<Rightarrow> nat \<Rightarrow> string \<Rightarrow> bool" where
  "matches_line ok most s \<longleftrightarrow>
     (let body = (if s \<noteq> [] \<and> last s = newline then butlast s else s) in
      body \<noteq> [] \<and> length body \<le> most \<and> list_all ok body)"

definition validate_name :: "string \<Rightarrow> string \<Rightarrow> 'a handler \<Rightarrow> 'a handler" where
  "validate_name name field p =
     (if matches_line id_char 200 name then p
      else raises (''Invalid '' @ field @ '': must be 1-200 alphanumeric/._- chars''))"

text \<open>a replay event and the member it is attributed to: only an authenticated stamp names one\<close>

definition replay_attribution :: "(rat \<Rightarrow> string) \<Rightarrow> pydict option \<Rightarrow> pydict" where
  "replay_attribution f stamp =
     (case stamp of None \<Rightarrow> []
      | Some d \<Rightarrow>
          if get_val d ''authenticated'' \<noteq> PyBool True then []
          else filter (\<lambda>kv. truthy (snd kv))
                 [(''workspace_id'', PyStr (str_or f (get_val d ''workspace_id'') [])),
                  (''member_id'', PyStr (str_or f (get_val d ''member_id'') []))])"

definition replay_emit :: "relay \<Rightarrow> string \<Rightarrow> pydict \<Rightarrow> string \<Rightarrow> pydict option \<Rightarrow> pyval handler \<Rightarrow> pyval handler" where
  "replay_emit R kind payload agent stamp p =
     best_effort ''replay'' (PyDict ([(''event_type'', PyStr kind), (''session_id'', PyStr ''relay''),
       (''agent_id'', PyStr agent), (''payload'', PyDict payload)] @ replay_attribution (r_print R) stamp)) p"

text \<open>a REST route: its response, its scope check, its caller and the \<open>except Exception\<close> around it\<close>

definition json_response :: "int \<Rightarrow> pyval \<Rightarrow> pyval handler" where
  "json_response code body = Ret (Inr (PyDict [(''status_code'', PyInt code), (''body'', body)]))"

definition error_body :: "string \<Rightarrow> pyval" where
  "error_body m = PyDict [(''error'', PyStr m)]"

definition route :: "pyval handler \<Rightarrow> pyval handler" where
  "route p = catching p (\<lambda>e. json_response 500 (error_body (exc_text e)))"

definition route_scoped :: "relay \<Rightarrow> incoming \<Rightarrow> string list \<Rightarrow> pyval handler \<Rightarrow> pyval handler" where
  "route_scoped R rq required p = (case scope_refusal (r_print R) (r_dep R) (q_ident rq) required of
     Some e \<Rightarrow> json_response (if d_auth (r_dep R) \<and> q_ident rq = None then 401 else 403) (PyDict [hd e]) | None \<Rightarrow> p)"

definition route_caller :: "relay \<Rightarrow> incoming \<Rightarrow> (caller \<Rightarrow> pyval handler) \<Rightarrow> pyval handler" where
  "route_caller R rq k = (case caller_of R rq of
     None \<Rightarrow> json_response 401 (error_body ''No verified principal: authentication is enabled but no identity is attached'')
   | Some c \<Rightarrow> k c)"

lemmas [handler_defs] = json_response_def route_def route_scoped_def route_caller_def

lemma only_json_response [simp]: "only P (json_response code body)"
  by (simp add: json_response_def)

lemma only_route [only_intros]: "only P p \<Longrightarrow> only P (route p)"
  by (auto simp: route_def intro!: only_intros)

lemma only_route_scoped [only_intros]: "only P p \<Longrightarrow> only P (route_scoped R rq required p)"
  by (auto simp: route_scoped_def split: option.split)

lemma only_route_caller [only_intros]: "(\<And>c. only P (k c)) \<Longrightarrow> only P (route_caller R rq k)"
  by (auto simp: route_caller_def split: option.split)

lemmas [handler_defs] = tool_def scoped_def with_caller_def validate_name_def replay_emit_def loaded_def loaded_dict_def

lemma only_tool [only_intros]: "only P p \<Longrightarrow> only P (tool p)"
  by (auto simp: tool_def intro!: only_intros)

lemma only_scoped [only_intros]: "only P p \<Longrightarrow> only P (scoped R rq required p)"
  by (auto simp: scoped_def split: option.split)

lemma only_with_caller [only_intros]: "(\<And>c. only P (k c)) \<Longrightarrow> only P (with_caller R rq k)"
  by (auto simp: with_caller_def split: option.split)

lemma only_validate_name [only_intros]: "only P p \<Longrightarrow> only P (validate_name name field p)"
  by (auto simp: validate_name_def)

lemma only_replay_emit [only_intros]:
  "(\<And>v. P (Effect ''replay'' v)) \<Longrightarrow> only P p \<Longrightarrow> only P (replay_emit R kind payload agent stamp p)"
  by (auto simp: replay_emit_def intro!: only_intros)

lemma only_loaded [only_intros]: "(\<And>v. only P (k v)) \<Longrightarrow> only P (loaded R raw k)"
  by (auto simp: loaded_def split: option.split)

lemma only_loaded_dict [only_intros]: "(\<And>v. only P (k v)) \<Longrightarrow> only P (loaded_dict R raw k)"
  unfolding loaded_dict_def by (rule only_loaded) (auto split: pyval.split)

end
