(* ===== verification/Relay_Presence.thy ===== *)
theory Relay_Presence
  imports Relay_Principal
begin

text \<open>
  The presence registry (\<open>relay/app/presence.py\<close> with its tools and routes): which labels are online,
  and which member a label is bound to. A row is one hash per label; the index is a sorted set under
  a key of the same family.
\<close>

definition presence_key :: "string \<Rightarrow> string" where "presence_key label = ''nr:presence:'' @ label"
definition PRESENCE_INDEX :: string where "PRESENCE_INDEX = ''nr:presence:__index''"
definition ACTIVE_THRESHOLD :: rat where "ACTIVE_THRESHOLD = 600"

text \<open>a row and who may act on it\<close>

abbreviation row_bound :: "(string \<times> string) list \<Rightarrow> bool" where
  "row_bound row \<equiv> is_bound (texts_dict row)"

abbreviation row_owned :: "relay \<Rightarrow> (string \<times> string) list \<Rightarrow> caller \<Rightarrow> bool" where
  "row_owned R row c \<equiv> owns (r_print R) (r_dep R) (texts_dict row) (Some c)"

abbreviation row_administered :: "relay \<Rightarrow> (string \<times> string) list \<Rightarrow> caller \<Rightarrow> bool" where
  "row_administered R row c \<equiv> administers (r_print R) (r_dep R) (texts_dict row) (Some c)"

section \<open>Operations\<close>

definition presence_row :: "relay \<Rightarrow> string \<Rightarrow> string \<Rightarrow> string \<Rightarrow> string option \<Rightarrow> rat \<Rightarrow> caller option \<Rightarrow> (string \<times> string) list" where
  "presence_row R agent_id goal hostname session_id t caller =
     [(''agent_id'', agent_id), (''session_id'', case session_id of Some s \<Rightarrow> s | None \<Rightarrow> []), (''goal'', goal),
      (''hostname'', hostname), (''started_at'', r_print R t), (''last_heartbeat'', r_print R t), (''status'', ''active'')]
     @ (case caller of Some c \<Rightarrow> owner_fields c | None \<Rightarrow> [])"

definition register_row :: "relay \<Rightarrow> string \<Rightarrow> (string \<times> string) list \<Rightarrow> rat \<Rightarrow> pydict handler" where
  "register_row R agent_id row t =
     redis_call (HSET (presence_key agent_id) row) (\<lambda>_.
     redis_call (ZADD PRESENCE_INDEX agent_id t) (\<lambda>_. Ret (Inr (texts_dict row))))"

definition register :: "relay \<Rightarrow> string \<Rightarrow> string \<Rightarrow> string \<Rightarrow> string option \<Rightarrow> rat \<Rightarrow> caller option \<Rightarrow> pydict handler" where
  "register R agent_id goal hostname session_id t caller =
     (let row = presence_row R agent_id goal hostname session_id t caller in
      case caller of None \<Rightarrow> register_row R agent_id row t
      | Some c \<Rightarrow>
          redis_call (HGETALL (presence_key agent_id)) (\<lambda>existing.
            if reply_pairs existing \<noteq> [] \<and> row_bound (reply_pairs existing) \<and> \<not> row_owned R (reply_pairs existing) c
            then Ret (Inl (access_error (''agent_id '' @ [CHR 0x27] @ agent_id @ [CHR 0x27]
                   @ '' is registered by another member; choose another label'')))
            else register_row R agent_id row t))"

definition heartbeat_presence ::
  "relay \<Rightarrow> string \<Rightarrow> string option \<Rightarrow> string option \<Rightarrow> rat \<Rightarrow> caller option \<Rightarrow> pydict handler" where
  "heartbeat_presence R agent_id session_id goal t caller =
     redis_call (HGETALL (presence_key agent_id)) (\<lambda>existing. let row = reply_pairs existing in
       if row = [] then Ret (Inr [(''refreshed'', PyBool False), (''reason'', PyStr ''not_registered'')])
       else if (case caller of Some c \<Rightarrow> row_bound row \<and> \<not> row_owned R row c | None \<Rightarrow> False)
         then Ret (Inr [(''refreshed'', PyBool False), (''reason'', PyStr ''not_owner'')])
       else (let updates = [(''last_heartbeat'', r_print R t), (''status'', ''active'')]
               @ (case caller of Some c \<Rightarrow> if row_bound row then [] else owner_fields c | None \<Rightarrow> [])
               @ (case session_id of Some s \<Rightarrow> if s \<noteq> [] then [(''session_id'', s)] else [] | None \<Rightarrow> [])
               @ (case goal of Some g \<Rightarrow> if g \<noteq> [] then [(''goal'', g)] else [] | None \<Rightarrow> [])
             in redis_call (HSET (presence_key agent_id) updates) (\<lambda>_.
                redis_call (ZADD PRESENCE_INDEX agent_id t) (\<lambda>_.
                Ret (Inr [(''refreshed'', PyBool True), (''agent_id'', PyStr agent_id)])))))"

definition delete_row :: "string \<Rightarrow> pydict handler" where
  "delete_row agent_id =
     redis_call (DEL (presence_key agent_id)) (\<lambda>deleted.
     redis_call (ZREM PRESENCE_INDEX [agent_id]) (\<lambda>_.
     Ret (Inr [(''removed'', PyBool (reply_int deleted \<noteq> 0)), (''agent_id'', PyStr agent_id)])))"

definition deregister :: "relay \<Rightarrow> string \<Rightarrow> caller option \<Rightarrow> pydict handler" where
  "deregister R agent_id caller =
     (case caller of None \<Rightarrow> delete_row agent_id
      | Some c \<Rightarrow>
          redis_call (HGETALL (presence_key agent_id)) (\<lambda>existing.
            if reply_pairs existing \<noteq> [] \<and> row_bound (reply_pairs existing) \<and> \<not> row_administered R (reply_pairs existing) c
            then Ret (Inr [(''removed'', PyBool False), (''agent_id'', PyStr agent_id), (''reason'', PyStr ''not_owner'')])
            else delete_row agent_id))"

text \<open>
  \<open>float(text)\<close> of a heartbeat; a text that is no float counts as zero. The texts are those
  \<open>str(time.time())\<close> writes.
\<close>

definition heartbeat_of :: "relay \<Rightarrow> (string \<times> string) list \<Rightarrow> rat" where
  "heartbeat_of R row = (case map_of row ''last_heartbeat'' of None \<Rightarrow> 0
     | Some s \<Rightarrow> (case read_number (r_read R) s of Some (v, []) \<Rightarrow> (case as_number v of Some q \<Rightarrow> q | None \<Rightarrow> 0) | _ \<Rightarrow> 0))"

definition status_row :: "relay \<Rightarrow> rat \<Rightarrow> (string \<times> string) list \<Rightarrow> (string \<times> string) list" where
  "status_row R t row =
     AList.update ''status'' (if t - heartbeat_of R row < ACTIVE_THRESHOLD then ''active'' else ''idle'') row"

definition who_is_online :: "relay \<Rightarrow> rat \<Rightarrow> bool \<Rightarrow> pyval list handler" where
  "who_is_online R t include_idle =
     redis_call (ZREVRANGE PRESENCE_INDEX 0 (- 1)) (\<lambda>ids.
       for_each (reply_texts ids) (\<lambda>agent_id results.
         redis_call (HGETALL (presence_key agent_id)) (\<lambda>r. let row = reply_pairs r in
           if row = [] then redis_call (ZREM PRESENCE_INDEX [agent_id]) (\<lambda>_. Ret (Inr results))
           else if t - heartbeat_of R row < ACTIVE_THRESHOLD \<or> include_idle
           then Ret (Inr (results @ [PyDict (texts_dict (status_row R t row))]))
           else Ret (Inr results))) [])"

text \<open>\<open>label_held_by_other\<close>, \<open>label_owner\<close> and the refusal of another member's label\<close>

definition label_held_by_other :: "relay \<Rightarrow> string \<Rightarrow> caller option \<Rightarrow> bool handler" where
  "label_held_by_other R label caller =
     (case caller of None \<Rightarrow> Ret (Inr True)
      | Some c \<Rightarrow>
          redis_call (HGETALL (presence_key label)) (\<lambda>r. let row = reply_pairs r in
            if row = [] \<or> \<not> row_bound row then Ret (Inr False) else Ret (Inr (\<not> row_administered R row c))))"

definition label_owner :: "relay \<Rightarrow> string \<Rightarrow> (string \<times> string) option handler" where
  "label_owner R label =
     redis_call (HGETALL (presence_key label)) (\<lambda>r. let row = reply_pairs r in
       if row = [] \<or> \<not> row_bound row then Ret (Inr None)
       else Ret (Inr (Some (record_workspace (r_print R) (r_dep R) (texts_dict row), the (map_of row OWNER_MEMBER)))))"

definition label_refusal :: "relay \<Rightarrow> string \<Rightarrow> caller \<Rightarrow> string \<Rightarrow> pyval handler \<Rightarrow> pyval handler" where
  "label_refusal R label c field p =
     and_then (label_held_by_other R label (Some c)) (\<lambda>held.
       if held then Ret (Inr (forbidden (field @ '' '' @ [CHR 0x27] @ label @ [CHR 0x27]
         @ '' is registered by another member; use your own agent label'')))
       else p)"

section \<open>Tools and routes\<close>

definition relay_register :: "relay \<Rightarrow> incoming \<Rightarrow> string \<Rightarrow> string \<Rightarrow> string \<Rightarrow> string option \<Rightarrow> pyval handler" where
  "relay_register R rq agent_id goal hostname session_id =
     tool (scoped R rq [''relay:write''] (validate_name agent_id ''agent_id'' (with_caller R rq (\<lambda>c.
       bindP (register R agent_id goal hostname session_id (q_now rq) (Some c)) (\<lambda>r. case r of
         Inl (HandsError _ m) \<Rightarrow> Ret (Inr (forbidden m))
       | Inl e \<Rightarrow> Ret (Inl e)
       | Inr d \<Rightarrow> replay_emit R ''coordination'' [(''action'', PyStr ''presence_register''), (''hostname'', PyStr hostname)]
           agent_id (Some (stamp_of c)) (Ret (Inr (PyDict (dict_merge [(''status'', PyStr ''registered'')] d)))))))))"

definition relay_heartbeat_presence :: "relay \<Rightarrow> incoming \<Rightarrow> string \<Rightarrow> string option \<Rightarrow> string option \<Rightarrow> pyval handler" where
  "relay_heartbeat_presence R rq agent_id session_id goal =
     tool (scoped R rq [''relay:write''] (validate_name agent_id ''agent_id'' (with_caller R rq (\<lambda>c.
       and_then (heartbeat_presence R agent_id session_id goal (q_now rq) (Some c)) (\<lambda>d. Ret (Inr (PyDict d)))))))"

definition relay_deregister :: "relay \<Rightarrow> incoming \<Rightarrow> string \<Rightarrow> pyval handler" where
  "relay_deregister R rq agent_id =
     tool (scoped R rq [''relay:write''] (validate_name agent_id ''agent_id'' (with_caller R rq (\<lambda>c.
       and_then (deregister R agent_id (Some c)) (\<lambda>d.
         replay_emit R ''coordination'' [(''action'', PyStr ''presence_deregister'')] agent_id (Some (stamp_of c))
           (Ret (Inr (PyDict d))))))))"

definition relay_who_is_online :: "relay \<Rightarrow> incoming \<Rightarrow> bool \<Rightarrow> pyval handler" where
  "relay_who_is_online R rq include_idle =
     tool (and_then (who_is_online R (q_now rq) include_idle) (\<lambda>agents.
       Ret (Inr (PyDict [(''agents'', PyList agents), (''count'', PyInt (int (length agents)))]))))"

definition single_presence :: "relay \<Rightarrow> string \<Rightarrow> rat \<Rightarrow> pydict option handler" where
  "single_presence R agent_id t =
     redis_call (HGETALL (presence_key agent_id)) (\<lambda>r. let row = reply_pairs r in
       if row = [] then Ret (Inr None) else Ret (Inr (Some (texts_dict (status_row R t row)))))"

definition route_get_presence :: "relay \<Rightarrow> incoming \<Rightarrow> string \<Rightarrow> pyval handler" where
  "route_get_presence R rq include_idle =
     route (and_then (who_is_online R (q_now rq) (py_lower include_idle \<noteq> ''false'')) (\<lambda>agents.
       json_response 200 (PyDict [(''agents'', PyList agents), (''count'', PyInt (int (length agents)))])))"

definition route_get_single_presence :: "relay \<Rightarrow> incoming \<Rightarrow> string \<Rightarrow> pyval handler" where
  "route_get_single_presence R rq agent_id =
     route (and_then (single_presence R agent_id (q_now rq)) (\<lambda>row. case row of
       None \<Rightarrow> json_response 404 (error_body ''not found'') | Some d \<Rightarrow> json_response 200 (PyDict d)))"

definition route_delete_presence :: "relay \<Rightarrow> incoming \<Rightarrow> string \<Rightarrow> pyval handler" where
  "route_delete_presence R rq agent_id =
     route (route_scoped R rq [''relay:write''] (route_caller R rq (\<lambda>c.
       and_then (deregister R agent_id (Some c)) (\<lambda>d.
         if get_val d ''reason'' = PyStr ''not_owner''
         then json_response 403 (error_body (''presence '' @ [CHR 0x27] @ agent_id @ [CHR 0x27] @ '' belongs to another member''))
         else json_response 200 (PyDict d)))))"

lemmas [handler_defs] = register_row_def register_def heartbeat_presence_def delete_row_def deregister_def
  who_is_online_def label_held_by_other_def label_owner_def label_refusal_def single_presence_def
  relay_register_def relay_heartbeat_presence_def relay_deregister_def relay_who_is_online_def
  route_get_presence_def route_get_single_presence_def route_delete_presence_def

section \<open>The keys it writes\<close>

text \<open>the index is a key of the same family, the one of the label \<open>__index\<close>\<close>

definition presence_keys :: "string set" where
  "presence_keys = range presence_key"

lemma presence_keys [simp]: "presence_key l \<in> presence_keys" "PRESENCE_INDEX \<in> presence_keys"
  by (auto simp: presence_keys_def PRESENCE_INDEX_def presence_key_def intro: image_eqI [where x = "''__index''"])

lemma only_label_refusal [only_intros]: "only (inside F) p \<Longrightarrow> only (inside F) (label_refusal R label c field p)"
  by (auto simp: label_refusal_def label_held_by_other_def Let_def intro!: only_intros)

lemma only_label_owner [simp]: "only (inside F) (label_owner R label)"
  by (auto simp: label_owner_def Let_def intro!: only_intros)

lemma only_label_held [simp]: "only (inside F) (label_held_by_other R label cl)"
  by (auto simp: label_held_by_other_def Let_def intro!: only_intros split: option.split)

lemma presence_operations [simp]:
  "only (inside presence_keys) (register R a g hn si t cl)" "only (inside presence_keys) (heartbeat_presence R a si go t cl)"
  "only (inside presence_keys) (deregister R a cl)" "only (inside presence_keys) (who_is_online R t idle)"
  "only (inside presence_keys) (single_presence R a t)"
  by (auto simp: register_def register_row_def heartbeat_presence_def deregister_def delete_row_def who_is_online_def
      single_presence_def Let_def intro!: only_intros split: option.split)

lemma presence_tools:
  "only (inside presence_keys) (relay_register R rq a g hn si)" "only (inside presence_keys) (relay_heartbeat_presence R rq a si go)"
  "only (inside presence_keys) (relay_deregister R rq a)" "only (inside presence_keys) (relay_who_is_online R rq idle)"
  "only (inside presence_keys) (route_get_presence R rq x)" "only (inside presence_keys) (route_get_single_presence R rq a)"
  "only (inside presence_keys) (route_delete_presence R rq a)"
  by (auto simp: relay_register_def relay_heartbeat_presence_def relay_deregister_def relay_who_is_online_def
      route_get_presence_def route_get_single_presence_def route_delete_presence_def
      intro!: only_intros split: option.split sum.split py_exc.split)

end
