(* ===== verification/Relay_Board.thy ===== *)
theory Relay_Board
  imports Relay_Presence
begin

text \<open>
  The bulletin board (\<open>relay/app/bulletin.py\<close>) and the channels with their backlog
  (\<open>relay/app/pubsub.py\<close>), with their tools and routes.
\<close>

definition post_key :: "string \<Rightarrow> string" where "post_key i = ''nr:post:'' @ i"
definition bulletin_key :: string where "bulletin_key = ''nr:bulletin''"
definition channel_key :: "string \<Rightarrow> string" where "channel_key c = ''nr:channel:'' @ c"
definition backlog_key :: "string \<Rightarrow> string" where "backlog_key c = ''nr:backlog:'' @ c"

definition stamped :: "pydict option \<Rightarrow> pydict \<Rightarrow> pydict" where
  "stamped stamp d = (case stamp of None \<Rightarrow> d | Some b \<Rightarrow> d @ [(''by'', PyDict b)])"

section \<open>Bulletin\<close>

definition post_record :: "string \<Rightarrow> string \<Rightarrow> string \<Rightarrow> string list \<Rightarrow> rat \<Rightarrow> pydict option \<Rightarrow> pydict" where
  "post_record post_id content author tags t stamp =
     stamped stamp [(''id'', PyStr post_id), (''content'', PyStr content), (''author'', PyStr author),
       (''tags'', PyList (map PyStr tags)), (''timestamp'', PyFloat t)]"

definition post_bulletin ::
  "relay \<Rightarrow> string \<Rightarrow> rat \<Rightarrow> string \<Rightarrow> string \<Rightarrow> string list \<Rightarrow> int \<Rightarrow> pydict option \<Rightarrow> pydict handler" where
  "post_bulletin R post_id t content author tags ttl_hours stamp =
     (let post = post_record post_id content author tags t stamp in
      redis_call (SET (post_key post_id) (dumps R (PyDict post)) False (Some (ttl_hours * 3600))) (\<lambda>_.
      redis_call (ZADD bulletin_key post_id t) (\<lambda>_.
      redis_call (EXPIRE bulletin_key (ttl_hours * 3600)) (\<lambda>_. Ret (Inr post)))))"

text \<open>\<open>t in value\<close>\<close>

definition held_in :: "string \<Rightarrow> pyval \<Rightarrow> bool option" where
  "held_in t v = (case v of PyList vs \<Rightarrow> Some (PyStr t \<in> set vs) | PyStr s \<Rightarrow> Some (occurs_in t s)
     | PyDict d \<Rightarrow> Some (has_key d t) | _ \<Rightarrow> None)"

fun any_held :: "string list \<Rightarrow> pyval \<Rightarrow> bool option" where
  "any_held [] v = Some False"
| "any_held (t # ts) v = (case held_in t v of None \<Rightarrow> None | Some True \<Rightarrow> Some True | Some False \<Rightarrow> any_held ts v)"

text \<open>\<open>continue\<close> in either filter keeps the results as they are\<close>

definition post_wanted :: "string list \<Rightarrow> string option \<Rightarrow> pydict \<Rightarrow> bool option" where
  "post_wanted tags author post =
     (case (if tags = [] then Some True
            else any_held tags (case map_of post ''tags'' of Some v \<Rightarrow> v | None \<Rightarrow> PyList [])) of
        None \<Rightarrow> None
      | Some ok \<Rightarrow> Some (ok \<and> (case author of Some a \<Rightarrow> a = [] \<or> get_val post ''author'' = PyStr a | None \<Rightarrow> True)))"

primrec read_posts :: "relay \<Rightarrow> string list \<Rightarrow> string option \<Rightarrow> int \<Rightarrow> string list \<Rightarrow> pyval list \<Rightarrow> pyval list handler" where
  "read_posts R tags author limit [] results = Ret (Inr results)"
| "read_posts R tags author limit (pid # pids) results =
     redis_call (GET (post_key pid)) (\<lambda>r. case reply_text r of
       None \<Rightarrow> redis_call (ZREM bulletin_key [pid]) (\<lambda>_. read_posts R tags author limit pids results)
     | Some raw \<Rightarrow>
         (case loads R raw of
            None \<Rightarrow> redis_call (ZREM bulletin_key [pid]) (\<lambda>_. read_posts R tags author limit pids results)
          | Some (PyDict post) \<Rightarrow>
              (case post_wanted tags author post of
                 None \<Rightarrow> raises ''argument is not iterable''
               | Some False \<Rightarrow> read_posts R tags author limit pids results
               | Some True \<Rightarrow>
                   (if int (length results) + 1 \<ge> limit then Ret (Inr (results @ [PyDict post]))
                    else read_posts R tags author limit pids (results @ [PyDict post])))
          | Some v \<Rightarrow> raises (CHR 0x27 # type_name v @ [CHR 0x27] @ '' object has no attribute 'get' '')))"

definition read_bulletin :: "relay \<Rightarrow> string list \<Rightarrow> string option \<Rightarrow> int \<Rightarrow> pyval list handler" where
  "read_bulletin R tags author limit =
     redis_call (ZREVRANGE bulletin_key 0 (limit * 2)) (\<lambda>ids. read_posts R tags author limit (reply_texts ids) [])"

definition get_bulletin_count :: "int handler" where
  "get_bulletin_count = redis_call (ZCARD bulletin_key) (\<lambda>r. Ret (Inr (reply_int r)))"

section \<open>Channels\<close>

definition channel_message :: "string \<Rightarrow> string \<Rightarrow> string list \<Rightarrow> rat \<Rightarrow> pydict option \<Rightarrow> pydict" where
  "channel_message content sender tags t stamp =
     stamped stamp [(''content'', PyStr content), (''sender'', PyStr sender), (''tags'', PyList (map PyStr tags)),
       (''timestamp'', PyFloat t)]"

definition broadcast ::
  "relay \<Rightarrow> rat \<Rightarrow> string \<Rightarrow> string \<Rightarrow> string \<Rightarrow> string list \<Rightarrow> int \<Rightarrow> int \<Rightarrow> pydict option \<Rightarrow> unit handler" where
  "broadcast R t channel content sender tags most ttl_seconds stamp =
     (let msg = dumps R (PyDict (channel_message content sender tags t stamp)) in
      ask_op (Effect (channel_key channel) (PyStr msg)) (\<lambda>_.
      redis_call (LPUSH (backlog_key channel) msg) (\<lambda>_.
      redis_call (LTRIM (backlog_key channel) 0 (most - 1)) (\<lambda>_.
      redis_call (EXPIRE (backlog_key channel) ttl_seconds) (\<lambda>_. Ret (Inr ()))))))"

definition get_backlog :: "relay \<Rightarrow> string \<Rightarrow> int \<Rightarrow> pyval list handler" where
  "get_backlog R channel limit =
     redis_call (LRANGE (backlog_key channel) 0 (limit - 1)) (\<lambda>r.
       Ret (Inr (List.map_filter (loads R) (reply_texts r))))"

section \<open>Tools and routes\<close>

definition MAX_CONTENT_SIZE :: nat where "MAX_CONTENT_SIZE = 65536"
definition MAX_LIMIT :: int where "MAX_LIMIT = 200"

definition too_large :: "string \<Rightarrow> pyval handler \<Rightarrow> pyval handler" where
  "too_large content p = (if MAX_CONTENT_SIZE < length content then Ret (Inr (error_body ''Content too large (max 64KB)'')) else p)"

definition tag_values :: "string list option \<Rightarrow> pyval" where
  "tag_values tags = PyList (map PyStr (case tags of Some ts \<Rightarrow> ts | None \<Rightarrow> []))"

definition tags_or :: "string list option \<Rightarrow> string list" where
  "tags_or tags = (case tags of Some ts \<Rightarrow> ts | None \<Rightarrow> [])"

definition relay_broadcast :: "relay \<Rightarrow> incoming \<Rightarrow> string \<Rightarrow> string \<Rightarrow> string \<Rightarrow> string list option \<Rightarrow> pyval handler" where
  "relay_broadcast R rq channel content sender tags =
     tool (scoped R rq [''relay:write'', ''relay:write:service'']
       (validate_name channel ''channel'' (validate_name sender ''sender'' (too_large content (with_caller R rq (\<lambda>c.
       label_refusal R sender c ''sender''
         (and_then (broadcast R (q_now rq) channel content sender (tags_or tags) (backlog_size R)
            (bulletin_ttl_hours R * 3600) (Some (stamp_of c))) (\<lambda>_.
          replay_emit R ''coordination'' [(''channel'', PyStr channel), (''message_summary'', PyStr (take 200 content)),
            (''tags'', tag_values tags)] sender (Some (stamp_of c))
            (Ret (Inr (PyDict [(''status'', PyStr ''sent''), (''channel'', PyStr channel)])))))))))))"

definition relay_get_messages :: "relay \<Rightarrow> string \<Rightarrow> int \<Rightarrow> pyval handler" where
  "relay_get_messages R channel limit =
     tool (validate_name channel ''channel''
       (and_then (get_backlog R channel (min limit MAX_LIMIT)) (\<lambda>messages.
          Ret (Inr (PyDict [(''channel'', PyStr channel), (''messages'', PyList messages),
            (''count'', PyInt (int (length messages)))])))))"

definition relay_post :: "relay \<Rightarrow> incoming \<Rightarrow> string \<Rightarrow> string \<Rightarrow> string list option \<Rightarrow> int option \<Rightarrow> pyval handler" where
  "relay_post R rq content author tags ttl_hours =
     tool (scoped R rq [''relay:write''] (validate_name author ''author'' (too_large content (with_caller R rq (\<lambda>c.
       label_refusal R author c ''author''
         (and_then (post_bulletin R (q_uid rq) (q_now rq) content author (tags_or tags)
            (case ttl_hours of Some n \<Rightarrow> n | None \<Rightarrow> bulletin_ttl_hours R) (Some (stamp_of c))) (\<lambda>post.
          replay_emit R ''coordination'' [(''channel'', PyStr ''bulletin''), (''message_summary'', PyStr (take 200 content)),
            (''tags'', tag_values tags)] author (Some (stamp_of c))
            (Ret (Inr (PyDict [(''status'', PyStr ''posted''), (''post'', PyDict post)]))))))))))"

definition relay_read :: "relay \<Rightarrow> string list option \<Rightarrow> string option \<Rightarrow> int \<Rightarrow> pyval handler" where
  "relay_read R tags author limit =
     tool ((case author of Some a \<Rightarrow> validate_name a ''author'' | None \<Rightarrow> (\<lambda>p. p))
       (and_then (read_bulletin R (tags_or tags) author (min limit MAX_LIMIT)) (\<lambda>posts.
          Ret (Inr (PyDict [(''posts'', PyList posts), (''count'', PyInt (int (length posts)))])))))"

definition route_get_bulletin :: "relay \<Rightarrow> int \<Rightarrow> pyval handler" where
  "route_get_bulletin R limit =
     route (and_then (read_bulletin R [] None (min limit 200)) (\<lambda>posts.
       json_response 200 (PyDict [(''posts'', PyList posts), (''count'', PyInt (int (length posts)))])))"

lemmas [handler_defs] = post_bulletin_def read_bulletin_def get_bulletin_count_def broadcast_def get_backlog_def
  too_large_def relay_broadcast_def relay_get_messages_def relay_post_def relay_read_def route_get_bulletin_def

section \<open>The keys they write\<close>

definition board_keys :: "string set" where
  "board_keys = range post_key \<union> {bulletin_key} \<union> range backlog_key"

lemma board_keys [simp]: "post_key i \<in> board_keys" "bulletin_key \<in> board_keys" "backlog_key c \<in> board_keys"
  by (auto simp: board_keys_def)

lemma only_too_large [only_intros]: "only P p \<Longrightarrow> only P (too_large content p)"
  by (auto simp: too_large_def)

lemma only_read_posts [simp]: "only (inside board_keys) (read_posts R tags author limit pids acc)"
  by (induction pids arbitrary: acc) (auto intro!: only_intros split: option.split pyval.split bool.split)

lemma board_operations [simp]:
  "only (inside board_keys) (post_bulletin R i t content author tags ttl_hours st)"
  "only (inside board_keys) (read_bulletin R tags au limit)" "only (inside board_keys) get_bulletin_count"
  "only (inside board_keys) (broadcast R t channel content sender tags most ttl_seconds st)"
  "only (inside board_keys) (get_backlog R channel limit)"
  by (auto simp: post_bulletin_def read_bulletin_def get_bulletin_count_def broadcast_def get_backlog_def Let_def intro!: only_intros)

lemma board_tools:
  "only (inside board_keys) (relay_broadcast R rq channel content sender tg)" "only (inside board_keys) (relay_get_messages R channel limit)"
  "only (inside board_keys) (relay_post R rq content author tg ttl_h)" "only (inside board_keys) (relay_read R tg au limit)"
  "only (inside board_keys) (route_get_bulletin R limit)"
  by (auto simp: relay_broadcast_def relay_get_messages_def relay_post_def relay_read_def route_get_bulletin_def
      intro!: only_intros split: option.split)

end
