(* ===== verification/Relay_Leases.thy ===== *)
theory Relay_Leases
  imports Relay_Board
begin

text \<open>
  Leases with fencing tokens and the older claims (\<open>relay/app/leases.py\<close> and the lease tools of
  \<open>relay/app/mcp_server.py\<close>): the Lua scripts as programs the server runs without interruption, the
  operations around them, the wait queue, and the tools an agent calls.
\<close>

section \<open>Keys\<close>

definition lease_key :: "string \<Rightarrow> string" where "lease_key r = ''nr:lease:'' @ r"
definition fence_key :: "string \<Rightarrow> string" where "fence_key r = ''nr:fence:'' @ r"
definition waitq_key :: "string \<Rightarrow> string" where "waitq_key r = ''nr:waitq:'' @ r"
definition claim_key :: "string \<Rightarrow> string" where "claim_key r = ''nr:claim:'' @ r"

section \<open>The scripts\<close>

text \<open>
  Lua's \<open>data.field\<close> of a decoded document: nil where an object or an array has no such field, an
  error on a number, a boolean or null. Tokens compare as numbers; a Lua number is exact to \<open>2^53\<close>.
\<close>

definition lua_index :: "pyval \<Rightarrow> string \<Rightarrow> pyval option" where
  "lua_index v k = (case v of PyDict d \<Rightarrow> Some (get_val d k) | PyList vs \<Rightarrow> Some PyNone | PyStr s \<Rightarrow> Some PyNone | _ \<Rightarrow> None)"

definition lua_decode :: "relay \<Rightarrow> string \<Rightarrow> (pyval \<Rightarrow> (rcmd, reply) prog) \<Rightarrow> (rcmd, reply) prog" where
  "lua_decode R raw k = (case cj_decode R raw of None \<Rightarrow> Ret (RErr ''ERR cjson'')
     | Some v \<Rightarrow> if lua_index v [] = None then Ret (RErr ''ERR attempt to index'') else k v)"

definition lua_field :: "pyval \<Rightarrow> string \<Rightarrow> pyval" where
  "lua_field v k = (case lua_index v k of Some w \<Rightarrow> w | None \<Rightarrow> PyNone)"

definition lease_record :: "string \<Rightarrow> int \<Rightarrow> string \<Rightarrow> int \<Rightarrow> string \<Rightarrow> string \<Rightarrow> pydict" where
  "lease_record agent_id token now ttl owner_workspace owner_member =
     [(''holder_id'', PyStr agent_id), (''fencing_token'', PyInt token), (''acquired_at'', PyStr now), (''ttl_seconds'', PyInt ttl)]
     @ (if owner_member \<noteq> [] then [(OWNER_WORKSPACE, PyStr owner_workspace), (OWNER_MEMBER, PyStr owner_member)] else [])"

definition acquire_script ::
  "relay \<Rightarrow> string \<Rightarrow> string \<Rightarrow> string \<Rightarrow> int \<Rightarrow> string \<Rightarrow> string \<Rightarrow> string \<Rightarrow> (rcmd, reply) prog" where
  "acquire_script R lkey fkey agent_id ttl now owner_workspace owner_member =
     lua (GET lkey) (\<lambda>existing. case existing of
        RText e \<Rightarrow> Ret (RMulti [RInt 0, RText e])
      | _ \<Rightarrow> lua (INCR fkey) (\<lambda>t.
          let data = cj_encode R (PyDict (lease_record agent_id (reply_int t) now ttl owner_workspace owner_member))
          in lua (SET lkey data False (Some ttl)) (\<lambda>_. Ret (RMulti [RInt 1, RText data]))))"

text \<open>ARGV tail of the owner check: enforce, workspace, member, caller is the deployment owner\<close>

definition owner_args :: "relay \<Rightarrow> caller option \<Rightarrow> bool \<times> string \<times> string \<times> bool" where
  "owner_args R caller =
     (case caller of None \<Rightarrow> (False, [], [], False)
      | Some c \<Rightarrow> if \<not> c_authenticated c then (False, [], [], False)
                 else (True, c_workspace c, c_member c, is_deployment_owner (r_dep R) caller))"

definition owner_passes :: "bool \<times> string \<times> string \<times> bool \<Rightarrow> pyval \<Rightarrow> bool" where
  "owner_passes args data =
     (case args of (enforce, workspace, member, deployment_owner) \<Rightarrow>
        if \<not> enforce then True
        else (case lua_field data OWNER_MEMBER of
            PyStr om \<Rightarrow> if om \<noteq> [] then om = member \<and> lua_field data OWNER_WORKSPACE = PyStr workspace
                        else deployment_owner
          | _ \<Rightarrow> deployment_owner))"

definition token_is :: "pyval \<Rightarrow> int \<Rightarrow> bool" where
  "token_is v token \<longleftrightarrow> as_number v = Some (of_int token)"

definition release_script :: "relay \<Rightarrow> string \<Rightarrow> string \<Rightarrow> int \<Rightarrow> bool \<times> string \<times> string \<times> bool \<Rightarrow> (rcmd, reply) prog" where
  "release_script R lkey agent_id expected_token args =
     lua (GET lkey) (\<lambda>existing. case existing of
        RText e \<Rightarrow> lua_decode R e (\<lambda>data.
          if lua_field data ''holder_id'' \<noteq> PyStr agent_id then Ret (RInt (- 1))
          else if \<not> owner_passes args data then Ret (RInt (- 3))
          else if 0 < expected_token \<and> \<not> token_is (lua_field data ''fencing_token'') expected_token then Ret (RInt (- 2))
          else lua (DEL lkey) (\<lambda>_. Ret (RInt 1)))
      | _ \<Rightarrow> Ret (RInt 0))"

definition heartbeat_script :: "relay \<Rightarrow> string \<Rightarrow> string \<Rightarrow> int \<Rightarrow> int \<Rightarrow> bool \<times> string \<times> string \<times> bool \<Rightarrow> (rcmd, reply) prog" where
  "heartbeat_script R lkey agent_id expected_token ttl args =
     lua (GET lkey) (\<lambda>existing. case existing of
        RText e \<Rightarrow> lua_decode R e (\<lambda>data.
          if lua_field data ''holder_id'' \<noteq> PyStr agent_id then Ret (RInt (- 1))
          else if \<not> owner_passes args data then Ret (RInt (- 3))
          else if \<not> token_is (lua_field data ''fencing_token'') expected_token then Ret (RInt (- 2))
          else lua (EXPIRE lkey ttl) (\<lambda>_. Ret (RInt 1)))
      | _ \<Rightarrow> Ret (RInt 0))"

text \<open>\<open>RELEASE_LUA\<close>, for a claim\<close>

definition claim_release_script :: "relay \<Rightarrow> string \<Rightarrow> string \<Rightarrow> bool \<times> string \<times> string \<times> bool \<Rightarrow> (rcmd, reply) prog" where
  "claim_release_script R key agent_id args =
     lua (GET key) (\<lambda>existing. case existing of
        RText e \<Rightarrow> lua_decode R e (\<lambda>data.
          if lua_field data ''agent_id'' \<noteq> PyStr agent_id then Ret (RInt (- 1))
          else if \<not> owner_passes args data then Ret (RInt (- 1))
          else lua (DEL key) (\<lambda>_. Ret (RInt 1)))
      | _ \<Rightarrow> Ret (RInt 0))"

section \<open>Operations\<close>

definition owner_member_of :: "caller option \<Rightarrow> string \<times> string" where
  "owner_member_of caller = (case caller of Some c \<Rightarrow> (c_workspace c, c_member c) | None \<Rightarrow> ([], []))"

definition acquire_op :: "relay \<Rightarrow> string \<Rightarrow> string \<Rightarrow> int \<Rightarrow> rat \<Rightarrow> caller option \<Rightarrow> op" where
  "acquire_op R resource_id agent_id ttl_seconds t caller =
     Eval (acquire_script R (lease_key resource_id) (fence_key resource_id) agent_id ttl_seconds (r_print R t)
       (fst (owner_member_of caller)) (snd (owner_member_of caller)))"

definition release_op :: "relay \<Rightarrow> string \<Rightarrow> string \<Rightarrow> int \<Rightarrow> caller option \<Rightarrow> op" where
  "release_op R resource_id agent_id fencing_token caller =
     Eval (release_script R (lease_key resource_id) agent_id fencing_token (owner_args R caller))"

definition heartbeat_op :: "relay \<Rightarrow> string \<Rightarrow> string \<Rightarrow> int \<Rightarrow> int \<Rightarrow> caller option \<Rightarrow> op" where
  "heartbeat_op R resource_id agent_id fencing_token ttl_seconds caller =
     Eval (heartbeat_script R (lease_key resource_id) agent_id fencing_token ttl_seconds (owner_args R caller))"

definition claim_release_op :: "relay \<Rightarrow> string \<Rightarrow> string \<Rightarrow> caller option \<Rightarrow> op" where
  "claim_release_op R resource_id agent_id caller =
     Eval (claim_release_script R (claim_key resource_id) agent_id (owner_args R caller))"

text \<open>\<open>d.get(k, default)\<close>\<close>

definition get_or :: "pydict \<Rightarrow> string \<Rightarrow> pyval \<Rightarrow> pyval" where
  "get_or d k v = (case map_of d k of Some w \<Rightarrow> w | None \<Rightarrow> v)"

definition multi_item :: "reply \<Rightarrow> nat \<Rightarrow> reply" where
  "multi_item r i = (case r of RMulti rs \<Rightarrow> if i < length rs then rs ! i else RNil | _ \<Rightarrow> RNil)"

definition acquire_lease :: "relay \<Rightarrow> string \<Rightarrow> string \<Rightarrow> int \<Rightarrow> rat \<Rightarrow> caller option \<Rightarrow> pydict handler" where
  "acquire_lease R resource_id agent_id ttl_seconds t caller =
     ask_op (acquire_op R resource_id agent_id ttl_seconds t caller) (\<lambda>result.
       loaded_dict R (case reply_text (multi_item result 1) of Some s \<Rightarrow> s | None \<Rightarrow> []) (\<lambda>data.
         if reply_int (multi_item result 0) \<noteq> 0 then
           (case map_of data ''fencing_token'' of
              None \<Rightarrow> raises (CHR 0x27 # ''fencing_token'' @ [CHR 0x27])
            | Some token \<Rightarrow> Ret (Inr [(''acquired'', PyBool True), (''resource_id'', PyStr resource_id),
                (''agent_id'', PyStr agent_id), (''fencing_token'', token), (''ttl_seconds'', PyInt ttl_seconds)]))
         else redis_call (TTL (lease_key resource_id)) (\<lambda>ttl.
           Ret (Inr [(''acquired'', PyBool False), (''resource_id'', PyStr resource_id),
             (''held_by'', get_or data ''holder_id'' (PyStr ''unknown'')),
             (''fencing_token'', get_or data ''fencing_token'' (PyInt 0)),
             (''expires_in'', PyInt (max (reply_int ttl) 0))]))))"

text \<open>the next in the queue is told by a bulletin post whose failure is only logged\<close>

definition notify_waitqueue :: "relay \<Rightarrow> string \<Rightarrow> rat \<Rightarrow> string \<Rightarrow> unit handler" where
  "notify_waitqueue R post_id t resource_id =
     redis_call (LPOP (waitq_key resource_id)) (\<lambda>next_agent. case reply_text next_agent of
       None \<Rightarrow> Ret (Inr ())
     | Some a \<Rightarrow> if a = [] then Ret (Inr ())
         else bindP (post_bulletin R post_id t
           (''Lease for '' @ [CHR 0x27] @ resource_id @ [CHR 0x27] @ '' is now available. You were next in queue.'')
           ''relay-system'' [''lease-notification'', resource_id] 1 None) (\<lambda>_. Ret (Inr ())))"

definition lease_reason :: "int \<Rightarrow> string" where
  "lease_reason result = (if result = 0 then ''no_active_lease'' else if result = - 1 then ''not_holder''
     else if result = - 3 then ''not_owner'' else ''token_mismatch'')"

definition release_lease ::
  "relay \<Rightarrow> string \<Rightarrow> rat \<Rightarrow> string \<Rightarrow> string \<Rightarrow> int \<Rightarrow> caller option \<Rightarrow> pydict handler" where
  "release_lease R post_id t resource_id agent_id fencing_token caller =
     ask_op (release_op R resource_id agent_id fencing_token caller) (\<lambda>result.
       if result = RInt 1 then and_then (notify_waitqueue R post_id t resource_id) (\<lambda>_.
         Ret (Inr [(''released'', PyBool True), (''resource_id'', PyStr resource_id)]))
       else Ret (Inr [(''released'', PyBool False), (''reason'', PyStr (lease_reason (reply_int result)))]))"

definition lease_heartbeat :: "relay \<Rightarrow> string \<Rightarrow> string \<Rightarrow> int \<Rightarrow> int \<Rightarrow> caller option \<Rightarrow> pydict handler" where
  "lease_heartbeat R resource_id agent_id fencing_token ttl_seconds caller =
     ask_op (heartbeat_op R resource_id agent_id fencing_token ttl_seconds caller) (\<lambda>result.
       if result = RInt 1 then Ret (Inr [(''extended'', PyBool True), (''resource_id'', PyStr resource_id),
         (''ttl_seconds'', PyInt ttl_seconds)])
       else Ret (Inr [(''extended'', PyBool False), (''reason'', PyStr (lease_reason (reply_int result)))]))"

definition get_lease_status :: "relay \<Rightarrow> string \<Rightarrow> pydict handler" where
  "get_lease_status R resource_id =
     (let free = Ret (Inr [(''resource_id'', PyStr resource_id), (''held'', PyBool False)]) in
      redis_call (GET (lease_key resource_id)) (\<lambda>raw. case reply_text raw of
        None \<Rightarrow> free
      | Some text \<Rightarrow> if text = [] then free else
          (case loads R text of
             None \<Rightarrow> free
           | Some v \<Rightarrow>
               redis_call (TTL (lease_key resource_id)) (\<lambda>ttl.
               redis_call (LLEN (waitq_key resource_id)) (\<lambda>waiting.
               (case v of PyDict data \<Rightarrow>
                  Ret (Inr [(''resource_id'', PyStr resource_id), (''held'', PyBool True),
                    (''holder_id'', get_or data ''holder_id'' (PyStr ''unknown'')),
                    (''fencing_token'', get_or data ''fencing_token'' (PyInt 0)),
                    (''acquired_at'', get_val data ''acquired_at''), (''ttl_seconds'', get_or data ''ttl_seconds'' (PyInt 0)),
                    (''expires_in'', PyInt (max (reply_int ttl) 0)), (''waitqueue_length'', PyInt (reply_int waiting))])
                | _ \<Rightarrow> raises (CHR 0x27 # type_name v @ [CHR 0x27] @ '' object has no attribute 'get' '')))))))"

definition join_waitqueue :: "string \<Rightarrow> string \<Rightarrow> pydict handler" where
  "join_waitqueue resource_id agent_id =
     redis_call (RPUSH (waitq_key resource_id) agent_id) (\<lambda>_.
     redis_call (EXPIRE (waitq_key resource_id) 86400) (\<lambda>_.
     redis_call (LLEN (waitq_key resource_id)) (\<lambda>n.
       Ret (Inr [(''queued'', PyBool True), (''resource_id'', PyStr resource_id), (''position'', PyInt (reply_int n))]))))"

section \<open>Tools\<close>

definition resource_char :: "char \<Rightarrow> bool" where
  "resource_char c \<longleftrightarrow> id_char c \<or> c = CHR '':'' \<or> c = CHR '' ''"

definition dots :: "char \<Rightarrow> char" where
  "dots c = (if c = CHR ''/'' then CHR ''.'' else c)"

text \<open>the parts of a \<open>PurePosixPath\<close> hold \<open>..\<close> when one of the pieces between slashes is \<open>..\<close>\<close>

definition normalize_resource_id :: "string \<Rightarrow> py_exc + string" where
  "normalize_resource_id resource_id =
     (let rid = map (\<lambda>c. if c = CHR 0x5C then CHR ''/'' else c) (py_strip resource_id) in
      if rid = [] then Inl (value_error ''Invalid resource_id: must not be empty'')
      else if ''..'' \<in> set (split_on (CHR ''/'') rid)
        then Inl (value_error ''Invalid resource_id: path traversal is not allowed'')
      else (let normalized = map dots (if starts_with rid ''/'' then tl rid else rid) in
        if matches_line resource_char 200 normalized then Inr normalized
        else Inl (value_error ''Invalid resource_id: must be 1-200 alphanumeric/._- : or space chars'')))"

definition with_resource :: "string \<Rightarrow> (string \<Rightarrow> 'a handler) \<Rightarrow> 'a handler" where
  "with_resource resource_id k = (case normalize_resource_id resource_id of Inl e \<Rightarrow> Ret (Inl e) | Inr r \<Rightarrow> k r)"

definition claim_record :: "string \<Rightarrow> rat \<Rightarrow> caller \<Rightarrow> pydict" where
  "claim_record agent_id t c = [(''agent_id'', PyStr agent_id), (''timestamp'', PyFloat t)] @ texts_dict (owner_fields c)"

text \<open>\<open>holder["agent_id"]\<close> of the claim in the way\<close>

definition claim_holder :: "relay \<Rightarrow> string option \<Rightarrow> (pyval \<Rightarrow> 'a handler) \<Rightarrow> 'a handler" where
  "claim_holder R raw k =
     (case (case raw of None \<Rightarrow> None | Some s \<Rightarrow> if s = [] then None else loads R s) of
        None \<Rightarrow> k (PyStr ''unknown'')
      | Some (PyDict d) \<Rightarrow> (case map_of d ''agent_id'' of Some v \<Rightarrow> k v | None \<Rightarrow> raises (CHR 0x27 # ''agent_id'' @ [CHR 0x27]))
      | Some v \<Rightarrow> raises (CHR 0x27 # type_name v @ [CHR 0x27] @ '' object is not subscriptable''))"

definition relay_claim :: "relay \<Rightarrow> incoming \<Rightarrow> string \<Rightarrow> string \<Rightarrow> int option \<Rightarrow> pyval handler" where
  "relay_claim R rq resource_id agent_id ttl_minutes =
     tool (scoped R rq [''relay:write''] (with_resource resource_id (\<lambda>rid. validate_name agent_id ''agent_id''
       (with_caller R rq (\<lambda>c.
         let ttl = (case ttl_minutes of Some m \<Rightarrow> m | None \<Rightarrow> claim_ttl_minutes R) in
         redis_call (SET (claim_key rid) (dumps R (PyDict (claim_record agent_id (q_now rq) c))) True (Some (ttl * 60))) (\<lambda>acquired.
           if acquired \<noteq> RNil then
             replay_emit R ''claim'' [(''resource_id'', PyStr rid), (''ttl_minutes'', PyInt ttl)] agent_id (Some (stamp_of c))
               (Ret (Inr (PyDict [(''claimed'', PyBool True), (''resource_id'', PyStr rid), (''agent_id'', PyStr agent_id),
                 (''ttl_minutes'', PyInt ttl)])))
           else redis_call (GET (claim_key rid)) (\<lambda>holder.
             redis_call (TTL (claim_key rid)) (\<lambda>left.
               claim_holder R (reply_text holder) (\<lambda>held_by.
                 Ret (Inr (PyDict [(''claimed'', PyBool False), (''held_by'', held_by),
                   (''expires_in'', PyInt (max (reply_int left) 0)), (''resource_id'', PyStr rid)])))))))))))"

definition released_reply :: "string \<Rightarrow> pyval" where
  "released_reply rid = PyDict [(''released'', PyBool True), (''resource_id'', PyStr rid)]"

definition not_released :: "string \<Rightarrow> pyval" where
  "not_released reason = PyDict [(''released'', PyBool False), (''reason'', PyStr reason)]"

definition relay_release :: "relay \<Rightarrow> incoming \<Rightarrow> string \<Rightarrow> string \<Rightarrow> int \<Rightarrow> pyval handler" where
  "relay_release R rq resource_id agent_id fencing_token =
     tool (scoped R rq [''relay:write''] (with_resource resource_id (\<lambda>rid. validate_name agent_id ''agent_id''
       (with_caller R rq (\<lambda>c.
         let announced = replay_emit R ''release'' [(''resource_id'', PyStr rid)] agent_id (Some (stamp_of c))
               (Ret (Inr (released_reply rid))) in
         and_then (release_lease R (q_uid rq) (q_now rq) rid agent_id fencing_token (Some c)) (\<lambda>lease.
           if truthy (get_val lease ''released'') then announced
           else if get_val lease ''reason'' \<noteq> PyStr ''no_active_lease'' \<and> get_val lease ''reason'' \<noteq> PyStr ''not_holder''
           then Ret (Inr (PyDict lease))
           else ask_op (claim_release_op R rid agent_id (Some c)) (\<lambda>result.
             if result = RInt 1 then announced
             else if result = RInt 0 then Ret (Inr (not_released ''no active lease or claim''))
             else Ret (Inr (not_released ''not owner'')))))))))"

definition relay_lease :: "relay \<Rightarrow> incoming \<Rightarrow> string \<Rightarrow> string \<Rightarrow> int option \<Rightarrow> pyval handler" where
  "relay_lease R rq resource_id agent_id ttl_minutes =
     tool (scoped R rq [''relay:write''] (with_resource resource_id (\<lambda>rid. validate_name agent_id ''agent_id''
       (with_caller R rq (\<lambda>c.
         let ttl_sec = (case ttl_minutes of Some m \<Rightarrow> if m \<noteq> 0 then m else claim_ttl_minutes R | None \<Rightarrow> claim_ttl_minutes R) * 60 in
         and_then (acquire_lease R rid agent_id ttl_sec (q_now rq) (Some c)) (\<lambda>result.
           if truthy (get_val result ''acquired'') then
             replay_emit R ''claim'' [(''resource_id'', PyStr rid), (''fencing_token'', get_val result ''fencing_token''),
               (''ttl_seconds'', PyInt ttl_sec)] agent_id (Some (stamp_of c)) (Ret (Inr (PyDict result)))
           else Ret (Inr (PyDict result))))))))"

definition relay_heartbeat :: "relay \<Rightarrow> incoming \<Rightarrow> string \<Rightarrow> int \<Rightarrow> string \<Rightarrow> pyval handler" where
  "relay_heartbeat R rq resource_id fencing_token agent_id =
     tool (scoped R rq [''relay:write''] (with_resource resource_id (\<lambda>rid. with_caller R rq (\<lambda>c.
       and_then (lease_heartbeat R rid agent_id fencing_token (claim_ttl_minutes R * 60) (Some c)) (\<lambda>d. Ret (Inr (PyDict d)))))))"

definition relay_lease_status :: "relay \<Rightarrow> string \<Rightarrow> pyval handler" where
  "relay_lease_status R resource_id =
     tool (with_resource resource_id (\<lambda>rid. and_then (get_lease_status R rid) (\<lambda>d. Ret (Inr (PyDict d)))))"

lemma only_with_resource [only_intros]: "(\<And>r. only P (k r)) \<Longrightarrow> only P (with_resource resource_id k)"
  by (auto simp: with_resource_def split: sum.split)

section \<open>The keys they write\<close>

lemma only_lua_decode [only_intros]: "(\<And>v. only P (k v)) \<Longrightarrow> only P (lua_decode R raw k)"
  by (auto simp: lua_decode_def split: option.split)

lemma only_claim_holder [only_intros]: "(\<And>v. only P (k v)) \<Longrightarrow> only P (claim_holder R raw k)"
  by (auto simp: claim_holder_def split: option.split pyval.split)

lemma lease_ops_inside:
  "inside {lease_key r, fence_key r} (acquire_op R r a l t cl)" "inside {lease_key r} (release_op R r a n cl)"
  "inside {lease_key r} (heartbeat_op R r a n l cl)" "inside {claim_key r} (claim_release_op R r a cl)"
  by (auto simp: acquire_op_def acquire_script_def release_op_def release_script_def heartbeat_op_def heartbeat_script_def
      claim_release_op_def claim_release_script_def Let_def intro!: inside_Eval only_intros split: reply.split)

definition claim_keys :: "string set" where
  "claim_keys = range claim_key"

lemma claim_keys [simp]: "claim_key r \<in> claim_keys"
  by (simp add: claim_keys_def)

lemma claim_tools:
  "only (inside claim_keys) (relay_claim R rq resource a ttl_m)" "only (inside claim_keys) (relay_lease_status R resource)"
  by (auto simp: relay_claim_def relay_lease_status_def get_lease_status_def Let_def intro!: only_intros
      split: option.split pyval.split)

end
