(* ===== verification/Relay_Fence.thy ===== *)
theory Relay_Fence
  imports Relay_Leases
begin

text \<open>
  What the lease scripts guarantee: the fencing tokens of a resource only grow, whatever operations
  of whatever callers interleave, fail half-way or expire; a lease ends by its owner's release or by
  its time; a stale token releases and extends nothing.
\<close>

section \<open>The fence and the lease in the keyspace\<close>

definition fence_ok :: "string \<Rightarrow> keyspace \<Rightarrow> bool" where
  "fence_ok r K \<longleftrightarrow> K (fence_key r) = None \<or>
     (\<exists>n. K (fence_key r) = Some (OStr (str_of_int n), None) \<and> 0 < n \<and> n < 2 ^ 63)"

definition fence_value :: "string \<Rightarrow> keyspace \<Rightarrow> int" where
  "fence_value r K = (case K (fence_key r) of Some (OStr v, t) \<Rightarrow> int_of_text v | _ \<Rightarrow> 0)"

definition lease_text :: "string \<Rightarrow> keyspace \<Rightarrow> string option" where
  "lease_text r K = (case K (lease_key r) of Some (OStr v, t) \<Rightarrow> Some v | _ \<Rightarrow> None)"

definition lease_at :: "relay \<Rightarrow> string \<Rightarrow> keyspace \<Rightarrow> pydict option" where
  "lease_at R r K = (case lease_text r K of None \<Rightarrow> None
     | Some v \<Rightarrow> (case cj_decode R v of Some (PyDict d) \<Rightarrow> Some d | _ \<Rightarrow> None))"

lemma lease_fence_keys [simp]:
  "lease_key r \<noteq> fence_key r'" "fence_key r \<noteq> lease_key r'" "lease_key r = lease_key r' \<longleftrightarrow> r = r'"
  "fence_key r = fence_key r' \<longleftrightarrow> r = r'"
  by (simp_all add: lease_key_def fence_key_def)

lemma acquire_effect:
  fixes R r K agent_id ttl t caller
  defines "res \<equiv> kdo (acquire_op R r agent_id ttl t caller) K"
  assumes "fence_ok r K"
  shows "(\<exists>e. fst res = RMulti [RInt 0, RText e]) \<and> snd res = K
    \<or> (\<exists>m. fst res = RErr m) \<and> fence_ok r (snd res) \<and> fence_value r K \<le> fence_value r (snd res) \<and> (\<forall>k. k \<noteq> fence_key r \<longrightarrow> snd res k = K k)
    \<or> (let n = fence_value r K + 1;
           data = cj_encode R (PyDict (lease_record agent_id n (r_print R t) ttl (fst (owner_member_of caller)) (snd (owner_member_of caller))))
       in fst res = RMulti [RInt 1, RText data] \<and> fence_ok r (snd res) \<and> fence_value r (snd res) = n \<and> K (lease_key r) = None \<and> 0 < ttl
          \<and> snd res (lease_key r) = Some (OStr data, Some (nat (1000 * ttl))) \<and> (\<forall>k. k \<noteq> fence_key r \<and> k \<noteq> lease_key r \<longrightarrow> snd res k = K k))"
proof (cases "K (lease_key r)")
  case (Some e)
  obtain ob tl where e: "e = (ob, tl)" by (cases e)
  with Some assms show ?thesis
    by (cases ob) (simp_all add: acquire_op_def acquire_script_def lua_def wrongtype_def)
next
  case None
  consider (fresh) "K (fence_key r) = None"
    | (num) n where "K (fence_key r) = Some (OStr (str_of_int n), None)" "0 < n" "n < 2 ^ 63"
    using assms by (auto simp: fence_ok_def)
  then show ?thesis
  proof cases
    case fresh
    with None show ?thesis
      unfolding res_def
      by (cases "ttl \<le> 0") (auto simp: acquire_op_def acquire_script_def lua_def fence_ok_def fence_value_def Let_def reply_int_def)
  next
    case num
    show ?thesis
    proof (cases "n = 2 ^ 63 - 1")
      case True
      with num None show ?thesis
        unfolding res_def
        by (auto simp: acquire_op_def acquire_script_def lua_def fence_ok_def fence_value_def)
    next
      case False
      with num None show ?thesis
        unfolding res_def
        by (cases "ttl \<le> 0") (auto simp: acquire_op_def acquire_script_def lua_def fence_ok_def fence_value_def Let_def reply_int_def)
    qed
  qed
qed

section \<open>What Lua's JSON module promises\<close>

text \<open>
  An object of texts and integers reads back, in Lua and in Python, with the same fields; an integer
  keeps its value below \<open>10^14\<close> (\<open>cjson\<close> prints fourteen digits). The order of keys is not kept.
\<close>

definition same_fields :: "pydict \<Rightarrow> pydict \<Rightarrow> bool" where
  "same_fields d d' \<longleftrightarrow>
     (\<forall>k s. map_of d k = Some (PyStr s) \<longrightarrow> map_of d' k = Some (PyStr s)) \<and>
     (\<forall>k i. map_of d k = Some (PyInt i) \<longrightarrow> \<bar>i\<bar> < 10 ^ 14 \<longrightarrow> map_of d' k = Some (PyInt i)) \<and>
     (\<forall>k. map_of d k = None \<longrightarrow> map_of d' k = None)"

definition plain_value :: "pyval \<Rightarrow> bool" where
  "plain_value v \<longleftrightarrow> (case v of PyStr s \<Rightarrow> True | PyInt i \<Rightarrow> True | _ \<Rightarrow> False)"

definition cjson_ok :: "relay \<Rightarrow> bool" where
  "cjson_ok R \<longleftrightarrow> (\<forall>d. distinct (map fst d) \<longrightarrow> list_all (\<lambda>kv. plain_value (snd kv)) d \<longrightarrow>
     (\<exists>d'. cj_decode R (cj_encode R (PyDict d)) = Some (PyDict d') \<and> same_fields d d') \<and>
     (\<exists>d'. loads R (cj_encode R (PyDict d)) = Some (PyDict d') \<and> same_fields d d'))"

lemma lease_record_plain: "list_all (\<lambda>kv. plain_value (snd kv)) (lease_record a n t l ow om)"
  by (simp add: lease_record_def plain_value_def)

lemma lease_record_distinct: "distinct (map fst (lease_record a n t l ow om))"
  by (auto simp: lease_record_def OWNER_WORKSPACE_def OWNER_MEMBER_def)

lemma lease_loads:
  assumes "cjson_ok R"
  obtains d' where "loads R (cj_encode R (PyDict (lease_record a n t l ow om))) = Some (PyDict d')"
    and "same_fields (lease_record a n t l ow om) d'"
  using assms lease_record_plain lease_record_distinct unfolding cjson_ok_def by blast

lemma lease_decodes:
  assumes "cjson_ok R"
  obtains d' where "cj_decode R (cj_encode R (PyDict (lease_record a n t l ow om))) = Some (PyDict d')"
    and "same_fields (lease_record a n t l ow om) d'"
  using assms lease_record_plain lease_record_distinct unfolding cjson_ok_def by blast

section \<open>Tokens in replies and in results\<close>

definition token_in :: "pydict \<Rightarrow> int option" where
  "token_in d = (case map_of d ''fencing_token'' of Some (PyInt n) \<Rightarrow> Some n | _ \<Rightarrow> None)"

definition reply_token :: "relay \<Rightarrow> reply \<Rightarrow> int option" where
  "reply_token R reply =
     (if reply_int (multi_item reply 0) = 0 then None
      else (case loads R (case reply_text (multi_item reply 1) of Some s \<Rightarrow> s | None \<Rightarrow> []) of
        Some (PyDict d) \<Rightarrow> token_in d | _ \<Rightarrow> None))"

text \<open>the token a finished lease call gave its caller\<close>

definition dict_token :: "py_exc + pydict \<Rightarrow> int option" where
  "dict_token res = (case res of Inr d \<Rightarrow> if get_val d ''acquired'' = PyBool True then token_in d else None | _ \<Rightarrow> None)"

definition result_token :: "py_exc + pyval \<Rightarrow> int option" where
  "result_token res = (case res of Inr (PyDict d) \<Rightarrow> dict_token (Inr d) | _ \<Rightarrow> None)"

definition acquires :: "relay \<Rightarrow> string \<Rightarrow> op \<Rightarrow> bool" where
  "acquires R r c \<longleftrightarrow> (\<exists>a l t cl. c = acquire_op R r a l t cl)"

text \<open>A lease call that has its token returns no other; one that has none got none.\<close>

primrec settled :: "('a \<Rightarrow> int option) \<Rightarrow> int \<Rightarrow> (op, 'a) prog \<Rightarrow> bool" where
  "settled g n (Ret res) \<longleftrightarrow> g res = None \<or> g res = Some n"
| "settled g n (Do c k) \<longleftrightarrow> (\<forall>reply. settled g n (k reply))"

primrec unserved :: "relay \<Rightarrow> string \<Rightarrow> ('a \<Rightarrow> int option) \<Rightarrow> (op, 'a) prog \<Rightarrow> bool" where
  "unserved R r g (Ret res) \<longleftrightarrow> g res = None"
| "unserved R r g (Do c k) \<longleftrightarrow>
     (\<forall>reply. if acquires R r c
        then (case reply_token R reply of None \<Rightarrow> unserved R r g (k reply) | Some n \<Rightarrow> settled g n (k reply))
        else unserved R r g (k reply))"

lemma unserved_Do:
  assumes "unserved R r g (Do c k)"
  shows "\<not> acquires R r c \<or> reply_token R reply = None \<Longrightarrow> unserved R r g (k reply)"
    and "acquires R r c \<Longrightarrow> reply_token R reply = Some n \<Longrightarrow> settled g n (k reply)"
proof -
  have step: "if acquires R r c
      then (case reply_token R reply of None \<Rightarrow> unserved R r g (k reply) | Some n \<Rightarrow> settled g n (k reply))
      else unserved R r g (k reply)"
    using assms by simp
  show "\<not> acquires R r c \<or> reply_token R reply = None \<Longrightarrow> unserved R r g (k reply)"
    using step by (cases "acquires R r c") auto
  show "acquires R r c \<Longrightarrow> reply_token R reply = Some n \<Longrightarrow> settled g n (k reply)"
    using step by simp
qed

lemma settled_bindP:
  "settled g n p \<Longrightarrow> (\<And>a. g a = None \<or> g a = Some n \<Longrightarrow> settled g' n (f a)) \<Longrightarrow> settled g' n (bindP p f)"
  by (induction p) auto

lemma unserved_bindP:
  "unserved R r g p \<Longrightarrow> (\<And>a. g a = None \<Longrightarrow> unserved R r g' (f a)) \<Longrightarrow>
   (\<And>a n. g a = None \<or> g a = Some n \<Longrightarrow> settled g' n (f a)) \<Longrightarrow> unserved R r g' (bindP p f)"
proof (induction p)
  case (Do c k)
  have "unserved R r g' (bindP (k reply) f)" if "unserved R r g (k reply)" for reply
    using Do that by blast
  moreover have "settled g' n (bindP (k reply) f)" if "settled g n (k reply)" for reply n
    using settled_bindP [OF that] Do.prems(3) by blast
  moreover have "if acquires R r c
      then (case reply_token R reply of None \<Rightarrow> unserved R r g (k reply) | Some n \<Rightarrow> settled g n (k reply))
      else unserved R r g (k reply)" for reply
    using Do.prems(1) by simp
  ultimately have "if acquires R r c
      then (case reply_token R reply of None \<Rightarrow> unserved R r g' (bindP (k reply) f) | Some n \<Rightarrow> settled g' n (bindP (k reply) f))
      else unserved R r g' (bindP (k reply) f)" for reply
    by (cases "reply_token R reply") (metis option.simps(4), metis option.simps(5))
  then show ?case by simp
qed simp

lemma reply_token_err [simp]: "reply_token R (RErr m) = None"
  by (simp add: reply_token_def multi_item_def reply_int_def)

lemma reply_token_taken [simp]: "reply_token R (RMulti [RInt 0, e]) = None"
  by (simp add: reply_token_def multi_item_def reply_int_def)

lemma reply_token_granted:
  assumes "cjson_ok R" and "\<bar>n\<bar> < 10 ^ 14"
  shows "reply_token R (RMulti [RInt 1, RText (cj_encode R (PyDict (lease_record a n t l ow om)))]) = Some n"
proof -
  obtain d' where d': "loads R (cj_encode R (PyDict (lease_record a n t l ow om))) = Some (PyDict d')"
    "same_fields (lease_record a n t l ow om) d'" by (rule lease_loads [OF assms(1)])
  have "map_of (lease_record a n t l ow om) ''fencing_token'' = Some (PyInt n)" by (simp add: lease_record_def)
  with d'(2) assms(2) have "map_of d' ''fencing_token'' = Some (PyInt n)" by (auto simp: same_fields_def)
  with d'(1) show ?thesis
    by (simp add: reply_token_def token_in_def multi_item_def reply_int_def reply_text_def)
qed

lemma acquires_simps [simp]:
  "acquires R r (acquire_op R r a l t cl)" "\<not> acquires R r (Cmd c)" "\<not> acquires R r (Effect kind v)"
  by (auto simp: acquires_def acquire_op_def)

lemma settled_Ret: "g res = None \<Longrightarrow> settled g n (Ret res)"
  by simp

lemma result_token_simps [simp]:
  "result_token (Inl e) = None" "result_token (Inr (PyDict d)) = dict_token (Inr d)" "dict_token (Inl e) = None"
  "result_token (Inr no_principal) = None"
  by (simp_all add: result_token_def dict_token_def no_principal_def get_val_def)

lemma refused_no_token: "scope_refusal f d i required = Some e \<Longrightarrow> dict_token (Inr e) = None"
  by (auto simp: scope_refusal_def dict_token_def get_val_def split: if_splits)

lemma unserved_tool:
  assumes "unserved R r result_token p"
  shows "unserved R r result_token (tool p)"
  unfolding tool_def catching_def
  by (rule unserved_bindP [OF assms]) (auto simp: dict_token_def get_val_def split: sum.split)

lemma unserved_acquire: "unserved R r dict_token (acquire_lease R r agent_id ttl t caller)"
proof -
  define body where "body result = loaded_dict R (case reply_text (multi_item result 1) of Some s \<Rightarrow> s | None \<Rightarrow> []) (\<lambda>data.
         if reply_int (multi_item result 0) \<noteq> 0 then
           (case map_of data ''fencing_token'' of
              None \<Rightarrow> raises (CHR 0x27 # ''fencing_token'' @ [CHR 0x27])
            | Some token \<Rightarrow> Ret (Inr [(''acquired'', PyBool True), (''resource_id'', PyStr r),
                (''agent_id'', PyStr agent_id), (''fencing_token'', token), (''ttl_seconds'', PyInt ttl)]))
         else redis_call (TTL (lease_key r)) (\<lambda>left.
           Ret (Inr [(''acquired'', PyBool False), (''resource_id'', PyStr r),
             (''held_by'', get_or data ''holder_id'' (PyStr ''unknown'')),
             (''fencing_token'', get_or data ''fencing_token'' (PyInt 0)),
             (''expires_in'', PyInt (max (reply_int left) 0))])))" for result
  have free: "unserved R r dict_token (redis_call (TTL (lease_key r)) (\<lambda>left.
           Ret (Inr [(''acquired'', PyBool False), (''resource_id'', PyStr r), (''held_by'', w), (''fencing_token'', x),
             (''expires_in'', PyInt (max (reply_int left) 0))])))" for w x
    by (auto simp: ask_op_def dict_token_def get_val_def split: reply.split)
  have got: "case reply_token R result of None \<Rightarrow> unserved R r dict_token (body result)
      | Some n \<Rightarrow> settled dict_token n (body result)" for result
  proof (cases "loads R (case reply_text (multi_item result 1) of Some s \<Rightarrow> s | None \<Rightarrow> [])")
    case None
    then show ?thesis by (simp add: body_def loaded_dict_def loaded_def reply_token_def)
  next
    case (Some v)
    show ?thesis
    proof (cases "\<exists>d. v = PyDict d")
      case True
      then obtain d where d: "v = PyDict d" ..
      show ?thesis
      proof (cases "reply_int (multi_item result 0) = 0")
        case True
        with Some d show ?thesis by (simp add: body_def loaded_dict_def loaded_def reply_token_def free)
      next
        case False
        with Some d show ?thesis
          by (auto simp: body_def loaded_dict_def loaded_def reply_token_def token_in_def dict_token_def get_val_def
              split: option.split pyval.split)
      qed
    next
      case False
      with Some show ?thesis
        by (cases v) (simp_all add: body_def loaded_dict_def loaded_def reply_token_def)
    qed
  qed
  have err: "reply_token R (RErr m) = None" for m by simp
  have "acquire_lease R r agent_id ttl t caller = ask_op (acquire_op R r agent_id ttl t caller) body"
    by (simp only: acquire_lease_def body_def [abs_def])
  with got show ?thesis by (auto simp: ask_op_def split: reply.split)
qed

lemma unserved_lease:
  assumes "normalize_resource_id resource = Inr r"
  shows "unserved R r result_token (relay_lease R rq resource agent_id ttl_minutes)"
  unfolding relay_lease_def
proof (rule unserved_tool)
  have go: "unserved R r result_token (and_then (acquire_lease R r agent_id ttl t caller)
      (\<lambda>result. if truthy (get_val result ''acquired'') then
         replay_emit R ''claim'' (info result) agent_id st (Ret (Inr (PyDict result))) else Ret (Inr (PyDict result))))"
    for ttl t caller st info
    unfolding and_then_def
    by (rule unserved_bindP [OF unserved_acquire])
      (auto simp: replay_emit_def best_effort_def dict_token_def split: sum.split)
  show "unserved R r result_token (scoped R rq [''relay:write''] (with_resource resource (\<lambda>rid. validate_name agent_id ''agent_id''
       (with_caller R rq (\<lambda>c.
         let ttl_sec = (case ttl_minutes of Some m \<Rightarrow> if m \<noteq> 0 then m else claim_ttl_minutes R | None \<Rightarrow> claim_ttl_minutes R) * 60 in
         and_then (acquire_lease R rid agent_id ttl_sec (q_now rq) (Some c)) (\<lambda>result.
           if truthy (get_val result ''acquired'') then
             replay_emit R ''claim'' [(''resource_id'', PyStr rid), (''fencing_token'', get_val result ''fencing_token''),
               (''ttl_seconds'', PyInt ttl_sec)] agent_id (Some (stamp_of c)) (Ret (Inr (PyDict result)))
           else Ret (Inr (PyDict result))))))))"
    using assms go
    by (auto simp: scoped_def with_resource_def validate_name_def with_caller_def Let_def refused_no_token
        split: option.split)
qed

section \<open>Who may end or extend a lease\<close>

text \<open>the lease's holder label, its owner and its token, as a release or a heartbeat must match them\<close>

definition may_act :: "relay \<Rightarrow> string \<Rightarrow> caller option \<Rightarrow> pydict \<Rightarrow> bool" where
  "may_act R a cl d \<longleftrightarrow> get_val d ''holder_id'' = PyStr a \<and> owner_passes (owner_args R cl) (PyDict d)"

lemma lua_field_str: "lua_field v k = PyStr s \<Longrightarrow> \<exists>d. v = PyDict d \<and> get_val d k = PyStr s"
  by (cases v) (auto simp: lua_field_def lua_index_def)

lemma lua_field_dict [simp]: "lua_field (PyDict d) k = get_val d k"
  by (simp add: lua_field_def lua_index_def)

lemma lease_text_None: "K (lease_key r) = None \<Longrightarrow> lease_text r K = None"
  by (simp add: lease_text_def)

lemma lease_atI: "K (lease_key r) = Some (OStr v, l) \<Longrightarrow> cj_decode R v = Some (PyDict d) \<Longrightarrow> lease_at R r K = Some d"
  by (simp add: lease_at_def lease_text_def)

text \<open>The guards the two scripts share, and what passing them means\<close>

lemma release_effect:
  "snd (kdo (release_op R r a n cl) K) = K \<or>
   (\<exists>d. lease_at R r K = Some d \<and> may_act R a cl d \<and> (0 < n \<longrightarrow> token_is (get_val d ''fencing_token'') n) \<and>
        snd (kdo (release_op R r a n cl) K) = K(lease_key r := None))"
proof (cases "\<exists>v l w. K (lease_key r) = Some (OStr v, l) \<and> cj_decode R v = Some w")
  case True
  then obtain v l w where v: "K (lease_key r) = Some (OStr v, l)" "cj_decode R v = Some w" by blast
  show ?thesis
  proof (cases "lua_field w ''holder_id'' = PyStr a")
    case True
    then obtain d where "w = PyDict d" "get_val d ''holder_id'' = PyStr a" using lua_field_str by blast
    with v lease_atI [of K r v l R d] show ?thesis
      by (auto simp: release_op_def release_script_def lua_def lua_decode_def may_act_def)
  next
    case False
    with v show ?thesis by (simp add: release_op_def release_script_def lua_def lua_decode_def)
  qed
next
  case False
  then show ?thesis
    by (auto simp: release_op_def release_script_def lua_def lua_decode_def wrongtype_def split: option.split robj.split prod.split)
qed

lemma heartbeat_effect:
  "snd (kdo (heartbeat_op R r a n l cl) K) = K \<or>
   (\<exists>d ob t. lease_at R r K = Some d \<and> may_act R a cl d \<and> token_is (get_val d ''fencing_token'') n \<and> K (lease_key r) = Some (ob, t) \<and>
        snd (kdo (heartbeat_op R r a n l cl) K) = K(lease_key r := if l \<le> 0 then None else Some (ob, Some (nat (1000 * l)))))"
proof (cases "\<exists>v t w. K (lease_key r) = Some (OStr v, t) \<and> cj_decode R v = Some w")
  case True
  then obtain v t w where v: "K (lease_key r) = Some (OStr v, t)" "cj_decode R v = Some w" by blast
  show ?thesis
  proof (cases "lua_field w ''holder_id'' = PyStr a")
    case True
    then obtain d where "w = PyDict d" "get_val d ''holder_id'' = PyStr a" using lua_field_str by blast
    with v lease_atI [of K r v t R d] show ?thesis
      by (auto simp: heartbeat_op_def heartbeat_script_def lua_def lua_decode_def may_act_def)
  next
    case False
    with v show ?thesis by (simp add: heartbeat_op_def heartbeat_script_def lua_def lua_decode_def)
  qed
next
  case False
  then show ?thesis
    by (auto simp: heartbeat_op_def heartbeat_script_def lua_def lua_decode_def wrongtype_def split: option.split robj.split prod.split)
qed

lemma release_acts:
  assumes "lease_at R r K = Some d" and "may_act R a cl d" and "0 < n \<longrightarrow> token_is (get_val d ''fencing_token'') n"
  shows "kdo (release_op R r a n cl) K = (RInt 1, K(lease_key r := None))"
proof -
  from assms(1) obtain v l where v: "K (lease_key r) = Some (OStr v, l)" "cj_decode R v = Some (PyDict d)"
    by (auto simp: lease_at_def lease_text_def split: option.splits robj.splits prod.splits pyval.splits)
  have "lua_index (PyDict d) [] \<noteq> None" by (simp add: lua_index_def)
  with v assms(2,3) show ?thesis
    by (auto simp: release_op_def release_script_def lua_def lua_decode_def may_act_def)
qed

text \<open>With authentication the owner of a bound lease is the caller's own member and workspace.\<close>

lemma may_act_owner:
  assumes "may_act R a (Some c) d" and "c_authenticated c" and "get_val d OWNER_MEMBER = PyStr m" and "m \<noteq> []"
  shows "c_member c = m \<and> get_val d OWNER_WORKSPACE = PyStr (c_workspace c)"
  using assms by (auto simp: may_act_def owner_passes_def owner_args_def)

lemma may_act_legacy:
  assumes "may_act R a (Some c) d" and "c_authenticated c" and "\<not> truthy (get_val d OWNER_MEMBER)"
  shows "is_deployment_owner (r_dep R) (Some c)"
  using assms by (auto simp: may_act_def owner_passes_def owner_args_def split: pyval.splits)

section \<open>The tokens of a resource only grow\<close>

text \<open>
  What a request may do to the lease of a resource: acquire it; release or extend it in the name of
  an agent and a caller the request speaks for; otherwise leave its two keys alone.
\<close>

definition lease_command :: "relay \<Rightarrow> string \<Rightarrow> (string \<Rightarrow> caller option \<Rightarrow> bool) \<Rightarrow> op \<Rightarrow> bool" where
  "lease_command R r speaks c \<longleftrightarrow>
     acquires R r c \<or>
     (\<exists>a n cl. c = release_op R r a n cl \<and> speaks a cl) \<or>
     (\<exists>a n l cl. c = heartbeat_op R r a n l cl \<and> speaks a cl) \<or>
     \<not> touches (lease_key r) c \<and> \<not> touches (fence_key r) c"

lemma release_frame: "\<not> touches (fence_key r) (release_op R r a n cl)" "\<not> touches (fence_key r) (heartbeat_op R r a n l cl)"
  by (auto simp: touches_def release_op_def release_script_def heartbeat_op_def heartbeat_script_def
      intro!: only_lua only_lua_decode split: reply.split)

lemma fence_grows:
  assumes "lease_command R r speaks c" and "fence_ok r K"
  shows "fence_ok r (snd (kdo c K)) \<and> fence_value r K \<le> fence_value r (snd (kdo c K))"
proof (cases "acquires R r c")
  case True
  then obtain a l t cl where "c = acquire_op R r a l t cl" by (auto simp: acquires_def)
  with acquire_effect [OF assms(2), of R a l t cl] assms(2) show ?thesis
    by (auto simp: Let_def)
next
  case False
  with assms(1) release_frame have "\<not> touches (fence_key r) c"
    by (auto simp: lease_command_def)
  then have "snd (kdo c K) (fence_key r) = K (fence_key r)" by (rule op_frame)
  with assms(2) show ?thesis by (simp add: fence_value_def fence_ok_def)
qed

lemma fence_elapsed: "fence_ok r K \<Longrightarrow> elapsed n K (fence_key r) = K (fence_key r)"
  by (auto simp: fence_ok_def)

text \<open>Every token a lease call may still return is known: which threads hold one, and that they differ.\<close>

definition tokens_held ::
  "relay \<Rightarrow> string \<Rightarrow> ('q \<Rightarrow> bool) \<Rightarrow> nat \<Rightarrow> int \<Rightarrow> (nat \<Rightarrow> int option) \<Rightarrow> 'q list \<Rightarrow> keyspace \<Rightarrow> pyval handler list \<Rightarrow> bool" where
  "tokens_held R r leases m lo f qs K ts \<longleftrightarrow>
     fence_ok r K \<and> lo \<le> fence_value r K \<and> length qs = length ts \<and>
     (\<forall>i < length ts. leases (qs ! i) \<longrightarrow>
        (case f i of None \<Rightarrow> unserved R r result_token (ts ! i) | Some n \<Rightarrow> settled result_token n (ts ! i))) \<and>
     (\<forall>i n. f i = Some n \<longrightarrow> i < length ts \<and> n \<le> fence_value r K \<and> (m \<le> i \<longrightarrow> lo < n)) \<and>
     (\<forall>i j n. f i = Some n \<longrightarrow> f j = Some n \<longrightarrow> i = j)"

lemma tokens_heldI:
  assumes "fence_ok r K" and "lo \<le> fence_value r K" and "length qs = length ts"
    and "\<And>i. i < length ts \<Longrightarrow> leases (qs ! i) \<Longrightarrow>
      (case f i of None \<Rightarrow> unserved R r result_token (ts ! i) | Some n \<Rightarrow> settled result_token n (ts ! i))"
    and "\<And>i n. f i = Some n \<Longrightarrow> i < length ts \<and> n \<le> fence_value r K \<and> (m \<le> i \<longrightarrow> lo < n)"
    and "\<And>i j n. f i = Some n \<Longrightarrow> f j = Some n \<Longrightarrow> i = j"
  shows "tokens_held R r leases m lo f qs K ts"
  using assms by (auto simp: tokens_held_def)

lemma tokens_heldD:
  assumes "tokens_held R r leases m lo f qs K ts" and "i < length ts" and "leases (qs ! i)"
  shows "case f i of None \<Rightarrow> unserved R r result_token (ts ! i) | Some n \<Rightarrow> settled result_token n (ts ! i)"
  using assms by (simp add: tokens_held_def)

locale lease_clients = clients srv h P
  for srv :: "'s server" and h :: "'q \<Rightarrow> pyval handler" and P :: "'q \<Rightarrow> op \<Rightarrow> bool" +
  fixes R :: relay and r :: string and leases :: "'q \<Rightarrow> bool" and speaks :: "'q \<Rightarrow> string \<Rightarrow> caller option \<Rightarrow> bool"
  assumes lease_discipline: "P q c \<Longrightarrow> lease_command R r (speaks q) c"
    and lease_calls: "leases q \<Longrightarrow> unserved R r result_token (h q)"
    and cjson: "cjson_ok R"
begin

lemma granted_reply:
  assumes "acquires R r c" and "fence_ok r K" and "fst (kdo c K) = reply" and "fence_value r (snd (kdo c K)) < 10 ^ 14"
    and "reply_token R reply = Some n"
  shows "n = fence_value r K + 1 \<and> fence_value r (snd (kdo c K)) = n"
proof -
  obtain a l t cl where c: "c = acquire_op R r a l t cl" using assms(1) by (auto simp: acquires_def)
  have nonneg: "0 \<le> fence_value r K"
    using assms(2) by (auto simp: fence_ok_def fence_value_def)
  show ?thesis
    using acquire_effect [OF assms(2), of R a l t cl] assms(3-) nonneg
      reply_token_granted [OF cjson, of "fence_value r K + 1" a "r_print R t" l "fst (owner_member_of cl)" "snd (owner_member_of cl)"]
    unfolding c [symmetric] by (auto simp: Let_def)
qed

text \<open>one thread moves on: its token, if the command just executed granted one, is new\<close>

lemma tokens_step:
  assumes held: "tokens_held R r leases m lo f qs (view srv s) ts"
    and i: "i < length ts" "ts ! i = Do c k" and cmd: "P (qs ! i) c"
    and reply: "reply = fst (do_op srv c s) \<or> (\<exists>e. reply = RErr e)"
    and small: "fence_value r (view srv (snd (do_op srv c s))) < 10 ^ 14"
  shows "\<exists>f'. tokens_held R r leases m lo f' qs (view srv (snd (do_op srv c s))) (ts[i := k reply])"
proof -
  let ?K = "view srv s" and ?K' = "view srv (snd (do_op srv c s))"
  have K': "?K' = snd (kdo c ?K)" and fst: "fst (do_op srv c s) = fst (kdo c ?K)" by (simp_all add: op_doc)
  have ok: "fence_ok r ?K" and lo: "lo \<le> fence_value r ?K" using held by (auto simp: tokens_held_def)
  have grows: "fence_ok r ?K'" "fence_value r ?K \<le> fence_value r ?K'"
    using fence_grows [OF lease_discipline [OF cmd] ok] by (simp_all add: K')
  have old: "i < length ts \<and> n \<le> fence_value r ?K \<and> (m \<le> i \<longrightarrow> lo < n)" if "f i = Some n" for i n
    using held that by (auto simp: tokens_held_def)
  have inj: "i = j" if "f i = Some n" "f j = Some n" for i j n
    using held that by (auto simp: tokens_held_def)
  have thread: "case f j of None \<Rightarrow> unserved R r result_token (ts ! j) | Some n \<Rightarrow> settled result_token n (ts ! j)"
    if "j < length ts" "leases (qs ! j)" for j
    using held that by (auto simp: tokens_held_def)
  have len: "length qs = length (ts[i := k reply])" and lo': "lo \<le> fence_value r ?K'"
    using held lo grows(2) by (auto simp: tokens_held_def)
  have keep: "tokens_held R r leases m lo f qs ?K' (ts[i := k reply])"
    if "leases (qs ! i) \<longrightarrow> (case f i of None \<Rightarrow> unserved R r result_token (k reply) | Some n \<Rightarrow> settled result_token n (k reply))"
  proof -
    have t1: "case f j of None \<Rightarrow> unserved R r result_token (ts[i := k reply] ! j) | Some n \<Rightarrow> settled result_token n (ts[i := k reply] ! j)"
      if "j < length (ts[i := k reply])" "leases (qs ! j)" for j
      using thread [of j] that \<open>leases (qs ! i) \<longrightarrow> _\<close> i(1) by (cases "j = i"; cases "f j") (auto simp: nth_list_update)
    have t2: "j < length (ts[i := k reply]) \<and> n' \<le> fence_value r ?K' \<and> (m \<le> j \<longrightarrow> lo < n')" if "f j = Some n'" for j n'
      using old [OF that] grows(2) by simp
    show ?thesis
      by (rule tokens_heldI [OF grows(1) lo' len t1 t2 inj])
  qed
  show ?thesis
  proof (cases "leases (qs ! i) \<and> f i = None \<and> acquires R r c \<and> reply_token R reply \<noteq> None")
    case True
    then obtain n where n: "reply_token R reply = Some n" by auto
    then have r: "fst (kdo c ?K) = reply" using reply fst by auto
    have new: "n = fence_value r ?K + 1" "fence_value r ?K' = n"
      using granted_reply [OF _ ok r _ n] True small by (simp_all add: K')
    have "unserved R r result_token (Do c k)" using thread [OF i(1)] True i(2) by simp
    from unserved_Do(2) [OF this, of reply n] True n have "settled result_token n (k reply)" by blast
    moreover have "j \<noteq> i" "n' < n" if "f j = Some n'" for j n' using that True old [OF that] new by auto
    ultimately have fresh: "settled result_token n (k reply)" "\<And>j n'. f j = Some n' \<Longrightarrow> j \<noteq> i \<and> n' < n" by auto
    have t1: "case (f(i \<mapsto> n)) j of None \<Rightarrow> unserved R r result_token (ts[i := k reply] ! j) | Some n \<Rightarrow> settled result_token n (ts[i := k reply] ! j)"
      if "j < length (ts[i := k reply])" "leases (qs ! j)" for j
      using thread [of j] that fresh(1) i(1) by (cases "j = i"; cases "f j") (auto simp: nth_list_update)
    have t2: "j < length (ts[i := k reply]) \<and> n' \<le> fence_value r ?K' \<and> (m \<le> j \<longrightarrow> lo < n')" if "(f(i \<mapsto> n)) j = Some n'" for j n'
      using that old [of j n'] i(1) new lo grows(2) by (cases "j = i") auto
    have t3: "j = j'" if "(f(i \<mapsto> n)) j = Some n'" "(f(i \<mapsto> n)) j' = Some n'" for j j' n'
      using that inj [of j n' j'] fresh(2) by (cases "j = i"; cases "j' = i") auto
    have "tokens_held R r leases m lo (f(i \<mapsto> n)) qs ?K' (ts[i := k reply])"
      by (rule tokens_heldI [OF grows(1) lo' len t1 t2 t3])
    then show ?thesis by blast
  next
    case False
    have "case f i of None \<Rightarrow> unserved R r result_token (k reply) | Some n \<Rightarrow> settled result_token n (k reply)"
      if "leases (qs ! i)"
      using thread [OF i(1) that] False that i(2) by (cases "f i") (auto intro: unserved_Do)
    then show ?thesis using keep by blast
  qed
qed

lemma tokens_turn:
  assumes held: "tokens_held R r leases m lo f qs (view srv (fst sy)) (snd sy)" and "attuned qs sy"
    and small: "fence_value r (view srv (fst (advance srv h t sy))) < 10 ^ 14"
  shows "\<exists>f'. tokens_held R r leases m lo f' (qs @ started [t]) (view srv (fst (advance srv h t sy))) (snd (advance srv h t sy))"
proof -
  have len: "length qs = length (snd sy)" using held by (auto simp: tokens_held_def)
  show ?thesis
    using turn_cases [of t h sy]
  proof cases
    case (start q)
    have "f (length (snd sy)) = None"
      using held by (cases "f (length (snd sy))") (auto simp: tokens_held_def)
    note new = this
    have old: "i < length (snd sy) \<and> n \<le> fence_value r (view srv (fst sy)) \<and> (m \<le> i \<longrightarrow> lo < n)" if "f i = Some n" for i n
      using held that by (auto simp: tokens_held_def)
    have "tokens_held R r leases m lo f (qs @ [q]) (view srv (fst sy)) (snd sy @ [h q])"
    proof (rule tokens_heldI)
      show "case f i of None \<Rightarrow> unserved R r result_token ((snd sy @ [h q]) ! i)
          | Some n \<Rightarrow> settled result_token n ((snd sy @ [h q]) ! i)"
        if "i < length (snd sy @ [h q])" "leases ((qs @ [q]) ! i)" for i
      proof (cases "i < length (snd sy)")
        case True
        with tokens_heldD [OF held True] that len show ?thesis by (cases "f i") (simp_all add: nth_append)
      next
        case False
        with that have "i = length (snd sy)" by simp
        with that new len lease_calls [of q] show ?thesis by (simp add: nth_append)
      qed
      show "i < length (snd sy @ [h q]) \<and> n \<le> fence_value r (view srv (fst sy)) \<and> (m \<le> i \<longrightarrow> lo < n)"
        if "f i = Some n" for i n using old [OF that] by simp
    qed (use held in \<open>auto simp: tokens_held_def\<close>)
    with start show ?thesis by auto
  next
    case idle
    with held show ?thesis by (cases t) auto
  next
    case (fail i c k e)
    have "case f i of None \<Rightarrow> unserved R r result_token (k (RErr e)) | Some n \<Rightarrow> settled result_token n (k (RErr e))"
      if "leases (qs ! i)"
      using tokens_heldD [OF held fail(1) that] fail(2) by (cases "f i") (auto intro: unserved_Do)
    note moved = this
    have "tokens_held R r leases m lo f qs (view srv (fst sy)) ((snd sy)[i := k (RErr e)])"
    proof (intro tokens_heldI)
      show "case f j of None \<Rightarrow> unserved R r result_token ((snd sy)[i := k (RErr e)] ! j)
          | Some n \<Rightarrow> settled result_token n ((snd sy)[i := k (RErr e)] ! j)"
        if "j < length ((snd sy)[i := k (RErr e)])" "leases (qs ! j)" for j
        using moved tokens_heldD [OF held, of j] that by (cases "j = i"; cases "f j") (auto simp: nth_list_update)
    qed (use held in \<open>auto simp: tokens_held_def\<close>)
    moreover have "started [t] = []" using fail by (cases t) auto
    ultimately show ?thesis using fail by auto
  next
    case (command i c k reply)
    have "P (qs ! i) c" by (rule attuned_command [OF assms(2) command(1,2)])
    from tokens_step [OF held command(1,2) this command(5)] small command
    show ?thesis by auto
  next
    case (time n)
    have "elapsed n (view srv (fst sy)) (fence_key r) = view srv (fst sy) (fence_key r)"
      using held by (intro fence_elapsed) (simp add: tokens_held_def)
    with held time show ?thesis
      by (auto simp: tokens_held_def view_pass fence_ok_def fence_value_def)
  qed
qed

lemma fence_turn:
  assumes "fence_ok r (view srv (fst sy))" and "attuned qs sy"
  shows "fence_ok r (view srv (fst (advance srv h t sy))) \<and>
    fence_value r (view srv (fst sy)) \<le> fence_value r (view srv (fst (advance srv h t sy)))"
  using turn_cases [of t h sy]
proof cases
  case (command i c k reply)
  have "lease_command R r (speaks (qs ! i)) c"
    by (rule lease_discipline [OF attuned_command [OF assms(2) command(1,2)]])
  from fence_grows [OF this assms(1)] command show ?thesis by (simp add: op_doc)
next
  case (time n)
  with fence_elapsed [OF assms(1)] assms(1) show ?thesis
    by (simp add: view_pass fence_ok_def fence_value_def)
qed (use assms in simp_all)

lemma fence_run:
  "fence_ok r (view srv (fst sy)) \<Longrightarrow> attuned qs sy \<Longrightarrow>
   fence_ok r (view srv (fst (run_ops (advance srv h) ts sy))) \<and>
   fence_value r (view srv (fst sy)) \<le> fence_value r (view srv (fst (run_ops (advance srv h) ts sy)))"
proof (induction ts arbitrary: qs sy)
  case (Cons t ts)
  from fence_turn [OF Cons.prems, of t] Cons.IH [OF _ attuned_turn [OF Cons.prems(2), of t]]
  show ?case by force
qed simp

lemma tokens_run:
  "tokens_held R r leases m lo f qs (view srv (fst sy)) (snd sy) \<Longrightarrow> attuned qs sy \<Longrightarrow>
   fence_value r (view srv (fst (run_ops (advance srv h) ts sy))) < 10 ^ 14 \<Longrightarrow>
   \<exists>f'. tokens_held R r leases m lo f' (qs @ started ts) (view srv (fst (run_ops (advance srv h) ts sy)))
     (snd (run_ops (advance srv h) ts sy))"
proof (induction ts arbitrary: f qs sy)
  case (Cons t ts)
  have ok: "fence_ok r (view srv (fst sy))" using Cons.prems(1) by (simp add: tokens_held_def)
  have att: "attuned (qs @ started [t]) (advance srv h t sy)" by (rule attuned_turn [OF Cons.prems(2)])
  have "fence_value r (view srv (fst (advance srv h t sy))) < 10 ^ 14"
    using fence_run [OF conjunct1 [OF fence_turn [OF ok Cons.prems(2)]] att, of ts] Cons.prems(3) by simp
  from tokens_turn [OF Cons.prems(1,2) this] obtain f' where
    "tokens_held R r leases m lo f' (qs @ started [t]) (view srv (fst (advance srv h t sy))) (snd (advance srv h t sy))" ..
  from Cons.IH [OF this att] Cons.prems(3)
  obtain f'' where "tokens_held R r leases m lo f'' ((qs @ started [t]) @ started ts)
    (view srv (fst (run_ops (advance srv h) (t # ts) sy))) (snd (run_ops (advance srv h) (t # ts) sy))" by auto
  moreover have "started (t # ts) = started [t] @ started ts" by (cases t) auto
  ultimately show ?case by auto
qed auto

text \<open>the tokens known when everything starts, and when part of the history is over\<close>

lemma tokens_start: "fence_ok r K \<Longrightarrow> tokens_held R r leases 0 (fence_value r K - 1) (\<lambda>_. None) [] K []"
  by (simp add: tokens_held_def)

lemma tokens_resume:
  assumes "tokens_held R r leases m lo f qs K ts"
  shows "tokens_held R r leases (length ts) (fence_value r K) f qs K ts"
proof (rule tokens_heldI)
  have "i < length ts \<and> n \<le> fence_value r K" if "f i = Some n" for i n
    using assms that by (auto simp: tokens_held_def)
  then show "i < length ts \<and> n \<le> fence_value r K \<and> (length ts \<le> i \<longrightarrow> fence_value r K < n)" if "f i = Some n" for i n
    using that by (meson not_less)
qed (use assms in \<open>auto simp: tokens_held_def\<close>)

lemma done_token:
  assumes "tokens_held R r leases m lo f qs K ts" and "i < length ts" and "leases (qs ! i)"
    and "ts ! i = Ret res" and "result_token res = Some n"
  shows "f i = Some n"
  using tokens_heldD [OF assms(1-3)] assms(4,5) by (cases "f i") auto

theorem tokens_distinct:
  assumes "fence_ok r (view srv s)" and "fence_value r (view srv (fst (run_ops (advance srv h) ts (s, [])))) < 10 ^ 14"
    and sy: "sy = run_ops (advance srv h) ts (s, [])"
    and "i < length (snd sy)" "leases (started ts ! i)" "snd sy ! i = Ret x" "result_token x = Some n"
    and "j < length (snd sy)" "leases (started ts ! j)" "snd sy ! j = Ret y" "result_token y = Some n"
  shows "i = j"
proof -
  from tokens_run [OF _ attuned_start assms(2)] tokens_start [OF assms(1)]
  obtain f where f: "tokens_held R r leases 0 (fence_value r (view srv s) - 1) f (started ts) (view srv (fst sy)) (snd sy)"
    unfolding sy by fastforce
  have "f i = Some n" "f j = Some n"
    using done_token [OF f] assms(4-) by blast+
  with f show ?thesis by (auto simp: tokens_held_def)
qed

theorem tokens_increase:
  assumes "fence_ok r (view srv s)" and "fence_value r (view srv (fst sy')) < 10 ^ 14"
    and sy: "sy = run_ops (advance srv h) ts (s, [])" and sy': "sy' = run_ops (advance srv h) ts' sy"
    and "i < length (snd sy)" "leases (started ts ! i)" "snd sy ! i = Ret x" "result_token x = Some a"
    and "length (snd sy) \<le> j" "j < length (snd sy')" "leases (started (ts @ ts') ! j)" "snd sy' ! j = Ret y" "result_token y = Some b"
  shows "a < b"
proof -
  have att: "attuned ([] @ started ts) sy" unfolding sy by (rule attuned_run [OF attuned_start])
  have ok: "fence_ok r (view srv (fst sy))"
    using fence_run [OF _ attuned_start, of s ts] assms(1) sy by simp
  have le: "fence_value r (view srv (fst sy)) < 10 ^ 14"
    using fence_run [OF ok att, of ts'] assms(2) sy' by simp
  from tokens_run [OF _ attuned_start le [unfolded sy]] tokens_start [OF assms(1)]
  obtain f where f: "tokens_held R r leases 0 (fence_value r (view srv s) - 1) f (started ts) (view srv (fst sy)) (snd sy)"
    unfolding sy by fastforce
  have fi: "f i = Some a" using done_token [OF f] assms(5-8) by blast
  then have a: "a \<le> fence_value r (view srv (fst sy))" using f by (auto simp: tokens_held_def)
  from tokens_run [OF tokens_resume [OF f] _ assms(2) [unfolded sy']] att
  obtain g where g: "tokens_held R r leases (length (snd sy)) (fence_value r (view srv (fst sy))) g (started ts @ started ts')
      (view srv (fst sy')) (snd sy')"
    unfolding sy' by auto
  have "started (ts @ ts') = started ts @ started ts'"
    by (induction ts rule: started.induct) auto
  then have "g j = Some b" using done_token [OF g] assms(9-) by auto
  then have "fence_value r (view srv (fst sy)) < b" using g assms(9) by (auto simp: tokens_held_def)
  with a show ?thesis by simp
qed

text \<open>A lease that is gone or another afterwards ran out, or was ended by one who may act on it.\<close>

theorem lease_end:
  assumes "attuned qs sy" and "lease_at R r (view srv (fst sy)) = Some d" and "fence_ok r (view srv (fst sy))"
    and "lease_text r (view srv (fst (advance srv h t sy))) \<noteq> lease_text r (view srv (fst sy))"
  shows "(\<exists>n. t = Wait n) \<or>
    (\<exists>i a cl. (t = Go i \<or> (\<exists>m. t = Lost i m)) \<and> i < length qs \<and> speaks (qs ! i) a cl \<and> may_act R a cl d)"
  using turn_cases [of t h sy]
proof cases
  case (command i c k reply)
  let ?K = "view srv (fst sy)"
  have K': "view srv (fst (advance srv h t sy)) = snd (kdo c ?K)" using command by (simp add: op_doc)
  have i: "i < length qs" using assms(1) command(1) by (auto simp: attuned_def dest: list_all2_lengthD)
  have held: "\<exists>v l. ?K (lease_key r) = Some (OStr v, l)"
    using assms(2) by (auto simp: lease_at_def lease_text_def split: option.splits robj.splits)
  have "lease_command R r (speaks (qs ! i)) c"
    by (rule lease_discipline [OF attuned_command [OF assms(1) command(1,2)]])
  then consider (acq) "acquires R r c"
    | (rel) a n cl where "c = release_op R r a n cl" "speaks (qs ! i) a cl"
    | (beat) a n l cl where "c = heartbeat_op R r a n l cl" "speaks (qs ! i) a cl"
    | (other) "\<not> touches (lease_key r) c"
    unfolding lease_command_def by blast
  then show ?thesis
  proof cases
    case acq
    then obtain a l t cl where "c = acquire_op R r a l t cl" by (auto simp: acquires_def)
    with acquire_effect [OF assms(3), of R a l t cl] held have "snd (kdo c ?K) (lease_key r) = ?K (lease_key r)"
      by (auto simp: Let_def)
    with assms(4) K' show ?thesis by (simp add: lease_text_def)
  next
    case rel
    with release_effect [of R r a n cl ?K] assms(2,4) K' command(3) i show ?thesis by auto
  next
    case beat
    with heartbeat_effect [of R r a n l cl ?K] assms(2,4) K' command(3) i show ?thesis by auto
  next
    case other
    with op_frame [OF other, of ?K] assms(4) K' show ?thesis by (simp add: lease_text_def)
  qed
qed (use assms in auto)

end

section \<open>One lease call\<close>

text \<open>the minutes a lease call asks for, in seconds\<close>

definition lease_seconds :: "relay \<Rightarrow> int option \<Rightarrow> int" where
  "lease_seconds R ttl_minutes =
     (case ttl_minutes of Some m \<Rightarrow> if m \<noteq> 0 then m else claim_ttl_minutes R | None \<Rightarrow> claim_ttl_minutes R) * 60"

definition lease_granted :: "string \<Rightarrow> string \<Rightarrow> int \<Rightarrow> int \<Rightarrow> pydict" where
  "lease_granted r agent_id token ttl = [(''acquired'', PyBool True), (''resource_id'', PyStr r), (''agent_id'', PyStr agent_id),
     (''fencing_token'', PyInt token), (''ttl_seconds'', PyInt ttl)]"

context redis begin

lemma acquire_free:
  assumes "cjson_ok R" and "fence_ok r (view srv s)" and "view srv s (lease_key r) = None" and "0 < ttl"
    and n: "n = fence_value r (view srv s) + 1" "n < 10 ^ 14"
  shows "\<exists>s'. run_handler srv (acquire_lease R r agent_id ttl t (Some c)) s = (Inr (lease_granted r agent_id n ttl), s') \<and>
    view srv s' (lease_key r) = Some (OStr (cj_encode R (PyDict (lease_record agent_id n (r_print R t) ttl (c_workspace c) (c_member c)))),
       Some (nat (1000 * ttl))) \<and> fence_ok r (view srv s') \<and> fence_value r (view srv s') = n"
proof -
  let ?o = "acquire_op R r agent_id ttl t (Some c)"
  let ?data = "cj_encode R (PyDict (lease_record agent_id n (r_print R t) ttl (c_workspace c) (c_member c)))"
  have pos: "0 < n" using assms(2) n(1) by (auto simp: fence_ok_def fence_value_def)
  have eff: "fst (kdo ?o (view srv s)) = RMulti [RInt 1, RText ?data] \<and>
      snd (kdo ?o (view srv s)) (lease_key r) = Some (OStr ?data, Some (nat (1000 * ttl))) \<and>
      fence_ok r (snd (kdo ?o (view srv s))) \<and> fence_value r (snd (kdo ?o (view srv s))) = n"
    (is "?E")
  proof -
    consider "view srv s (fence_key r) = None"
      | m where "view srv s (fence_key r) = Some (OStr (str_of_int m), None)" "0 < m" "m < 2 ^ 63"
      using assms(2) by (auto simp: fence_ok_def)
    then show ?E
    proof cases
      case 1
      with assms(3,4) n show ?thesis
        by (simp add: acquire_op_def acquire_script_def lua_def owner_member_of_def fence_value_def fence_ok_def reply_int_def Let_def)
          (rule exI [of _ 1], simp)
    next
      case 2
      with n have m: "n = m + 1" "m < 2 ^ 63 - 1" by (auto simp: fence_value_def)
      with 2 assms(3,4) n pos show ?thesis
        by (simp add: acquire_op_def acquire_script_def lua_def owner_member_of_def fence_value_def fence_ok_def reply_int_def Let_def)
          (rule exI [of _ "m + 1"], simp)
    qed
  qed
  obtain d' where d': "loads R ?data = Some (PyDict d')"
    "same_fields (lease_record agent_id n (r_print R t) ttl (c_workspace c) (c_member c)) d'"
    by (rule lease_loads [OF assms(1)])
  have "map_of (lease_record agent_id n (r_print R t) ttl (c_workspace c) (c_member c)) ''fencing_token'' = Some (PyInt n)"
    by (simp add: lease_record_def)
  with d'(2) n(2) pos have tok: "map_of d' ''fencing_token'' = Some (PyInt n)" by (auto simp: same_fields_def)
  have "run_handler srv (acquire_lease R r agent_id ttl t (Some c)) s = (Inr (lease_granted r agent_id n ttl), snd (do_op srv ?o s))"
    using eff d'(1) tok
    by (simp add: acquire_lease_def run_ask_op op_doc multi_item_def reply_int_def reply_text_def loaded_dict_def loaded_def
        lease_granted_def)
  with eff show ?thesis by (simp add: op_doc)
qed

lemma lease_free:
  assumes "cjson_ok R" and "fence_ok r (view srv s)" and "view srv s (lease_key r) = None" and "0 < lease_seconds R ttl_minutes"
    and n: "n = fence_value r (view srv s) + 1" "n < 10 ^ 14"
    and "scope_refusal (r_print R) (r_dep R) (q_ident rq) [''relay:write''] = None" and "normalize_resource_id resource = Inr r"
    and "matches_line id_char 200 agent_id" and "caller_of R rq = Some c"
  shows "\<exists>s'. run_handler srv (relay_lease R rq resource agent_id ttl_minutes) s
      = (Inr (PyDict (lease_granted r agent_id n (lease_seconds R ttl_minutes))), s') \<and>
    view srv s' (lease_key r) = Some (OStr (cj_encode R (PyDict (lease_record agent_id n (r_print R (q_now rq))
        (lease_seconds R ttl_minutes) (c_workspace c) (c_member c)))), Some (nat (1000 * lease_seconds R ttl_minutes))) \<and>
    fence_ok r (view srv s') \<and> fence_value r (view srv s') = n"
proof -
  from acquire_free [OF assms(1-6), of agent_id "q_now rq" c] obtain s' where
    s': "run_handler srv (acquire_lease R r agent_id (lease_seconds R ttl_minutes) (q_now rq) (Some c)) s
        = (Inr (lease_granted r agent_id n (lease_seconds R ttl_minutes)), s')" and
    rest: "view srv s' (lease_key r) = Some (OStr (cj_encode R (PyDict (lease_record agent_id n (r_print R (q_now rq))
        (lease_seconds R ttl_minutes) (c_workspace c) (c_member c)))), Some (nat (1000 * lease_seconds R ttl_minutes)))"
      "fence_ok r (view srv s')" "fence_value r (view srv s') = n"
    by blast
  have granted: "get_val (lease_granted r agent_id n l) ''acquired'' = PyBool True" for l
    by (simp add: lease_granted_def get_val_def)
  have "run_handler srv (relay_lease R rq resource agent_id ttl_minutes) s
      = (Inr (PyDict (lease_granted r agent_id n (lease_seconds R ttl_minutes))), s')"
    using assms(7-) s'
    by (simp add: relay_lease_def tool_def scoped_def with_resource_def validate_name_def with_caller_def run_rules
        lease_seconds_def [symmetric] replay_emit_def Let_def granted)
  with rest show ?thesis by blast
qed

end

end
