(* ===== verification/Relay_Tasks.thy ===== *)
theory Relay_Tasks
  imports Relay_Board
begin

text \<open>
  The task queue (\<open>relay/app/tasks.py\<close>, its tools in \<open>relay/app/mcp_server.py\<close> and its routes): a hash
  per task, a sorted set as the index, and the verified principals of the writes.
\<close>

definition TASK_INDEX_KEY :: string where "TASK_INDEX_KEY = ''nr:tasks''"
definition task_key :: "string \<Rightarrow> string" where "task_key i = ''nr:task:'' @ i"
definition TASK_TTL_SECONDS :: int where "TASK_TTL_SECONDS = 86400 * 7"

definition TERMINAL_STATUSES :: "string list" where
  "TERMINAL_STATUSES = [''completed'', ''failed'', ''cancelled'', ''rejected'']"

definition VALID_STATUSES :: "string list" where
  "VALID_STATUSES = [''pending'', ''in-progress'', ''completed'', ''failed'', ''cancelled'', ''working'', ''input-required'', ''rejected'']"

definition PRINCIPAL_FIELDS :: "string list" where
  "PRINCIPAL_FIELDS = [''created_by'', ''updated_by'', ''completed_by'']"

section \<open>Who writes\<close>

definition principal_stamp :: "(rat \<Rightarrow> string) \<Rightarrow> pydict \<Rightarrow> bool \<Rightarrow> pydict" where
  "principal_stamp f d authenticated =
     [(''workspace_id'', PyStr (str_or f (get_val d ''workspace_id'') [])), (''member_id'', PyStr (str_or f (get_val d ''member_id'') [])),
      (''credential_id'', PyStr (str_or f (get_val d ''credential_id'') [])), (''authenticated'', PyBool authenticated)]"

text \<open>With authentication on and no identity attached the writer is unknowable and nothing is stamped.\<close>

definition verified_principal :: "relay \<Rightarrow> incoming \<Rightarrow> pydict option" where
  "verified_principal R rq =
     (case q_ident rq of
        Some d \<Rightarrow> Some (principal_stamp (r_print R) d True)
      | None \<Rightarrow>
          if d_auth (r_dep R) then None
          else Some (principal_stamp (r_print R) [(''workspace_id'', PyStr (d_workspace (r_dep R))),
            (''member_id'', PyStr (d_owner (r_dep R))), (''credential_id'', PyStr ''anonymous'')] False))"

section \<open>Reading a task\<close>

definition loads_or_empty :: "relay \<Rightarrow> string option \<Rightarrow> pyval" where
  "loads_or_empty R raw = (case loads R (case raw of Some s \<Rightarrow> s | None \<Rightarrow> ''[]'') of Some v \<Rightarrow> v | None \<Rightarrow> PyList [])"

text \<open>\<open>float(text)\<close> on the texts \<open>str(time.time())\<close> writes\<close>

definition float_value :: "relay \<Rightarrow> string \<Rightarrow> rat option" where
  "float_value R s = (case read_number (r_read R) s of Some (v, r) \<Rightarrow> if r = [] then as_number v else None | None \<Rightarrow> None)"

definition float_field :: "relay \<Rightarrow> (string \<times> string) list \<Rightarrow> string \<Rightarrow> pydict \<Rightarrow> pydict" where
  "float_field R raw k task = (case map_of raw k of None \<Rightarrow> task
     | Some s \<Rightarrow> (case float_value R s of Some q \<Rightarrow> AList.update k (PyFloat q) task | None \<Rightarrow> task))"

text \<open>A stamp that does not parse is not a stamp.\<close>

definition principal_field :: "relay \<Rightarrow> (string \<times> string) list \<Rightarrow> string \<Rightarrow> pydict \<Rightarrow> pydict" where
  "principal_field R raw k task = (case map_of raw k of None \<Rightarrow> task
     | Some s \<Rightarrow> (case loads R s of Some (PyDict d) \<Rightarrow> AList.update k (PyDict d) task | _ \<Rightarrow> AList.delete k task))"

definition parse_task :: "relay \<Rightarrow> (string \<times> string) list \<Rightarrow> pydict" where
  "parse_task R raw =
     fold (principal_field R raw) PRINCIPAL_FIELDS
       (float_field R raw ''updated_at'' (float_field R raw ''created_at''
         (AList.update ''history'' (loads_or_empty R (map_of raw ''history''))
           (AList.update ''files'' (loads_or_empty R (map_of raw ''files'')) (texts_dict raw)))))"

section \<open>Operations\<close>

definition history_entry :: "string \<Rightarrow> rat \<Rightarrow> pydict option \<Rightarrow> pyval" where
  "history_entry state t stamp = PyDict (stamped stamp [(''state'', PyStr state), (''timestamp'', PyFloat t)])"

definition task_hash ::
  "relay \<Rightarrow> string \<Rightarrow> rat \<Rightarrow> string \<Rightarrow> string option \<Rightarrow> string \<Rightarrow> string \<Rightarrow> string \<Rightarrow> string list \<Rightarrow> string \<Rightarrow> pydict option
     \<Rightarrow> (string \<times> string) list" where
  "task_hash R task_id t title assignee assigner description priority files context created_by =
     [(''id'', task_id), (''title'', title), (''description'', description),
      (''assignee'', case assignee of Some a \<Rightarrow> a | None \<Rightarrow> []), (''assigner'', assigner), (''status'', ''pending''),
      (''priority'', priority), (''files'', dumps R (PyList (map PyStr files))), (''context'', context),
      (''created_at'', r_print R t), (''updated_at'', r_print R t),
      (''history'', dumps R (PyList [history_entry ''pending'' t created_by]))]
     @ (case created_by of Some d \<Rightarrow> [(''created_by'', dumps R (PyDict d))] | None \<Rightarrow> [])"

definition task_fields ::
  "string \<Rightarrow> rat \<Rightarrow> string \<Rightarrow> string option \<Rightarrow> string \<Rightarrow> string \<Rightarrow> string \<Rightarrow> string list \<Rightarrow> string \<Rightarrow> pydict option \<Rightarrow> pydict" where
  "task_fields task_id t title assignee assigner description priority files context created_by =
     [(''id'', PyStr task_id), (''title'', PyStr title), (''description'', PyStr description),
      (''assignee'', PyStr (case assignee of Some a \<Rightarrow> a | None \<Rightarrow> [])), (''assigner'', PyStr assigner), (''status'', PyStr ''pending''),
      (''priority'', PyStr priority), (''files'', PyList (map PyStr files)), (''context'', PyStr context),
      (''created_at'', PyFloat t), (''updated_at'', PyFloat t), (''history'', PyList [history_entry ''pending'' t created_by])]
     @ (case created_by of Some d \<Rightarrow> [(''created_by'', PyDict d)] | None \<Rightarrow> [])"

definition create_task ::
  "relay \<Rightarrow> string \<Rightarrow> rat \<Rightarrow> string \<Rightarrow> string option \<Rightarrow> string \<Rightarrow> string \<Rightarrow> string \<Rightarrow> string list \<Rightarrow> string \<Rightarrow> pydict option
     \<Rightarrow> pydict handler" where
  "create_task R task_id t title assignee assigner description priority files context created_by =
     redis_call (HSET (task_key task_id) (task_hash R task_id t title assignee assigner description priority files context created_by)) (\<lambda>_.
     redis_call (EXPIRE (task_key task_id) TASK_TTL_SECONDS) (\<lambda>_.
     redis_call (ZADD TASK_INDEX_KEY task_id t) (\<lambda>_.
     redis_call (EXPIRE TASK_INDEX_KEY TASK_TTL_SECONDS) (\<lambda>_.
       Ret (Inr (task_fields task_id t title assignee assigner description priority files context created_by))))))"

definition get_task :: "relay \<Rightarrow> string \<Rightarrow> pydict option handler" where
  "get_task R task_id = redis_call (HGETALL (task_key task_id)) (\<lambda>r.
     Ret (Inr (if reply_pairs r = [] then None else Some (parse_task R (reply_pairs r)))))"

definition delete_task :: "string \<Rightarrow> bool handler" where
  "delete_task task_id =
     redis_call (DEL (task_key task_id)) (\<lambda>deleted.
     redis_call (ZREM TASK_INDEX_KEY [task_id]) (\<lambda>_. Ret (Inr (reply_int deleted \<noteq> 0))))"

text \<open>the writes of an update, by the status the task has after it\<close>

definition update_fields ::
  "relay \<Rightarrow> rat \<Rightarrow> (string \<times> string) list \<Rightarrow> string option \<Rightarrow> string option \<Rightarrow> pydict option \<Rightarrow> string option \<Rightarrow> (string \<times> string) list" where
  "update_fields R t status_fields result assignee writer resulting_status =
     (''updated_at'', r_print R t) # status_fields
     @ (case result of Some x \<Rightarrow> [(''result'', x)] | None \<Rightarrow> []) @ (case assignee of Some a \<Rightarrow> [(''assignee'', a)] | None \<Rightarrow> [])
     @ (case writer of Some d \<Rightarrow> [(''updated_by'', dumps R (PyDict d))] | None \<Rightarrow> [])
     @ (case (writer, resulting_status) of (Some d, Some st) \<Rightarrow>
          if st \<in> set TERMINAL_STATUSES then [(''completed_by'', dumps R (PyDict d))] else [] | _ \<Rightarrow> [])"

definition removed_stamps :: "pydict option \<Rightarrow> string option \<Rightarrow> string list" where
  "removed_stamps writer resulting_status =
     (case writer of None \<Rightarrow> [''updated_by''] | Some d \<Rightarrow> [])
     @ (case (writer, resulting_status) of (Some d, Some st) \<Rightarrow>
          if st \<in> set TERMINAL_STATUSES then [] else [''completed_by''] | _ \<Rightarrow> [''completed_by''])"

definition update_op :: "string \<Rightarrow> (string \<times> string) list \<Rightarrow> string list \<Rightarrow> op" where
  "update_op task_id updates removals =
     Eval (multi (HSET (task_key task_id) updates # (if removals = [] then [] else [HDEL (task_key task_id) removals])) [])"

definition commit_update ::
  "relay \<Rightarrow> string \<Rightarrow> rat \<Rightarrow> (string \<times> string) list \<Rightarrow> string option \<Rightarrow> string option \<Rightarrow> pydict option \<Rightarrow> string option
     \<Rightarrow> pydict option handler" where
  "commit_update R task_id t status_fields result assignee writer resulting_status =
     ask_op (update_op task_id (update_fields R t status_fields result assignee writer resulting_status)
         (removed_stamps writer resulting_status)) (\<lambda>_.
     redis_call (HGETALL (task_key task_id)) (\<lambda>r. Ret (Inr (Some (parse_task R (reply_pairs r))))))"

definition update_task ::
  "relay \<Rightarrow> string \<Rightarrow> rat \<Rightarrow> rat \<Rightarrow> string option \<Rightarrow> string option \<Rightarrow> string option \<Rightarrow> pydict option \<Rightarrow> pydict option handler" where
  "update_task R task_id t t' status result assignee writer =
     redis_call (EXISTS (task_key task_id)) (\<lambda>exists.
       if reply_int exists = 0 then Ret (Inr None)
       else (case status of
         Some st \<Rightarrow>
           if st \<notin> set VALID_STATUSES
           then Ret (Inl (value_error (''Invalid status: '' @ st @ ''. Must be one of: '' @ py_repr_list (sort VALID_STATUSES))))
           else redis_call (HGET (task_key task_id) ''history'') (\<lambda>raw.
             (case loads_or_empty R (case reply_text raw of Some s \<Rightarrow> if s = [] then None else Some s | None \<Rightarrow> None) of
                PyList history \<Rightarrow>
                  commit_update R task_id t [(''status'', st), (''history'', dumps R (PyList (history @ [history_entry st t' writer])))]
                    result assignee writer (Some st)
              | v \<Rightarrow> raises (CHR 0x27 # type_name v @ [CHR 0x27] @ '' object has no attribute 'append' '')))
       | None \<Rightarrow> redis_call (HGET (task_key task_id) ''status'') (\<lambda>st.
           commit_update R task_id t [] result assignee writer (reply_text st))))"

text \<open>
  Listing pages through the index until enough tasks match. The number of pages is bounded by the
  fuel; stale identifiers are removed when the paging is over.
\<close>

definition task_wanted :: "string option \<Rightarrow> string option \<Rightarrow> string option \<Rightarrow> (string \<times> string) list \<Rightarrow> bool" where
  "task_wanted assignee status title raw \<longleftrightarrow>
     (let field = (\<lambda>k. case map_of raw k of Some v \<Rightarrow> v | None \<Rightarrow> []);
          passes = (\<lambda>wanted k. case wanted of Some w \<Rightarrow> w = [] \<or> field k = w | None \<Rightarrow> True)
      in passes assignee ''assignee'' \<and> passes status ''status'' \<and> passes title ''title'')"

text \<open>one page: the results and the stale identifiers so far\<close>

primrec list_page ::
  "relay \<Rightarrow> ((string \<times> string) list \<Rightarrow> bool) \<Rightarrow> nat \<Rightarrow> string list \<Rightarrow> pyval list \<times> string list
     \<Rightarrow> (pyval list \<times> string list) handler" where
  "list_page R wanted limit [] acc = Ret (Inr acc)"
| "list_page R wanted limit (tid # tids) acc =
     redis_call (HGETALL (task_key tid)) (\<lambda>r.
       if reply_pairs r = [] then list_page R wanted limit tids (fst acc, snd acc @ [tid])
       else if \<not> wanted (reply_pairs r) then list_page R wanted limit tids acc
       else (let results = fst acc @ [PyDict (parse_task R (reply_pairs r))] in
         if limit \<le> length results then Ret (Inr (results, snd acc))
         else list_page R wanted limit tids (results, snd acc)))"

primrec list_pages ::
  "relay \<Rightarrow> bool \<Rightarrow> ((string \<times> string) list \<Rightarrow> bool) \<Rightarrow> nat \<Rightarrow> nat \<Rightarrow> nat \<Rightarrow> pyval list \<times> string list
     \<Rightarrow> (pyval list \<times> string list) option handler" where
  "list_pages R oldest_first wanted limit 0 offset acc = Ret (Inr None)"
| "list_pages R oldest_first wanted limit (Suc fuel) offset acc =
     (if limit \<le> length (fst acc) then Ret (Inr (Some acc))
      else (let batch = max 20 (limit * 3); i = int offset; j = int offset + int batch - 1 in
        redis_call (if oldest_first then ZRANGE TASK_INDEX_KEY i j else ZREVRANGE TASK_INDEX_KEY i j) (\<lambda>ids.
          if reply_texts ids = [] then Ret (Inr (Some acc))
          else and_then (list_page R wanted limit (reply_texts ids) acc) (\<lambda>acc'.
            if length (reply_texts ids) < batch then Ret (Inr (Some acc'))
            else list_pages R oldest_first wanted limit fuel (offset + length (reply_texts ids)) acc'))))"

definition list_tasks ::
  "relay \<Rightarrow> nat \<Rightarrow> string option \<Rightarrow> string option \<Rightarrow> int \<Rightarrow> bool \<Rightarrow> string option \<Rightarrow> pyval list option handler" where
  "list_tasks R fuel assignee status limit oldest_first title =
     (if limit \<le> 0 then Ret (Inr (Some []))
      else and_then (list_pages R oldest_first (task_wanted assignee status title) (nat limit) fuel 0 ([], [])) (\<lambda>res. case res of
        None \<Rightarrow> Ret (Inr None)
      | Some (results, stale) \<Rightarrow>
          if stale = [] then Ret (Inr (Some results))
          else redis_call (ZREM TASK_INDEX_KEY stale) (\<lambda>_. Ret (Inr (Some results)))))"

section \<open>Tools and routes\<close>

definition task_broadcast :: "relay \<Rightarrow> rat \<Rightarrow> string \<Rightarrow> string \<Rightarrow> string \<Rightarrow> unit handler" where
  "task_broadcast R t msg sender tag =
     broadcast R t ''tasks'' msg sender [tag] (backlog_size R) (bulletin_ttl_hours R * 3600) None"

definition post_task ::
  "relay \<Rightarrow> incoming \<Rightarrow> string \<Rightarrow> string option \<Rightarrow> string \<Rightarrow> string \<Rightarrow> string \<Rightarrow> string list \<Rightarrow> string \<Rightarrow> pydict option
     \<Rightarrow> (pydict \<Rightarrow> pyval handler) \<Rightarrow> pyval handler" where
  "post_task R rq title assignee assigner description priority files context created_by k =
     and_then (create_task R (''task-'' @ q_uid rq) (q_now rq) title assignee assigner description priority files context created_by) (\<lambda>task.
     and_then (task_broadcast R (q_later rq)
        (case assignee of Some a \<Rightarrow> if a \<noteq> [] then ''Task for '' @ a @ '': '' @ title else ''New task: '' @ title | None \<Rightarrow> ''New task: '' @ title)
        assigner ''task-assigned'') (\<lambda>_.
     replay_emit R ''coordination'' [(''action'', PyStr ''task_created''), (''task_id'', PyStr (''task-'' @ q_uid rq)),
       (''assignee'', PyStr (case assignee of Some a \<Rightarrow> a | None \<Rightarrow> []))] assigner created_by (k task)))"

definition relay_task_post ::
  "relay \<Rightarrow> incoming \<Rightarrow> string \<Rightarrow> string option \<Rightarrow> string \<Rightarrow> string \<Rightarrow> string \<Rightarrow> string list \<Rightarrow> string \<Rightarrow> pyval handler" where
  "relay_task_post R rq title assignee assigner description priority files context =
     tool (scoped R rq [''relay:write'']
       (if 500 < length title then Ret (Inr (error_body ''Title too long (max 500 chars)''))
        else post_task R rq title assignee assigner description priority files context (verified_principal R rq)
          (\<lambda>task. Ret (Inr (PyDict [(''status'', PyStr ''created''), (''task'', PyDict task)])))))"

definition task_list_reply :: "pyval list option \<Rightarrow> pyval" where
  "task_list_reply res = (case res of None \<Rightarrow> error_body ''did not finish''
     | Some tasks \<Rightarrow> PyDict [(''tasks'', PyList tasks), (''count'', PyInt (int (length tasks)))])"

definition relay_task_list ::
  "relay \<Rightarrow> nat \<Rightarrow> string option \<Rightarrow> string option \<Rightarrow> int \<Rightarrow> bool \<Rightarrow> string option \<Rightarrow> pyval handler" where
  "relay_task_list R fuel assignee status limit oldest_first title =
     tool (and_then (list_tasks R fuel assignee status (min limit MAX_LIMIT) oldest_first title) (\<lambda>res. Ret (Inr (task_list_reply res))))"

text \<open>the assignee the task now has, as the sender of the announcement\<close>

definition task_sender :: "pydict \<Rightarrow> string" where
  "task_sender task = (case map_of task ''assignee'' of Some (PyStr a) \<Rightarrow> a | _ \<Rightarrow> ''unknown'')"

definition relay_task_update ::
  "relay \<Rightarrow> incoming \<Rightarrow> string \<Rightarrow> string option \<Rightarrow> string option \<Rightarrow> string option \<Rightarrow> pyval handler" where
  "relay_task_update R rq task_id status result assignee =
     tool (catching (scoped R rq [''relay:write'']
       (and_then (update_task R task_id (q_now rq) (q_later rq) status result assignee (verified_principal R rq)) (\<lambda>res. case res of
          None \<Rightarrow> Ret (Inr (error_body (''Task '' @ task_id @ '' not found'')))
        | Some task \<Rightarrow>
            (let shown = (case status of Some st \<Rightarrow> if st \<noteq> [] then st else ''updated'' | None \<Rightarrow> ''updated'');
                 msg = ''Task '' @ task_id @ '': '' @ shown
                   @ (case result of Some x \<Rightarrow> if x \<noteq> [] then '' -- '' @ take 100 x else [] | None \<Rightarrow> [])
             in and_then (task_broadcast R (q_later rq) msg (task_sender task) (''task-'' @ shown)) (\<lambda>_.
               replay_emit R ''coordination'' [(''action'', PyStr ''task_updated''), (''task_id'', PyStr task_id), (''status'', PyStr shown)]
                 (task_sender task) (verified_principal R rq)
                 (Ret (Inr (PyDict [(''status'', PyStr ''updated''), (''task'', PyDict task)]))))))))
       (\<lambda>e. case e of HandsError c m \<Rightarrow> Ret (Inr (error_body m)) | _ \<Rightarrow> Ret (Inl e)))"

definition relay_task_delete :: "relay \<Rightarrow> incoming \<Rightarrow> string \<Rightarrow> pyval handler" where
  "relay_task_delete R rq task_id =
     tool (scoped R rq [''relay:write''] (and_then (delete_task task_id) (\<lambda>deleted.
       if \<not> deleted then Ret (Inr (error_body (''Task '' @ task_id @ '' not found'')))
       else replay_emit R ''coordination'' [(''action'', PyStr ''task_deleted''), (''task_id'', PyStr task_id)] ''relay''
         (verified_principal R rq) (Ret (Inr (PyDict [(''status'', PyStr ''deleted''), (''task_id'', PyStr task_id)]))))))"

definition route_delete_task :: "relay \<Rightarrow> incoming \<Rightarrow> string \<Rightarrow> pyval handler" where
  "route_delete_task R rq task_id =
     route (route_scoped R rq [''relay:write''] (and_then (delete_task task_id) (\<lambda>deleted.
       if \<not> deleted then json_response 404 (error_body (''Task '' @ task_id @ '' not found''))
       else json_response 200 (PyDict [(''status'', PyStr ''deleted''), (''task_id'', PyStr task_id)]))))"

definition route_get_tasks ::
  "relay \<Rightarrow> nat \<Rightarrow> string option \<Rightarrow> string option \<Rightarrow> int \<Rightarrow> string \<Rightarrow> string option \<Rightarrow> pyval handler" where
  "route_get_tasks R fuel assignee status limit oldest_first title =
     route (and_then (list_tasks R fuel assignee status (min limit 200) (py_lower oldest_first \<in> {''1'', ''true'', ''yes''}) title)
       (\<lambda>res. json_response 200 (task_list_reply res)))"

text \<open>\<open>POST /tasks\<close>: the body's fields, checked one by one\<close>

definition body_text :: "relay \<Rightarrow> pydict \<Rightarrow> string \<Rightarrow> string \<Rightarrow> string" where
  "body_text R body k alt = str_or (r_print R) (get_val body k) alt"

definition string_files :: "pyval \<Rightarrow> string list option" where
  "string_files v = (case v of PyNone \<Rightarrow> Some []
     | PyList vs \<Rightarrow> if list_all (\<lambda>f. as_str f \<noteq> None) vs then Some (List.map_filter as_str vs) else None | _ \<Rightarrow> None)"

definition route_post_task :: "relay \<Rightarrow> incoming \<Rightarrow> pyval option \<Rightarrow> pyval handler" where
  "route_post_task R rq body =
     route (route_scoped R rq [''relay:write'', ''relay:write:service''] (case body of
       None \<Rightarrow> json_response 400 (error_body ''invalid JSON body'')
     | Some (PyDict d) \<Rightarrow>
         (let title = py_strip (body_text R d ''title'' []) in
          if title = [] then json_response 400 (error_body ''title is required'')
          else if 500 < length title then json_response 400 (error_body ''Title too long (max 500 chars)'')
          else (case string_files (get_val d ''files'') of
              None \<Rightarrow> json_response 400 (error_body ''files must be a list of strings'')
            | Some files \<Rightarrow>
                post_task R rq title (if truthy (get_val d ''assignee'') then as_str (get_val d ''assignee'') else None)
                  (body_text R d ''assigner'' ''unknown'') (body_text R d ''description'' []) (body_text R d ''priority'' ''normal'')
                  files (body_text R d ''context'' []) (verified_principal R rq)
                  (\<lambda>task. json_response 201 (PyDict [(''status'', PyStr ''created''), (''task'', PyDict task)]))))
     | Some v \<Rightarrow> json_response 400 (error_body ''body must be a JSON object'')))"

section \<open>The keys they write\<close>

definition task_keys :: "string set" where
  "task_keys = range task_key \<union> {TASK_INDEX_KEY} \<union> board_keys"

lemma task_keys [simp]: "task_key i \<in> task_keys" "TASK_INDEX_KEY \<in> task_keys"
  by (auto simp: task_keys_def)

lemma only_broadcast_task [simp]: "only (inside task_keys) (task_broadcast R t msg sender tag)"
  unfolding task_broadcast_def by (rule only_inside_mono [where F = board_keys]) (auto simp: task_keys_def)

lemma update_op_inside [simp]: "inside task_keys (update_op i updates removals)"
  by (auto simp: update_op_def intro!: inside_Eval only_intros)

lemma only_list_page [simp]: "only (inside F) (list_page R wanted limit ids acc)"
  by (induction ids arbitrary: acc) (auto simp: Let_def intro!: only_intros)

lemma only_list_pages [simp]: "only (inside F) (list_pages R oldest wanted limit n offset acc)"
  by (induction n arbitrary: offset acc) (auto simp: Let_def intro!: only_intros)

lemma task_operations [simp]:
  "only (inside task_keys) (create_task R i t title assignee assigner description priority files context by)"
  "only (inside task_keys) (get_task R i)" "only (inside task_keys) (delete_task i)"
  "only (inside task_keys) (commit_update R i t sf res ass wr st)" "only (inside task_keys) (update_task R i t t' st res ass wr)"
  "only (inside task_keys) (list_tasks R n ass st limit oldest ti)"
  by (auto simp: create_task_def get_task_def delete_task_def commit_update_def update_task_def list_tasks_def
      intro!: only_intros split: option.split pyval.split)

lemma only_post_task [only_intros]:
  "(\<And>d. only (inside task_keys) (k d)) \<Longrightarrow>
   only (inside task_keys) (post_task R rq title assignee assigner description priority files context by k)"
  by (auto simp: post_task_def intro!: only_intros)

lemma task_tools:
  "only (inside task_keys) (relay_task_post R rq title assignee assigner description priority files context)"
  "only (inside task_keys) (relay_task_list R n ass st limit oldest ti)" "only (inside task_keys) (relay_task_update R rq i st res ass)"
  "only (inside task_keys) (relay_task_delete R rq i)" "only (inside task_keys) (route_delete_task R rq i)"
  "only (inside task_keys) (route_get_tasks R n ass st limit old ti)" "only (inside task_keys) (route_post_task R rq body)"
  by (auto simp: relay_task_post_def relay_task_list_def relay_task_update_def relay_task_delete_def route_delete_task_def
      route_get_tasks_def route_post_task_def Let_def intro!: only_intros split: option.split pyval.split py_exc.split)

end
