(* ===== verification/Relay_Dm.thy ===== *)
theory Relay_Dm
  imports Relay_Board
begin

text \<open>
  Direct messages (\<open>relay/app/dm.py\<close>, its tools and routes): an inbox is a list per recipient label,
  and each message names the member it was addressed to when it was sent.
\<close>

definition dm_key :: "string \<Rightarrow> string" where "dm_key label = ''nr:dm:'' @ label"
definition DM_TTL_SECONDS :: int where "DM_TTL_SECONDS = 86400"

section \<open>Operations\<close>

definition dm_record ::
  "string \<Rightarrow> string \<Rightarrow> string \<Rightarrow> string \<Rightarrow> rat \<Rightarrow> pydict option \<Rightarrow> (string \<times> string) option \<Rightarrow> pydict" where
  "dm_record msg_id to_agent_id content from_id t stamp to_owner =
     stamped stamp [(''id'', PyStr msg_id), (''from'', PyStr from_id), (''to'', PyStr to_agent_id), (''content'', PyStr content),
       (''timestamp'', PyFloat t), (''read'', PyBool False)]
     @ (case to_owner of None \<Rightarrow> [] | Some (w, m) \<Rightarrow> [(''to_workspace'', PyStr w), (''to_member'', PyStr m)])"

definition send_dm ::
  "relay \<Rightarrow> string \<Rightarrow> rat \<Rightarrow> string \<Rightarrow> string \<Rightarrow> string \<Rightarrow> pydict option \<Rightarrow> (string \<times> string) option \<Rightarrow> pydict handler" where
  "send_dm R msg_id t to_agent_id content from_id stamp to_owner =
     (let message = dm_record msg_id to_agent_id content from_id t stamp to_owner in
      redis_call (LPUSH (dm_key to_agent_id) (dumps R (PyDict message))) (\<lambda>_.
      redis_call (EXPIRE (dm_key to_agent_id) DM_TTL_SECONDS) (\<lambda>_. Ret (Inr message))))"

definition visible_to :: "relay \<Rightarrow> pydict \<Rightarrow> caller \<Rightarrow> bool" where
  "visible_to R msg c = administers (r_print R) (r_dep R)
     [(OWNER_WORKSPACE, get_val msg ''to_workspace''), (OWNER_MEMBER, get_val msg ''to_member'')] (Some c)"

text \<open>may the caller, where one is given, read the message\<close>

definition shown_to :: "relay \<Rightarrow> pydict \<Rightarrow> caller option \<Rightarrow> bool" where
  "shown_to R msg caller = (case caller of None \<Rightarrow> True | Some c \<Rightarrow> visible_to R msg c)"

text \<open>\<open>msg.get("read", False)\<close>\<close>

definition read_flag :: "pydict \<Rightarrow> bool" where
  "read_flag msg = (case map_of msg ''read'' of None \<Rightarrow> False | Some v \<Rightarrow> truthy v)"

text \<open>the loop over the inbox; a stored value that is no object has no \<open>get\<close>\<close>

fun pick_dms :: "relay \<Rightarrow> caller option \<Rightarrow> bool \<Rightarrow> int \<Rightarrow> string list \<Rightarrow> pyval list \<Rightarrow> py_exc + pyval list" where
  "pick_dms R caller unread_only limit [] acc = Inr acc"
| "pick_dms R caller unread_only limit (raw # raws) acc =
     (case loads R raw of
        None \<Rightarrow> pick_dms R caller unread_only limit raws acc
      | Some (PyDict msg) \<Rightarrow>
          if \<not> shown_to R msg caller then pick_dms R caller unread_only limit raws acc
          else if unread_only \<and> read_flag msg then pick_dms R caller unread_only limit raws acc
          else if limit \<le> int (length acc) + 1 then Inr (acc @ [PyDict msg])
          else pick_dms R caller unread_only limit raws (acc @ [PyDict msg])
      | Some v \<Rightarrow> Inl (OtherError (CHR 0x27 # type_name v @ [CHR 0x27] @ '' object has no attribute 'get' '')))"

definition get_dms :: "relay \<Rightarrow> string \<Rightarrow> bool \<Rightarrow> int \<Rightarrow> caller option \<Rightarrow> pyval list handler" where
  "get_dms R agent_id unread_only limit caller =
     redis_call (LRANGE (dm_key agent_id) 0 (- 1)) (\<lambda>r. Ret (pick_dms R caller unread_only limit (reply_texts r) []))"

text \<open>one message as it is written back, and whether it is newly read\<close>

definition marked_dm :: "relay \<Rightarrow> caller option \<Rightarrow> string \<Rightarrow> py_exc + (string \<times> bool)" where
  "marked_dm R caller raw =
     (case loads R raw of
        None \<Rightarrow> Inr (raw, False)
      | Some (PyDict msg) \<Rightarrow>
          if \<not> shown_to R msg caller then Inr (raw, False)
          else if \<not> read_flag msg then Inr (dumps R (PyDict (AList.update ''read'' (PyBool True) msg)), True)
          else Inr (dumps R (PyDict msg), False)
      | Some v \<Rightarrow> Inl (OtherError (CHR 0x27 # type_name v @ [CHR 0x27] @ '' object has no attribute 'get' '')))"

fun mark_all :: "relay \<Rightarrow> caller option \<Rightarrow> string list \<Rightarrow> py_exc + (string list \<times> nat)" where
  "mark_all R caller [] = Inr ([], 0)"
| "mark_all R caller (raw # raws) =
     bindR (marked_dm R caller raw) (\<lambda>(text, newly).
     bindR (mark_all R caller raws) (\<lambda>(texts, n). Inr (text # texts, if newly then Suc n else n)))"

definition replace_inbox :: "string \<Rightarrow> string list \<Rightarrow> op" where
  "replace_inbox agent_id updated =
     Eval (multi (DEL (dm_key agent_id) # map (LPUSH (dm_key agent_id)) (rev updated) @ [EXPIRE (dm_key agent_id) DM_TTL_SECONDS]) [])"

definition mark_read :: "relay \<Rightarrow> string \<Rightarrow> caller option \<Rightarrow> int handler" where
  "mark_read R agent_id caller =
     redis_call (LRANGE (dm_key agent_id) 0 (- 1)) (\<lambda>r.
       (case mark_all R caller (reply_texts r) of
          Inl e \<Rightarrow> Ret (Inl e)
        | Inr (updated, count) \<Rightarrow>
            if count = 0 then Ret (Inr 0)
            else ask_op (replace_inbox agent_id updated) (\<lambda>_. Ret (Inr (int count)))))"

section \<open>Tools and routes\<close>

definition relay_send_dm :: "relay \<Rightarrow> incoming \<Rightarrow> string \<Rightarrow> string \<Rightarrow> string \<Rightarrow> pyval handler" where
  "relay_send_dm R rq to_agent_id content from_id =
     tool (scoped R rq [''relay:write''] (validate_name to_agent_id ''to_agent_id'' (validate_name from_id ''from_id''
       (too_large content (with_caller R rq (\<lambda>c.
         label_refusal R from_id c ''from_id''
           (and_then (label_owner R to_agent_id) (\<lambda>to_owner.
            and_then (send_dm R (''dm-'' @ q_uid rq) (q_now rq) to_agent_id content from_id (Some (stamp_of c)) to_owner) (\<lambda>msg.
            replay_emit R ''coordination'' [(''action'', PyStr ''dm_sent''), (''to'', PyStr to_agent_id),
              (''message_preview'', PyStr (take 200 content))] from_id (Some (stamp_of c))
              (Ret (Inr (PyDict [(''status'', PyStr ''sent''), (''message'', PyDict msg)]))))))))))))"

definition dms_reply :: "string \<Rightarrow> pyval list \<Rightarrow> pyval" where
  "dms_reply agent_id messages = PyDict [(''agent_id'', PyStr agent_id), (''messages'', PyList messages),
     (''count'', PyInt (int (length messages)))]"

definition relay_get_dm :: "relay \<Rightarrow> incoming \<Rightarrow> string \<Rightarrow> bool \<Rightarrow> int \<Rightarrow> pyval handler" where
  "relay_get_dm R rq agent_id unread_only limit =
     tool (scoped R rq [''relay:read''] (validate_name agent_id ''agent_id'' (with_caller R rq (\<lambda>c.
       and_then (get_dms R agent_id unread_only (min limit MAX_LIMIT) (Some c)) (\<lambda>messages.
         Ret (Inr (dms_reply agent_id messages)))))))"

definition route_get_dm :: "relay \<Rightarrow> incoming \<Rightarrow> string \<Rightarrow> string \<Rightarrow> pyval handler" where
  "route_get_dm R rq agent_id unread_only =
     route (route_scoped R rq [''relay:read''] (route_caller R rq (\<lambda>c.
       and_then (get_dms R agent_id (py_lower unread_only = ''true'') 50 (Some c)) (\<lambda>messages.
         json_response 200 (dms_reply agent_id messages)))))"

text \<open>\<open>handle_post_dm\<close>: another member's label is refused\<close>

definition post_dm :: "relay \<Rightarrow> incoming \<Rightarrow> string \<Rightarrow> string \<Rightarrow> string \<Rightarrow> caller \<Rightarrow> pyval handler" where
  "post_dm R rq agent_id content from_id c =
     and_then (label_held_by_other R from_id (Some c)) (\<lambda>held.
       if held then Ret (Inl (access_error (''from_id '' @ [CHR 0x27] @ from_id @ [CHR 0x27]
         @ '' is registered by another member; use your own agent label'')))
       else and_then (label_owner R agent_id) (\<lambda>to_owner.
         and_then (send_dm R (''dm-'' @ q_uid rq) (q_now rq) agent_id content from_id (Some (stamp_of c)) to_owner) (\<lambda>msg.
           Ret (Inr (PyDict [(''status'', PyStr ''sent''), (''message'', PyDict msg)])))))"

definition route_post_dm :: "relay \<Rightarrow> incoming \<Rightarrow> string \<Rightarrow> string \<Rightarrow> string \<Rightarrow> pyval handler" where
  "route_post_dm R rq agent_id content from_id =
     route (route_scoped R rq [''relay:write'']
       (if content = [] then json_response 400 (error_body ''content is required'')
        else route_caller R rq (\<lambda>c. bindP (post_dm R rq agent_id content from_id c) (\<lambda>r. case r of
          Inr v \<Rightarrow> json_response 200 v
        | Inl (HandsError k m) \<Rightarrow> json_response 403 (error_body m)
        | Inl e \<Rightarrow> Ret (Inl e)))))"

definition route_mark_dm_read :: "relay \<Rightarrow> incoming \<Rightarrow> string \<Rightarrow> pyval handler" where
  "route_mark_dm_read R rq agent_id =
     route (route_scoped R rq [''relay:write''] (route_caller R rq (\<lambda>c.
       and_then (mark_read R agent_id (Some c)) (\<lambda>n.
         json_response 200 (PyDict [(''agent_id'', PyStr agent_id), (''marked_read'', PyInt n)])))))"

section \<open>Who may read a message\<close>

text \<open>
  A message addressed to a member is read by that member, or by an admin key of the workspace it is
  addressed in; one addressed to nobody by the deployment owner or an admin key of the deployment.
\<close>

lemma visible_to_addressee:
  assumes "visible_to R msg c" and "c_authenticated c" and "truthy (get_val msg ''to_member'')"
  shows "str_or (r_print R) (get_val msg ''to_workspace'') (d_workspace (r_dep R)) = c_workspace c
    \<and> (get_val msg ''to_member'' = PyStr (c_member c) \<or> c_admin c)"
  using assms
  by (auto simp: visible_to_def administers_def owns_def record_workspace_def get_val_def OWNER_WORKSPACE_def OWNER_MEMBER_def
      split: if_splits)

lemma visible_to_unaddressed:
  assumes "visible_to R msg c" and "c_authenticated c" and "\<not> truthy (get_val msg ''to_member'')"
  shows "is_deployment_owner (r_dep R) (Some c)
    \<or> (c_admin c \<and> str_or (r_print R) (get_val msg ''to_workspace'') (d_workspace (r_dep R)) = c_workspace c)"
  using assms
  by (auto simp: visible_to_def administers_def owns_def record_workspace_def get_val_def OWNER_WORKSPACE_def OWNER_MEMBER_def
      is_deployment_owner_def split: if_splits)

lemma pick_dms_shown:
  "pick_dms R caller unread_only limit raws acc = Inr messages \<Longrightarrow> v \<in> set messages \<Longrightarrow> v \<notin> set acc \<Longrightarrow>
   \<exists>raw msg. raw \<in> set raws \<and> loads R raw = Some (PyDict msg) \<and> v = PyDict msg \<and> shown_to R msg caller"
proof (induction R caller unread_only limit raws acc rule: pick_dms.induct)
  case (2 R caller unread_only limit raw raws acc)
  show ?case
  proof (cases "loads R raw")
    case None
    with 2 show ?thesis by fastforce
  next
    case (Some w)
    show ?thesis
    proof (cases "\<exists>msg. w = PyDict msg")
      case True
      then obtain msg where w: "w = PyDict msg" ..
      with Some 2 show ?thesis by (fastforce split: if_splits)
    next
      case False
      with Some "2.prems"(1) show ?thesis by (cases w) auto
    qed
  qed
qed simp

section \<open>The keys they write\<close>

definition dm_keys :: "string set" where
  "dm_keys = range dm_key"

lemma dm_keys [simp]: "dm_key l \<in> dm_keys"
  by (simp add: dm_keys_def)

lemma replace_inbox_inside [simp]: "inside dm_keys (replace_inbox l updated)"
  by (auto simp: replace_inbox_def list_all_iff intro!: inside_Eval only_intros)

lemma dm_operations [simp]:
  "only (inside dm_keys) (send_dm R i t l content from_id st ow)" "only (inside dm_keys) (get_dms R l unread limit cl)"
  "only (inside dm_keys) (mark_read R l cl)"
  by (auto simp: send_dm_def get_dms_def mark_read_def Let_def intro!: only_intros split: sum.split)

lemma dm_tools:
  "only (inside dm_keys) (relay_send_dm R rq l content from_id)" "only (inside dm_keys) (relay_get_dm R rq l unread limit)"
  "only (inside dm_keys) (route_get_dm R rq l u)" "only (inside dm_keys) (route_post_dm R rq l content from_id)"
  "only (inside dm_keys) (route_mark_dm_read R rq l)"
  by (auto simp: relay_send_dm_def relay_get_dm_def route_get_dm_def route_post_dm_def post_dm_def route_mark_dm_read_def
      intro!: only_intros split: option.split sum.split py_exc.split)

end
