(* ===== verification/Relay_Scope.thy ===== *)
theory Relay_Scope
  imports Relay_Board
begin

text \<open>
  Scope sessions, screens and answers (\<open>relay/app/scope.py\<close> with its tools and routes): a session a
  member owns, the screens its agent posts, the first answer that wins, and the Bridge decision that
  is written with a key of the session's owner.
\<close>

definition session_key :: "string \<Rightarrow> string" where "session_key s = ''nr:scope:session:'' @ s"
definition screens_key :: "string \<Rightarrow> string" where "screens_key s = ''nr:scope:screens:'' @ s"
definition screens_order_key :: "string \<Rightarrow> string" where "screens_order_key s = ''nr:scope:screens_order:'' @ s"
definition screen_seq_key :: "string \<Rightarrow> string" where "screen_seq_key s = ''nr:scope:screen_seq:'' @ s"
definition answer_key :: "string \<Rightarrow> string \<Rightarrow> string" where "answer_key s i = ''nr:scope:answer:'' @ s @ '':'' @ i"
definition events_key :: "string \<Rightarrow> string" where "events_key s = ''nr:scope:events:'' @ s"
definition persisted_key :: "string \<Rightarrow> string \<Rightarrow> string" where "persisted_key s i = ''nr:scope:persisted:'' @ s @ '':'' @ i"
definition SCOPE_INDEX :: string where "SCOPE_INDEX = ''nr:scope:__index''"

definition SCOPE_TTL_SECONDS :: int where "SCOPE_TTL_SECONDS = 86400 * 7"
definition ABANDON_AFTER_SECONDS :: rat where "ABANDON_AFTER_SECONDS = 86400 * 3"
definition VALID_ORIGINS :: "string list" where "VALID_ORIGINS = [''cli'', ''mcp'']"
definition VALID_SOURCES :: "string list" where "VALID_SOURCES = [''dashboard'', ''local'']"

definition scope_id_char :: "char \<Rightarrow> bool" where
  "scope_id_char c \<longleftrightarrow> id_char c \<and> c \<noteq> CHR ''.''"

text \<open>\<open>_ID_PATTERN.match\<close>; the dollar also matches before a final newline\<close>

definition valid_scope_id :: "string \<Rightarrow> bool" where
  "valid_scope_id s \<longleftrightarrow>
     (let body = (if s \<noteq> [] \<and> last s = newline then butlast s else s) in body \<noteq> [] \<and> list_all scope_id_char body)"

section \<open>Sessions\<close>

text \<open>\<open>_parse_session\<close>: the version as an integer, the times as floats\<close>

definition session_float :: "relay \<Rightarrow> (string \<times> string) list \<Rightarrow> string \<Rightarrow> pydict \<Rightarrow> pydict" where
  "session_float R raw k d = (case map_of raw k of None \<Rightarrow> d
     | Some s \<Rightarrow> (case read_number (r_read R) s of
         Some (v, r) \<Rightarrow> (case (r, as_number v) of ([], Some q) \<Rightarrow> AList.update k (PyFloat q) d | _ \<Rightarrow> d) | None \<Rightarrow> d))"

definition parse_session :: "relay \<Rightarrow> (string \<times> string) list \<Rightarrow> pydict" where
  "parse_session R raw =
     (let d = (case map_of raw ''v'' of None \<Rightarrow> texts_dict raw
        | Some s \<Rightarrow> if s \<noteq> [] \<and> list_all is_digit s then AList.update ''v'' (PyInt (int_of_text s)) (texts_dict raw) else texts_dict raw)
      in session_float R raw ''closed_at'' (session_float R raw ''last_activity_at'' (session_float R raw ''created_at'' d)))"

definition get_session :: "relay \<Rightarrow> string \<Rightarrow> (pydict option \<Rightarrow> 'a handler) \<Rightarrow> 'a handler" where
  "get_session R scope_id k = redis_call (HGETALL (session_key scope_id)) (\<lambda>r.
     k (if reply_pairs r = [] then None else Some (parse_session R (reply_pairs r))))"

definition session_hash ::
  "relay \<Rightarrow> string \<Rightarrow> rat \<Rightarrow> string \<Rightarrow> string \<Rightarrow> string \<Rightarrow> string option \<Rightarrow> string option \<Rightarrow> caller option \<Rightarrow> (string \<times> string) list" where
  "session_hash R scope_id t agent_id goal origin project bridge_session_id owner =
     [(''v'', ''1''), (''scope_id'', scope_id), (''agent_id'', agent_id),
      (''bridge_session_id'', case bridge_session_id of Some s \<Rightarrow> s | None \<Rightarrow> []), (''project'', case project of Some s \<Rightarrow> s | None \<Rightarrow> []),
      (''goal'', goal), (''origin'', origin), (''status'', ''active''), (''created_at'', r_print R t), (''last_activity_at'', r_print R t)]
     @ (case owner of Some c \<Rightarrow> owner_fields c | None \<Rightarrow> [])"

definition session_fields ::
  "string \<Rightarrow> rat \<Rightarrow> string \<Rightarrow> string \<Rightarrow> string \<Rightarrow> string option \<Rightarrow> string option \<Rightarrow> caller option \<Rightarrow> pydict" where
  "session_fields scope_id t agent_id goal origin project bridge_session_id owner =
     [(''v'', PyInt 1), (''scope_id'', PyStr scope_id), (''agent_id'', PyStr agent_id),
      (''bridge_session_id'', PyStr (case bridge_session_id of Some s \<Rightarrow> s | None \<Rightarrow> [])),
      (''project'', PyStr (case project of Some s \<Rightarrow> s | None \<Rightarrow> [])),
      (''goal'', PyStr goal), (''origin'', PyStr origin), (''status'', PyStr ''active''), (''created_at'', PyFloat t),
      (''last_activity_at'', PyFloat t)]
     @ (case owner of Some c \<Rightarrow> texts_dict (owner_fields c) | None \<Rightarrow> [])"

definition scope_owns :: "relay \<Rightarrow> pydict \<Rightarrow> caller \<Rightarrow> bool" where
  "scope_owns R s c = owns (r_print R) (r_dep R) s (Some c)"

definition scope_administers :: "relay \<Rightarrow> pydict \<Rightarrow> caller \<Rightarrow> bool" where
  "scope_administers R s c = administers (r_print R) (r_dep R) s (Some c)"

definition no_session :: "string \<Rightarrow> py_exc" where
  "no_session scope_id = access_error (''Session '' @ scope_id @ '' not found'')"

definition create_session ::
  "relay \<Rightarrow> string \<Rightarrow> rat \<Rightarrow> string \<Rightarrow> string \<Rightarrow> string \<Rightarrow> string option \<Rightarrow> string option \<Rightarrow> string option \<Rightarrow> caller option
     \<Rightarrow> pydict handler" where
  "create_session R fresh_id t agent_id goal origin project bridge_session_id scope_id owner =
     (let given = (case scope_id of Some s \<Rightarrow> s | None \<Rightarrow> []); sid = (if given \<noteq> [] then given else ''sc_'' @ fresh_id);
          create = redis_call (HSET (session_key sid) (session_hash R sid t agent_id goal origin project bridge_session_id owner)) (\<lambda>_.
            redis_call (ZADD SCOPE_INDEX sid t) (\<lambda>_.
            Ret (Inr (session_fields sid t agent_id goal origin project bridge_session_id owner))))
      in if origin \<notin> set VALID_ORIGINS
         then Ret (Inl (value_error (''Invalid origin: '' @ py_repr origin @ ''. Must be one of '' @ py_repr_list (sort VALID_ORIGINS))))
         else if given \<noteq> [] \<and> \<not> valid_scope_id given then Ret (Inl (value_error (''Invalid scope_id: '' @ py_repr given)))
         else if given \<noteq> [] then
           get_session R sid (\<lambda>existing. case existing of
             None \<Rightarrow> create
           | Some s \<Rightarrow> if (case owner of Some c \<Rightarrow> \<not> scope_owns R s c | None \<Rightarrow> False) then Ret (Inl (no_session sid)) else Ret (Inr s))
         else create)"

definition require_owned_session :: "relay \<Rightarrow> string \<Rightarrow> caller \<Rightarrow> bool \<Rightarrow> (pydict option \<Rightarrow> 'a handler) \<Rightarrow> 'a handler" where
  "require_owned_session R scope_id c admin_ok k =
     get_session R scope_id (\<lambda>s. case s of
       None \<Rightarrow> if c_authenticated c then Ret (Inl (no_session scope_id)) else k None
     | Some d \<Rightarrow> if (if admin_ok then scope_administers R d c else scope_owns R d c) then k (Some d) else Ret (Inl (no_session scope_id)))"

section \<open>Screens\<close>

definition touch_activity :: "relay \<Rightarrow> string \<Rightarrow> rat \<Rightarrow> 'a handler \<Rightarrow> 'a handler" where
  "touch_activity R scope_id t p = redis_call (HSET (session_key scope_id) [(''last_activity_at'', r_print R t)]) (\<lambda>_. p)"

definition append_event :: "relay \<Rightarrow> string \<Rightarrow> rat \<Rightarrow> pydict \<Rightarrow> 'a handler \<Rightarrow> 'a handler" where
  "append_event R scope_id t event p =
     redis_call (RPUSH (events_key scope_id) (dumps R (PyDict (dict_merge event [(''ts'', PyFloat t)])))) (\<lambda>_. p)"

text \<open>\<open>screen.get("screen_id")\<close> where it is a text; the screen of a caller may hold anything else\<close>

definition screen_id_of :: "pydict \<Rightarrow> string" where
  "screen_id_of screen = (case map_of screen ''screen_id'' of Some (PyStr s) \<Rightarrow> s | _ \<Rightarrow> [])"

definition pending_screen :: "pydict \<Rightarrow> string \<Rightarrow> pydict" where
  "pending_screen screen screen_id =
     dict_merge screen [(''screen_id'', PyStr screen_id), (''v'', PyInt 1), (''status'', PyStr ''pending'')]"

definition store_screen :: "relay \<Rightarrow> string \<Rightarrow> rat \<Rightarrow> pydict \<Rightarrow> string \<Rightarrow> bool \<Rightarrow> pydict handler" where
  "store_screen R scope_id t screen screen_id is_new =
     (let stored = pending_screen screen screen_id in
      redis_call (HSET (screens_key scope_id) [(screen_id, dumps R (PyDict stored))]) (\<lambda>_.
        if \<not> is_new then Ret (Inr stored)
        else redis_call (RPUSH (screens_order_key scope_id) screen_id) (\<lambda>_.
          touch_activity R scope_id t
            (append_event R scope_id t [(''type'', PyStr ''screen.posted''), (''screen_id'', PyStr screen_id)] (Ret (Inr stored))))))"

definition mirror_screen :: "relay \<Rightarrow> string \<Rightarrow> rat \<Rightarrow> pydict \<Rightarrow> pydict handler" where
  "mirror_screen R scope_id t screen =
     (let screen_id = screen_id_of screen in
      if screen_id = [] then
        redis_call (INCR (screen_seq_key scope_id)) (\<lambda>n.
          store_screen R scope_id t screen (scope_id @ ''-'' @ str_of_int (reply_int n)) True)
      else if \<not> valid_scope_id screen_id then Ret (Inl (value_error (''Invalid screen_id: '' @ py_repr screen_id)))
      else redis_call (HGET (screens_key scope_id) screen_id) (\<lambda>raw. case reply_text raw of
          None \<Rightarrow> store_screen R scope_id t screen screen_id True
        | Some s \<Rightarrow> loaded_dict R s (\<lambda>existing.
            if get_val existing ''status'' \<noteq> PyStr ''pending'' then Ret (Inr existing)
            else store_screen R scope_id t screen screen_id False)))"

definition get_screens :: "relay \<Rightarrow> string \<Rightarrow> pyval list handler" where
  "get_screens R scope_id =
     redis_call (LRANGE (screens_order_key scope_id) 0 (- 1)) (\<lambda>ids.
       for_each (reply_texts ids) (\<lambda>sid acc.
         redis_call (HGET (screens_key scope_id) sid) (\<lambda>raw. case reply_text raw of
           None \<Rightarrow> Ret (Inr acc)
         | Some s \<Rightarrow> if s = [] then Ret (Inr acc) else loaded R s (\<lambda>v. Ret (Inr (acc @ [v]))))) [])"

text \<open>a loop over the values a list of JSON objects holds; another value has no \<open>get\<close>\<close>

definition as_screen :: "pyval \<Rightarrow> (pydict \<Rightarrow> 'a handler) \<Rightarrow> 'a handler" where
  "as_screen v k = (case v of PyDict d \<Rightarrow> k d
     | _ \<Rightarrow> raises (CHR 0x27 # type_name v @ [CHR 0x27] @ '' object has no attribute 'get' ''))"

text \<open>\<open>d[k]\<close>\<close>

definition item :: "pydict \<Rightarrow> string \<Rightarrow> (pyval \<Rightarrow> 'a handler) \<Rightarrow> 'a handler" where
  "item d k f = (case map_of d k of Some v \<Rightarrow> f v | None \<Rightarrow> raises (CHR 0x27 # k @ [CHR 0x27]))"

definition value_item :: "pyval \<Rightarrow> string \<Rightarrow> (pyval \<Rightarrow> 'a handler) \<Rightarrow> 'a handler" where
  "value_item v k f = (case v of PyDict d \<Rightarrow> item d k f
     | _ \<Rightarrow> raises (CHR 0x27 # type_name v @ [CHR 0x27] @ '' object is not subscriptable''))"

section \<open>Closing, listing and abandoning\<close>

primrec expire_all :: "string list \<Rightarrow> 'a handler \<Rightarrow> 'a handler" where
  "expire_all [] p = p"
| "expire_all (k # ks) p = redis_call (EXPIRE k SCOPE_TTL_SECONDS) (\<lambda>_. expire_all ks p)"

primrec screen_ids :: "pyval list \<Rightarrow> string list \<Rightarrow> (string list \<Rightarrow> 'a handler) \<Rightarrow> 'a handler" where
  "screen_ids [] acc k = k acc"
| "screen_ids (v # vs) acc k = value_item v ''screen_id'' (\<lambda>i. screen_ids vs (acc @ [case i of PyStr s \<Rightarrow> s | _ \<Rightarrow> []]) k)"

definition close_session :: "relay \<Rightarrow> string \<Rightarrow> rat \<Rightarrow> string \<Rightarrow> (pydict option \<Rightarrow> 'a handler) \<Rightarrow> 'a handler" where
  "close_session R scope_id t status k =
     redis_call (HSET (session_key scope_id) [(''status'', status), (''closed_at'', r_print R t)]) (\<lambda>_.
     bindP (get_screens R scope_id) (\<lambda>res. case res of
       Inl e \<Rightarrow> Ret (Inl e)
     | Inr screens \<Rightarrow> screen_ids screens [] (\<lambda>ids.
         expire_all ([session_key scope_id, screens_key scope_id, screens_order_key scope_id, events_key scope_id, screen_seq_key scope_id]
             @ map (answer_key scope_id) ids)
           (get_session R scope_id k))))"

definition complete_session :: "relay \<Rightarrow> string \<Rightarrow> rat \<Rightarrow> pydict option handler" where
  "complete_session R scope_id t =
     get_session R scope_id (\<lambda>s. case s of
       None \<Rightarrow> Ret (Inr None)
     | Some d \<Rightarrow> item d ''status'' (\<lambda>st. if st \<noteq> PyStr ''active'' then Ret (Inr (Some d))
         else close_session R scope_id t ''completed'' (\<lambda>r. Ret (Inr r))))"

text \<open>\<open>now - session["last_activity_at"]\<close>; a value that stayed a text cannot be subtracted\<close>

definition abandon_stale_sessions :: "relay \<Rightarrow> rat \<Rightarrow> nat handler" where
  "abandon_stale_sessions R t =
     redis_call (ZRANGE SCOPE_INDEX 0 (- 1)) (\<lambda>ids.
       for_each (reply_texts ids) (\<lambda>sid count.
         get_session R sid (\<lambda>s. case s of
           None \<Rightarrow> redis_call (ZREM SCOPE_INDEX [sid]) (\<lambda>_. Ret (Inr count))
         | Some d \<Rightarrow> item d ''status'' (\<lambda>st.
             if st \<noteq> PyStr ''active'' then Ret (Inr count)
             else item d ''last_activity_at'' (\<lambda>v. case as_number v of
                 None \<Rightarrow> raises ''unsupported operand type(s) for -: 'float' and 'str' ''
               | Some seen \<Rightarrow>
                   if t - seen < ABANDON_AFTER_SECONDS then Ret (Inr count)
                   else close_session R sid t ''abandoned'' (\<lambda>_. Ret (Inr (Suc count))))))) 0)"

primrec any_pending :: "relay \<Rightarrow> string list \<Rightarrow> bool handler" where
  "any_pending R [] = Ret (Inr False)"
| "any_pending R (raw # raws) = loaded_dict R raw (\<lambda>screen.
     if get_val screen ''status'' = PyStr ''pending'' \<and> get_val screen ''mode'' = PyStr ''gating'' then Ret (Inr True)
     else any_pending R raws)"

definition has_pending_gating_screens :: "relay \<Rightarrow> string \<Rightarrow> bool handler" where
  "has_pending_gating_screens R scope_id = redis_call (HVALS (screens_key scope_id)) (\<lambda>r. any_pending R (reply_texts r))"

primrec collect_sessions ::
  "relay \<Rightarrow> string \<Rightarrow> int \<Rightarrow> caller option \<Rightarrow> string list \<Rightarrow> pyval list \<Rightarrow> pyval list handler" where
  "collect_sessions R status limit caller [] results = Ret (Inr results)"
| "collect_sessions R status limit caller (sid # sids) results =
     get_session R sid (\<lambda>s. case s of
       None \<Rightarrow> redis_call (ZREM SCOPE_INDEX [sid]) (\<lambda>_. collect_sessions R status limit caller sids results)
     | Some d \<Rightarrow>
         (let go = (if (case caller of Some c \<Rightarrow> \<not> scope_administers R d c | None \<Rightarrow> False)
            then collect_sessions R status limit caller sids results
            else and_then (has_pending_gating_screens R sid) (\<lambda>pending.
              let found = results @ [PyDict (AList.update ''pending_screens'' (PyBool pending) d)] in
              if limit \<le> int (length found) then Ret (Inr found) else collect_sessions R status limit caller sids found))
          in if status = [] then go
             else item d ''status'' (\<lambda>st. if st \<noteq> PyStr status then collect_sessions R status limit caller sids results else go)))"

definition list_sessions :: "relay \<Rightarrow> rat \<Rightarrow> string \<Rightarrow> int \<Rightarrow> caller option \<Rightarrow> pyval list handler" where
  "list_sessions R t status limit caller =
     (let listed = redis_call (ZREVRANGE SCOPE_INDEX 0 (limit * 3)) (\<lambda>ids. collect_sessions R status limit caller (reply_texts ids) [])
      in if status = ''active'' then and_then (abandon_stale_sessions R t) (\<lambda>_. listed) else listed)"

section \<open>Answers and decisions\<close>

definition decision_text :: "relay \<Rightarrow> string \<Rightarrow> pyval \<Rightarrow> string" where
  "decision_text R screen_id answers = ''FirekeepScope screen '' @ screen_id @ '' resolved: '' @ dumps R answers"

text \<open>
  The Bridge write: the session's agent in the address, the key it presents in the header, and the
  decision. Its failure is only logged.
\<close>

definition bridge_write :: "relay \<Rightarrow> pyval \<Rightarrow> string \<Rightarrow> string \<Rightarrow> string option \<Rightarrow> pyval" where
  "bridge_write R agent_id content scope_id key =
     PyDict [(''url'', PyStr (r_bridge_url R @ ''/sessions/'' @ py_str (r_print R) agent_id @ ''/context'')),
       (''key'', case key of Some k \<Rightarrow> if k \<noteq> [] then PyStr k else PyNone | None \<Rightarrow> PyNone),
       (''json'', PyDict [(''category'', PyStr ''decision''), (''content'', PyStr content), (''key'', PyStr scope_id)])]"

definition persist_to_bridge :: "relay \<Rightarrow> pyval \<Rightarrow> string \<Rightarrow> string \<Rightarrow> string option \<Rightarrow> 'a handler \<Rightarrow> 'a handler" where
  "persist_to_bridge R agent_id content scope_id key p = best_effort ''bridge'' (bridge_write R agent_id content scope_id key) p"

definition answer_payload :: "pyval \<Rightarrow> string \<Rightarrow> rat \<Rightarrow> bool \<Rightarrow> pydict" where
  "answer_payload answers source t deferred =
     [(''answers'', answers), (''source'', PyStr source), (''answered_at'', PyFloat t)] @ (if deferred then [(''bridge'', PyStr ''deferred'')] else [])"

definition resolve_screen ::
  "relay \<Rightarrow> string \<Rightarrow> string \<Rightarrow> rat \<Rightarrow> string \<Rightarrow> pydict \<Rightarrow> string \<Rightarrow> 'a handler \<Rightarrow> 'a handler" where
  "resolve_screen R scope_id screen_id t source payload raw p =
     loaded_dict R raw (\<lambda>screen.
       redis_call (HSET (screens_key scope_id)
          [(screen_id, dumps R (PyDict (dict_merge screen [(''status'', PyStr ''resolved''), (''answer'', PyDict payload)])))]) (\<lambda>_.
       touch_activity R scope_id t (append_event R scope_id t
         [(''type'', PyStr ''screen.answered''), (''screen_id'', PyStr screen_id), (''source'', PyStr source)] p)))"

definition post_answer ::
  "relay \<Rightarrow> string \<Rightarrow> string \<Rightarrow> rat \<Rightarrow> pyval \<Rightarrow> string \<Rightarrow> string option \<Rightarrow> caller option \<Rightarrow> pydict handler" where
  "post_answer R scope_id screen_id t answers source key answerer =
     (if source \<notin> set VALID_SOURCES
      then Ret (Inl (value_error (''Invalid source: '' @ py_repr source @ ''. Must be one of '' @ py_repr_list (sort VALID_SOURCES))))
      else redis_call (HGET (screens_key scope_id) screen_id) (\<lambda>r. case reply_text r of
        None \<Rightarrow> Ret (Inl (value_error (''Screen '' @ screen_id @ '' not found in session '' @ scope_id)))
      | Some raw \<Rightarrow>
          (let answered = (\<lambda>session.
             let to_bridge = (case session of Some d \<Rightarrow> get_val d ''origin'' = PyStr ''mcp'' | None \<Rightarrow> False);
                 deferred = (to_bridge \<and> (case (answerer, session) of (Some c, Some d) \<Rightarrow> \<not> scope_owns R d c | _ \<Rightarrow> False));
                 payload = answer_payload answers source t deferred in
             redis_call (SET (answer_key scope_id screen_id) (dumps R (PyDict payload)) True None) (\<lambda>won.
               if won = RNil then
                 redis_call (GET (answer_key scope_id screen_id)) (\<lambda>a.
                   loaded R (case reply_text a of Some s \<Rightarrow> s | None \<Rightarrow> []) (\<lambda>existing.
                     Ret (Inr [(''resolved'', PyBool False), (''answer'', existing)])))
               else resolve_screen R scope_id screen_id t source payload raw
                 (let finish = Ret (Inr [(''resolved'', PyBool True), (''answer'', PyDict payload)]) in
                  if to_bridge \<and> \<not> deferred then
                    item (case session of Some d \<Rightarrow> d | None \<Rightarrow> []) ''agent_id'' (\<lambda>agent.
                      persist_to_bridge R agent (decision_text R screen_id answers) scope_id key finish)
                  else finish)))
           in if r_bridge_url R = [] then answered None else get_session R scope_id answered)))"

text \<open>the decisions an admin's answers left to the owner, each written once\<close>

definition collect_deferred_decisions :: "relay \<Rightarrow> string \<Rightarrow> string option \<Rightarrow> nat handler" where
  "collect_deferred_decisions R scope_id key =
     (if r_bridge_url R = [] then Ret (Inr 0)
      else get_session R scope_id (\<lambda>s. case s of
        None \<Rightarrow> Ret (Inr 0)
      | Some session \<Rightarrow>
          if get_val session ''origin'' \<noteq> PyStr ''mcp'' then Ret (Inr 0)
          else bindP (get_screens R scope_id) (\<lambda>res. case res of Inl e \<Rightarrow> Ret (Inl e) | Inr screens \<Rightarrow>
            for_each screens (\<lambda>v written. as_screen v (\<lambda>screen.
              let answer = (case get_val screen ''answer'' of PyDict d \<Rightarrow> d | _ \<Rightarrow> []) in
              if get_val screen ''status'' \<noteq> PyStr ''resolved'' \<or> get_val answer ''bridge'' \<noteq> PyStr ''deferred'' then Ret (Inr written)
              else item screen ''screen_id'' (\<lambda>sid.
                let i = (case sid of PyStr x \<Rightarrow> x | _ \<Rightarrow> []) in
                redis_call (SET (persisted_key scope_id i) ''1'' True (Some SCOPE_TTL_SECONDS)) (\<lambda>fresh.
                  if fresh = RNil then Ret (Inr written)
                  else item session ''agent_id'' (\<lambda>agent.
                    persist_to_bridge R agent
                      (decision_text R i (if truthy (get_val answer ''answers'') then get_val answer ''answers'' else PyDict []))
                      scope_id key (Ret (Inr (Suc written)))))))) 0)))"

definition get_events :: "relay \<Rightarrow> string \<Rightarrow> int \<Rightarrow> pyval list handler" where
  "get_events R scope_id since =
     redis_call (LRANGE (events_key scope_id) since (- 1)) (\<lambda>r.
       for_each (reply_texts r) (\<lambda>raw acc. loaded R raw (\<lambda>v. Ret (Inr (acc @ [v])))) [])"

section \<open>Tools\<close>

definition bridge_key :: "incoming \<Rightarrow> caller \<Rightarrow> string option" where
  "bridge_key rq c = (if c_authenticated c then (case q_api_key rq of Some k \<Rightarrow> if k \<noteq> [] then Some k else None | None \<Rightarrow> None) else None)"

text \<open>The tools of a session answer a refusal as not found.\<close>

definition scope_tool :: "pyval handler \<Rightarrow> pyval handler" where
  "scope_tool p = tool (catching p (\<lambda>e. case e of
     HandsError k m \<Rightarrow> if k = ''RelayAccessError''
       then Ret (Inr (PyDict [(''error'', PyStr m), (''status'', PyStr ''not_found'')])) else Ret (Inl e)
   | _ \<Rightarrow> Ret (Inl e)))"

definition collect_decisions :: "relay \<Rightarrow> incoming \<Rightarrow> string \<Rightarrow> caller \<Rightarrow> pyval handler \<Rightarrow> pyval handler" where
  "collect_decisions R rq scope_id c p = bindP (collect_deferred_decisions R scope_id (bridge_key rq c)) (\<lambda>_. p)"

definition scope_start :: "relay \<Rightarrow> incoming \<Rightarrow> string \<Rightarrow> string \<Rightarrow> string option \<Rightarrow> string option \<Rightarrow> pyval handler" where
  "scope_start R rq goal agent_id project bridge_session_id =
     tool (scoped R rq [''relay:write''] (validate_name agent_id ''agent_id'' (with_caller R rq (\<lambda>c.
       and_then (create_session R (q_uid rq) (q_now rq) agent_id goal ''mcp'' project bridge_session_id None (Some c)) (\<lambda>d.
         Ret (Inr (PyDict d)))))))"

text \<open>\<open>goal or screen.get("title", "Scoping")\<close>, for a title that is a text\<close>

definition session_goal :: "string option \<Rightarrow> pydict \<Rightarrow> string" where
  "session_goal goal screen = (case goal of Some g \<Rightarrow> if g \<noteq> [] then g else
       (case map_of screen ''title'' of Some (PyStr s) \<Rightarrow> s | _ \<Rightarrow> ''Scoping'')
     | None \<Rightarrow> (case map_of screen ''title'' of Some (PyStr s) \<Rightarrow> s | _ \<Rightarrow> ''Scoping''))"

text \<open>the session a screen goes into: the one named, which the caller must own, or a new one\<close>

definition scope_session_for ::
  "relay \<Rightarrow> incoming \<Rightarrow> pydict \<Rightarrow> string option \<Rightarrow> string \<Rightarrow> string option \<Rightarrow> caller \<Rightarrow> (string \<Rightarrow> pyval handler) \<Rightarrow> pyval handler" where
  "scope_session_for R rq screen scope_id agent_id goal c k =
     (let named = (case scope_id of Some s \<Rightarrow> s | None \<Rightarrow> []) in
      if named \<noteq> [] then require_owned_session R named c False (\<lambda>_. k named)
      else validate_name agent_id ''agent_id''
        (and_then (create_session R (q_uid rq) (q_now rq) agent_id (session_goal goal screen) ''mcp'' None None None (Some c))
          (\<lambda>d. item d ''scope_id'' (\<lambda>v. k (case v of PyStr x \<Rightarrow> x | _ \<Rightarrow> [])))))"

definition screen_reply :: "string \<Rightarrow> string \<Rightarrow> pyval \<Rightarrow> (string \<times> pyval) list \<Rightarrow> pyval" where
  "screen_reply status scope_id screen_id rest =
     PyDict ([(''status'', PyStr status), (''scope_id'', PyStr scope_id), (''screen_id'', screen_id)] @ rest)"

text \<open>the poll: the screens are read again until the one posted is resolved; the sleep between two reads is time that passes\<close>

primrec find_screen :: "string \<Rightarrow> pyval list \<Rightarrow> (pydict option \<Rightarrow> 'a handler) \<Rightarrow> 'a handler" where
  "find_screen screen_id [] k = k None"
| "find_screen screen_id (v # vs) k = value_item v ''screen_id'' (\<lambda>i.
     if i = PyStr screen_id then as_screen v (\<lambda>d. k (Some d)) else find_screen screen_id vs k)"

primrec poll_screen :: "relay \<Rightarrow> incoming \<Rightarrow> string \<Rightarrow> string \<Rightarrow> caller \<Rightarrow> nat \<Rightarrow> pyval handler" where
  "poll_screen R rq scope_id screen_id c 0 =
     collect_decisions R rq scope_id c (Ret (Inr (screen_reply ''pending'' scope_id (PyStr screen_id) [])))"
| "poll_screen R rq scope_id screen_id c (Suc n) =
     and_then (get_screens R scope_id) (\<lambda>screens. find_screen screen_id screens (\<lambda>match. case match of
       Some d \<Rightarrow>
         if get_val d ''status'' = PyStr ''resolved'' then
           collect_decisions R rq scope_id c
             (item d ''answer'' (\<lambda>a. value_item a ''answers'' (\<lambda>answers.
               Ret (Inr (screen_reply ''answered'' scope_id (PyStr screen_id) [(''answers'', answers)])))))
         else poll_screen R rq scope_id screen_id c n
     | None \<Rightarrow> poll_screen R rq scope_id screen_id c n))"

definition SCOPE_ASK_POLL_ITERATIONS :: nat where "SCOPE_ASK_POLL_ITERATIONS = 25"

definition posted_id :: "pydict \<Rightarrow> (string \<Rightarrow> 'a handler) \<Rightarrow> 'a handler" where
  "posted_id d k = item d ''screen_id'' (\<lambda>v. k (case v of PyStr x \<Rightarrow> x | _ \<Rightarrow> []))"

definition scope_ask :: "relay \<Rightarrow> incoming \<Rightarrow> pydict \<Rightarrow> string option \<Rightarrow> string \<Rightarrow> string option \<Rightarrow> pyval handler" where
  "scope_ask R rq screen scope_id agent_id goal =
     scope_tool (scoped R rq [''relay:write''] (with_caller R rq (\<lambda>c.
       scope_session_for R rq screen scope_id agent_id goal c (\<lambda>sid.
         and_then (mirror_screen R sid (q_later rq) (dict_merge screen [(''mode'', PyStr ''gating'')])) (\<lambda>posted.
           posted_id posted (\<lambda>screen_id. poll_screen R rq sid screen_id c SCOPE_ASK_POLL_ITERATIONS))))))"

definition scope_post :: "relay \<Rightarrow> incoming \<Rightarrow> pydict \<Rightarrow> string option \<Rightarrow> string \<Rightarrow> string option \<Rightarrow> pyval handler" where
  "scope_post R rq screen scope_id agent_id goal =
     scope_tool (scoped R rq [''relay:write''] (with_caller R rq (\<lambda>c.
       scope_session_for R rq screen scope_id agent_id goal c (\<lambda>sid.
         and_then (mirror_screen R sid (q_later rq) (dict_merge screen [(''mode'', PyStr ''async'')])) (\<lambda>posted.
           item posted ''screen_id'' (\<lambda>i. Ret (Inr (screen_reply ''posted'' sid i []))))))))"

primrec split_screens :: "pyval list \<Rightarrow> pydict \<Rightarrow> pyval list \<Rightarrow> (pydict \<Rightarrow> pyval list \<Rightarrow> 'a handler) \<Rightarrow> 'a handler" where
  "split_screens [] answered pending k = k answered pending"
| "split_screens (v # vs) answered pending k = as_screen v (\<lambda>d. item d ''screen_id'' (\<lambda>i.
     if get_val d ''status'' = PyStr ''resolved'' then
       item d ''answer'' (\<lambda>a. value_item a ''answers'' (\<lambda>answers.
         split_screens vs (AList.update (case i of PyStr x \<Rightarrow> x | _ \<Rightarrow> []) answers answered) pending k))
     else split_screens vs answered (pending @ [i]) k))"

definition scope_check :: "relay \<Rightarrow> incoming \<Rightarrow> string \<Rightarrow> pyval handler" where
  "scope_check R rq scope_id =
     scope_tool (scoped R rq [''relay:read''] (with_caller R rq (\<lambda>c.
       require_owned_session R scope_id c False (\<lambda>_.
         collect_decisions R rq scope_id c
           (and_then (get_screens R scope_id) (\<lambda>screens. split_screens screens [] [] (\<lambda>answered pending.
             Ret (Inr (PyDict [(''scope_id'', PyStr scope_id), (''answered'', PyDict answered), (''pending'', PyList pending)])))))))))"

definition scope_complete :: "relay \<Rightarrow> incoming \<Rightarrow> string \<Rightarrow> pyval handler" where
  "scope_complete R rq scope_id =
     scope_tool (scoped R rq [''relay:write''] (with_caller R rq (\<lambda>c.
       require_owned_session R scope_id c False (\<lambda>_.
         and_then (complete_session R scope_id (q_now rq)) (\<lambda>res. case res of
           None \<Rightarrow> Ret (Inr (PyDict [(''error'', PyStr (''Session '' @ scope_id @ '' not found'')), (''status'', PyStr ''not_found'')]))
         | Some d \<Rightarrow> Ret (Inr (PyDict d)))))))"

section \<open>Routes\<close>

text \<open>\<open>except RelayAccessError\<close> and \<open>except ValueError\<close>, each with its status code\<close>

definition route_errors :: "int \<Rightarrow> (string \<Rightarrow> int) \<Rightarrow> pyval handler \<Rightarrow> pyval handler" where
  "route_errors access_code value_code p = catching p (\<lambda>e. case e of
     HandsError k m \<Rightarrow> json_response (if k = ''RelayAccessError'' then access_code else value_code m) (error_body m)
   | _ \<Rightarrow> Ret (Inl e))"

definition text_field_or :: "pydict \<Rightarrow> string \<Rightarrow> string \<Rightarrow> string" where
  "text_field_or body k alt = (case map_of body k of Some (PyStr s) \<Rightarrow> s | _ \<Rightarrow> alt)"

definition text_field_opt :: "pydict \<Rightarrow> string \<Rightarrow> string option" where
  "text_field_opt body k = (case map_of body k of Some (PyStr s) \<Rightarrow> Some s | _ \<Rightarrow> None)"

definition route_post_scope_session :: "relay \<Rightarrow> incoming \<Rightarrow> pydict \<Rightarrow> pyval handler" where
  "route_post_scope_session R rq body =
     route (route_errors 404 (\<lambda>_. 400) (route_scoped R rq [''relay:write''] (route_caller R rq (\<lambda>c.
       and_then (create_session R (q_uid rq) (q_now rq) (text_field_or body ''agent_id'' ''unknown'') (text_field_or body ''goal'' [])
           (text_field_or body ''origin'' ''cli'') (text_field_opt body ''project'') (text_field_opt body ''bridge_session_id'')
           (text_field_opt body ''scope_id'') (Some c)) (\<lambda>d. json_response 200 (PyDict d))))))"

definition route_post_scope_screen :: "relay \<Rightarrow> incoming \<Rightarrow> string \<Rightarrow> pydict \<Rightarrow> pyval handler" where
  "route_post_scope_screen R rq scope_id screen =
     route (route_errors 404 (\<lambda>_. 404) (route_scoped R rq [''relay:write''] (route_caller R rq (\<lambda>c.
       require_owned_session R scope_id c False (\<lambda>s. case s of
         None \<Rightarrow> Ret (Inl (value_error (''Session '' @ scope_id @ '' not found'')))
       | Some d \<Rightarrow> and_then (mirror_screen R scope_id (q_now rq) screen) (\<lambda>r. json_response 200 (PyDict r)))))))"

definition route_get_scope_sessions :: "relay \<Rightarrow> incoming \<Rightarrow> string \<Rightarrow> pyval handler" where
  "route_get_scope_sessions R rq status =
     route (route_scoped R rq [''relay:read''] (route_caller R rq (\<lambda>c.
       and_then (list_sessions R (q_now rq) status 50 (Some c)) (\<lambda>sessions.
         json_response 200 (PyDict [(''sessions'', PyList sessions), (''count'', PyInt (int (length sessions)))])))))"

definition route_get_scope_session :: "relay \<Rightarrow> incoming \<Rightarrow> string \<Rightarrow> pyval handler" where
  "route_get_scope_session R rq scope_id =
     route (route_scoped R rq [''relay:read''] (route_caller R rq (\<lambda>c.
       bindP (require_owned_session R scope_id c True (\<lambda>s. Ret (Inr s))) (\<lambda>res. case res of
         Inl (HandsError k m) \<Rightarrow> json_response 404 (error_body ''not found'')
       | Inl e \<Rightarrow> Ret (Inl e)
       | Inr None \<Rightarrow> json_response 404 (error_body ''not found'')
       | Inr (Some d) \<Rightarrow> and_then (get_screens R scope_id) (\<lambda>screens.
           json_response 200 (PyDict (AList.update ''screens'' (PyList screens) d)))))))"

definition route_post_scope_answer :: "relay \<Rightarrow> incoming \<Rightarrow> string \<Rightarrow> string \<Rightarrow> pydict \<Rightarrow> pyval handler" where
  "route_post_scope_answer R rq scope_id screen_id body =
     route (route_errors 404 (\<lambda>m. if occurs_in ''not found'' m then 404 else 400)
       (route_scoped R rq [''relay:write''] (route_caller R rq (\<lambda>c.
         require_owned_session R scope_id c True (\<lambda>_.
           and_then (post_answer R scope_id screen_id (q_now rq)
               (case map_of body ''answers'' of Some v \<Rightarrow> v | None \<Rightarrow> PyDict []) (text_field_or body ''source'' ''dashboard'')
               (bridge_key rq c) (Some c)) (\<lambda>result.
             json_response (if truthy (get_val result ''resolved'') then 200 else 409) (PyDict result)))))))"

definition route_get_scope_events :: "relay \<Rightarrow> incoming \<Rightarrow> string \<Rightarrow> int \<Rightarrow> pyval handler" where
  "route_get_scope_events R rq scope_id since =
     route (route_errors 404 (\<lambda>_. 500) (route_scoped R rq [''relay:read''] (route_caller R rq (\<lambda>c.
       require_owned_session R scope_id c True (\<lambda>_. and_then (get_events R scope_id since) (\<lambda>events.
         json_response 200 (PyDict [(''events'', PyList events), (''count'', PyInt (int (length events)))])))))))"

section \<open>The keys they write\<close>

definition scope_keys :: "string set" where
  "scope_keys = range session_key \<union> range screens_key \<union> range screens_order_key \<union> range screen_seq_key \<union> range events_key
     \<union> {answer_key s i |s i. True} \<union> {persisted_key s i |s i. True} \<union> {SCOPE_INDEX}"

lemma scope_keys [simp]:
  "session_key s \<in> scope_keys" "screens_key s \<in> scope_keys" "screens_order_key s \<in> scope_keys" "screen_seq_key s \<in> scope_keys"
  "events_key s \<in> scope_keys" "answer_key s i \<in> scope_keys" "persisted_key s i \<in> scope_keys" "SCOPE_INDEX \<in> scope_keys"
  by (auto simp: scope_keys_def)

lemma only_get_session [only_intros]: "(\<And>d. only (inside F) (k d)) \<Longrightarrow> only (inside F) (get_session R s k)"
  by (auto simp: get_session_def intro!: only_intros)

lemma only_require [only_intros]: "(\<And>d. only (inside F) (k d)) \<Longrightarrow> only (inside F) (require_owned_session R s c admin_ok k)"
  by (auto simp: require_owned_session_def intro!: only_intros split: option.split)

lemma only_item [only_intros]: "(\<And>v. only P (k v)) \<Longrightarrow> only P (item d f k)"
  by (auto simp: item_def split: option.split)

lemma only_value_item [only_intros]: "(\<And>v. only P (k v)) \<Longrightarrow> only P (value_item v f k)"
  by (auto simp: value_item_def intro!: only_intros split: pyval.split)

lemma only_as_screen [only_intros]: "(\<And>d. only P (k d)) \<Longrightarrow> only P (as_screen v k)"
  by (auto simp: as_screen_def split: pyval.split)

lemma only_touch [only_intros]: "only (inside scope_keys) p \<Longrightarrow> only (inside scope_keys) (touch_activity R s t p)"
  by (auto simp: touch_activity_def intro!: only_intros)

lemma only_append_event [only_intros]: "only (inside scope_keys) p \<Longrightarrow> only (inside scope_keys) (append_event R s t e p)"
  by (auto simp: append_event_def intro!: only_intros)

lemma only_expire_all [only_intros]:
  "set ks \<subseteq> scope_keys \<Longrightarrow> only (inside scope_keys) p \<Longrightarrow> only (inside scope_keys) (expire_all ks p)"
  by (induction ks) (auto intro!: only_intros)

lemma only_screen_ids [only_intros]: "(\<And>ids. only P (k ids)) \<Longrightarrow> only P (screen_ids vs acc k)"
  by (induction vs arbitrary: acc) (auto intro!: only_intros)

lemma only_get_screens [simp]: "only (inside F) (get_screens R s)"
  by (auto simp: get_screens_def intro!: only_intros split: option.split)

lemma only_close [only_intros]:
  "(\<And>d. only (inside scope_keys) (k d)) \<Longrightarrow> only (inside scope_keys) (close_session R s t st k)"
  by (auto simp: close_session_def simp del: expire_all.simps intro!: only_intros split: sum.split)

lemma only_any_pending [simp]: "only (inside F) (any_pending R raws)"
  by (induction raws) (auto intro!: only_intros)

lemma only_collect_sessions [simp]: "only (inside scope_keys) (collect_sessions R status limit cl ids acc)"
  by (induction ids arbitrary: acc)
    (auto simp: Let_def has_pending_gating_screens_def intro!: only_intros split: option.split)

lemma only_find_screen [only_intros]: "(\<And>d. only P (k d)) \<Longrightarrow> only P (find_screen i vs k)"
  by (induction vs) (auto intro!: only_intros)

lemma only_split_screens [only_intros]: "(\<And>a p. only P (k a p)) \<Longrightarrow> only P (split_screens vs a p k)"
  by (induction vs arbitrary: a p) (auto intro!: only_intros)

lemma scope_operations [simp]:
  "only (inside scope_keys) (create_session R fresh t a g og pj bs sid ow)" "only (inside scope_keys) (store_screen R s t sc i new)"
  "only (inside scope_keys) (mirror_screen R s t sc)" "only (inside scope_keys) (complete_session R s t)"
  "only (inside scope_keys) (abandon_stale_sessions R t)" "only (inside scope_keys) (list_sessions R t status limit cl)"
  "only (inside scope_keys) (get_events R s since)"
  by (auto simp: create_session_def store_screen_def mirror_screen_def complete_session_def abandon_stale_sessions_def
      list_sessions_def get_events_def Let_def intro!: only_intros split: option.split)

lemma only_persist [only_intros]: "only (inside F) p \<Longrightarrow> only (inside F) (persist_to_bridge R a c s k p)"
  by (auto simp: persist_to_bridge_def intro!: only_intros)

lemma only_resolve [only_intros]:
  "only (inside scope_keys) p \<Longrightarrow> only (inside scope_keys) (resolve_screen R s i t src payload raw p)"
  by (auto simp: resolve_screen_def intro!: only_intros)

lemma only_post_answer [simp]: "only (inside scope_keys) (post_answer R s i t answers src k cl)"
  by (auto simp: post_answer_def Let_def intro!: only_intros split: option.split)

lemma only_collect_deferred [simp]: "only (inside scope_keys) (collect_deferred_decisions R s k)"
  by (auto simp: collect_deferred_decisions_def Let_def intro!: only_intros split: option.split sum.split)

lemma only_collect_decisions [only_intros]:
  "only (inside scope_keys) p \<Longrightarrow> only (inside scope_keys) (collect_decisions R rq s c p)"
  by (auto simp: collect_decisions_def intro!: only_intros)

lemma only_session_for [only_intros]:
  "(\<And>s. only (inside scope_keys) (k s)) \<Longrightarrow> only (inside scope_keys) (scope_session_for R rq sc sid a g c k)"
  by (auto simp: scope_session_for_def Let_def intro!: only_intros)

lemma only_poll [simp]: "only (inside scope_keys) (poll_screen R rq s i c n)"
  by (induction n) (auto intro!: only_intros split: option.split)

lemma only_scope_tool [only_intros]: "only P p \<Longrightarrow> only P (scope_tool p)"
  by (auto simp: scope_tool_def intro!: only_intros split: py_exc.split)

lemma only_route_errors [only_intros]: "only P p \<Longrightarrow> only P (route_errors a b p)"
  by (auto simp: route_errors_def intro!: only_intros split: py_exc.split)

lemma scope_tools:
  "only (inside scope_keys) (scope_start R rq g a pj bs)" "only (inside scope_keys) (scope_ask R rq sc sid a go)"
  "only (inside scope_keys) (scope_post R rq sc sid a go)" "only (inside scope_keys) (scope_check R rq s)"
  "only (inside scope_keys) (scope_complete R rq s)"
  by (auto simp: scope_start_def scope_ask_def scope_post_def scope_check_def scope_complete_def posted_id_def
      simp del: poll_screen.simps intro!: only_intros split: option.split)

lemma scope_routes:
  "only (inside scope_keys) (route_post_scope_session R rq body)" "only (inside scope_keys) (route_post_scope_screen R rq s sc)"
  "only (inside scope_keys) (route_get_scope_sessions R rq status)" "only (inside scope_keys) (route_get_scope_session R rq s)"
  "only (inside scope_keys) (route_post_scope_answer R rq s i body)" "only (inside scope_keys) (route_get_scope_events R rq s since)"
  by (auto simp: route_post_scope_session_def route_post_scope_screen_def route_get_scope_sessions_def route_get_scope_session_def
      route_post_scope_answer_def route_get_scope_events_def intro!: only_intros split: option.split sum.split py_exc.split)

end
