(* ===== verification/Relay_Service.thy ===== *)
theory Relay_Service
  imports Relay_Fence Relay_Tasks Relay_Dm Relay_Scope
begin

text \<open>
  Relay as a whole: every tool and route as a request, the handler each runs, and what the service
  guarantees while any number of them interleave on one Redis, any command fails or loses its reply,
  and time passes.
\<close>

section \<open>Requests\<close>

datatype tool_request =
    Broadcast string string string "string list option"
  | GetMessages string int
  | PostBulletin string string "string list option" "int option"
  | ReadBulletin "string list option" "string option" int
  | Claim string string "int option"
  | Release string string int
  | Lease string string "int option"
  | LeaseHeartbeat string int string
  | LeaseStatus string
  | TaskPost string "string option" string string string "string list" string
  | TaskList "string option" "string option" int bool "string option"
  | TaskUpdate string "string option" "string option" "string option"
  | TaskDelete string
  | Register string string string "string option"
  | PresenceHeartbeat string "string option" "string option"
  | Deregister string
  | WhoIsOnline bool
  | ScopeStart string string "string option" "string option"
  | ScopeAsk pydict "string option" string "string option"
  | ScopePost pydict "string option" string "string option"
  | ScopeCheck string
  | ScopeComplete string
  | SendDm string string string
  | GetDm string bool int

datatype route_request =
    PresenceRoute string
  | SinglePresenceRoute string
  | DeletePresenceRoute string
  | GetDmRoute string string
  | PostDmRoute string string string
  | MarkDmReadRoute string
  | DeleteTaskRoute string
  | GetTasksRoute "string option" "string option" int string "string option"
  | PostTaskRoute "pyval option"
  | BulletinRoute int
  | PostSessionRoute pydict
  | PostScreenRoute string pydict
  | SessionsRoute string
  | SessionRoute string
  | PostAnswerRoute string string pydict
  | EventsRoute string int

datatype request = Tool incoming tool_request | Route incoming route_request

text \<open>the pages a listing may read\<close>

definition page_limit :: nat where "page_limit = 100000"

fun handle_tool :: "relay \<Rightarrow> incoming \<Rightarrow> tool_request \<Rightarrow> pyval handler" where
  "handle_tool R rq (Broadcast channel content sender tags) = relay_broadcast R rq channel content sender tags"
| "handle_tool R rq (GetMessages channel limit) = relay_get_messages R channel limit"
| "handle_tool R rq (PostBulletin content author tags ttl) = relay_post R rq content author tags ttl"
| "handle_tool R rq (ReadBulletin tags author limit) = relay_read R tags author limit"
| "handle_tool R rq (Claim resource agent ttl) = relay_claim R rq resource agent ttl"
| "handle_tool R rq (Release resource agent token) = relay_release R rq resource agent token"
| "handle_tool R rq (Lease resource agent ttl) = relay_lease R rq resource agent ttl"
| "handle_tool R rq (LeaseHeartbeat resource token agent) = relay_heartbeat R rq resource token agent"
| "handle_tool R rq (LeaseStatus resource) = relay_lease_status R resource"
| "handle_tool R rq (TaskPost title assignee assigner description priority files context) =
     relay_task_post R rq title assignee assigner description priority files context"
| "handle_tool R rq (TaskList assignee status limit oldest title) = relay_task_list R page_limit assignee status limit oldest title"
| "handle_tool R rq (TaskUpdate i status result assignee) = relay_task_update R rq i status result assignee"
| "handle_tool R rq (TaskDelete i) = relay_task_delete R rq i"
| "handle_tool R rq (Register agent goal host session) = relay_register R rq agent goal host session"
| "handle_tool R rq (PresenceHeartbeat agent session goal) = relay_heartbeat_presence R rq agent session goal"
| "handle_tool R rq (Deregister agent) = relay_deregister R rq agent"
| "handle_tool R rq (WhoIsOnline idle) = relay_who_is_online R rq idle"
| "handle_tool R rq (ScopeStart goal agent project bridge) = scope_start R rq goal agent project bridge"
| "handle_tool R rq (ScopeAsk screen sid agent goal) = scope_ask R rq screen sid agent goal"
| "handle_tool R rq (ScopePost screen sid agent goal) = scope_post R rq screen sid agent goal"
| "handle_tool R rq (ScopeCheck sid) = scope_check R rq sid"
| "handle_tool R rq (ScopeComplete sid) = scope_complete R rq sid"
| "handle_tool R rq (SendDm to content sender) = relay_send_dm R rq to content sender"
| "handle_tool R rq (GetDm agent unread limit) = relay_get_dm R rq agent unread limit"

fun handle_route :: "relay \<Rightarrow> incoming \<Rightarrow> route_request \<Rightarrow> pyval handler" where
  "handle_route R rq (PresenceRoute idle) = route_get_presence R rq idle"
| "handle_route R rq (SinglePresenceRoute agent) = route_get_single_presence R rq agent"
| "handle_route R rq (DeletePresenceRoute agent) = route_delete_presence R rq agent"
| "handle_route R rq (GetDmRoute agent unread) = route_get_dm R rq agent unread"
| "handle_route R rq (PostDmRoute agent content sender) = route_post_dm R rq agent content sender"
| "handle_route R rq (MarkDmReadRoute agent) = route_mark_dm_read R rq agent"
| "handle_route R rq (DeleteTaskRoute i) = route_delete_task R rq i"
| "handle_route R rq (GetTasksRoute assignee status limit oldest title) = route_get_tasks R page_limit assignee status limit oldest title"
| "handle_route R rq (PostTaskRoute body) = route_post_task R rq body"
| "handle_route R rq (BulletinRoute limit) = route_get_bulletin R limit"
| "handle_route R rq (PostSessionRoute body) = route_post_scope_session R rq body"
| "handle_route R rq (PostScreenRoute sid screen) = route_post_scope_screen R rq sid screen"
| "handle_route R rq (SessionsRoute status) = route_get_scope_sessions R rq status"
| "handle_route R rq (SessionRoute sid) = route_get_scope_session R rq sid"
| "handle_route R rq (PostAnswerRoute sid i body) = route_post_scope_answer R rq sid i body"
| "handle_route R rq (EventsRoute sid since) = route_get_scope_events R rq sid since"

fun handle :: "relay \<Rightarrow> request \<Rightarrow> pyval handler" where
  "handle R (Tool rq t) = handle_tool R rq t"
| "handle R (Route rq t) = handle_route R rq t"

fun incoming_of :: "request \<Rightarrow> incoming" where
  "incoming_of (Tool rq t) = rq"
| "incoming_of (Route rq t) = rq"

section \<open>What a request may do to a lease\<close>

text \<open>a request speaks for its own caller, under the agent label of its release or heartbeat\<close>

fun lease_agent :: "request \<Rightarrow> string option" where
  "lease_agent (Tool rq (Release resource agent token)) = Some agent"
| "lease_agent (Tool rq (LeaseHeartbeat resource token agent)) = Some agent"
| "lease_agent q = None"

definition speaks_for :: "relay \<Rightarrow> request \<Rightarrow> string \<Rightarrow> caller option \<Rightarrow> bool" where
  "speaks_for R q a cl \<longleftrightarrow> lease_agent q = Some a \<and> cl = caller_of R (incoming_of q) \<and> cl \<noteq> None"

definition asks_lease :: "string \<Rightarrow> request \<Rightarrow> bool" where
  "asks_lease r q \<longleftrightarrow> (case q of Tool rq (Lease resource agent ttl) \<Rightarrow> normalize_resource_id resource = Inr r | _ \<Rightarrow> False)"

definition lease_rule :: "relay \<Rightarrow> request \<Rightarrow> op \<Rightarrow> bool" where
  "lease_rule R q c \<longleftrightarrow> (\<forall>r. lease_command R r (speaks_for R q) c)"

abbreviation other_keys :: "string set" where
  "other_keys \<equiv> presence_keys \<union> board_keys \<union> claim_keys \<union> task_keys \<union> dm_keys \<union> scope_keys \<union> range waitq_key"

lemma other_keys_apart [simp]: "lease_key r \<notin> other_keys" "fence_key r \<notin> other_keys"
  by (auto simp: presence_keys_def board_keys_def claim_keys_def task_keys_def dm_keys_def scope_keys_def
      lease_key_def fence_key_def presence_key_def post_key_def bulletin_key_def backlog_key_def claim_key_def task_key_def
      TASK_INDEX_KEY_def dm_key_def session_key_def screens_key_def screens_order_key_def screen_seq_key_def events_key_def
      answer_key_def persisted_key_def SCOPE_INDEX_def waitq_key_def)

lemma lease_rule_other: "inside other_keys c \<Longrightarrow> lease_rule R q c"
  using other_keys_apart unfolding lease_rule_def lease_command_def inside_def by blast

lemma only_other: "only (inside F) p \<Longrightarrow> F \<subseteq> other_keys \<Longrightarrow> only (lease_rule R q) p"
  by (erule only_mono) (rule lease_rule_other, erule (1) inside_mono)

lemma lease_rule_acquire [simp]: "lease_rule R q (acquire_op R r a l t cl)"
proof -
  have "\<not> touches (lease_key r') (acquire_op R r a l t cl) \<and> \<not> touches (fence_key r') (acquire_op R r a l t cl)" if "r' \<noteq> r" for r'
    using lease_ops_inside(1) [of r R a l t cl] that by (auto simp: inside_def)
  then show ?thesis
    unfolding lease_rule_def lease_command_def by (metis acquires_simps(1))
qed

lemma lease_rule_act:
  assumes "speaks_for R q a cl"
  shows "lease_rule R q (release_op R r a n cl)" "lease_rule R q (heartbeat_op R r a n l cl)"
proof -
  have "\<not> touches (lease_key r') c \<and> \<not> touches (fence_key r') c"
    if "r' \<noteq> r" "inside {lease_key r} c" for r' c
    using that by (auto simp: inside_def)
  with lease_ops_inside(2) [of r R a n cl] lease_ops_inside(3) [of r R a n l cl] assms
  show "lease_rule R q (release_op R r a n cl)" "lease_rule R q (heartbeat_op R r a n l cl)"
    unfolding lease_rule_def lease_command_def by metis+
qed

lemma only_with_own_caller:
  "(\<And>c. caller_of R rq = Some c \<Longrightarrow> only P (k c)) \<Longrightarrow> only P (with_caller R rq k)"
  by (auto simp: with_caller_def split: option.split)

lemma lease_rule_simps [simp]: "lease_rule R q (Effect kind v)" "writes d = None \<Longrightarrow> lease_rule R q (Cmd d)"
  by (auto intro!: lease_rule_other)

lemma only_notify [simp]: "only (lease_rule R q) (notify_waitqueue R i t r)"
proof -
  have "only (lease_rule R q) (post_bulletin R i t content author tags n st)" for content author tags n st
    by (rule only_other [OF board_operations(1)]) blast
  moreover have "lease_rule R q (Cmd (LPOP (waitq_key r)))" by (rule lease_rule_other) simp
  ultimately show ?thesis
    by (auto simp: notify_waitqueue_def intro!: only_intros split: option.split)
qed

lemma lease_rule_claim [simp]: "lease_rule R q (claim_release_op R r a cl)"
  by (rule lease_rule_other) (use lease_ops_inside(4) [of r R a cl] in \<open>auto simp: inside_def\<close>)

lemma lease_rule_lease: "only (lease_rule R q) (relay_lease R rq resource a ttl_m)"
  by (auto simp: relay_lease_def acquire_lease_def Let_def intro!: only_intros split: option.split)

lemma lease_rule_release:
  assumes "\<And>c. caller_of R rq = Some c \<Longrightarrow> speaks_for R q a (Some c)"
  shows "only (lease_rule R q) (relay_release R rq resource a n)"
  using assms
  by (auto simp: relay_release_def release_lease_def Let_def intro!: only_tool only_scoped only_with_resource only_validate_name
      only_with_own_caller only_and_then only_ask_op only_replay_emit lease_rule_act(1))

lemma lease_rule_heartbeat:
  assumes "\<And>c. caller_of R rq = Some c \<Longrightarrow> speaks_for R q a (Some c)"
  shows "only (lease_rule R q) (relay_heartbeat R rq resource n a)"
  using assms
  by (auto simp: relay_heartbeat_def lease_heartbeat_def Let_def intro!: only_tool only_scoped only_with_resource
      only_with_own_caller only_and_then only_ask_op lease_rule_act(2))

lemma tools_keep_lease_rule: "only (lease_rule R (Tool rq t)) (handle_tool R rq t)"
proof (cases t)
  case (Release x a n)
  then show ?thesis by (auto simp: speaks_for_def intro!: lease_rule_release)
next
  case (LeaseHeartbeat x n a)
  then show ?thesis by (auto simp: speaks_for_def intro!: lease_rule_heartbeat)
next
  case (Lease x a n)
  then show ?thesis by (simp add: lease_rule_lease)
qed (auto intro: only_other presence_tools board_tools claim_tools task_tools dm_tools scope_tools)

lemma routes_keep_lease_rule: "only (lease_rule R (Route rq t)) (handle_route R rq t)"
  by (cases t) (auto intro: only_other presence_tools board_tools task_tools dm_tools scope_routes)

lemma handlers_keep_lease_rule: "only (lease_rule R q) (handle R q)"
  by (cases q) (simp_all add: tools_keep_lease_rule routes_keep_lease_rule)

lemma lease_requests: "asks_lease r q \<Longrightarrow> unserved R r result_token (handle R q)"
  by (auto simp: asks_lease_def unserved_lease split: request.splits tool_request.splits)

text \<open>Every request of Relay is a client of the lease contract.\<close>

interpretation relay_on_keyspace: clients reference "handle R" "lease_rule R" for R
  by unfold_locales (rule handlers_keep_lease_rule)

lemma relay_lease_clients:
  assumes "redis srv" and "cjson_ok R"
  shows "lease_clients srv (handle R) (lease_rule R) R r (asks_lease r) (speaks_for R)"
  using assms
  by (auto simp: lease_clients_def clients_def clients_axioms_def lease_clients_axioms_def handlers_keep_lease_rule
      lease_requests lease_rule_def)

section \<open>A concrete surrounding\<close>

text \<open>
  A float printed as its numerator, a point and its denominator: a number token of the grammar that
  reads back. With it the JSON of Python serves as Lua's too.
\<close>

definition print_fraction :: "rat \<Rightarrow> string" where
  "print_fraction q = (case quotient_of q of (a, b) \<Rightarrow> str_of_int a @ ''.'' @ str_of_nat (nat b))"

definition read_fraction :: "string \<Rightarrow> rat" where
  "read_fraction s = of_int (int_of_text (takeWhile (\<lambda>c. c \<noteq> CHR ''.'') s)) / of_nat (digits_value (drop 1 (dropWhile (\<lambda>c. c \<noteq> CHR ''.'') s)))"

definition plain_deployment :: "bool \<Rightarrow> deployment" where
  "plain_deployment auth = \<lparr>d_auth = auth, d_workspace = ''workspace-local'', d_owner = ''member-owner''\<rparr>"

definition example_relay :: "bool \<Rightarrow> relay" where
  "example_relay auth = \<lparr>r_print = print_fraction, r_read = read_fraction, cj_encode = enc_spaced print_fraction,
     cj_decode = json_loads read_fraction, r_dep = plain_deployment auth, claim_ttl_minutes = 30, bulletin_ttl_hours = 24,
     backlog_size = 100, r_bridge_url = ''http://bridge:8070''\<rparr>"

lemma fraction_codec: "float_codec print_fraction read_fraction"
  unfolding float_codec_def
proof (intro conjI allI impI)
  fix q x
  assume "x = [] \<or> hd x \<in> {CHR '','', CHR '']'', CHR 0x7D}"
  then have x: "stops x" by (simp add: stops_def)
  obtain a b where ab: "quotient_of q = (a, b)" by (cases "quotient_of q")
  then have b: "0 < b" by (rule quotient_of_denom_pos)
  have q: "q = of_int a / of_int b" using ab by (rule quotient_of_div)
  let ?d = "str_of_nat (nat b)"
  have nodot: "\<forall>c\<in>set (str_of_int a). c \<noteq> CHR ''.''" using str_of_int_number(3) [of a] by auto
  have digits: "\<forall>c\<in>set ?d. is_digit c" using str_of_nat_digits by blast
  have dne: "?d \<noteq> []" by (rule str_of_nat_number)
  have tw: "takeWhile is_digit (?d @ x) = ?d" "dropWhile is_digit (?d @ x) = x"
    using digits stops_tokens [OF x] by (simp_all add: takeWhile_append2 dropWhile_append2)
  have "read_fraction (str_of_int a @ CHR ''.'' # ?d) = of_int a / of_nat (nat b)"
    using nodot by (simp add: read_fraction_def takeWhile_append2 dropWhile_append2)
  then have "read_fraction (str_of_int a @ CHR ''.'' # ?d) = q" using b q by simp
  moreover have "int_token (str_of_int a @ CHR ''.'' # ?d @ x) = Some (str_of_int a, CHR ''.'' # ?d @ x)"
    by (rule int_token_dot)
  ultimately show "read_number read_fraction (print_fraction q @ x) = Some (PyFloat q, x)"
    using tw dne stops_tokens [OF x] by (simp add: read_number_def print_fraction_def ab frac_token_def)
next
  fix q
  obtain a b where ab: "quotient_of q = (a, b)" by (cases "quotient_of q")
  show "print_fraction q \<noteq> []" by (simp add: print_fraction_def ab)
  show "number_char (hd (print_fraction q))"
    using str_of_int_number(1,2) [of a] by (auto simp: print_fraction_def ab list_all_iff)
qed

lemma example_cjson: "cjson_ok (example_relay auth)"
  unfolding cjson_ok_def
proof (intro allI impI)
  fix d :: pydict
  assume d: "distinct (map fst d)" "list_all (\<lambda>kv. plain_value (snd kv)) d"
  have "real_val v" if "plain_value v" for v
    using that by (cases v) (simp_all add: plain_value_def)
  with d have "real_val (PyDict d)"
    by (auto simp: list_all_iff)
  then have "json_loads read_fraction (enc_spaced print_fraction (PyDict d)) = Some (PyDict d)"
    by (rule loads_dumps [OF fraction_codec])
  then show "(\<exists>d'. cj_decode (example_relay auth) (cj_encode (example_relay auth) (PyDict d)) = Some (PyDict d') \<and> same_fields d d') \<and>
     (\<exists>d'. loads (example_relay auth) (cj_encode (example_relay auth) (PyDict d)) = Some (PyDict d') \<and> same_fields d d')"
    by (simp add: example_relay_def same_fields_def)
qed

interpretation example_leases: lease_clients reference "handle (example_relay auth)" "lease_rule (example_relay auth)"
  "example_relay auth" r "asks_lease r" "speaks_for (example_relay auth)" for auth r
  by (rule relay_lease_clients [OF keyspace.redis_axioms example_cjson])

text \<open>a request of the personal mode, and two lease calls one after the other\<close>

definition example_in :: "string \<Rightarrow> incoming" where
  "example_in u = \<lparr>q_ident = None, q_api_key = None, q_now = 1, q_later = 2, q_uid = u\<rparr>"

definition example_lease :: request where
  "example_lease = Tool (example_in ''u1'') (Lease ''a.py'' ''alpha'' None)"

definition local_owner :: caller where
  "local_owner = \<lparr>c_workspace = ''workspace-local'', c_member = ''member-owner'', c_credential = ''anonymous'',
     c_authenticated = False, c_admin = False\<rparr>"

definition example_record :: "int \<Rightarrow> pydict" where
  "example_record n = lease_record ''alpha'' n (print_fraction 1) 1800 ''workspace-local'' ''member-owner''"

lemma example_facts:
  "scope_refusal (r_print (example_relay False)) (r_dep (example_relay False)) (q_ident (example_in u)) [''relay:write''] = None"
  "normalize_resource_id ''a.py'' = Inr ''a.py''" "matches_line id_char 200 ''alpha''"
  "caller_of (example_relay False) (example_in u) = Some local_owner" "lease_seconds (example_relay False) None = 1800"
proof -
  show "scope_refusal (r_print (example_relay False)) (r_dep (example_relay False)) (q_ident (example_in u)) [''relay:write''] = None"
    unfolding example_relay_def example_in_def by code_simp
  show "normalize_resource_id ''a.py'' = Inr ''a.py''" by code_simp
  show "matches_line id_char 200 ''alpha''" by code_simp
  show "caller_of (example_relay False) (example_in u) = Some local_owner"
    by (simp add: caller_of_def caller_from_scope_def example_relay_def example_in_def plain_deployment_def local_owner_def)
  show "lease_seconds (example_relay False) None = 1800"
    by (simp add: lease_seconds_def example_relay_def)
qed

lemma example_call:
  assumes "fence_ok ''a.py'' K" and "K (lease_key ''a.py'') = None" and "n = fence_value ''a.py'' K + 1" and "n < 10 ^ 14"
  shows "\<exists>K'. run_handler reference (handle (example_relay False) example_lease) K
      = (Inr (PyDict (lease_granted ''a.py'' ''alpha'' n 1800)), K') \<and>
    K' (lease_key ''a.py'') = Some (OStr (cj_encode (example_relay False) (PyDict (example_record n))), Some 1800000) \<and>
    fence_ok ''a.py'' K' \<and> fence_value ''a.py'' K' = n"
proof -
  have "\<exists>K'. run_handler reference (relay_lease (example_relay False) (example_in ''u1'') ''a.py'' ''alpha'' None) K
      = (Inr (PyDict (lease_granted ''a.py'' ''alpha'' n 1800)), K') \<and>
    K' (lease_key ''a.py'') = Some (OStr (cj_encode (example_relay False) (PyDict (lease_record ''alpha'' n
      (r_print (example_relay False) (q_now (example_in ''u1''))) 1800 (c_workspace local_owner) (c_member local_owner)))), Some (nat (1000 * 1800))) \<and>
    fence_ok ''a.py'' K' \<and> fence_value ''a.py'' K' = n"
    using keyspace.lease_free [OF example_cjson, of "''a.py''" K False None n "example_in ''u1''" "''a.py''" "''alpha''" local_owner]
      example_facts assms by simp
  then show ?thesis
    by (simp add: example_lease_def example_record_def local_owner_def example_relay_def example_in_def)
qed

lemma token_of_granted [simp]: "dict_token (Inr (lease_granted r a n l)) = Some n"
  by (simp add: dict_token_def lease_granted_def get_val_def token_in_def)

lemma started_replicate [simp]: "started (ts @ replicate n (Go i)) = started ts"
  by (induction ts rule: started.induct) (induction n, auto)

lemma started_append: "started (ts @ ts') = started ts @ started ts'"
  by (induction ts rule: started.induct) auto

text \<open>one call leaves the first token; after its half hour the next call gets the second\<close>

abbreviation grant :: "int \<Rightarrow> pyval handler" where
  "grant n \<equiv> Ret (Inr (PyDict (lease_granted ''a.py'' ''alpha'' n 1800)))"

abbreviation example_run :: "request turn list \<Rightarrow> (keyspace, pyval) sys \<Rightarrow> (keyspace, pyval) sys" where
  "example_run \<equiv> run_ops (advance reference (handle (example_relay False)))"

definition two_calls :: "request turn list \<Rightarrow> request turn list \<Rightarrow> keyspace \<Rightarrow> keyspace \<Rightarrow> bool" where
  "two_calls ts ts' K K' \<longleftrightarrow>
     example_run ts (Map.empty, []) = (K, [grant 1]) \<and> example_run ts' (K, [grant 1]) = (K', [grant 1, grant 2]) \<and>
     started ts = [example_lease] \<and> started ts' = [example_lease] \<and> fence_value ''a.py'' K' = 2 \<and>
     K (lease_key ''a.py'') = Some (OStr (cj_encode (example_relay False) (PyDict (example_record 1))), Some 1800000) \<and>
     fence_ok ''a.py'' K \<and> fence_value ''a.py'' K = 1"

lemma example_history: "\<exists>ts ts' K K'. two_calls ts ts' K K'"
proof -
  let ?h = "handle (example_relay False)" and ?R1 = "Ret (Inr (PyDict (lease_granted ''a.py'' ''alpha'' 1 1800)))"
  have start: "fence_ok ''a.py'' Map.empty" "fence_value ''a.py'' Map.empty = 0"
    by (simp_all add: fence_ok_def fence_value_def)
  obtain K where K: "run_handler reference (?h example_lease) Map.empty = (Inr (PyDict (lease_granted ''a.py'' ''alpha'' 1 1800)), K)"
    "K (lease_key ''a.py'') = Some (OStr (cj_encode (example_relay False) (PyDict (example_record 1))), Some 1800000)"
    "fence_ok ''a.py'' K" "fence_value ''a.py'' K = 1"
    using example_call [OF start(1), of 1] start(2) by auto
  obtain n where n: "run_ops (advance reference ?h) (replicate n (Go 0)) (Map.empty, [?h example_lease]) = (K, [?R1])"
    using thread_runs [of 0 "[?h example_lease]" "?h example_lease" reference ?h Map.empty] K(1) by auto
  have first: "run_ops (advance reference ?h) (Start example_lease # replicate n (Go 0)) (Map.empty, []) = (K, [?R1])"
    using n by simp
  define L where "L = elapsed 1800000 K"
  have fence: "L (fence_key ''a.py'') = K (fence_key ''a.py'')" unfolding L_def by (rule fence_elapsed [OF K(3)])
  have L: "L (lease_key ''a.py'') = None" "fence_ok ''a.py'' L" "fence_value ''a.py'' L = 1"
    using K(2-4) fence by (simp_all add: L_def elapsed_def fence_ok_def fence_value_def)
  obtain K' where K': "run_handler reference (?h example_lease) L = (Inr (PyDict (lease_granted ''a.py'' ''alpha'' 2 1800)), K')"
    "fence_value ''a.py'' K' = 2"
    using example_call [OF L(2,1), of 2] L(3) by auto
  obtain m where m: "run_ops (advance reference ?h) (replicate m (Go 1)) (L, [?R1, ?h example_lease])
      = (K', [?R1, Ret (Inr (PyDict (lease_granted ''a.py'' ''alpha'' 2 1800)))])"
    using thread_runs [of 1 "[?R1, ?h example_lease]" "?h example_lease" reference ?h L] K'(1) by auto
  have second: "run_ops (advance reference ?h) (Wait 1800000 # Start example_lease # replicate m (Go 1)) (K, [?R1])
      = (K', [?R1, Ret (Inr (PyDict (lease_granted ''a.py'' ''alpha'' 2 1800)))])"
    using m by (simp add: L_def reference_def)
  have st: "started (Start example_lease # replicate n (Go 0)) = [example_lease]"
    "started (Wait 1800000 # Start example_lease # replicate m (Go 1)) = [example_lease]"
    using started_replicate [of "[]"] by simp_all
  from first second st K'(2) K(2-4) show ?thesis unfolding two_calls_def by blast
qed

end
