(* ===== verification/Relay_Holding.thy ===== *)
theory Relay_Holding
  imports Relay_Service
begin

text \<open>
  What the lease tools guarantee over the whole service: who gets a lease and with which token, who
  may end it, and what a stale token does.
\<close>

section \<open>Leases over the whole service\<close>

text \<open>
  C1. Fencing tokens increase. Whatever requests interleave on one Redis, whatever commands fail or
  lose their replies and however long anything waits: a lease call on a resource that starts after
  another lease call on it has returned its token returns, if it acquires, a greater one. (Tokens
  are exact below \<open>10^14\<close>, the digits Lua's JSON prints.)
\<close>

theorem fencing_tokens_increase:
  assumes "redis srv" and "cjson_ok R" and "fence_ok r (view srv s)"
    and sy: "sy = run_ops (advance srv (handle R)) ts (s, [])" and sy': "sy' = run_ops (advance srv (handle R)) ts' sy"
    and "fence_value r (view srv (fst sy')) < 10 ^ 14"
    and "i < length (snd sy)" "asks_lease r (started ts ! i)" "snd sy ! i = Ret x" "result_token x = Some a"
    and "length (snd sy) \<le> j" "j < length (snd sy')" "asks_lease r (started (ts @ ts') ! j)" "snd sy' ! j = Ret y"
      "result_token y = Some b"
  shows "a < b"
  using lease_clients.tokens_increase [OF relay_lease_clients [OF assms(1,2), of r] assms(3,6) sy sy'] assms(7-) by blast

theorem fencing_tokens_increase_witness:
  "\<exists>ts ts' x y a b. let sy = example_run ts (Map.empty, []);
       sy' = example_run ts' sy
     in snd sy ! 0 = Ret x \<and> result_token x = Some a \<and> snd sy' ! 1 = Ret y \<and> result_token y = Some b \<and> a < b"
proof -
  from example_history obtain ts ts' K K' where "two_calls ts ts' K K'" by blast
  then have h: "example_run ts (Map.empty, []) = (K, [grant 1])" "example_run ts' (K, [grant 1]) = (K', [grant 1, grant 2])"
    "started ts = [example_lease]" "started ts' = [example_lease]" "fence_value ''a.py'' K' = 2"
    by (simp_all only: two_calls_def)
  have asks: "asks_lease ''a.py'' example_lease"
    using example_facts(2) by (simp add: asks_lease_def example_lease_def)
  have ok: "fence_ok ''a.py'' (view reference Map.empty)" by (simp add: fence_ok_def)
  have "(1::int) < 2"
    by (rule fencing_tokens_increase [OF keyspace.redis_axioms example_cjson ok h(1) [symmetric] h(2) [symmetric],
          where i = 0 and j = 1 and x = "Inr (PyDict (lease_granted ''a.py'' ''alpha'' 1 1800))"
            and y = "Inr (PyDict (lease_granted ''a.py'' ''alpha'' 2 1800))"])
      (use h(3-5) asks in \<open>simp_all add: started_append\<close>)
  with h(1,2) show ?thesis
    by (intro exI [of _ ts] exI [of _ ts'] exI [of _ "Inr (PyDict (lease_granted ''a.py'' ''alpha'' 1 1800))"]
        exI [of _ "Inr (PyDict (lease_granted ''a.py'' ''alpha'' 2 1800))"] exI [of _ 1] exI [of _ 2]) simp
qed

text \<open>
  C2. No two lease calls on a resource, however they overlap, are given the same fencing token.
\<close>

theorem fencing_tokens_distinct:
  assumes "redis srv" and "cjson_ok R" and "fence_ok r (view srv s)"
    and sy: "sy = run_ops (advance srv (handle R)) ts (s, [])" and "fence_value r (view srv (fst sy)) < 10 ^ 14"
    and "i < length (snd sy)" "asks_lease r (started ts ! i)" "snd sy ! i = Ret x" "result_token x = Some a"
    and "j < length (snd sy)" "asks_lease r (started ts ! j)" "snd sy ! j = Ret y" "result_token y = Some b"
    and "i \<noteq> j"
  shows "a \<noteq> b"
  using lease_clients.tokens_distinct [OF relay_lease_clients [OF assms(1,2), of r] assms(3) assms(5) [unfolded sy] sy]
    assms(6-) by blast

theorem fencing_tokens_distinct_witness:
  "\<exists>ts x y a b. let sy = example_run ts (Map.empty, [])
     in snd sy ! 0 = Ret x \<and> result_token x = Some a \<and> snd sy ! 1 = Ret y \<and> result_token y = Some b \<and> a \<noteq> b"
proof -
  from example_history obtain ts ts' K K' where "two_calls ts ts' K K'" by blast
  then have h: "example_run ts (Map.empty, []) = (K, [grant 1])" "example_run ts' (K, [grant 1]) = (K', [grant 1, grant 2])"
    "started ts = [example_lease]" "started ts' = [example_lease]" "fence_value ''a.py'' K' = 2"
    by (simp_all only: two_calls_def)
  have run: "(K', [grant 1, grant 2])
      = example_run (ts @ ts') (Map.empty, [])"
    using h(1,2) by (simp add: run_ops_append)
  have asks: "asks_lease ''a.py'' example_lease"
    using example_facts(2) by (simp add: asks_lease_def example_lease_def)
  have ok: "fence_ok ''a.py'' (view reference Map.empty)" by (simp add: fence_ok_def)
  have "(1::int) \<noteq> 2"
    by (rule fencing_tokens_distinct [OF keyspace.redis_axioms example_cjson ok run,
          where i = 0 and j = 1 and x = "Inr (PyDict (lease_granted ''a.py'' ''alpha'' 1 1800))"
            and y = "Inr (PyDict (lease_granted ''a.py'' ''alpha'' 2 1800))"])
      (use h(3-5) asks in \<open>simp_all add: started_append\<close>)
  with run [symmetric] show ?thesis
    by (intro exI [of _ "ts @ ts'"] exI [of _ "Inr (PyDict (lease_granted ''a.py'' ''alpha'' 1 1800))"]
        exI [of _ "Inr (PyDict (lease_granted ''a.py'' ''alpha'' 2 1800))"] exI [of _ 1] exI [of _ 2]) simp
qed

text \<open>
  C3. A lease ends by its time or by its owner. If one turn of the whole service makes a live lease
  disappear or become another, then time passed, or the command of a release or heartbeat ran whose
  agent label is the lease's holder and whose verified caller is the member and workspace the lease
  records -- for a lease without an owner, the deployment's owner.
\<close>

theorem lease_ends_by_owner_or_time:
  assumes "redis srv" and "cjson_ok R" and "fence_ok r (view srv s)"
    and sy: "sy = run_ops (advance srv (handle R)) ts (s, [])"
    and held: "lease_at R r (view srv (fst sy)) = Some d"
    and ended: "lease_text r (view srv (fst (advance srv (handle R) t sy))) \<noteq> lease_text r (view srv (fst sy))"
  shows "(\<exists>n. t = Wait n) \<or>
    (\<exists>i a c. (t = Go i \<or> (\<exists>m. t = Lost i m)) \<and> i < length (started ts) \<and>
       lease_agent (started ts ! i) = Some a \<and> get_val d ''holder_id'' = PyStr a \<and>
       caller_of R (incoming_of (started ts ! i)) = Some c \<and>
       (\<forall>m. c_authenticated c \<longrightarrow> get_val d OWNER_MEMBER = PyStr m \<longrightarrow> m \<noteq> [] \<longrightarrow>
          c_member c = m \<and> get_val d OWNER_WORKSPACE = PyStr (c_workspace c)) \<and>
       (c_authenticated c \<longrightarrow> \<not> truthy (get_val d OWNER_MEMBER) \<longrightarrow> is_deployment_owner (r_dep R) (Some c)))"
proof -
  note cl = relay_lease_clients [OF assms(1,2), of r]
  have cs: "clients srv (handle R) (lease_rule R)" using cl by (simp add: lease_clients_def)
  have att: "clients.attuned (lease_rule R) (started ts) sy"
    using clients.attuned_run [OF cs clients.attuned_start [OF cs], of ts s] sy by simp
  have ok: "fence_ok r (view srv (fst sy))"
    using lease_clients.fence_run [OF cl _ clients.attuned_start [OF cs], of s ts] assms(3) sy by simp
  from lease_clients.lease_end [OF cl att held ok ended]
  consider (time) n where "t = Wait n"
    | (act) i a c' where "t = Go i \<or> (\<exists>m. t = Lost i m)" "i < length (started ts)"
        "speaks_for R (started ts ! i) a c'" "may_act R a c' d"
    by blast
  then show ?thesis
  proof cases
    case (act i a c')
    note i = act(1,2) and speaks = act(3) and may = act(4)
    from speaks obtain c where c: "c' = Some c" "caller_of R (incoming_of (started ts ! i)) = Some c"
      and agent: "lease_agent (started ts ! i) = Some a" by (auto simp: speaks_for_def)
    have "get_val d ''holder_id'' = PyStr a" using may by (simp add: may_act_def)
    with i c agent may_act_owner [OF may [unfolded c(1)]] may_act_legacy [OF may [unfolded c(1)]]
    show ?thesis by blast
  qed blast
qed

lemma example_lease_at:
  assumes "K (lease_key ''a.py'') = Some (OStr (cj_encode (example_relay False) (PyDict (example_record 1))), t)"
  shows "lease_at (example_relay False) ''a.py'' K = Some (example_record 1)"
proof -
  have "real_val (PyDict (example_record 1))"
    by (simp add: example_record_def lease_record_def OWNER_WORKSPACE_def OWNER_MEMBER_def)
  from loads_dumps [OF fraction_codec this] show ?thesis
    by (intro lease_atI [of K "''a.py''" _ t, OF assms]) (simp add: example_relay_def)
qed

theorem lease_ends_by_owner_or_time_witness:
  "\<exists>K. lease_at (example_relay False) ''a.py'' K = Some (example_record 1) \<and>
     (\<exists>i a c. i < 2 \<and> lease_agent ([example_lease, Tool (example_in ''u2'') (Release ''a.py'' ''alpha'' 1)] ! i) = Some a \<and>
        get_val (example_record 1) ''holder_id'' = PyStr a)"
proof -
  let ?R = "example_relay False" and ?rel = "Tool (example_in ''u2'') (Release ''a.py'' ''alpha'' 1)"
  from example_history obtain ts ts' K K' where "two_calls ts ts' K K'" by blast
  then have h: "example_run ts (Map.empty, []) = (K, [grant 1])" "started ts = [example_lease]"
    "K (lease_key ''a.py'') = Some (OStr (cj_encode ?R (PyDict (example_record 1))), Some 1800000)"
    by (simp_all only: two_calls_def)
  note held = example_lease_at [of K "Some 1800000", OF h(3)]
  have run: "(K, [grant 1, handle ?R ?rel])
      = example_run (ts @ [Start ?rel]) (Map.empty, [])"
    using h(1) by (simp add: run_ops_append)
  have may: "may_act ?R ''alpha'' (Some local_owner) (example_record 1)"
    by (simp add: may_act_def example_record_def lease_record_def get_val_def owner_passes_def owner_args_def local_owner_def)
  have tok: "token_is (get_val (example_record 1) ''fencing_token'') 1"
    by (simp add: token_is_def example_record_def lease_record_def get_val_def)
  obtain k where k: "handle ?R ?rel = Do (release_op ?R ''a.py'' ''alpha'' 1 (Some local_owner)) k"
    using example_facts(1) [of "''u2''"] example_facts(2,3) example_facts(4) [of "''u2''"]
    by (simp add: relay_release_def tool_def scoped_def with_resource_def validate_name_def with_caller_def
        catching_def and_then_def release_lease_def ask_op_def Let_def)
  have "lease_text ''a.py'' (view reference (fst (advance reference (handle ?R) (Go 1)
      (K, [grant 1, handle ?R ?rel])))) \<noteq> lease_text ''a.py'' K"
    using release_acts [OF held may, of 1] tok h(3) by (simp add: resume_def k lease_text_def del: handle.simps)
  with lease_ends_by_owner_or_time [OF keyspace.redis_axioms example_cjson _ run, of "''a.py''" "example_record 1" "Go 1"] held
  have "\<exists>i a c. i < length (started (ts @ [Start ?rel])) \<and> lease_agent (started (ts @ [Start ?rel]) ! i) = Some a \<and>
      get_val (example_record 1) ''holder_id'' = PyStr a"
    by (simp add: fence_ok_def) blast
  with held h(2) show ?thesis by (auto simp: started_append numeral_2_eq_2)
qed


section \<open>One lease call and the lease it meets\<close>

text \<open>
  C5. A free lease is granted. On a server that holds no lease of the resource, a call with the
  scope, a valid name and a caller returns the lease with the next token, and the server then holds
  the lease, in the caller's name, for the seconds asked.
\<close>

theorem free_lease_is_granted:
  assumes "redis srv" and "cjson_ok R" and "fence_ok r (view srv s)" and "view srv s (lease_key r) = None"
    and "0 < lease_seconds R ttl_minutes" and "fence_value r (view srv s) + 1 < 10 ^ 14"
    and "scope_refusal (r_print R) (r_dep R) (q_ident rq) [''relay:write''] = None" and "normalize_resource_id resource = Inr r"
    and "matches_line id_char 200 agent_id" and "caller_of R rq = Some c"
  shows "\<exists>s'. run_handler srv (handle R (Tool rq (Lease resource agent_id ttl_minutes))) s
      = (Inr (PyDict (lease_granted r agent_id (fence_value r (view srv s) + 1) (lease_seconds R ttl_minutes))), s') \<and>
    view srv s' (lease_key r) = Some (OStr (cj_encode R (PyDict (lease_record agent_id (fence_value r (view srv s) + 1)
      (r_print R (q_now rq)) (lease_seconds R ttl_minutes) (c_workspace c) (c_member c)))),
      Some (nat (1000 * lease_seconds R ttl_minutes)))"
  using redis.lease_free [OF assms(1-5) refl assms(6-10)] by auto

theorem free_lease_is_granted_witness:
  "\<exists>K'. run_handler reference (handle (example_relay False) example_lease) Map.empty
     = (Inr (PyDict (lease_granted ''a.py'' ''alpha'' 1 1800)), K')"
proof -
  have "fence_ok ''a.py'' (view reference Map.empty)" "fence_value ''a.py'' (view reference Map.empty) = 0"
    by (simp_all add: fence_ok_def fence_value_def)
  with free_lease_is_granted [OF keyspace.redis_axioms example_cjson, of "''a.py''" Map.empty False None "example_in ''u1''"
      "''a.py''" "''alpha''" local_owner] example_facts
  show ?thesis by (auto simp: example_lease_def)
qed



text \<open>the lease of the first call, as Python's JSON reads it\<close>

lemma example_held:
  assumes "two_calls ts ts' K K'"
  shows "K (lease_key ''a.py'') = Some (OStr (cj_encode (example_relay False) (PyDict (example_record 1))), Some 1800000)"
    "lease_at (example_relay False) ''a.py'' K = Some (example_record 1)"
    "loads (example_relay False) (cj_encode (example_relay False) (PyDict (example_record 1))) = Some (PyDict (example_record 1))"
proof -
  show held: "K (lease_key ''a.py'') = Some (OStr (cj_encode (example_relay False) (PyDict (example_record 1))), Some 1800000)"
    using assms by (simp only: two_calls_def)
  from example_lease_at [of K "Some 1800000", OF held]
  show "lease_at (example_relay False) ''a.py'' K = Some (example_record 1)" .
  with held show "loads (example_relay False) (cj_encode (example_relay False) (PyDict (example_record 1))) = Some (PyDict (example_record 1))"
    by (simp add: lease_at_def lease_text_def example_relay_def split: option.splits pyval.splits)
qed


section \<open>A stale token\<close>

lemma run_keeps_key:
  assumes "redis srv" and "only (\<lambda>c. \<forall>K. K k = x \<longrightarrow> snd (kdo c K) k = x) p" and "view srv s k = x"
  shows "view srv (snd (run_handler srv p s)) k = x"
  using assms(2,3)
proof (induction p arbitrary: s)
  case (Do c f)
  have "view srv (snd (do_op srv c s)) k = x"
    using Do.prems redis.op_doc(2) [OF assms(1)] by simp
  with Do show ?case by simp
qed simp

lemma only_with_own_resource:
  "(\<And>r. normalize_resource_id x = Inr r \<Longrightarrow> only P (k r)) \<Longrightarrow> only P (with_resource x k)"
  by (auto simp: with_resource_def split: sum.split)

text \<open>
  C4. A stale token moves nothing. While the lease of a resource records another token, a heartbeat
  with this one, and a release with this one (a release with token 0 states none), leave the lease
  as it is, its time included, whoever sends them.
\<close>

theorem stale_token_moves_nothing:
  assumes "redis srv" and held: "lease_at R r (view srv s) = Some d" and stale: "\<not> token_is (get_val d ''fencing_token'') n" and "0 < n"
    and "normalize_resource_id resource = Inr r" and q: "q = Release resource a n \<or> q = LeaseHeartbeat resource n a"
  shows "view srv (snd (run_handler srv (handle R (Tool rq q)) s)) (lease_key r) = view srv s (lease_key r)"
proof -
  let ?P = "\<lambda>c. \<forall>K. K (lease_key r) = view srv s (lease_key r) \<longrightarrow> snd (kdo c K) (lease_key r) = view srv s (lease_key r)"
  have at: "lease_at R r K = Some d" if "K (lease_key r) = view srv s (lease_key r)" for K
    using that held by (simp add: lease_at_def lease_text_def)
  have rel: "?P (release_op R r a n cl)" for cl
  proof (intro allI impI)
    fix K assume K: "K (lease_key r) = view srv s (lease_key r)"
    from release_effect [of R r a n cl K] stale assms(4) at [of K, OF K] have "snd (kdo (release_op R r a n cl) K) = K" by auto
    with K show "snd (kdo (release_op R r a n cl) K) (lease_key r) = view srv s (lease_key r)" by simp
  qed
  have hb: "?P (heartbeat_op R r a n l cl)" for l cl
  proof (intro allI impI)
    fix K assume K: "K (lease_key r) = view srv s (lease_key r)"
    from heartbeat_effect [of R r a n l cl K] stale at [of K, OF K] have "snd (kdo (heartbeat_op R r a n l cl) K) = K" by auto
    with K show "snd (kdo (heartbeat_op R r a n l cl) K) (lease_key r) = view srv s (lease_key r)" by simp
  qed
  have other: "?P c" if "inside other_keys c" for c
    using inside_frame [OF that other_keys_apart(1)] by simp
  have cl: "?P (claim_release_op R r' a c)" for r' c
    by (rule other) (use lease_ops_inside(4) [of r' R a c] in \<open>auto simp: inside_def\<close>)
  have eff: "?P (Effect kind v)" for kind v by simp
  have pop: "?P (Cmd (LPOP (waitq_key r')))" for r' by (rule other) simp
  have posts: "only ?P (post_bulletin R i t content author tags m st)" for i t content author tags m st
    by (rule only_mono [OF board_operations(1)], rule other) (erule inside_mono, blast)
  have "only ?P (notify_waitqueue R i t r')" for i t r'
    unfolding notify_waitqueue_def by (auto intro!: only_ask_op only_bindP pop posts split: option.split)
  with rel hb cl eff assms(5) have "only ?P (handle R (Tool rq q))"
    using q
    by (auto simp: relay_release_def release_lease_def relay_heartbeat_def lease_heartbeat_def Let_def
        intro!: only_tool only_scoped only_with_own_resource only_validate_name only_with_caller only_and_then only_ask_op
        only_replay_emit)
  from run_keeps_key [OF assms(1) this refl] show ?thesis .
qed

theorem stale_token_moves_nothing_witness:
  "\<exists>K. K (lease_key ''a.py'') \<noteq> None \<and>
     snd (run_handler reference (handle (example_relay False) (Tool (example_in ''u2'') (Release ''a.py'' ''alpha'' 7))) K) (lease_key ''a.py'')
       = K (lease_key ''a.py'')"
proof -
  from example_history obtain ts ts' K K' where h: "two_calls ts ts' K K'" by blast
  have "\<not> token_is (get_val (example_record 1) ''fencing_token'') 7"
    by (simp add: token_is_def get_val_def example_record_def lease_record_def)
  from stale_token_moves_nothing [OF keyspace.redis_axioms _ this, of "example_relay False" "''a.py''" K "''a.py''"
      "Release ''a.py'' ''alpha'' 7" "''alpha''" "example_in ''u2''"] example_held(1,2) [OF h] example_facts(2)
  show ?thesis by (intro exI [of _ K]) simp
qed

end
