(* ===== verification/Relay_Record.thy ===== *)
theory Relay_Record
  imports Relay_Holding
begin

text \<open>
  What a task's row says of who wrote it, over the whole service: every write of a row carries the
  stamp of the request that made it, and a completion never names anyone but the last writer.
\<close>

section \<open>The commands that write a task\<close>

definition updates_task :: "string \<Rightarrow> request \<Rightarrow> bool" where
  "updates_task i q \<longleftrightarrow> (\<exists>rq status result assignee. q = Tool rq (TaskUpdate i status result assignee))"

fun posts_task :: "request \<Rightarrow> bool" where
  "posts_task (Tool rq (TaskPost title assignee assigner description priority files context)) \<longleftrightarrow> True"
| "posts_task (Route rq (PostTaskRoute body)) \<longleftrightarrow> True"
| "posts_task q \<longleftrightarrow> False"

text \<open>the stamp of a request, as it is stored\<close>

definition stamp_text :: "relay \<Rightarrow> request \<Rightarrow> string option" where
  "stamp_text R q = map_option (\<lambda>d. dumps R (PyDict d)) (verified_principal R (incoming_of q))"

definition status_fields :: "(string \<times> string) list \<Rightarrow> bool" where
  "status_fields sf \<longleftrightarrow> sf = [] \<or> (\<exists>x y. sf = [(''status'', x), (''history'', y)])"

definition task_write :: "relay \<Rightarrow> request \<Rightarrow> string \<Rightarrow> op \<Rightarrow> bool" where
  "task_write R q i c \<longleftrightarrow>
     (let writer = verified_principal R (incoming_of q) in
      (\<exists>t sf res ass rs. updates_task i q \<and> status_fields sf \<and>
         c = update_op i (update_fields R t sf res ass writer rs) (removed_stamps writer rs)) \<or>
      (\<exists>t ti ass asr de pr fs co. posts_task q \<and> c = Cmd (HSET (task_key i) (task_hash R i t ti ass asr de pr fs co writer))) \<or>
      (\<exists>n. c = Cmd (EXPIRE (task_key i) n)) \<or> c = Cmd (DEL (task_key i)))"

definition task_rule :: "relay \<Rightarrow> request \<Rightarrow> op \<Rightarrow> bool" where
  "task_rule R q c \<longleftrightarrow> (\<forall>i. touches (task_key i) c \<longrightarrow> task_write R q i c)"

definition taskless_keys :: "string set" where
  "taskless_keys = presence_keys \<union> board_keys \<union> claim_keys \<union> dm_keys \<union> scope_keys \<union> range lease_key \<union> range fence_key
     \<union> range waitq_key \<union> {TASK_INDEX_KEY}"

lemma taskless_apart: "task_key i \<notin> taskless_keys"
  by (auto simp: taskless_keys_def presence_keys_def board_keys_def claim_keys_def dm_keys_def scope_keys_def
      lease_key_def fence_key_def presence_key_def post_key_def bulletin_key_def backlog_key_def claim_key_def task_key_def
      TASK_INDEX_KEY_def dm_key_def session_key_def screens_key_def screens_order_key_def screen_seq_key_def events_key_def
      answer_key_def persisted_key_def SCOPE_INDEX_def PRESENCE_INDEX_def waitq_key_def)

lemma task_rule_inside: "inside taskless_keys c \<Longrightarrow> task_rule R q c"
  using taskless_apart by (auto simp: task_rule_def inside_def)

lemma task_key_eq [simp]: "task_key i = task_key j \<longleftrightarrow> i = j"
  by (simp add: task_key_def)

lemma task_rule_cmd [simp]:
  "writes d = None \<Longrightarrow> task_rule R q (Cmd d)" "task_rule R q (Effect kind v)"
  "task_rule R q (Cmd (EXPIRE (task_key i) n))" "task_rule R q (Cmd (DEL (task_key i)))"
  "task_rule R q (Cmd (EXPIRE TASK_INDEX_KEY n))" "task_rule R q (Cmd (ZADD TASK_INDEX_KEY m s))" "task_rule R q (Cmd (ZREM TASK_INDEX_KEY ms))"
  by (auto simp: task_rule_def touches_def task_write_def Let_def TASK_INDEX_KEY_def task_key_def)

lemma only_task_inside: "only (inside F) p \<Longrightarrow> F \<subseteq> taskless_keys \<Longrightarrow> only (task_rule R q) p"
  by (erule only_mono) (rule task_rule_inside, erule (1) inside_mono)

lemma taskless_families:
  "presence_keys \<subseteq> taskless_keys" "board_keys \<subseteq> taskless_keys" "claim_keys \<subseteq> taskless_keys" "dm_keys \<subseteq> taskless_keys"
  "scope_keys \<subseteq> taskless_keys" "range lease_key \<subseteq> taskless_keys" "range fence_key \<subseteq> taskless_keys" "range waitq_key \<subseteq> taskless_keys"
  by (auto simp: taskless_keys_def)

subsection \<open>Every handler keeps to them\<close>

lemma task_rule_lease_ops [simp]:
  "task_rule R q (acquire_op R' r a l t cl)" "task_rule R q (release_op R' r a n cl)"
  "task_rule R q (heartbeat_op R' r a n l cl)" "task_rule R q (claim_release_op R' r a cl)"
  by (rule task_rule_inside; rule inside_mono [OF lease_ops_inside(1)] inside_mono [OF lease_ops_inside(2)]
      inside_mono [OF lease_ops_inside(3)] inside_mono [OF lease_ops_inside(4)]; auto simp: taskless_keys_def claim_keys_def)+

lemma task_rule_waitq [simp]: "task_rule R q (Cmd (LPOP (waitq_key r)))"
  by (rule task_rule_inside) (simp add: taskless_keys_def)

lemma only_task_board [simp]: "only (task_rule R q) (post_bulletin R' i t content author tags n st)"
  by (rule only_task_inside [OF board_operations(1) taskless_families(2)])

lemma task_rule_leases:
  "only (task_rule R q) (relay_lease R rq resource a m)" "only (task_rule R q) (relay_release R rq resource a n)"
  "only (task_rule R q) (relay_heartbeat R rq resource n a)"
  by (auto simp: relay_lease_def acquire_lease_def relay_release_def release_lease_def relay_heartbeat_def lease_heartbeat_def
      notify_waitqueue_def Let_def intro!: only_intros split: option.split)

lemma task_rule_update [simp]:
  assumes "updates_task i q" and "status_fields sf" and "w = verified_principal R (incoming_of q)"
  shows "task_rule R q (update_op i (update_fields R t sf res ass w rs) (removed_stamps w rs))"
  unfolding task_rule_def
proof (intro allI impI)
  fix j assume touch: "touches (task_key j) (update_op i (update_fields R t sf res ass w rs) (removed_stamps w rs))"
  have "inside {task_key i} (update_op i (update_fields R t sf res ass w rs) (removed_stamps w rs))"
    by (auto simp: update_op_def intro!: inside_Eval only_intros)
  with touch have "j = i" by (auto simp: inside_def)
  with assms show "task_write R q j (update_op i (update_fields R t sf res ass w rs) (removed_stamps w rs))"
    unfolding task_write_def Let_def by blast
qed

lemma task_rule_create [simp]:
  assumes "posts_task q" and "w = verified_principal R (incoming_of q)"
  shows "task_rule R q (Cmd (HSET (task_key i) (task_hash R i t ti ass asr de pr fs co w)))"
  unfolding task_rule_def
proof (intro allI impI)
  fix j assume "touches (task_key j) (Cmd (HSET (task_key i) (task_hash R i t ti ass asr de pr fs co w)))"
  then have "j = i" by (simp add: touches_def)
  with assms show "task_write R q j (Cmd (HSET (task_key i) (task_hash R i t ti ass asr de pr fs co w)))"
    unfolding task_write_def Let_def by blast
qed

lemma task_rule_broadcast [simp]: "only (task_rule R q) (task_broadcast R' t msg sender tag)"
  unfolding task_broadcast_def by (rule only_task_inside [OF board_operations(4) taskless_families(2)])

lemma task_rule_post:
  assumes "posts_task q" and "w = verified_principal R (incoming_of q)" and "\<And>d. only (task_rule R q) (k d)"
  shows "only (task_rule R q) (post_task R rq ti ass asr de pr fs co w k)"
  unfolding post_task_def create_task_def by (intro only_intros) (simp_all add: assms)

lemma task_rule_task_update:
  assumes "updates_task i q" and w: "w = verified_principal R (incoming_of q)"
  shows "only (task_rule R q) (update_task R i t t' st res ass w)"
proof -
  have commit: "only (task_rule R q) (commit_update R i t sf res ass w rs)" if "status_fields sf" for sf rs
    unfolding commit_update_def by (intro only_intros) (simp_all add: task_rule_update [OF assms(1) that w])
  show ?thesis
    by (auto simp: update_task_def intro!: only_intros commit simp: status_fields_def split: option.split pyval.split)
qed

lemma only_task_list [simp]: "only (task_rule R q) (list_tasks R' n ass st limit oldest ti)"
proof -
  have page: "only (task_rule R q) (list_page R' wanted lim ids acc)" for wanted lim ids acc
    by (induction ids arbitrary: acc) (auto simp: Let_def intro!: only_intros)
  have pages: "only (task_rule R q) (list_pages R' oldest wanted lim n offset acc)" for wanted lim offset acc
    by (induction n arbitrary: offset acc) (auto simp: Let_def intro!: only_intros page)
  show ?thesis by (auto simp: list_tasks_def intro!: only_and_then only_ask_op pages split: option.split prod.split)
qed

lemmas no_task_tools =
  presence_tools [THEN only_task_inside, OF taskless_families(1)] board_tools [THEN only_task_inside, OF taskless_families(2)]
  claim_tools [THEN only_task_inside, OF taskless_families(3)] dm_tools [THEN only_task_inside, OF taskless_families(4)]
  scope_tools [THEN only_task_inside, OF taskless_families(5)] scope_routes [THEN only_task_inside, OF taskless_families(5)]

lemma tools_keep_task_rule: "only (task_rule R (Tool rq t)) (handle_tool R rq t)"
proof (cases t)
  case (TaskUpdate i st res ass)
  have "only (task_rule R (Tool rq t)) (update_task R i (q_now rq) (q_later rq) st res ass (verified_principal R rq))"
    by (rule task_rule_task_update) (auto simp: TaskUpdate updates_task_def)
  with TaskUpdate show ?thesis
    by (auto simp: relay_task_update_def Let_def intro!: only_intros split: option.split py_exc.split)
next
  case (TaskPost ti ass asr de pr fs co)
  then show ?thesis
    by (auto simp: relay_task_post_def intro!: only_intros task_rule_post)
qed (auto simp: relay_task_list_def relay_task_delete_def delete_task_def task_rule_leases no_task_tools
      intro!: only_tool only_scoped only_and_then only_ask_op only_replay_emit)

lemma routes_keep_task_rule: "only (task_rule R (Route rq t)) (handle_route R rq t)"
proof (cases t)
  case (PostTaskRoute body)
  then show ?thesis
    by (auto simp: route_post_task_def Let_def intro!: only_intros task_rule_post split: option.split pyval.split)
qed (auto simp: route_delete_task_def route_get_tasks_def delete_task_def no_task_tools
      intro!: only_route only_route_scoped only_and_then only_ask_op)

lemma handlers_keep_task_rule: "only (task_rule R q) (handle R q)"
  by (cases q) (simp_all add: tools_keep_task_rule routes_keep_task_rule)


section \<open>The row of a task\<close>

definition task_row :: "string \<Rightarrow> keyspace \<Rightarrow> (string \<times> string) list option" where
  "task_row i K = (case K (task_key i) of Some (OHash h, t) \<Rightarrow> Some h | _ \<Rightarrow> None)"

definition row_field :: "string \<Rightarrow> string \<Rightarrow> keyspace \<Rightarrow> string option" where
  "row_field i k K = (case task_row i K of Some h \<Rightarrow> map_of h k | None \<Rightarrow> None)"

lemma map_of_hash_update: "map_of (hash_update kvs h) k = (if k \<in> fst ` set kvs then map_of (rev kvs) k else map_of h k)"
proof (induction kvs arbitrary: h)
  case Nil
  then show ?case by (simp add: hash_update_def)
next
  case (Cons kv kvs)
  obtain a b where kv: "kv = (a, b)" by (cases kv)
  have step: "hash_update (kv # kvs) h = hash_update kvs (AList.update a b h)" by (simp add: hash_update_def kv)
  have none: "map_of (rev kvs) k = None \<longleftrightarrow> k \<notin> fst ` set kvs" by (simp add: map_of_eq_None_iff)
  show ?case unfolding step Cons.IH using none by (auto simp: kv update_conv' map_add_def split: option.split)
qed

lemma map_of_filter_keys: "map_of (filter (\<lambda>kv. fst kv \<notin> F) h) k = (if k \<in> F then None else map_of h k)"
  by (induction h) auto

lemma row_elapsed: "task_row i (elapsed n K) = task_row i K \<or> task_row i (elapsed n K) = None"
  by (auto simp: task_row_def elapsed_def split: option.split robj.split prod.split)

text \<open>An update sets its fields, removes the stamps it does not renew, and leaves a key of another type alone.\<close>

lemma update_op_row:
  assumes "kvs \<noteq> []"
  shows "snd (kdo (update_op i kvs rem) K) (task_key i) =
     (case hash_at (K (task_key i)) of None \<Rightarrow> K (task_key i)
      | Some h \<Rightarrow> if rem = [] then Some (OHash (hash_update kvs h), ttl_at (K (task_key i)))
                 else kept (OHash (filter (\<lambda>kv. fst kv \<notin> set rem) (hash_update kvs h))) (ttl_at (K (task_key i))))"
  using assms by (auto simp: update_op_def Let_def hash_at_def ttl_at_def split: option.split robj.split prod.split)


lemma task_row_hash_at: "task_row i K = Some h \<Longrightarrow> hash_at (K (task_key i)) = Some h"
  by (auto simp: task_row_def hash_at_def split: option.splits robj.splits prod.splits)

lemma hash_at_row_field: "hash_at (K (task_key i)) = Some h \<Longrightarrow> row_field i k K = map_of h k"
  by (auto simp: row_field_def task_row_def hash_at_def split: option.splits robj.splits prod.splits)

text \<open>What an update leaves in the stamps, whatever the row held\<close>

lemma stamps_of_update:
  assumes "status_fields sf" and "w = verified_principal R (incoming_of q)"
    and row: "task_row i (snd (kdo (update_op i (update_fields R t sf res ass w rs) (removed_stamps w rs)) K)) = Some h'"
    and other: "task_row i K \<noteq> Some h'"
  shows "map_of h' ''updated_by'' = stamp_text R q" and "map_of h' ''completed_by'' \<in> {None, stamp_text R q}"
    and "map_of h' ''created_by'' = row_field i ''created_by'' K"
proof -
  let ?kvs = "update_fields R t sf res ass w rs" and ?rem = "removed_stamps w rs"
  have ne: "?kvs \<noteq> []" by (simp add: update_fields_def)
  obtain h where h: "hash_at (K (task_key i)) = Some h" and h': "h' = filter (\<lambda>kv. fst kv \<notin> set ?rem) (hash_update ?kvs h)"
  proof (cases "hash_at (K (task_key i))")
    case None
    with row other update_op_row [OF ne, of i ?rem K] show ?thesis by (simp add: task_row_def)
  next
    case (Some h)
    with row update_op_row [OF ne, of i ?rem K] have "h' = filter (\<lambda>kv. fst kv \<notin> set ?rem) (hash_update ?kvs h)"
      by (auto simp: task_row_def kept_def split: if_splits)
    with Some that show ?thesis by blast
  qed
  have fields: "map_of (rev ?kvs) ''updated_by'' = map_option (\<lambda>d. dumps R (PyDict d)) w"
    "''completed_by'' \<in> fst ` set ?kvs \<longrightarrow> map_of (rev ?kvs) ''completed_by'' = map_option (\<lambda>d. dumps R (PyDict d)) w"
    "''updated_by'' \<in> fst ` set ?kvs \<longleftrightarrow> w \<noteq> None" "''created_by'' \<notin> fst ` set ?kvs"
    "''completed_by'' \<in> fst ` set ?kvs \<longleftrightarrow> ''completed_by'' \<notin> set ?rem" "''updated_by'' \<in> set ?rem \<longleftrightarrow> w = None" "''created_by'' \<notin> set ?rem"
    using assms(1)
    by (auto simp: update_fields_def removed_stamps_def status_fields_def split: option.splits if_splits)
  show "map_of h' ''updated_by'' = stamp_text R q"
    using fields by (auto simp: h' map_of_filter_keys map_of_hash_update stamp_text_def assms(2))
  show "map_of h' ''completed_by'' \<in> {None, stamp_text R q}"
    using fields by (auto simp: h' map_of_filter_keys map_of_hash_update stamp_text_def assms(2))
  show "map_of h' ''created_by'' = row_field i ''created_by'' K"
    using fields by (simp add: h' map_of_filter_keys map_of_hash_update hash_at_row_field [of K i h, OF h])
qed

lemma stamps_of_create:
  assumes "w = verified_principal R (incoming_of q)"
    and row: "task_row i (snd (kdo (Cmd (HSET (task_key i) (task_hash R i t ti ass asr de pr fs co w))) K)) = Some h'"
    and other: "task_row i K \<noteq> Some h'"
  shows "map_of h' ''created_by'' = (case stamp_text R q of None \<Rightarrow> row_field i ''created_by'' K | Some v \<Rightarrow> Some v)"
    and "map_of h' ''updated_by'' = row_field i ''updated_by'' K" and "map_of h' ''completed_by'' = row_field i ''completed_by'' K"
proof -
  let ?kvs = "task_hash R i t ti ass asr de pr fs co w"
  have ne: "?kvs \<noteq> []" by (simp add: task_hash_def)
  obtain h where h: "hash_at (K (task_key i)) = Some h" and h': "h' = hash_update ?kvs h"
  proof (cases "hash_at (K (task_key i))")
    case None
    with row other ne show ?thesis by (simp add: Let_def)
  next
    case (Some h)
    with row ne that show ?thesis by (simp add: task_row_def)
  qed
  have fields: "map_of (rev ?kvs) ''created_by'' = map_option (\<lambda>d. dumps R (PyDict d)) w"
    "''created_by'' \<in> fst ` set ?kvs \<longleftrightarrow> w \<noteq> None" "''updated_by'' \<notin> fst ` set ?kvs" "''completed_by'' \<notin> fst ` set ?kvs"
    by (auto simp: task_hash_def split: option.splits)
  show "map_of h' ''created_by'' = (case stamp_text R q of None \<Rightarrow> row_field i ''created_by'' K | Some v \<Rightarrow> Some v)"
    using fields by (simp add: h' map_of_hash_update stamp_text_def assms(1) hash_at_row_field [of K i h, OF h] split: option.split)
  show "map_of h' ''updated_by'' = row_field i ''updated_by'' K" "map_of h' ''completed_by'' = row_field i ''completed_by'' K"
    using fields by (simp_all add: h' map_of_hash_update hash_at_row_field [of K i h, OF h])
qed

text \<open>a row after a command is the row before, or signed by the request that sent the command\<close>

definition signed :: "relay \<Rightarrow> request \<Rightarrow> string \<Rightarrow> keyspace \<Rightarrow> (string \<times> string) list \<Rightarrow> bool" where
  "signed R q i K h' \<longleftrightarrow>
     updates_task i q \<and> map_of h' ''updated_by'' = stamp_text R q \<and> map_of h' ''completed_by'' \<in> {None, stamp_text R q} \<and>
       map_of h' ''created_by'' = row_field i ''created_by'' K \<or>
     posts_task q \<and> map_of h' ''created_by'' = (case stamp_text R q of None \<Rightarrow> row_field i ''created_by'' K | Some v \<Rightarrow> Some v) \<and>
       map_of h' ''updated_by'' = row_field i ''updated_by'' K \<and> map_of h' ''completed_by'' = row_field i ''completed_by'' K"

lemma task_command_signs:
  assumes "task_rule R q c" and row: "task_row i (snd (kdo c K)) = Some h'"
  shows "task_row i K = Some h' \<or> signed R q i K h'"
proof (cases "touches (task_key i) c")
  case False
  then have "snd (kdo c K) (task_key i) = K (task_key i)" by (rule op_frame)
  with row show ?thesis by (simp add: task_row_def)
next
  case True
  with assms(1) have wr: "task_write R q i c" by (simp add: task_rule_def)
  have "signed R q i K h'" if other: "task_row i K \<noteq> Some h'"
  proof -
    from wr consider
      (update) t sf res ass rs where "updates_task i q" "status_fields sf"
        "c = update_op i (update_fields R t sf res ass (verified_principal R (incoming_of q)) rs)
           (removed_stamps (verified_principal R (incoming_of q)) rs)"
    | (create) t ti ass asr de pr fs co where "posts_task q"
        "c = Cmd (HSET (task_key i) (task_hash R i t ti ass asr de pr fs co (verified_principal R (incoming_of q))))"
    | (expire) n where "c = Cmd (EXPIRE (task_key i) n)" | (delete) "c = Cmd (DEL (task_key i))"
      unfolding task_write_def Let_def by blast
    then show "signed R q i K h'"
    proof cases
      case update
      from stamps_of_update [OF update(2) refl row [unfolded update(3)] other] update(1) show ?thesis by (simp add: signed_def)
    next
      case create
      from stamps_of_create [OF refl row [unfolded create(2)] other] create(1) show ?thesis by (simp add: signed_def)
    next
      case expire
      with row other show ?thesis by (auto simp: task_row_def split: option.splits if_splits)
    next
      case delete
      with row show ?thesis by (simp add: task_row_def)
    qed
  qed
  then show ?thesis by blast
qed


section \<open>What the service keeps\<close>

text \<open>a completion names the last writer\<close>

definition stamps_agree :: "keyspace \<Rightarrow> bool" where
  "stamps_agree K \<longleftrightarrow> (\<forall>i. row_field i ''completed_by'' K \<in> {None, row_field i ''updated_by'' K})"

lemma stamps_agreeI: "(\<And>i h'. task_row i K = Some h' \<Longrightarrow> map_of h' ''completed_by'' \<in> {None, map_of h' ''updated_by''}) \<Longrightarrow> stamps_agree K"
  by (auto simp: stamps_agree_def row_field_def split: option.split)

lemma stamps_agreeD: "stamps_agree K \<Longrightarrow> row_field i ''completed_by'' K \<in> {None, row_field i ''updated_by'' K}"
  by (simp add: stamps_agree_def)

lemma signed_agree: "signed R q i K h' \<Longrightarrow> stamps_agree K \<Longrightarrow> map_of h' ''completed_by'' \<in> {None, map_of h' ''updated_by''}"
  using stamps_agreeD [of K i] by (auto simp: signed_def)

lemma relay_stamps:
  assumes "redis srv"
  shows "relay_invariant srv (handle R) (task_rule R) stamps_agree"
proof -
  have keeps: "stamps_agree (snd (kdo c K))" if "task_rule R q c" "stamps_agree K" for q c K
  proof (rule stamps_agreeI)
    fix i h' assume "task_row i (snd (kdo c K)) = Some h'"
    from task_command_signs [OF that(1) this] show "map_of h' ''completed_by'' \<in> {None, map_of h' ''updated_by''}"
    proof
      assume "task_row i K = Some h'"
      with stamps_agreeD [OF that(2), of i] show ?thesis by (simp add: row_field_def)
    qed (rule signed_agree [OF _ that(2)])
  qed
  have time: "stamps_agree (elapsed n K)" if "stamps_agree K" for n K
  proof (rule stamps_agreeI)
    fix i h' assume "task_row i (elapsed n K) = Some h'"
    with row_elapsed [of i n K] have "task_row i K = Some h'" by auto
    with stamps_agreeD [OF that, of i] show "map_of h' ''completed_by'' \<in> {None, map_of h' ''updated_by''}"
      by (simp add: row_field_def)
  qed
  show ?thesis
    using assms keeps time
    by (auto simp: relay_invariant_def clients_def clients_axioms_def relay_invariant_axioms_def handlers_keep_task_rule)
qed

interpretation task_stamps: relay_invariant reference "handle R" "task_rule R" stamps_agree for R
  by (rule relay_stamps [OF keyspace.redis_axioms])



section \<open>A task read back\<close>

lemma principal_field_other [simp]: "k \<noteq> k' \<Longrightarrow> map_of (principal_field R raw k task) k' = map_of task k'"
  by (auto simp: principal_field_def update_conv' delete_conv' split: option.split pyval.split)

lemma principal_field_same:
  "map_of raw k = Some v \<Longrightarrow> loads R v = Some (PyDict d) \<Longrightarrow> map_of (principal_field R raw k task) k = Some (PyDict d)"
  by (simp add: principal_field_def update_conv')

lemma float_field_other [simp]: "k \<noteq> k' \<Longrightarrow> map_of (float_field R raw k task) k' = map_of task k'"
  by (auto simp: float_field_def update_conv' split: option.split)

lemma parse_task_text:
  assumes "map_of raw k = Some v" and "k \<notin> {''files'', ''history'', ''created_at'', ''updated_at'', ''created_by'', ''updated_by'', ''completed_by''}"
  shows "get_val (parse_task R raw) k = PyStr v"
  using assms by (auto simp: parse_task_def PRINCIPAL_FIELDS_def get_val_def update_conv')

lemma parse_task_stamp:
  assumes "map_of raw k = Some v" and "loads R v = Some (PyDict d)" and "k \<in> {''created_by'', ''updated_by'', ''completed_by''}"
  shows "get_val (parse_task R raw) k = PyDict d"
  using assms by (auto simp: parse_task_def PRINCIPAL_FIELDS_def get_val_def principal_field_same)

section \<open>One update, run alone\<close>

lemma run_inside:
  assumes "redis srv" and "only (inside F) p" and "k \<notin> F"
  shows "view srv (snd (run_handler srv p s)) k = view srv s k"
  by (rule run_keeps_key [OF assms(1) only_mono [OF assms(2)] refl]) (simp add: inside_frame [OF _ assms(3)])

lemma run_then_inside:
  assumes "redis srv" and "\<And>a. only (inside F) (f a)" and "k \<notin> F"
  shows "view srv (snd (run_handler srv (and_then p f) s)) k = view srv (snd (run_handler srv p s)) k"
  by (auto simp: run_and_then run_inside [OF assms] split: prod.split sum.split)

lemma task_key_board: "task_key i \<notin> board_keys"
  using taskless_apart taskless_families(2) by blast

text \<open>the row after an update whose status, if it names one, is valid\<close>

lemma update_leaves:
  assumes redis: "redis srv" and row: "view srv s (task_key i) = Some (OHash h, t)"
    and scope: "scope_refusal (r_print R) (r_dep R) (q_ident rq) [''relay:write''] = None"
    and w: "w = verified_principal R rq"
    and sf: "case status of None \<Rightarrow> sf = []
       | Some st \<Rightarrow> st \<in> set VALID_STATUSES \<and> (\<exists>hist. map_of h ''history'' = Some hist \<and> hist \<noteq> [] \<and> (\<exists>l. loads R hist = Some (PyList l) \<and>
           sf = [(''status'', st), (''history'', dumps R (PyList (l @ [history_entry st (q_later rq) w])))]))"
    and rs: "rs = (case status of None \<Rightarrow> map_of h ''status'' | Some st \<Rightarrow> Some st)"
  shows "view srv (snd (run_handler srv (handle R (Tool rq (TaskUpdate i status result assignee))) s)) (task_key i) =
    snd (kdo (update_op i (update_fields R (q_now rq) sf result assignee w rs) (removed_stamps w rs)) (view srv s)) (task_key i)"
proof -
  let ?u = "update_op i (update_fields R (q_now rq) sf result assignee w rs) (removed_stamps w rs)"
  have commit: "view srv (snd (run_handler srv (commit_update R i (q_now rq) sf result assignee w rs) s')) (task_key i)
      = snd (kdo (update_op i (update_fields R (q_now rq) sf result assignee w rs) (removed_stamps w rs)) (view srv s)) (task_key i)"
    if "view srv s' = view srv s" for s' sf rs
    using that by (simp add: commit_update_def run_ask_op redis.op_doc [OF redis] split: reply.split option.split)
  have upd: "view srv (snd (run_handler srv (update_task R i (q_now rq) (q_later rq) status result assignee w) s)) (task_key i)
      = snd (kdo ?u (view srv s)) (task_key i)"
  proof (cases status)
    case None
    with row sf rs show ?thesis
      by (cases "map_of h ''status''")
        (simp_all add: update_task_def run_ask_op redis.op_doc [OF redis] reply_int_def reply_text_def hash_at_def commit)
  next
    case (Some st)
    with row sf rs show ?thesis
      by (auto simp: update_task_def run_ask_op redis.op_doc [OF redis] reply_int_def reply_text_def hash_at_def loads_or_empty_def commit)
  qed
  have tl: "view srv (snd (run_handler srv (tool (catching p g)) s')) (task_key i) = view srv (snd (run_handler srv p s')) (task_key i)"
    if "\<And>e. \<exists>x. g e = Ret x" for p g s'
  proof -
    have "snd (run_handler srv (g e) s'') = s''" for e s''
      using that [of e] by auto
    then show ?thesis by (auto simp: tool_def run_catching split: prod.split sum.split) (metis snd_conv)+
  qed
  have rest: "\<exists>x. (case e of HandsError c m \<Rightarrow> Ret (Inr (error_body m)) | _ \<Rightarrow> Ret (Inl e)) = Ret x" for e
    by (simp split: py_exc.split)
  show ?thesis
    unfolding handle.simps handle_tool.simps relay_task_update_def tl [OF rest] scoped_def scope option.simps w [symmetric]
    by (subst run_then_inside [OF redis _ task_key_board])
      (auto simp: upd Let_def task_broadcast_def intro!: only_and_then only_replay_emit split: option.split)
qed


lemma row_after_update:
  assumes "view srv s (task_key i) = Some (OHash h, t)" and "update_fields R tm sf res ass w rs = kvs" and "removed_stamps w rs = rem"
    and "view srv s' (task_key i) = snd (kdo (update_op i (update_fields R tm sf res ass w rs) (removed_stamps w rs)) (view srv s)) (task_key i)"
    and "w = Some d"
  shows "\<exists>h' t'. view srv s' (task_key i) = Some (OHash h', t') \<and>
    (\<forall>k. map_of h' k = (if k \<in> set rem then None else if k \<in> fst ` set kvs then map_of (rev kvs) k else map_of h k))"
proof -
  have ne: "kvs \<noteq> []" using assms(2) by (auto simp: update_fields_def)
  let ?h = "filter (\<lambda>kv. fst kv \<notin> set rem) (hash_update kvs h)"
  have "''updated_at'' \<in> fst ` set kvs" "''updated_at'' \<notin> set rem"
    using assms(2,3) by (auto simp: update_fields_def removed_stamps_def split: option.splits if_splits)
  then have "map_of ?h ''updated_at'' \<noteq> None"
    by (simp add: map_of_filter_keys map_of_hash_update map_of_eq_None_iff)
  then have "?h \<noteq> []" by auto
  with assms(1,4) update_op_row [OF ne, of i rem "view srv s"] assms(2,3)
  have "\<exists>t'. view srv s' (task_key i) = Some (OHash ?h, t')"
    by (cases "rem = []") (auto simp: hash_at_def kept_def)
  then show ?thesis by (auto simp: map_of_filter_keys map_of_hash_update)
qed

section \<open>A task of two credentials\<close>

definition example_member :: "string \<Rightarrow> incoming" where
  "example_member cred = \<lparr>q_ident = Some [(''workspace_id'', PyStr ''w''), (''member_id'', PyStr ''m''), (''credential_id'', PyStr cred),
     (''scopes'', PyList [PyStr ''relay:write''])], q_api_key = None, q_now = 1, q_later = 2, q_uid = ''u''\<rparr>"

definition example_stamp :: "string \<Rightarrow> pydict" where
  "example_stamp cred = [(''workspace_id'', PyStr ''w''), (''member_id'', PyStr ''m''), (''credential_id'', PyStr cred), (''authenticated'', PyBool True)]"

definition example_tasks :: keyspace where
  "example_tasks = [task_key ''t1'' \<mapsto> (OHash [(''status'', ''pending''), (''history'', dumps (example_relay True) (PyList [])),
     (''created_by'', dumps (example_relay True) (PyDict (example_stamp ''c1'')))], None)]"

lemma example_member_facts:
  "scope_refusal (r_print (example_relay True)) (r_dep (example_relay True)) (q_ident (example_member cred)) [''relay:write''] = None"
  "verified_principal (example_relay True) (example_member cred) = Some (example_stamp cred)"
  by (simp_all add: scope_refusal_def scope_ok_def example_relay_def plain_deployment_def example_member_def scopes_allow_def
      verified_principal_def principal_stamp_def str_or_def get_val_def example_stamp_def scope_values_def)

lemma example_agree: "stamps_agree example_tasks"
  by (rule stamps_agreeI) (auto simp: task_row_def example_tasks_def split: if_splits)

definition example_completion :: request where
  "example_completion = Tool (example_member ''c2'') (TaskUpdate ''t1'' (Some ''completed'') None None)"

text \<open>the first three commands of an update that names no status\<close>

lemma update_steps:
  assumes "scope_refusal (r_print R) (r_dep R) (q_ident rq) [''relay:write''] = None"
  shows "\<exists>k1 k2 k3. handle R (Tool rq (TaskUpdate i None res None)) = Do (Cmd (EXISTS (task_key i))) k1 \<and>
    k1 (RInt 1) = Do (Cmd (HGET (task_key i) ''status'')) k2 \<and>
    k2 (RText st) = Do (update_op i (update_fields R (q_now rq) [] res None (verified_principal R rq) (Some st))
      (removed_stamps (verified_principal R rq) (Some st))) k3"
  using assms
  by (simp add: relay_task_update_def tool_def scoped_def catching_def and_then_def update_task_def ask_op_def commit_update_def
      reply_int_def reply_text_def)

lemma example_completed:
  "row_field ''t1'' ''completed_by'' (snd (run_handler reference (handle (example_relay True) example_completion) example_tasks))
     = Some (dumps (example_relay True) (PyDict (example_stamp ''c2'')))"
proof -
  let ?R = "example_relay True" and ?h = "[(''status'', ''pending''), (''history'', dumps (example_relay True) (PyList [])),
     (''created_by'', dumps (example_relay True) (PyDict (example_stamp ''c1'')))]"
  let ?sf = "[(''status'', ''completed''), (''history'', dumps ?R (PyList ([] @ [history_entry ''completed'' (q_later (example_member ''c2''))
      (Some (example_stamp ''c2''))])))]"
  have row: "view reference example_tasks (task_key ''t1'') = Some (OHash ?h, None)"
    by (simp add: example_tasks_def)
  have codec: "float_codec (r_print ?R) (r_read ?R)" using fraction_codec by (simp add: example_relay_def)
  have again: "loads ?R (dumps ?R (PyList [])) = Some (PyList [])"
    by (rule loads_dumps [OF codec]) simp
  have upd: "view reference (snd (run_handler reference (handle ?R example_completion) example_tasks)) (task_key ''t1'') =
      snd (kdo (update_op ''t1'' (update_fields ?R (q_now (example_member ''c2'')) ?sf None None (Some (example_stamp ''c2'')) (Some ''completed''))
      (removed_stamps (Some (example_stamp ''c2'')) (Some ''completed''))) (view reference example_tasks)) (task_key ''t1'')"
    unfolding example_completion_def
    by (rule update_leaves [OF keyspace.redis_axioms row example_member_facts(1)])
      (use again in \<open>simp_all add: example_member_facts VALID_STATUSES_def\<close>)
  from row_after_update [OF row refl refl upd refl] show ?thesis
    by (auto simp: row_field_def task_row_def update_fields_def removed_stamps_def TERMINAL_STATUSES_def)
qed



end
