(* ===== verification/Relay_Phone.thy ===== *)
theory Relay_Phone
  imports Hands_Keep Relay_Record
begin

text \<open>
  The task an approval travels in, written by Relay (\<open>relay/app/tasks.py\<close>) and read by the phone
  bridge of Hands (\<open>hands/src/firekeep_hands/keep.py\<close>).
\<close>

section \<open>Who wrote the word\<close>

text \<open>
  C11. A word written before the completion speaks for the completer. One caller writes the result
  \<open>approve\<close> on an open task and leaves its status; another caller then completes the task without a
  result. The task read back is an approval to the phone bridge of Hands, and its completer is the
  second caller, who never wrote that word: the check of who approved sees the second stamp only.
\<close>

theorem prewritten_word_approves:
  assumes redis: "redis srv" and codec: "float_codec (r_print R) (r_read R)"
    and row: "view srv s (task_key i) = Some (OHash h, t)" and created: "map_of h ''created_by'' = Some (dumps R (PyDict d0))"
    and pending: "map_of h ''status'' = Some ''pending''" and hist: "map_of h ''history'' = Some (dumps R (PyList l))"
    and real: "real_val (PyDict d0)" "real_val (PyDict d2)" "real_val (PyList l)"
    and scope: "scope_refusal (r_print R) (r_dep R) (q_ident rq1) [''relay:write''] = None"
      "scope_refusal (r_print R) (r_dep R) (q_ident rq2) [''relay:write''] = None"
    and writers: "verified_principal R rq1 = Some d1" "verified_principal R rq2 = Some d2"
    and s1: "s1 = snd (run_handler srv (Relay_Service.handle R (Tool rq1 (TaskUpdate i None (Some ''approve'') None))) s)"
    and s2: "s2 = snd (run_handler srv (Relay_Service.handle R (Tool rq2 (TaskUpdate i (Some ''completed'') None None))) s1)"
  shows "\<exists>h'. task_row i (view srv s2) = Some h' \<and> answer_from_task fl (parse_task R h') = Some ''approve'' \<and>
    get_val (parse_task R h') ''created_by'' = PyDict d0 \<and> get_val (parse_task R h') ''completed_by'' = PyDict d2"
proof -
  have again: "loads R (dumps R v) = Some v" if "real_val v" for v
    using loads_dumps [OF codec that] .
  have upd1: "view srv s1 (task_key i) = snd (kdo (update_op i (update_fields R (q_now rq1) [] (Some ''approve'') None (Some d1) (Some ''pending''))
      (removed_stamps (Some d1) (Some ''pending''))) (view srv s)) (task_key i)"
    unfolding s1 by (rule update_leaves [OF redis row scope(1)]) (simp_all add: writers pending)
  from row_after_update [OF row refl refl upd1 refl] obtain h1 t1 where h1: "view srv s1 (task_key i) = Some (OHash h1, t1)"
    "map_of h1 ''result'' = Some ''approve''" "map_of h1 ''created_by'' = Some (dumps R (PyDict d0))"
    "map_of h1 ''history'' = Some (dumps R (PyList l))"
    using created hist by (auto simp: update_fields_def removed_stamps_def TERMINAL_STATUSES_def)
  let ?sf = "[(''status'', ''completed''), (''history'', dumps R (PyList (l @ [history_entry ''completed'' (q_later rq2) (Some d2)])))]"
  have ne: "dumps R (PyList l) \<noteq> []" by (cases l) simp_all
  have upd2: "view srv s2 (task_key i) = snd (kdo (update_op i (update_fields R (q_now rq2) ?sf None None (Some d2) (Some ''completed''))
      (removed_stamps (Some d2) (Some ''completed''))) (view srv s1)) (task_key i)"
    unfolding s2
    by (rule update_leaves [OF redis h1(1) scope(2)]) (use h1(4) again [OF real(3)] ne in \<open>simp_all add: writers VALID_STATUSES_def\<close>)
  from row_after_update [OF h1(1) refl refl upd2 refl] obtain h2 t2 where h2: "view srv s2 (task_key i) = Some (OHash h2, t2)"
    "map_of h2 ''result'' = Some ''approve''" "map_of h2 ''created_by'' = Some (dumps R (PyDict d0))"
    "map_of h2 ''status'' = Some ''completed''" "map_of h2 ''completed_by'' = Some (dumps R (PyDict d2))"
    using h1(2-) by (auto simp: update_fields_def removed_stamps_def TERMINAL_STATUSES_def)
  have "get_val (parse_task R h2) ''status'' = PyStr ''completed''" "get_val (parse_task R h2) ''result'' = PyStr ''approve''"
    by (rule parse_task_text, fact, simp)+
  moreover have "str_or fl (PyStr ''approve'') [] = ''approve''" by (simp add: str_or_def)
  moreover have "starts_with (py_lower (py_strip ''approve'')) ''approve''" by code_simp
  ultimately have "answer_from_task fl (parse_task R h2) = Some ''approve''"
    by (simp add: answer_from_task_def Let_def)
  moreover have "get_val (parse_task R h2) ''created_by'' = PyDict d0" "get_val (parse_task R h2) ''completed_by'' = PyDict d2"
    by (rule parse_task_stamp, fact, rule again, fact, simp)+
  ultimately show ?thesis using h2(1) by (auto simp: task_row_def)
qed

theorem prewritten_word_approves_witness:
  "\<exists>K h'. task_row ''t1'' K = Some h' \<and> answer_from_task print_fraction (parse_task (example_relay True) h') = Some ''approve'' \<and>
     get_val (parse_task (example_relay True) h') ''created_by'' = PyDict (example_stamp ''c1'') \<and>
     get_val (parse_task (example_relay True) h') ''completed_by'' = PyDict (example_stamp ''c2'')"
proof -
  let ?R = "example_relay True" and ?h = "[(''status'', ''pending''), (''history'', dumps (example_relay True) (PyList [])),
     (''created_by'', dumps (example_relay True) (PyDict (example_stamp ''c1'')))]"
  have codec: "float_codec (r_print ?R) (r_read ?R)" using fraction_codec by (simp add: example_relay_def)
  have row: "view reference example_tasks (task_key ''t1'') = Some (OHash ?h, None)" by (simp add: example_tasks_def)
  have real: "real_val (PyDict (example_stamp c))" for c by (simp add: example_stamp_def)
  from prewritten_word_approves [OF keyspace.redis_axioms codec row _ _ _ real [of "''c1''"] real [of "''c2''"] _
      example_member_facts(1) [of "''c1''"] example_member_facts(1) [of "''c2''"]
      example_member_facts(2) [of "''c1''"] example_member_facts(2) [of "''c2''"] refl refl, of "[]" print_fraction]
  show ?thesis by auto
qed

end
