(* ===== verification/Relay_Inbox.thy ===== *)
theory Relay_Inbox
  imports Relay_Record
begin

text \<open>
  Direct messages over the whole service: whom a reader is shown messages of, and what a reader who
  marks an inbox as read does to a message sent meanwhile.
\<close>

section \<open>What a program may return\<close>

text \<open>every result of a program, whatever the replies\<close>

primrec yields :: "('a \<Rightarrow> bool) \<Rightarrow> ('c, 'a) prog \<Rightarrow> bool" where
  "yields Q (Ret a) \<longleftrightarrow> Q a"
| "yields Q (Do c k) \<longleftrightarrow> (\<forall>r. yields Q (k r))"

lemma yields_bindP: "yields Q' p \<Longrightarrow> (\<And>a. Q' a \<Longrightarrow> yields Q (f a)) \<Longrightarrow> yields Q (bindP p f)"
  by (induction p) auto

lemma yields_True [simp]: "yields (\<lambda>a. True) p"
  by (induction p) auto

lemma yields_any: "(\<And>a. Q a) \<Longrightarrow> yields Q p"
  by (induction p) auto

lemma yields_mono: "yields Q p \<Longrightarrow> (\<And>a. Q a \<Longrightarrow> Q' a) \<Longrightarrow> yields Q' p"
  by (induction p) auto

lemma yields_and_then:
  assumes "yields (\<lambda>x. case x of Inl e \<Rightarrow> Q (Inl e) | Inr a \<Rightarrow> Q' a) p" and "\<And>a. Q' a \<Longrightarrow> yields Q (f a)"
  shows "yields Q (and_then p f)"
  unfolding and_then_def using assms(1) by (rule yields_bindP) (auto split: sum.splits intro: assms(2))

lemma yields_catching: "yields Q p \<Longrightarrow> (\<And>e. yields Q (h e)) \<Longrightarrow> yields Q (catching p h)"
  unfolding catching_def by (erule yields_bindP) (auto split: sum.splits)

lemma yields_ask_op: "(\<And>m. Q (Inl (OtherError m))) \<Longrightarrow> (\<And>r. yields Q (k r)) \<Longrightarrow> yields Q (ask_op c k)"
  by (auto simp: ask_op_def split: reply.split)

text \<open>The results of the requests that have started\<close>

lemma resume_cases: "snd (resume i a sy) = snd sy \<or>
   (\<exists>c k r. i < length (snd sy) \<and> snd sy ! i = Do c k \<and> snd (resume i a sy) = (snd sy)[i := k r])"
  by (auto simp: resume_def split: prog.split)

lemma advance_threads:
  fixes srv :: "'s server"
  shows "snd (advance srv h t sy) = snd sy @ map h (started [t]) \<or>
   (started [t] = [] \<and> (\<exists>i c k r. i < length (snd sy) \<and> snd sy ! i = Do c k \<and> snd (advance srv h t sy) = (snd sy)[i := k r]))"
proof -
  obtain s ps where sy: "sy = (s, ps)" by (cases sy)
  have one: "snd (resume i a (s, ps)) = ps \<or> (\<exists>c k r. i < length ps \<and> ps ! i = Do c k \<and> snd (resume i a (s, ps)) = ps[i := k r])"
    for i and a :: "op \<Rightarrow> reply \<times> 's"
    using resume_cases [of i a "(s, ps)"] by simp
  show ?thesis
  proof (cases t)
    case (Go i)
    then show ?thesis using one [of i "\<lambda>c. do_op srv c s"] by (simp add: sy) blast
  next
    case (Fail i m)
    then show ?thesis using one [of i "\<lambda>c. (RErr m, s)"] by (simp add: sy) blast
  next
    case (Lost i m)
    then show ?thesis using one [of i "\<lambda>c. (RErr m, snd (do_op srv c s))"] by (simp add: sy) blast
  qed (simp_all add: sy)
qed

lemma results_yield:
  assumes "\<And>q. yields (Q q) (h q)"
  shows "list_all2 (\<lambda>q p. yields (Q q) p) (started ts) (snd (run_ops (advance srv h) ts (s, [])))"
proof (induction ts rule: rev_induct)
  case Nil
  then show ?case by simp
next
  case (snoc t ts)
  let ?sy = "run_ops (advance srv h) ts (s, [])"
  have st: "started (ts @ [t]) = started ts @ started [t]" by (rule started_append)
  have run: "run_ops (advance srv h) (ts @ [t]) (s, []) = advance srv h t ?sy" by (simp add: run_ops_append)
  consider "snd (advance srv h t ?sy) = snd ?sy @ map h (started [t])"
    | i c k r where "started [t] = []" "i < length (snd ?sy)" "snd ?sy ! i = Do c k" "snd (advance srv h t ?sy) = (snd ?sy)[i := k r]"
    using advance_threads [of srv h t ?sy] by blast
  then show ?case
  proof cases
    case 1
    have "list_all2 (\<lambda>q p. yields (Q q) p) (started [t]) (map h (started [t]))"
      by (simp add: list_all2_map2 list_all2_same assms)
    with snoc 1 show ?thesis unfolding st run by (simp add: list_all2_appendI del: started.simps)
  next
    case 2
    with snoc have "yields (Q (started ts ! i)) (Do c k)" by (metis list_all2_nthD2)
    with snoc 2 show ?thesis unfolding st run
      by (auto simp: list_all2_conv_all_nth nth_list_update simp del: started.simps)
  qed
qed

section \<open>Reading an inbox\<close>

text \<open>the messages of a reply, of a tool or of a route\<close>

definition messages_in :: "pydict \<Rightarrow> pyval set" where
  "messages_in d = (case get_val d ''messages'' of PyList ms \<Rightarrow> set ms | _ \<Rightarrow> {})"

definition messages_of :: "py_exc + pyval \<Rightarrow> pyval set" where
  "messages_of res = (case res of Inr (PyDict d) \<Rightarrow>
     messages_in d \<union> (case get_val d ''body'' of PyDict b \<Rightarrow> messages_in b | _ \<Rightarrow> {}) | _ \<Rightarrow> {})"

definition reads_inbox :: "request \<Rightarrow> bool" where
  "reads_inbox q \<longleftrightarrow> (\<exists>rq l u n. q = Tool rq (GetDm l u n)) \<or> (\<exists>rq l u. q = Route rq (GetDmRoute l u))"

definition shown_own :: "relay \<Rightarrow> request \<Rightarrow> py_exc + pyval \<Rightarrow> bool" where
  "shown_own R q res \<longleftrightarrow> (reads_inbox q \<longrightarrow> (\<forall>m \<in> messages_of res.
     \<exists>msg c. m = PyDict msg \<and> caller_of R (incoming_of q) = Some c \<and> visible_to R msg c))"

lemma messages_simps [simp]:
  "messages_of (Inl e) = {}" "messages_of (Inr no_principal) = {}" "messages_of (Inr (error_body m)) = {}"
  "messages_of (Inr (PyDict [(''error'', x), (''status'', y)])) = {}"
  "messages_of (Inr (PyDict [(''status_code'', x), (''body'', PyDict [(''error'', y)])])) = {}"
  "messages_of (Inr (dms_reply l ms)) = set ms" "messages_of (Inr (PyDict [(''status_code'', x), (''body'', dms_reply l ms)])) = set ms"
  by (simp_all add: messages_of_def messages_in_def no_principal_def error_body_def dms_reply_def get_val_def)

lemma scope_refusal_shape: "scope_refusal f d ident required = Some e \<Longrightarrow> \<exists>x y. e = [(''error'', x), (''status'', y)]"
  by (auto simp: scope_refusal_def split: if_splits)

lemma get_dms_yields:
  "yields (\<lambda>x. case x of Inl e \<Rightarrow> True | Inr ms \<Rightarrow> \<forall>m \<in> set ms. \<exists>msg. m = PyDict msg \<and> visible_to R msg c) (get_dms R l u n (Some c))"
  unfolding get_dms_def
  by (rule yields_ask_op) (auto split: sum.split dest!: pick_dms_shown simp: shown_to_def)

lemma inbox_core:
  assumes "caller_of R (incoming_of q) = Some c" and "\<And>ms. messages_of (Inr (wrap (dms_reply l ms))) = set ms"
  shows "yields (shown_own R q) (and_then (get_dms R l u n (Some c)) (\<lambda>ms. Ret (Inr (wrap (dms_reply l ms)))))"
proof (rule yields_and_then)
  show "yields (\<lambda>x. case x of Inl e \<Rightarrow> shown_own R q (Inl e) | Inr ms \<Rightarrow> \<forall>m \<in> set ms. \<exists>msg. m = PyDict msg \<and> visible_to R msg c)
      (get_dms R l u n (Some c))"
    by (rule yields_mono [OF get_dms_yields]) (auto simp: shown_own_def split: sum.split)
qed (use assms in \<open>auto simp: shown_own_def\<close>)

lemma inbox_yields: "yields (shown_own R q) (handle R q)"
proof (cases "reads_inbox q")
  case False
  then show ?thesis by (auto simp: shown_own_def intro: yields_any)
next
  case True
  have quiet: "yields (shown_own R q) (Ret (Inl e))" "messages_of (Inr v) = {} \<Longrightarrow> yields (shown_own R q) (Ret (Inr v))" for e v
    by (simp_all add: shown_own_def)
  from True consider (tool) rq l u n where "q = Tool rq (GetDm l u n)" | (route) rq l u where "q = Route rq (GetDmRoute l u)"
    by (auto simp: reads_inbox_def)
  then show ?thesis
  proof cases
    case tool
    have "yields (shown_own R q) (and_then (get_dms R l u (min n MAX_LIMIT) (Some c)) (\<lambda>ms. Ret (Inr (dms_reply l ms))))"
      if "caller_of R rq = Some c" for c
      using inbox_core [of R q c "\<lambda>v. v" l u "min n MAX_LIMIT"] that by (simp add: tool)
    with quiet show ?thesis
      unfolding tool handle.simps handle_tool.simps relay_get_dm_def tool_def scoped_def validate_name_def with_caller_def
      by (intro yields_catching) (auto split: option.split dest!: scope_refusal_shape)
  next
    case route
    have "yields (shown_own R q) (and_then (get_dms R l (py_lower u = ''true'') 50 (Some c)) (\<lambda>ms. json_response 200 (dms_reply l ms)))"
      if "caller_of R rq = Some c" for c
      using inbox_core [of R q c "\<lambda>v. PyDict [(''status_code'', PyInt 200), (''body'', v)]" l "py_lower u = ''true''" 50] that
      by (simp add: route json_response_def)
    with quiet show ?thesis
      unfolding route handle.simps handle_route.simps route_get_dm_def route_def route_scoped_def route_caller_def json_response_def error_body_def
      by (intro yields_catching) (auto split: option.split dest!: scope_refusal_shape)
  qed
qed


definition example_reader :: incoming where
  "example_reader = \<lparr>q_ident = Some [(''workspace_id'', PyStr ''w''), (''member_id'', PyStr ''m''), (''credential_id'', PyStr ''c1''),
     (''scopes'', PyList [PyStr ''relay:read''])], q_api_key = None, q_now = 1, q_later = 2, q_uid = ''u''\<rparr>"

definition example_message :: pydict where
  "example_message = dm_record ''dm-1'' ''bob'' ''hello'' ''alice'' 1 None (Some (''w'', ''m''))"

definition example_inbox :: keyspace where
  "example_inbox = [dm_key ''bob'' \<mapsto> (OList [dumps (example_relay True) (PyDict example_message)], None)]"

lemma example_inbox_read:
  "fst (run_handler reference (handle (example_relay True) (Tool example_reader (GetDm ''bob'' False 20))) example_inbox)
     = Inr (dms_reply ''bob'' [PyDict example_message])"
proof -
  let ?R = "example_relay True" and ?c = "\<lparr>c_workspace = ''w'', c_member = ''m'', c_credential = ''c1'', c_authenticated = True, c_admin = False\<rparr>"
  have codec: "float_codec (r_print ?R) (r_read ?R)" using fraction_codec by (simp add: example_relay_def)
  have again: "loads ?R (dumps ?R (PyDict example_message)) = Some (PyDict example_message)"
    by (rule loads_dumps [OF codec]) (simp add: example_message_def dm_record_def stamped_def)
  have scope: "scope_refusal (r_print ?R) (r_dep ?R) (q_ident example_reader) [''relay:read''] = None"
    by (simp add: scope_refusal_def scope_ok_def example_relay_def plain_deployment_def example_reader_def scopes_allow_def
        get_val_def scope_values_def)
  have caller: "caller_of ?R example_reader = Some ?c"
    by (simp add: caller_of_def caller_from_scope_def example_relay_def example_reader_def plain_deployment_def str_or_def get_val_def
        scope_values_def scopes_allow_def)
  have name: "matches_line id_char 200 ''bob''" by code_simp
  have vis: "visible_to ?R example_message ?c"
    by (simp add: visible_to_def administers_def owns_def example_message_def dm_record_def stamped_def get_val_def
        OWNER_MEMBER_def OWNER_WORKSPACE_def record_workspace_def str_or_def)
  show ?thesis
    using scope caller name vis again
    by (simp add: relay_get_dm_def tool_def scoped_def validate_name_def with_caller_def run_rules get_dms_def example_inbox_def
        list_at_def redis_slice_def reply_texts_def shown_to_def Let_def)
qed


section \<open>Marking an inbox as read\<close>

lemma run_pushes:
  assumes "list_at (K k) = Some ys" and "0 < n"
  shows "list_at (snd (run_prog doc (multi (map (LPUSH k) xs @ [EXPIRE k n]) rs) K) k) = Some (rev xs @ ys)"
  using assms(1)
proof (induction xs arbitrary: K ys rs)
  case Nil
  with assms(2) show ?case by (auto simp: list_at_def split: option.splits)
next
  case (Cons x xs)
  have "list_at (snd (doc (LPUSH k x) K) k) = Some (x # ys)" using Cons.prems by (simp add: list_at_def)
  with Cons.IH [of "snd (doc (LPUSH k x) K)" "x # ys" "fst (doc (LPUSH k x) K) # rs"] show ?case by simp
qed

lemma replace_inbox_list: "list_at (snd (kdo (replace_inbox l updated) K) (dm_key l)) = Some updated"
  using run_pushes [of "K(dm_key l := None)" "dm_key l" "[]" DM_TTL_SECONDS "rev updated" "[fst (doc (DEL (dm_key l)) K)]"]
  by (simp add: replace_inbox_def list_at_def DM_TTL_SECONDS_def)

lemma mark_all_length: "mark_all R c raws = Inr (updated, n) \<Longrightarrow> length updated = length raws"
  by (induction raws arbitrary: updated n) (auto simp: bindR_def split: sum.splits)

lemma whole_slice [simp]: "redis_slice 0 (- 1) xs = xs"
  by (simp add: redis_slice_def Let_def)

lemma mark_steps:
  assumes "scope_refusal (r_print R) (r_dep R) (q_ident rq) [''relay:write''] = None" and "caller_of R rq = Some c"
    and "mark_all R (Some c) raws = Inr (updated, n)" and "0 < n"
  shows "\<exists>k1 k2. handle R (Route rq (MarkDmReadRoute l)) = Do (Cmd (LRANGE (dm_key l) 0 (- 1))) k1 \<and>
    k1 (RTexts raws) = Do (replace_inbox l updated) k2"
  using assms
  by (simp add: route_mark_dm_read_def route_def route_scoped_def route_caller_def catching_def and_then_def mark_read_def ask_op_def
      reply_texts_def)

lemma send_run:
  assumes "scope_refusal (r_print R) (r_dep R) (q_ident rq) [''relay:write''] = None" and "caller_of R rq = Some c"
    and "matches_line id_char 200 l" "matches_line id_char 200 from_id" "length content \<le> MAX_CONTENT_SIZE"
    and "K (presence_key from_id) = None" "K (presence_key l) = None" "list_at (K (dm_key l)) = Some raws"
  shows "\<exists>msg. fst (run_handler reference (handle R (Tool rq (SendDm l content from_id))) K)
      = Inr (PyDict [(''status'', PyStr ''sent''), (''message'', PyDict msg)]) \<and>
    list_at (snd (run_handler reference (handle R (Tool rq (SendDm l content from_id))) K) (dm_key l)) = Some (dumps R (PyDict msg) # raws)"
  using assms
  by (simp add: relay_send_dm_def tool_def scoped_def validate_name_def with_caller_def too_large_def label_refusal_def
      label_held_by_other_def label_owner_def run_rules hash_at_def reply_pairs_def send_dm_def Let_def replay_emit_def DM_TTL_SECONDS_def)
    (simp add: list_at_def)

text \<open>
  C10. Marking an inbox as read loses a message sent meanwhile. The reader reads the list, a sender
  is told that its message was sent, and the reader writes the list it read back: the inbox then
  holds the marked messages of before, and the one sent is in none of them.
\<close>

theorem marking_read_loses_a_message:
  assumes inbox: "list_at (K (dm_key l)) = Some raws" and marks: "mark_all R (Some c) raws = Inr (updated, n)" "0 < n"
    and reader: "scope_refusal (r_print R) (r_dep R) (q_ident rq1) [''relay:write''] = None" "caller_of R rq1 = Some c"
    and sender: "scope_refusal (r_print R) (r_dep R) (q_ident rq2) [''relay:write''] = None" "caller_of R rq2 = Some c'"
      "matches_line id_char 200 l" "matches_line id_char 200 from_id" "length content \<le> MAX_CONTENT_SIZE"
      "K (presence_key from_id) = None" "K (presence_key l) = None"
  shows "\<exists>m msg. let sy = run_ops (advance reference (handle R))
        ([Start (Route rq1 (MarkDmReadRoute l)), Start (Tool rq2 (SendDm l content from_id)), Go 0] @ replicate m (Go 1) @ [Go 0]) (K, [])
      in snd sy ! 1 = Ret (Inr (PyDict [(''status'', PyStr ''sent''), (''message'', PyDict msg)])) \<and>
         list_at (fst sy (dm_key l)) = Some updated \<and> length updated = length raws"
proof -
  let ?mark = "Route rq1 (MarkDmReadRoute l)" and ?send = "Tool rq2 (SendDm l content from_id)"
  from mark_steps [OF reader marks] obtain k1 k2 where k: "handle R ?mark = Do (Cmd (LRANGE (dm_key l) 0 (- 1))) k1"
    "k1 (RTexts raws) = Do (replace_inbox l updated) k2" by blast
  from send_run [OF sender inbox] obtain msg where
    msg: "fst (run_handler reference (handle R ?send) K) = Inr (PyDict [(''status'', PyStr ''sent''), (''message'', PyDict msg)])" by blast
  let ?K' = "snd (run_handler reference (handle R ?send) K)"
  have read: "kdo (Cmd (LRANGE (dm_key l) 0 (- 1))) K = (RTexts raws, K)" using inbox by simp
  have first: "run_ops (advance reference (handle R)) [Start ?mark, Start ?send, Go 0] (K, []) = (K, [Do (replace_inbox l updated) k2, handle R ?send])"
    using read by (simp add: k resume_def del: handle.simps kdo_simps)
  obtain m where second: "run_ops (advance reference (handle R)) (replicate m (Go 1)) (K, [Do (replace_inbox l updated) k2, handle R ?send])
      = (?K', [Do (replace_inbox l updated) k2, Ret (fst (run_handler reference (handle R ?send) K))])"
    using thread_runs [of 1 "[Do (replace_inbox l updated) k2, handle R ?send]" "handle R ?send" reference "handle R" K] by auto
  have third: "advance reference (handle R) (Go 0) (?K', [Do (replace_inbox l updated) k2, x])
      = (snd (kdo (replace_inbox l updated) ?K'), [k2 (fst (kdo (replace_inbox l updated) ?K')), x])" for x
    by (simp add: resume_def del: kdo_simps handle.simps)
  have "run_ops (advance reference (handle R)) ([Start ?mark, Start ?send, Go 0] @ replicate m (Go 1) @ [Go 0]) (K, [])
      = (snd (kdo (replace_inbox l updated) ?K'), [k2 (fst (kdo (replace_inbox l updated) ?K')),
          Ret (Inr (PyDict [(''status'', PyStr ''sent''), (''message'', PyDict msg)]))])"
    unfolding run_ops_append first second by (simp add: third msg del: advance.simps handle.simps)
  with replace_inbox_list mark_all_length [OF marks(1)] show ?thesis
    by (intro exI [of _ m] exI [of _ msg]) (simp add: Let_def del: kdo_simps handle.simps)
qed

theorem marking_read_loses_a_message_witness:
  "\<exists>ts msg. let sy = run_ops (advance reference (handle (example_relay False))) ts (example_inbox, []) in
     snd sy ! 1 = Ret (Inr (PyDict [(''status'', PyStr ''sent''), (''message'', PyDict msg)])) \<and>
     list_at (fst sy (dm_key ''bob'')) = Some [dumps (example_relay False) (PyDict (AList.update ''read'' (PyBool True) example_message))]"
proof -
  let ?R = "example_relay False" and ?raw = "dumps (example_relay True) (PyDict example_message)"
  have codec: "float_codec (r_print ?R) (r_read ?R)" using fraction_codec by (simp add: example_relay_def)
  have "loads ?R (dumps ?R (PyDict example_message)) = Some (PyDict example_message)"
    by (rule loads_dumps [OF codec]) (simp add: example_message_def dm_record_def stamped_def)
  then have again: "loads ?R ?raw = Some (PyDict example_message)" by (simp add: example_relay_def)
  have "shown_to ?R example_message (Some local_owner)"
    by (simp add: shown_to_def visible_to_def administers_def owns_def local_owner_def)
  moreover have "\<not> read_flag example_message"
    by (simp add: read_flag_def example_message_def dm_record_def stamped_def)
  ultimately have marks: "mark_all ?R (Some local_owner) [?raw] = Inr ([dumps ?R (PyDict (AList.update ''read'' (PyBool True) example_message))], 1)"
    by (simp only: mark_all.simps marked_dm_def again) (simp add: bindR_def)
  have inbox: "list_at (example_inbox (dm_key ''bob'')) = Some [?raw]" by (simp add: example_inbox_def list_at_def)
  have names: "matches_line id_char 200 ''bob''" "matches_line id_char 200 ''alice''" by code_simp+
  have free: "example_inbox (presence_key l) = None" for l by (simp add: example_inbox_def presence_key_def dm_key_def)
  have "\<exists>m msg. let sy = run_ops (advance reference (handle ?R))
        ([Start (Route (example_in ''u1'') (MarkDmReadRoute ''bob'')), Start (Tool (example_in ''u2'') (SendDm ''bob'' ''hi'' ''alice'')), Go 0]
          @ replicate m (Go 1) @ [Go 0]) (example_inbox, [])
      in snd sy ! 1 = Ret (Inr (PyDict [(''status'', PyStr ''sent''), (''message'', PyDict msg)])) \<and>
         list_at (fst sy (dm_key ''bob'')) = Some [dumps ?R (PyDict (AList.update ''read'' (PyBool True) example_message))] \<and>
         length [dumps ?R (PyDict (AList.update ''read'' (PyBool True) example_message))] = length [?raw]"
    using marking_read_loses_a_message [of example_inbox "''bob''" "[?raw]" ?R local_owner
        "[dumps ?R (PyDict (AList.update ''read'' (PyBool True) example_message))]" 1 "example_in ''u1''" "example_in ''u2''" local_owner
        "''alice''" "''hi''"] inbox marks example_facts(1,4) names free
    by (simp add: MAX_CONTENT_SIZE_def)
  then obtain m msg where "let sy = run_ops (advance reference (handle ?R))
        ([Start (Route (example_in ''u1'') (MarkDmReadRoute ''bob'')), Start (Tool (example_in ''u2'') (SendDm ''bob'' ''hi'' ''alice'')), Go 0]
          @ replicate m (Go 1) @ [Go 0]) (example_inbox, [])
      in snd sy ! 1 = Ret (Inr (PyDict [(''status'', PyStr ''sent''), (''message'', PyDict msg)])) \<and>
         list_at (fst sy (dm_key ''bob'')) = Some [dumps ?R (PyDict (AList.update ''read'' (PyBool True) example_message))]"
    unfolding Let_def by blast
  then show ?thesis by blast
qed

end
