(* ===== verification/Auth_Keys.thy ===== *)
theory Auth_Keys
  imports Relay_Principal
begin

text \<open>
  The key store (\<open>auth/keys.py\<close>): API keys as hashes in Redis, looked up by the digest of the
  plaintext, and listed, renamed and revoked by their credential id. A key record is a hash
  \<open>auth:key:<digest>\<close>, \<open>auth:cred:<id>\<close> maps the credential id to the digest, and the sorted set
  \<open>auth:key_index\<close> lists the ids. The keys a \<open>SCAN\<close> yields are an argument of the operations that
  scan: its result under concurrent writes is no function of the keyspace.
\<close>

section \<open>The surroundings\<close>

text \<open>
  \<open>hashlib.sha256(s.encode()).hexdigest()\<close> of a text and of bytes (as characters), the 32 bytes of
  its \<open>digest()\<close>; of the UTC time at a POSIX timestamp \<open>isoformat()\<close> and two of \<open>strftime\<close>'s formats;
  \<open>datetime.fromisoformat\<close>, \<open>None\<close> where it raises or the time is naive; and Lua's \<open>tonumber\<close>
\<close>

record clockwork =
  k_sha :: "string \<Rightarrow> string"
  k_sha_bytes :: "string \<Rightarrow> string"
  k_digest :: "string \<Rightarrow> string"
  k_iso :: "rat \<Rightarrow> string"
  k_hour :: "rat \<Rightarrow> string" \<comment> \<open>\<open>%Y%m%d%H\<close>\<close>
  k_compact :: "rat \<Rightarrow> string" \<comment> \<open>\<open>%Y%m%dT%H%M%SZ\<close>\<close>
  k_fromiso :: "string \<Rightarrow> rat option"
  k_tonumber :: "string \<Rightarrow> rat option"

type_synonym fields = "(string \<times> string) list"

definition auth_key :: "string \<Rightarrow> string" where "auth_key h = ''auth:key:'' @ h"
definition cred_key :: "string \<Rightarrow> string" where "cred_key c = ''auth:cred:'' @ c"
definition member_key :: "string \<Rightarrow> string" where "member_key m = ''auth:member:'' @ m"
definition KEY_INDEX :: string where "KEY_INDEX = ''auth:key_index''"

text \<open>\<open>h.get(k)\<close> where an absent and an empty value are treated alike, and \<open>h.get(a) or h.get(b)\<close>\<close>

definition text_at :: "fields \<Rightarrow> string \<Rightarrow> string" where
  "text_at h k = (case map_of h k of Some v \<Rightarrow> v | None \<Rightarrow> [])"

definition or_field :: "fields \<Rightarrow> string \<Rightarrow> string \<Rightarrow> string option" where
  "or_field h a b = (if text_at h a \<noteq> [] then map_of h a else map_of h b)"

definition hex_id :: "string \<Rightarrow> bool" where
  "hex_id s \<longleftrightarrow> s \<noteq> [] \<and> length s \<le> 64 \<and> list_all (\<lambda>c. c \<in> set ''0123456789abcdef'') s"

definition opt_text :: "string option \<Rightarrow> pyval" where
  "opt_text v = (case v of Some s \<Rightarrow> PyStr s | None \<Rightarrow> PyNone)"

section \<open>Making a key\<close>

definition build_credential_record ::
  "clockwork \<Rightarrow> relay \<Rightarrow> string \<Rightarrow> string \<Rightarrow> string list \<Rightarrow> rat \<Rightarrow> int option \<Rightarrow> string option \<Rightarrow> string option
     \<Rightarrow> string option \<Rightarrow> string option \<Rightarrow> fields" where
  "build_credential_record X R credential_id device_id scopes now expires_days enrolled_via device_label workspace_id member_id =
     [(''workspace_id'', (case workspace_id of Some w \<Rightarrow> if w = [] then d_workspace (r_dep R) else w | None \<Rightarrow> d_workspace (r_dep R))),
      (''member_id'', (case member_id of Some m \<Rightarrow> if m = [] then d_owner (r_dep R) else m | None \<Rightarrow> d_owner (r_dep R))),
      (''device_id'', device_id), (''credential_id'', credential_id), (''key_id'', credential_id),
      (''scopes'', dumps R (PyList (map PyStr scopes))), (''created_at'', k_iso X now)]
     @ (case expires_days of Some n \<Rightarrow> if n = 0 then [] else [(''expires_at'', k_iso X (now + of_int (n * 86400)))] | None \<Rightarrow> [])
     @ (case enrolled_via of Some t \<Rightarrow> [(''enrolled_via'', t), (''enrolled_at'', k_iso X now)] | None \<Rightarrow> [])
     @ (case device_label of Some l \<Rightarrow> if l = [] then [] else [(''device_label'', l)] | None \<Rightarrow> [])"

definition invalid_scopes :: "string list \<Rightarrow> string list" where
  "invalid_scopes scopes = filter (\<lambda>s. s \<notin> set SCOPES \<and> s \<noteq> ''*'') (remdups scopes)"

definition service_scopes :: "string list \<Rightarrow> string list" where
  "service_scopes scopes = filter (\<lambda>s. s \<in> set SERVICE_ONLY_SCOPES) (remdups scopes)"

text \<open>The transaction that stores a key\<close>

definition store_key_op :: "string \<Rightarrow> string \<Rightarrow> fields \<Rightarrow> int option \<Rightarrow> rat \<Rightarrow> op" where
  "store_key_op key_hash credential_id metadata ttl now =
     Eval (multi ([HSET (auth_key key_hash) metadata, SET (cred_key credential_id) key_hash False None]
       @ (case ttl of Some n \<Rightarrow> if n = 0 then [] else [EXPIRE (auth_key key_hash) n, EXPIRE (cred_key credential_id) n] | None \<Rightarrow> [])
       @ [ZADD KEY_INDEX credential_id now]) [])"

text \<open>
  \<open>create_key\<close>; a set of scopes is printed in the order of the request, and the plaintext and the
  credential id are those the \<open>secrets\<close> module drew.
\<close>

definition create_key ::
  "clockwork \<Rightarrow> relay \<Rightarrow> string \<Rightarrow> string list \<Rightarrow> int option \<Rightarrow> string \<Rightarrow> string \<Rightarrow> rat \<Rightarrow> pydict handler" where
  "create_key X R agent_id scopes expires_days api_key credential_id now =
     (if invalid_scopes scopes \<noteq> [] then
        Ret (Inl (value_error (''Invalid scopes: '' @ ''{'' @ py_join '', '' (map py_repr (invalid_scopes scopes)) @ ''}'')))
      else if service_scopes scopes \<noteq> [] then
        Ret (Inl (value_error (''Scopes '' @ py_repr_list (sort (service_scopes scopes))
          @ '' are service-only: minted exclusively by deploy/bootstrap-keys.sh onto dedicated service credentials, never onto member keys.'')))
      else (let metadata = build_credential_record X R credential_id agent_id scopes now expires_days None None None None in
        ask_op (store_key_op (k_sha X api_key) credential_id metadata (map_option (\<lambda>n. n * 86400) expires_days) now) (\<lambda>_.
          Ret (Inr [(''api_key'', PyStr api_key), (''key_id'', PyStr credential_id), (''credential_id'', PyStr credential_id),
            (''device_id'', PyStr agent_id), (''agent_id'', PyStr agent_id), (''scopes'', PyList (map PyStr scopes)),
            (''created_at'', PyStr (k_iso X now)), (''expires_at'', opt_text (map_of metadata ''expires_at''))]))))"

section \<open>Finding a key by its id\<close>

definition stored_id :: "fields \<Rightarrow> string option" where
  "stored_id data = (if data = [] then None else or_field data ''credential_id'' ''key_id'')"

text \<open>the records among the scanned keys whose own id is the one asked for\<close>

fun verified_records :: "string \<Rightarrow> string list \<Rightarrow> (string \<times> fields) list \<Rightarrow> (string \<times> fields) list handler" where
  "verified_records key_id [] found = Ret (Inr found)"
| "verified_records key_id (k # ks) found =
     redis_call (HGETALL k) (\<lambda>r. verified_records key_id ks
       (if stored_id (reply_pairs r) = Some key_id then found @ [(k, reply_pairs r)] else found))"

text \<open>what \<open>scan_iter\<close> yields is narrowed by its \<open>MATCH\<close> pattern, a literal prefix and a star\<close>

definition matching :: "string \<Rightarrow> string list \<Rightarrow> string list" where
  "matching prefix scanned = filter (\<lambda>k. starts_with k prefix) scanned"

definition mapped_record :: "string \<Rightarrow> (string \<times> fields) option handler" where
  "mapped_record key_id =
     redis_call (GET (cred_key key_id)) (\<lambda>m. case reply_text m of
        Some h \<Rightarrow> if h = [] then Ret (Inr None)
          else redis_call (HGETALL (auth_key h)) (\<lambda>r.
            Ret (Inr (if stored_id (reply_pairs r) = Some key_id then Some (auth_key h, reply_pairs r) else None)))
      | None \<Rightarrow> Ret (Inr None))"

definition resolve_key_id :: "string list \<Rightarrow> string \<Rightarrow> (string \<times> fields) list handler" where
  "resolve_key_id scanned key_id =
     (if \<not> hex_id key_id then Ret (Inr [])
      else and_then (mapped_record key_id) (\<lambda>m. case m of
        Some found \<Rightarrow> Ret (Inr [found])
      | None \<Rightarrow> verified_records key_id (matching (auth_key key_id) scanned) []))"

text \<open>
  what an operation on one key ends with: whether it found the key, or the records that all claim the
  id (\<open>AmbiguousKeyIdError\<close>), of which it then touches none
\<close>

datatype by_id = Found bool | Ambiguous "string list"

definition ambiguous_text :: "string \<Rightarrow> string list \<Rightarrow> string" where
  "ambiguous_text key_id matches =
     ''key_id '' @ py_repr key_id @ '' matches '' @ str_of_nat (length matches) @ '' stored records; refusing to guess''"

text \<open>\<open>json.loads(data.get("scopes", "[]"))\<close> and the row shown of one record\<close>

definition key_row :: "relay \<Rightarrow> bool \<Rightarrow> fields \<Rightarrow> pyval handler" where
  "key_row R ambiguous data =
     (case map_of data ''key_id'' of None \<Rightarrow> Ret (Inl (HandsError ''KeyError'' (py_repr ''key_id'')))
      | Some kid \<Rightarrow> loaded R (case map_of data ''scopes'' of Some s \<Rightarrow> s | None \<Rightarrow> ''[]'') (\<lambda>scopes.
          Ret (Inr (PyDict [(''key_id'', PyStr kid),
            (''credential_id'', PyStr (case map_of data ''credential_id'' of Some c \<Rightarrow> c | None \<Rightarrow> kid)),
            (''device_id'', PyStr (case map_of data ''device_id'' of Some d \<Rightarrow> d
              | None \<Rightarrow> (case map_of data ''agent_id'' of Some a \<Rightarrow> a | None \<Rightarrow> ''unknown''))),
            (''device_label'', opt_text (map_of data ''device_label'')), (''scopes'', scopes),
            (''created_at'', opt_text (map_of data ''created_at'')), (''expires_at'', opt_text (map_of data ''expires_at'')),
            (''enrolled_via'', opt_text (map_of data ''enrolled_via'')), (''ambiguous'', PyBool ambiguous)]))))"

text \<open>\<open>scans kid\<close>: what the scan for the id yields\<close>

definition list_keys :: "relay \<Rightarrow> (string \<Rightarrow> string list) \<Rightarrow> int \<Rightarrow> pyval list handler" where
  "list_keys R scans limit =
     redis_call (ZREVRANGE KEY_INDEX 0 (limit - 1)) (\<lambda>r.
       for_each (reply_texts r) (\<lambda>kid rows.
         and_then (resolve_key_id (scans kid) kid) (\<lambda>matches.
           for_each matches (\<lambda>m rows. and_then (key_row R (1 < length matches) (snd m)) (\<lambda>row. Ret (Inr (rows @ [row])))) rows)) [])"

section \<open>Revoking and renaming\<close>

definition revoke_op :: "string \<Rightarrow> string \<Rightarrow> string \<Rightarrow> op" where
  "revoke_op redis_key credential_id key_id =
     Eval (multi [DEL redis_key, DEL (cred_key credential_id), ZREM KEY_INDEX [key_id]] [])"

definition revoke_key :: "string list \<Rightarrow> string \<Rightarrow> by_id handler" where
  "revoke_key scanned key_id =
     and_then (resolve_key_id scanned key_id) (\<lambda>matches. case matches of
        [] \<Rightarrow> Ret (Inr (Found False))
      | [(redis_key, data)] \<Rightarrow>
          ask_op (revoke_op redis_key
            (case or_field data ''credential_id'' ''key_id'' of Some c \<Rightarrow> if c = [] then key_id else c | None \<Rightarrow> key_id) key_id)
            (\<lambda>_. Ret (Inr (Found True)))
      | _ \<Rightarrow> Ret (Inr (Ambiguous (map fst matches))))"

definition rename_device :: "string list \<Rightarrow> string \<Rightarrow> string \<Rightarrow> by_id handler" where
  "rename_device scanned credential_id label =
     and_then (resolve_key_id scanned credential_id) (\<lambda>matches. case matches of
        [] \<Rightarrow> Ret (Inr (Found False))
      | [(redis_key, data)] \<Rightarrow> redis_call (HSET redis_key [(''device_label'', label)]) (\<lambda>_. Ret (Inr (Found True)))
      | _ \<Rightarrow> Ret (Inr (Ambiguous (map fst matches))))"

section \<open>Whose device it is\<close>

abbreviation ambiguous_device :: "string \<Rightarrow> py_exc" where
  "ambiguous_device m \<equiv> HandsError ''AmbiguousDeviceAttributionError'' m"

text \<open>the records of one indexed credential: the mapped one alone, else those the scan yields\<close>

definition credential_records :: "string list \<Rightarrow> string \<Rightarrow> fields list handler" where
  "credential_records scanned credential_id =
     redis_call (GET (cred_key credential_id)) (\<lambda>m.
       for_each (case reply_text m of Some h \<Rightarrow> if h = [] then scanned else [auth_key h] | None \<Rightarrow> scanned)
         (\<lambda>k found. redis_call (HGETALL k) (\<lambda>r. Ret (Inr (found @ [reply_pairs r])))) [])"

text \<open>the principals the records of a device name\<close>

fun device_principals :: "string \<Rightarrow> fields list \<Rightarrow> (string \<times> string) list \<Rightarrow> py_exc + (string \<times> string) list" where
  "device_principals device_id [] acc = Inr acc"
| "device_principals device_id (data # rest) acc =
     (if data = [] \<or> map_of data ''device_id'' \<noteq> Some device_id then device_principals device_id rest acc
      else if text_at data ''workspace_id'' = [] \<or> text_at data ''member_id'' = [] then
        Inl (ambiguous_device (''device '' @ device_id
          @ '' has a credential with no recorded member; run deploy/bootstrap-keys.sh to attribute legacy credentials''))
      else device_principals device_id rest (List.insert (text_at data ''workspace_id'', text_at data ''member_id'') acc))"

definition resolve_device_attribution :: "(string \<Rightarrow> string list) \<Rightarrow> string \<Rightarrow> (string \<times> string) option handler" where
  "resolve_device_attribution scans device_id =
     (if \<not> hex_id device_id then Ret (Inr None)
      else redis_call (ZRANGE KEY_INDEX 0 (- 1)) (\<lambda>r.
        and_then (for_each (reply_texts r) (\<lambda>cid acc.
            and_then (credential_records (scans cid) cid) (\<lambda>records. Ret (device_principals device_id records acc))) [])
          (\<lambda>principals. case principals of
             [] \<Rightarrow> Ret (Inr None)
           | [p] \<Rightarrow> Ret (Inr (Some p))
           | _ \<Rightarrow> Ret (Inl (ambiguous_device (''device '' @ device_id @ '' has credentials belonging to more than one member (''
               @ py_join '', '' (sort (map snd principals)) @ ''); revoke the wrong ones before regenerating''))))))"

end
