(* ===== verification/Auth_Gate.thy ===== *)
theory Auth_Gate
  imports Auth_Keys
begin

text \<open>
  Who a request comes from: the check of a key against its record and its member (\<open>_check_record\<close> of
  \<open>auth/keys.py\<close>), the gate in front of every service (\<open>auth/asgi.py\<close>), the scope dependencies of the
  REST routes (\<open>auth/middleware.py\<close>), and what a service may say of the member it writes for
  (\<open>auth/principal.py\<close>).
\<close>

section \<open>Reading a record\<close>

text \<open>the expiry of a record, and why it refuses now\<close>

definition expiry_refusal :: "clockwork \<Rightarrow> rat \<Rightarrow> fields \<Rightarrow> string option" where
  "expiry_refusal X now data =
     (let e = text_at data ''expires_at'' in
      if e = [] then None
      else (case k_fromiso X e of
        None \<Rightarrow> Some (''API key has an unreadable expiry ('' @ py_repr e @ ''); refused rather than treated as never-expiring'')
      | Some t \<Rightarrow> if t < now then Some (''API key expired at '' @ e) else None))"

fun all_strings :: "pyval list \<Rightarrow> string list option" where
  "all_strings [] = Some []"
| "all_strings (PyStr s # vs) = map_option ((#) s) (all_strings vs)"
| "all_strings (v # vs) = None"

text \<open>the stored scopes this version knows; \<open>None\<close> for a document that is no list of strings\<close>

definition parse_scopes :: "relay \<Rightarrow> string option \<Rightarrow> string list option" where
  "parse_scopes R raw =
     (case loads R (case raw of Some s \<Rightarrow> s | None \<Rightarrow> ''[]'') of
        Some (PyList vs) \<Rightarrow> map_option (filter (\<lambda>s. s \<in> set SCOPES \<or> s = ''*'')) (all_strings vs)
      | _ \<Rightarrow> None)"

definition unattributed :: "fields \<Rightarrow> bool" where
  "unattributed data \<longleftrightarrow> text_at data ''workspace_id'' = [] \<or> text_at data ''member_id'' = [] \<or> text_at data ''credential_id'' = []"

definition member_active :: "fields \<Rightarrow> string \<Rightarrow> string \<Rightarrow> bool" where
  "member_active member member_id workspace_id \<longleftrightarrow> member \<noteq> [] \<and> map_of member ''member_id'' = Some member_id
     \<and> map_of member ''workspace_id'' = Some workspace_id \<and> map_of member ''status'' = Some ''active''"

text \<open>an enrolled credential has the scopes of today beside those it was minted with\<close>

definition effective_scopes :: "fields \<Rightarrow> string list \<Rightarrow> string list" where
  "effective_scopes data scopes =
     (if text_at data ''enrolled_via'' \<noteq> [] then sort (remdups (scopes @ ENROLLABLE_SCOPES)) else scopes)"

definition identity :: "fields \<Rightarrow> string list \<Rightarrow> pydict" where
  "identity data scopes =
     [(''workspace_id'', PyStr (text_at data ''workspace_id'')), (''member_id'', PyStr (text_at data ''member_id'')),
      (''credential_id'', PyStr (text_at data ''credential_id'')),
      (''scopes'', PyList (map PyStr (effective_scopes data scopes))), (''authenticated'', PyBool True)]"

text \<open>an identity, or why there is none; neither where there is no record\<close>

definition check_record :: "clockwork \<Rightarrow> relay \<Rightarrow> rat \<Rightarrow> string \<Rightarrow> (pydict option \<times> string option) handler" where
  "check_record X R now key_hash =
     redis_call (HGETALL (auth_key key_hash)) (\<lambda>r. let data = reply_pairs r in
       if data = [] then Ret (Inr (None, None))
       else (case expiry_refusal X now data of Some m \<Rightarrow> Ret (Inr (None, Some m)) | None \<Rightarrow>
         if unattributed data then
           Ret (Inr (None, Some ''API key record has no recorded member/workspace/credential id; it is refused rather than assumed to be the owner's. Run deploy/bootstrap-keys.sh (or restart cortex-api) to attribute legacy credentials to the deployment owner''))
         else if text_at data ''workspace_id'' \<noteq> d_workspace (r_dep R) then Ret (Inr (None, Some ''API key belongs to another workspace''))
         else redis_call (HGETALL (member_key (text_at data ''member_id''))) (\<lambda>r'.
           if \<not> member_active (reply_pairs r') (text_at data ''member_id'') (text_at data ''workspace_id'') then
             Ret (Inr (None, Some (''API key's member '' @ text_at data ''member_id'' @ '' is not active in this workspace'')))
           else (case parse_scopes R (map_of data ''scopes'') of
              None \<Rightarrow> Ret (Inr (None, Some ''API key has a malformed scope document; refused''))
            | Some scopes \<Rightarrow> Ret (Inr (Some (identity data scopes), None))))))"

definition validate_key_by_hash :: "clockwork \<Rightarrow> relay \<Rightarrow> rat \<Rightarrow> string \<Rightarrow> pydict option handler" where
  "validate_key_by_hash X R now key_hash = and_then (check_record X R now key_hash) (\<lambda>r. Ret (Inr (fst r)))"

definition validate_key :: "clockwork \<Rightarrow> relay \<Rightarrow> rat \<Rightarrow> string \<Rightarrow> pydict option handler" where
  "validate_key X R now api_key = validate_key_by_hash X R now (k_sha X api_key)"

definition invalid_credential_detail :: "clockwork \<Rightarrow> relay \<Rightarrow> rat \<Rightarrow> string \<Rightarrow> string handler" where
  "invalid_credential_detail X R now api_key = and_then (check_record X R now (k_sha X api_key)) (\<lambda>r.
     Ret (Inr (case snd r of Some m \<Rightarrow> if m = [] then ''Unknown API key'' else m | None \<Rightarrow> ''Unknown API key'')))"

section \<open>The gate of a service\<close>

text \<open>\<open>FirekeepKeyAuthMiddleware\<close> and what it does with a request\<close>

record gate =
  g_enabled :: bool
  g_skip_paths :: "string list"
  g_skip_exact :: "string list"

record arrival =
  w_http :: bool \<comment> \<open>\<open>scope["type"] == "http"\<close>\<close>
  w_path :: string
  w_key :: string \<comment> \<open>the X-API-Key header, empty where it is absent\<close>
  w_now :: rat
  w_later :: rat \<comment> \<open>the clock at the second reading of the record\<close>

text \<open>the application runs, with the identity attached to the request's state if one was; or a response\<close>

datatype verdict = Pass "pydict option" | Reject int string

text \<open>two hyphens stand for the em dash of the text\<close>

definition middleware :: "clockwork \<Rightarrow> relay \<Rightarrow> gate \<Rightarrow> arrival \<Rightarrow> verdict handler" where
  "middleware X R G a =
     (if \<not> w_http a \<or> \<not> g_enabled G then Ret (Inr (Pass None))
      else if w_path a \<in> set (g_skip_exact G) then Ret (Inr (Pass None))
      else if list_ex (starts_with (w_path a)) (g_skip_paths G) then Ret (Inr (Pass None))
      else if w_key a = [] then Ret (Inr (Reject 401 ''Missing X-API-Key header''))
      else catching
        (and_then (validate_key X R (w_now a) (w_key a)) (\<lambda>ident. case ident of
             Some d \<Rightarrow> Ret (Inr (Pass (Some d)))
           | None \<Rightarrow> and_then (invalid_credential_detail X R (w_later a) (w_key a)) (\<lambda>m.
               Ret (Inr (Reject 401 (if m = [] then ''Unknown API key'' else m))))))
        (\<lambda>e. Ret (Inr (Reject 503 ''Auth key store unreachable -- failing closed. Check Redis DB 7.''))))"

text \<open>\<open>build_auth_middleware\<close>: no gate at all where authentication is off\<close>

definition build_auth_middleware :: "bool \<Rightarrow> string list \<Rightarrow> gate option" where
  "build_auth_middleware enabled skip_paths =
     (if \<not> enabled then None else Some \<lparr>g_enabled = True, g_skip_paths = skip_paths, g_skip_exact = []\<rparr>)"

definition default_skip_paths :: "string list" where "default_skip_paths = [''/health'']"

section \<open>The scope dependencies\<close>

text \<open>the principal of a deployment without authentication\<close>

definition anonymous_principal :: "relay \<Rightarrow> pydict" where
  "anonymous_principal R =
     [(''workspace_id'', PyStr (d_workspace (r_dep R))), (''member_id'', PyStr (d_owner (r_dep R))),
      (''credential_id'', PyStr ''anonymous''), (''scopes'', PyList (map PyStr ANONYMOUS_SCOPES)), (''authenticated'', PyBool False)]"

text \<open>the principal of a request with the identity the gate attached\<close>

definition principal_from_scope :: "relay \<Rightarrow> pydict option \<Rightarrow> py_exc + pydict" where
  "principal_from_scope R ident =
     (case ident of Some d \<Rightarrow> Inr d
      | None \<Rightarrow> if \<not> d_auth (r_dep R) then Inr (anonymous_principal R)
          else Inl (OtherError ''No verified principal attached while authentication is enabled''))"

text \<open>an \<open>HTTPException\<close> or the identity; a store that fails is an exception of another kind\<close>

type_synonym admitted = "(int \<times> string) + pydict"

definition key_scopes :: "pydict \<Rightarrow> pyval list" where
  "key_scopes ident = scope_values (case map_of ident ''scopes'' of Some v \<Rightarrow> v | None \<Rightarrow> PyList [])"

definition require_scope :: "clockwork \<Rightarrow> relay \<Rightarrow> string \<Rightarrow> arrival \<Rightarrow> admitted handler" where
  "require_scope X R scope a =
     (if \<not> d_auth (r_dep R) then
        Ret (Inr (if \<not> scopes_allow (map PyStr ANONYMOUS_SCOPES) scope False then Inl (403, anonymous_denied_detail scope)
          else Inr (anonymous_principal R)))
      else if w_key a = [] then Ret (Inr (Inl (401, ''Missing X-API-Key header'')))
      else and_then (validate_key X R (w_now a) (w_key a)) (\<lambda>ident. case ident of
        None \<Rightarrow> and_then (invalid_credential_detail X R (w_later a) (w_key a)) (\<lambda>m. Ret (Inr (Inl (401, m))))
      | Some d \<Rightarrow> Ret (Inr (if \<not> scopes_allow (key_scopes d) scope True then
            Inl (403, ''Insufficient scope: requires '' @ [CHR 0x27] @ scope @ [CHR 0x27] @ '', key has '' @ repr_val (r_print R) (PyList (key_scopes d)))
          else Inr d))))"

definition require_any_scope :: "clockwork \<Rightarrow> relay \<Rightarrow> string list \<Rightarrow> arrival \<Rightarrow> admitted handler" where
  "require_any_scope X R scopes a =
     (if scopes = [] then Ret (Inl (value_error ''require_any_scope needs at least one scope''))
      else if \<not> d_auth (r_dep R) then
        Ret (Inr (if \<not> list_ex (\<lambda>s. scopes_allow (map PyStr ANONYMOUS_SCOPES) s False) scopes then Inl (403, anonymous_denied_detail (hd scopes))
          else Inr (anonymous_principal R)))
      else if w_key a = [] then Ret (Inr (Inl (401, ''Missing X-API-Key header'')))
      else and_then (validate_key X R (w_now a) (w_key a)) (\<lambda>ident. case ident of
        None \<Rightarrow> and_then (invalid_credential_detail X R (w_later a) (w_key a)) (\<lambda>m. Ret (Inr (Inl (401, m))))
      | Some d \<Rightarrow> Ret (Inr (if \<not> list_ex (\<lambda>s. scopes_allow (key_scopes d) s True) scopes then
            Inl (403, ''Insufficient scope: requires one of '' @ py_repr_list scopes @ '', key has '' @ repr_val (r_print R) (PyList (key_scopes d)))
          else Inr d))))"

section \<open>Writing for a member\<close>

definition owns_session :: "relay \<Rightarrow> string option \<Rightarrow> string option \<Rightarrow> string option \<Rightarrow> string option \<Rightarrow> bool" where
  "owns_session R owner_member owner_workspace member_id workspace_id =
     (if member_id = None \<or> member_id = Some [] then False
      else if owner_member \<noteq> None \<and> owner_member \<noteq> Some [] then
        (if owner_member \<noteq> member_id then False
         else owner_workspace = None \<or> owner_workspace = Some [] \<or> owner_workspace = workspace_id)
      else member_id = Some (d_owner (r_dep R)) \<and> workspace_id = Some (d_workspace (r_dep R)))"

definition runtime_id_for :: "clockwork \<Rightarrow> string \<Rightarrow> string \<Rightarrow> string" where
  "runtime_id_for X credential_id runtime_label =
     (if credential_id = [] then []
      else ''runtime-'' @ take 24 (k_sha X (credential_id @ [CHR 0x00] @ runtime_label)))"

text \<open>the headers of a request that describe its author, as they arrive\<close>

record labels =
  l_agent :: string
  l_session :: string
  l_member :: string \<comment> \<open>X-Firekeep-Delegated-Member-Id\<close>
  l_credential :: string \<comment> \<open>X-Firekeep-Delegated-Credential-Id\<close>

definition or_unknown :: "string \<Rightarrow> string" where
  "or_unknown s = (if py_strip s = [] then ''unknown'' else py_strip s)"

definition attribution :: "clockwork \<Rightarrow> labels \<Rightarrow> pyval \<Rightarrow> pyval \<Rightarrow> string \<Rightarrow> pyval \<Rightarrow> pydict" where
  "attribution X L workspace_id member_id credential_id delegated_by =
     [(''workspace_id'', workspace_id), (''member_id'', member_id), (''credential_id'', PyStr credential_id),
      (''runtime_label'', PyStr (or_unknown (l_agent L))),
      (''runtime_id'', PyStr (runtime_id_for X credential_id (or_unknown (l_agent L)))),
      (''session_id'', PyStr (or_unknown (l_session L))), (''delegated_by_credential_id'', delegated_by)]"

text \<open>a key a dictionary lacks is a \<open>KeyError\<close>\<close>

definition request_attribution :: "clockwork \<Rightarrow> relay \<Rightarrow> labels \<Rightarrow> pydict option \<Rightarrow> py_exc + pydict" where
  "request_attribution X R L ident = bindR (principal_from_scope R ident) (\<lambda>p.
     case (map_of p ''workspace_id'', map_of p ''member_id'') of
       (Some w, Some m) \<Rightarrow> Inr (attribution X L w m (str_or (r_print R) (get_val p ''credential_id'') []) PyNone)
     | (None, _) \<Rightarrow> Inl (HandsError ''KeyError'' (py_repr ''workspace_id''))
     | _ \<Rightarrow> Inl (HandsError ''KeyError'' (py_repr ''member_id'')))"

definition has_delegated_attribution_headers :: "labels \<Rightarrow> bool" where
  "has_delegated_attribution_headers L \<longleftrightarrow> py_strip (l_member L) \<noteq> [] \<or> py_strip (l_credential L) \<noteq> []"

definition DELEGATED_WRITE_SCOPE :: string where "DELEGATED_WRITE_SCOPE = ''memory:write:delegated''"

abbreviation delegated_error :: "string \<Rightarrow> 'a handler" where
  "delegated_error m \<equiv> Ret (Inl (HandsError ''DelegatedAttributionError'' m))"

definition member_id_ok :: "string \<Rightarrow> bool" where
  "member_id_ok s \<longleftrightarrow> s \<noteq> [] \<and> length s \<le> 128 \<and> list_all id_char s"

text \<open>the credential a service names, where it still resolves; one of another member is an error\<close>

definition delegated_credential :: "clockwork \<Rightarrow> relay \<Rightarrow> rat \<Rightarrow> string \<Rightarrow> string \<Rightarrow> string \<Rightarrow> string handler" where
  "delegated_credential X R now workspace_id member_id credential_id =
     (if credential_id = [] then Ret (Inr [])
      else redis_call (GET (cred_key credential_id)) (\<lambda>r.
        and_then (case reply_text r of Some h \<Rightarrow> if h = [] then Ret (Inr None) else validate_key_by_hash X R now h | None \<Rightarrow> Ret (Inr None))
          (\<lambda>ident. case ident of
             Some d \<Rightarrow> if get_val d ''credential_id'' = PyStr credential_id then
                 (if get_val d ''member_id'' \<noteq> PyStr member_id \<or> get_val d ''workspace_id'' \<noteq> PyStr workspace_id
                  then delegated_error ''delegated credential belongs to another member''
                  else Ret (Inr credential_id))
               else Ret (Inr [])
           | None \<Rightarrow> Ret (Inr []))))"

definition delegated_attribution :: "clockwork \<Rightarrow> relay \<Rightarrow> rat \<Rightarrow> labels \<Rightarrow> pydict \<Rightarrow> pydict handler" where
  "delegated_attribution X R now L service =
     (let member_id = py_strip (l_member L); credential_id = py_strip (l_credential L);
          workspace_id = str_or (r_print R) (get_val service ''workspace_id'') [] in
      if PyStr DELEGATED_WRITE_SCOPE \<notin> set (scope_values (get_val service ''scopes'')) then
        delegated_error ''service key lacks memory:write:delegated''
      else if \<not> member_id_ok member_id then delegated_error ''delegated member missing or malformed''
      else if credential_id \<noteq> [] \<and> \<not> hex_id credential_id then delegated_error ''delegated credential malformed''
      else if workspace_id = [] then delegated_error ''service key has no workspace''
      else redis_call (HGETALL (member_key member_id)) (\<lambda>r. let member = reply_pairs r in
        if member = [] then delegated_error ''delegated member unknown''
        else if (if text_at member ''workspace_id'' = [] then d_workspace (r_dep R) else text_at member ''workspace_id'') \<noteq> workspace_id
          then delegated_error ''delegated member is in another workspace''
        else if text_at member ''status'' \<notin> {[], ''active''} then delegated_error ''delegated member is not active''
        else and_then (delegated_credential X R now workspace_id member_id credential_id) (\<lambda>verified.
          Ret (Inr (attribution X L (PyStr workspace_id) (PyStr member_id) verified
            (PyStr (str_or (r_print R) (get_val service ''credential_id'') [])))))))"

end
