(* ===== verification/Auth_Members.thy ===== *)
theory Auth_Members
  imports Auth_Gate
begin

text \<open>
  The workspace, its members and the credentials that name them: the owner's rows and the migrations
  of old credentials (\<open>auth/workspace.py\<close>), and the removal and return of a member
  (\<open>auth/members.py\<close>).
\<close>

section \<open>The workspace\<close>

definition WORKSPACE_KEY :: string where "WORKSPACE_KEY = ''auth:workspace:current''"
definition MEMBER_INDEX :: string where "MEMBER_INDEX = ''auth:member_index''"
definition CREDENTIAL_MIGRATION_KEY :: string where "CREDENTIAL_MIGRATION_KEY = ''auth:migration:workspace_credentials''"

abbreviation migration_error :: "string \<Rightarrow> 'a handler" where
  "migration_error m \<equiv> Ret (Inl (HandsError ''WorkspaceMigrationError'' m))"

definition same_or_absent :: "fields \<Rightarrow> string \<Rightarrow> string \<Rightarrow> bool" where
  "same_or_absent h k v \<longleftrightarrow> map_of h k = None \<or> map_of h k = Some v"

definition owner_row_fits :: "relay \<Rightarrow> fields \<Rightarrow> bool" where
  "owner_row_fits R owner \<longleftrightarrow> same_or_absent owner ''member_id'' (d_owner (r_dep R))
     \<and> same_or_absent owner ''workspace_id'' (d_workspace (r_dep R)) \<and> same_or_absent owner ''role'' ''owner''
     \<and> same_or_absent owner ''status'' ''active''"

definition ensure_op :: "clockwork \<Rightarrow> relay \<Rightarrow> rat \<Rightarrow> rat \<Rightarrow> bool \<Rightarrow> op" where
  "ensure_op X R now later existing =
     (let w = d_workspace (r_dep R); m = d_owner (r_dep R); k = member_key m in
      Eval (multi ((if existing then [] else [HSET WORKSPACE_KEY [(''workspace_id'', w), (''owner_member_id'', m), (''created_at'', k_iso X now)]])
        @ [HSETNX k ''member_id'' m, HSETNX k ''workspace_id'' w, HSETNX k ''role'' ''owner'', HSETNX k ''status'' ''active'',
           HSETNX k ''created_at'' (k_iso X now), ZADDNX MEMBER_INDEX m later]) []))"

definition ensure_workspace :: "clockwork \<Rightarrow> relay \<Rightarrow> rat \<Rightarrow> rat \<Rightarrow> (string \<times> string) handler" where
  "ensure_workspace X R now later =
     redis_call (HGETALL WORKSPACE_KEY) (\<lambda>r. let existing = reply_pairs r in
       if existing \<noteq> [] \<and> (map_of existing ''workspace_id'' \<noteq> Some (d_workspace (r_dep R))
            \<or> map_of existing ''owner_member_id'' \<noteq> Some (d_owner (r_dep R)))
       then migration_error ''FIREKEEP_WORKSPACE_ID/FIREKEEP_OWNER_MEMBER_ID do not match the workspace already stored in Redis DB 7''
       else redis_call (HGETALL (member_key (d_owner (r_dep R)))) (\<lambda>r'. let owner = reply_pairs r' in
         if owner \<noteq> [] \<and> \<not> owner_row_fits R owner then migration_error ''the stored owner member does not match the deployment workspace''
         else ask_op (ensure_op X R now later (existing \<noteq> [])) (\<lambda>_. Ret (Inr (d_workspace (r_dep R), d_owner (r_dep R))))))"

section \<open>Old credentials\<close>

definition hex_char_ok :: "char \<Rightarrow> bool" where
  "hex_char_ok c \<longleftrightarrow> c \<in> set ''0123456789abcdef''"

text \<open>\<open>^auth:key:[0-9a-f]{64}$\<close>, and the other patterns of a prefix and a number of hex digits\<close>

definition prefixed_hex :: "string \<Rightarrow> nat \<Rightarrow> string \<Rightarrow> bool" where
  "prefixed_hex p n k \<longleftrightarrow> starts_with k p \<and> length k = length p + n \<and> list_all hex_char_ok (drop (length p) k)"

definition record_key_ok :: "string \<Rightarrow> bool" where
  "record_key_ok = prefixed_hex ''auth:key:'' 64"

text \<open>\<open>s.removeprefix(p)\<close>\<close>

definition after_prefix :: "string \<Rightarrow> string \<Rightarrow> string" where
  "after_prefix p s = (if starts_with s p then drop (length p) s else s)"

text \<open>\<open>data.get(a) or data.get(b) or c\<close>\<close>

definition id_or :: "fields \<Rightarrow> string \<Rightarrow> string \<Rightarrow> string \<Rightarrow> string" where
  "id_or data a b c = (if text_at data a \<noteq> [] then text_at data a else if text_at data b \<noteq> [] then text_at data b else c)"

definition unowned_changes :: "relay \<Rightarrow> fields \<Rightarrow> string \<Rightarrow> fields" where
  "unowned_changes R data credential_id =
     (if text_at data ''workspace_id'' = [] then [(''workspace_id'', d_workspace (r_dep R))] else [])
     @ (if text_at data ''member_id'' = [] then [(''member_id'', d_owner (r_dep R))] else [])
     @ (if text_at data ''credential_id'' = [] then [(''credential_id'', credential_id)] else [])
     @ (if text_at data ''key_id'' = [] then [(''key_id'', credential_id)] else [])"

definition attribute_one :: "relay \<Rightarrow> rat \<Rightarrow> string \<Rightarrow> string list \<Rightarrow> string list handler" where
  "attribute_one R now key attributed =
     (if \<not> record_key_ok key then Ret (Inr attributed)
      else redis_call (HGETALL key) (\<lambda>r. let data = reply_pairs r in
        if data = [] then Ret (Inr attributed)
        else (let credential_id = id_or data ''credential_id'' ''key_id'' (take 16 (after_prefix ''auth:key:'' key));
                  changes = unowned_changes R data credential_id in
          redis_call (ZSCORE KEY_INDEX credential_id) (\<lambda>score.
            if changes = [] \<and> score \<noteq> RNil then Ret (Inr attributed)
            else ask_op (Eval (multi ((if changes = [] then [] else [HSET key changes])
                @ (if score \<noteq> RNil then [] else [ZADDNX KEY_INDEX credential_id now])) []))
              (\<lambda>_. Ret (Inr (attributed @ [credential_id])))))))"

definition attribute_unowned_credentials :: "relay \<Rightarrow> string list \<Rightarrow> rat \<Rightarrow> string list handler" where
  "attribute_unowned_credentials R scanned now = for_each scanned (attribute_one R now) []"

text \<open>an id of the index may hold characters a pattern gives a meaning, so only the literal prefix narrows here\<close>

definition credential_matches :: "string list \<Rightarrow> string \<Rightarrow> (string \<times> fields) list handler" where
  "credential_matches scanned credential_id =
     and_then (mapped_record credential_id) (\<lambda>m. case m of
        Some found \<Rightarrow> Ret (Inr [found]) | None \<Rightarrow> verified_records credential_id (matching (auth_key []) scanned) [])"

definition backfill_changes :: "relay \<Rightarrow> fields \<Rightarrow> string \<Rightarrow> fields" where
  "backfill_changes R data credential_id =
     [(''workspace_id'', id_or data ''workspace_id'' ''workspace_id'' (d_workspace (r_dep R))),
      (''member_id'', id_or data ''member_id'' ''member_id'' (d_owner (r_dep R))),
      (''credential_id'', id_or data ''credential_id'' ''credential_id'' credential_id),
      (''key_id'', id_or data ''key_id'' ''key_id'' credential_id),
      (''device_id'', id_or data ''device_id'' ''agent_id'' credential_id)]"

definition backfill_one :: "relay \<Rightarrow> (string \<Rightarrow> string list) \<Rightarrow> string \<Rightarrow> int \<Rightarrow> int handler" where
  "backfill_one R scans credential_id updated =
     and_then (credential_matches (scans credential_id) credential_id) (\<lambda>matches. case matches of
        [(key, data)] \<Rightarrow>
          (let changes = backfill_changes R data credential_id in
           if map_of changes ''workspace_id'' \<noteq> Some (d_workspace (r_dep R)) then
             migration_error (''credential '' @ credential_id @ '' belongs to another workspace'')
           else redis_call (TTL key) (\<lambda>ttl.
             ask_op (Eval (multi ([HSET key changes, HDEL key [''agent_id''],
                 SET (cred_key credential_id) (after_prefix ''auth:key:'' key) False None]
               @ (if 0 < reply_int ttl then [EXPIRE (cred_key credential_id) (reply_int ttl)] else [])) []))
               (\<lambda>_. Ret (Inr (updated + 1)))))
      | _ \<Rightarrow> migration_error (''credential '' @ credential_id @ '' resolves to '' @ str_of_nat (length matches)
          @ '' records; workspace migration refuses to guess''))"

definition backfill_credentials :: "relay \<Rightarrow> (string \<Rightarrow> string list) \<Rightarrow> int handler" where
  "backfill_credentials R scans =
     redis_call (ZRANGE KEY_INDEX 0 (- 1)) (\<lambda>ids.
       and_then (for_each (reply_texts ids) (backfill_one R scans) 0) (\<lambda>updated.
         redis_call (SET CREDENTIAL_MIGRATION_KEY
             (''complete:'' @ d_workspace (r_dep R) @ '':'' @ str_of_nat (length (reply_texts ids))) False None)
           (\<lambda>_. Ret (Inr updated))))"

section \<open>Removing a member\<close>

definition TICKET_PREFIX :: string where "TICKET_PREFIX = ''auth:enroll:''"
definition TICKET_INDEX :: string where "TICKET_INDEX = ''auth:enroll:index''"
definition INVITE_PREFIX :: string where "INVITE_PREFIX = ''auth:member_invite:''"
definition INVITE_INDEX :: string where "INVITE_INDEX = ''auth:member_invite_index''"
definition STATUS_ACTIVE :: string where "STATUS_ACTIVE = ''active''"
definition STATUS_REMOVED :: string where "STATUS_REMOVED = ''removed''"

text \<open>\<open>MemberRemovalError\<close> with its status\<close>

abbreviation removal_error :: "string \<Rightarrow> string \<Rightarrow> 'a handler" where
  "removal_error status m \<equiv> Ret (Inl (HandsError (''MemberRemovalError '' @ status) m))"

definition stored_scopes :: "relay \<Rightarrow> string option \<Rightarrow> string list" where
  "stored_scopes R raw = (case loads R (case raw of Some s \<Rightarrow> if s = [] then ''[]'' else s | None \<Rightarrow> ''[]'') of
     Some (PyList vs) \<Rightarrow> concat (map (\<lambda>v. case v of PyStr s \<Rightarrow> [s] | _ \<Rightarrow> []) vs) | _ \<Rightarrow> [])"

definition load_member :: "string \<Rightarrow> string \<Rightarrow> fields handler" where
  "load_member member_id workspace_id =
     (let missing = removal_error ''404'' (''member '' @ member_id @ '' not found in this workspace'') in
      if \<not> member_id_ok member_id then missing
      else redis_call (HGETALL (member_key member_id)) (\<lambda>r.
        if reply_pairs r = [] \<or> map_of (reply_pairs r) ''workspace_id'' \<noteq> Some workspace_id then missing
        else Ret (Inr (reply_pairs r))))"

definition member_credentials :: "string list \<Rightarrow> string \<Rightarrow> (string \<times> fields) list handler" where
  "member_credentials scanned member_id =
     for_each scanned (\<lambda>key found.
       if \<not> record_key_ok key then Ret (Inr found)
       else redis_call (HGETALL key) (\<lambda>r. Ret (Inr (if map_of (reply_pairs r) ''member_id'' = Some member_id
         then found @ [(key, reply_pairs r)] else found)))) []"

definition owner_holders :: "string \<Rightarrow> string list handler" where
  "owner_holders workspace_id =
     redis_call (ZRANGE MEMBER_INDEX 0 (- 1)) (\<lambda>ids.
       for_each (reply_texts ids) (\<lambda>m holders.
         redis_call (HGETALL (member_key m)) (\<lambda>r. Ret (Inr
           (if map_of (reply_pairs r) ''workspace_id'' = Some workspace_id \<and> map_of (reply_pairs r) ''status'' = Some STATUS_ACTIVE
              \<and> map_of (reply_pairs r) ''role'' = Some ''owner'' then holders @ [m] else holders)))) [])"

definition key_holders :: "relay \<Rightarrow> string list \<Rightarrow> string \<Rightarrow> string list \<Rightarrow> string list handler" where
  "key_holders R scanned workspace_id =
     for_each scanned (\<lambda>key holders.
       if \<not> record_key_ok key then Ret (Inr holders)
       else redis_call (HGETALL key) (\<lambda>r. let data = reply_pairs r; m = text_at data ''member_id'' in
         if m = [] \<or> map_of data ''workspace_id'' \<noteq> Some workspace_id then Ret (Inr holders)
         else if ''admin'' \<notin> set (stored_scopes R (map_of data ''scopes'')) \<and> ''*'' \<notin> set (stored_scopes R (map_of data ''scopes''))
           then Ret (Inr holders)
         else redis_call (HGETALL (member_key m)) (\<lambda>r'. Ret (Inr
           (if map_of (reply_pairs r') ''status'' = Some STATUS_ACTIVE \<and> map_of (reply_pairs r') ''workspace_id'' = Some workspace_id
            then holders @ [m] else holders)))))"

definition admin_holders :: "relay \<Rightarrow> string list \<Rightarrow> string \<Rightarrow> string list handler" where
  "admin_holders R scanned workspace_id = and_then (owner_holders workspace_id) (key_holders R scanned workspace_id)"

text \<open>the three sweeps: the credentials, the unredeemed join codes and the invites of the member\<close>

definition revoke_credential :: "string \<times> fields \<Rightarrow> string list \<Rightarrow> string list handler" where
  "revoke_credential kd revoked =
     (let credential_id = id_or (snd kd) ''credential_id'' ''key_id'' [] in
      ask_op (Eval (multi (DEL (fst kd) # (if credential_id = [] then [] else [DEL (cred_key credential_id), ZREM KEY_INDEX [credential_id]])) []))
        (\<lambda>_. Ret (Inr (revoked @ [if credential_id = [] then take 16 (after_prefix ''auth:key:'' (fst kd)) else credential_id]))))"

definition cancel_code :: "string \<Rightarrow> string \<Rightarrow> string list \<Rightarrow> string list handler" where
  "cancel_code member_id key cancelled =
     (if \<not> prefixed_hex TICKET_PREFIX 16 key then Ret (Inr cancelled)
      else redis_call (HGETALL key) (\<lambda>r.
        if map_of (reply_pairs r) ''member_id'' \<noteq> Some member_id \<or> text_at (reply_pairs r) ''used_at'' \<noteq> [] then Ret (Inr cancelled)
        else ask_op (Eval (multi [DEL key, ZREM TICKET_INDEX [after_prefix TICKET_PREFIX key]] []))
          (\<lambda>_. Ret (Inr (cancelled @ [after_prefix TICKET_PREFIX key])))))"

definition revoke_invite :: "string \<Rightarrow> string \<Rightarrow> string list \<Rightarrow> string list handler" where
  "revoke_invite member_id key invites =
     (if \<not> prefixed_hex INVITE_PREFIX 16 key then Ret (Inr invites)
      else redis_call (HGETALL key) (\<lambda>r.
        if map_of (reply_pairs r) ''member_id'' \<noteq> Some member_id \<or> map_of (reply_pairs r) ''status'' = Some ''member_removed''
        then Ret (Inr invites)
        else ask_op (Eval (multi [HSET key [(''status'', ''member_removed'')], ZREM INVITE_INDEX [after_prefix INVITE_PREFIX key]] []))
          (\<lambda>_. Ret (Inr (invites @ [after_prefix INVITE_PREFIX key])))))"

text \<open>what the four scans of one removal yield\<close>

record scans =
  sc_admins :: "string list"
  sc_keys :: "string list"
  sc_tickets :: "string list"
  sc_invites :: "string list"

definition mark_removed :: "clockwork \<Rightarrow> rat \<Rightarrow> string \<Rightarrow> string \<Rightarrow> rcmd" where
  "mark_removed X now member_id removed_by = HSET (member_key member_id)
     [(''status'', STATUS_REMOVED), (''removed_at'', k_iso X now), (''removed_by'', removed_by)]"

definition sweep_member :: "scans \<Rightarrow> string \<Rightarrow> bool \<Rightarrow> pydict handler" where
  "sweep_member S member_id already_removed =
     and_then (member_credentials (sc_keys S) member_id) (\<lambda>creds.
     and_then (for_each creds revoke_credential []) (\<lambda>revoked.
     and_then (for_each (sc_tickets S) (cancel_code member_id) []) (\<lambda>cancelled.
     and_then (for_each (sc_invites S) (revoke_invite member_id) []) (\<lambda>invites.
     redis_call (HGETALL (member_key member_id)) (\<lambda>r.
       Ret (Inr [(''status'', PyStr STATUS_REMOVED), (''member_id'', PyStr member_id), (''already_removed'', PyBool already_removed),
         (''member'', PyDict (texts_dict (reply_pairs r))), (''credentials_revoked'', PyList (map PyStr revoked)),
         (''join_codes_cancelled'', PyList (map PyStr cancelled)), (''member_invites_revoked'', PyList (map PyStr invites))]))))))"

definition remove_member ::
  "clockwork \<Rightarrow> relay \<Rightarrow> scans \<Rightarrow> rat \<Rightarrow> string \<Rightarrow> string \<Rightarrow> string \<Rightarrow> string \<Rightarrow> string option \<Rightarrow> pydict handler" where
  "remove_member X R S now member_id workspace_id owner_member_id removed_by actor_member_id =
     and_then (load_member member_id workspace_id) (\<lambda>row.
       if member_id = owner_member_id \<or> map_of row ''role'' = Some ''owner'' then
         removal_error ''409'' ''the deployment owner can never be removed: every legacy record and service credential belongs to the owner, and the workspace would be left without one''
       else if actor_member_id = Some member_id \<and> member_id \<noteq> [] then
         removal_error ''409'' ''you cannot remove the member you are acting as; ask another admin''
       else if map_of row ''status'' = Some STATUS_REMOVED then sweep_member S member_id True
       else and_then (admin_holders R (sc_admins S) workspace_id) (\<lambda>holders.
         if set holders - {member_id} = {} then
           removal_error ''409'' (''removing '' @ member_id @ '' would leave this workspace with no active admin; nothing was changed'')
         else redis_call (mark_removed X now member_id removed_by) (\<lambda>_. sweep_member S member_id False)))"

definition restore_op :: "clockwork \<Rightarrow> rat \<Rightarrow> string \<Rightarrow> string \<Rightarrow> fields \<Rightarrow> op" where
  "restore_op X now member_id restored_by row = Eval (multi
     [HSET (member_key member_id) [(''status'', STATUS_ACTIVE), (''restored_at'', k_iso X now), (''restored_by'', restored_by),
        (''last_removed_at'', text_at row ''removed_at'')],
      HDEL (member_key member_id) [''removed_at'', ''removed_by'']] [])"

definition restore_member :: "clockwork \<Rightarrow> rat \<Rightarrow> string \<Rightarrow> string \<Rightarrow> string \<Rightarrow> fields handler" where
  "restore_member X now member_id workspace_id restored_by =
     and_then (load_member member_id workspace_id) (\<lambda>row.
       if map_of row ''status'' = Some STATUS_ACTIVE then Ret (Inr row)
       else if map_of row ''status'' \<noteq> Some STATUS_REMOVED then
         removal_error ''409'' (''member '' @ member_id @ '' has status ''
           @ (case map_of row ''status'' of Some s \<Rightarrow> py_repr s | None \<Rightarrow> ''None'') @ ''; only a removed member can be restored'')
       else ask_op (restore_op X now member_id restored_by row) (\<lambda>_.
         redis_call (HGETALL (member_key member_id)) (\<lambda>r. Ret (Inr (reply_pairs r)))))"

end
