(* ===== verification/Auth_Enroll.thy ===== *)
theory Auth_Enroll
  imports Auth_Members Relay_Leases Py_Int
begin

text \<open>
  Enrollment (\<open>cortex/app/enroll/\<close>): an admin issues a join ticket for one member, and a device redeems
  it once, registering the digest of a credential it chose itself. The redemption is one Lua script
  (\<open>lua.py\<close>) that spends the ticket and registers the credential together.
\<close>

section \<open>Tickets\<close>

definition RATE_PREFIX :: string where "RATE_PREFIX = ''auth:enroll:rate:''"

definition ticket_key :: "string \<Rightarrow> string" where "ticket_key tid = TICKET_PREFIX @ tid"

definition b64_digit :: "nat \<Rightarrow> char" where
  "b64_digit n = ''ABCDEFGHIJKLMNOPQRSTUVWXYZabcdefghijklmnopqrstuvwxyz0123456789-_'' ! n"

definition b64_value :: "char \<Rightarrow> nat option" where
  "b64_value c = map_of (zip ''ABCDEFGHIJKLMNOPQRSTUVWXYZabcdefghijklmnopqrstuvwxyz0123456789-_'' [0..<64]) c"

text \<open>\<open>_b64url\<close>: base64 of the bytes in the URL alphabet, without padding\<close>

fun b64url :: "string \<Rightarrow> string" where
  "b64url [] = []"
| "b64url [a] = [b64_digit (code_of a div 4), b64_digit (code_of a mod 4 * 16)]"
| "b64url [a, b] = [b64_digit (code_of a div 4), b64_digit (code_of a mod 4 * 16 + code_of b div 16),
     b64_digit (code_of b mod 16 * 4)]"
| "b64url (a # b # c # s) = b64_digit (code_of a div 4) # b64_digit (code_of a mod 4 * 16 + code_of b div 16)
     # b64_digit (code_of b mod 16 * 4 + code_of c div 64) # b64_digit (code_of c mod 64) # b64url s"

fun b64_bytes :: "nat list \<Rightarrow> string" where
  "b64_bytes (a # b # c # d # s) = char_of (a * 4 + b div 16) # char_of (b mod 16 * 16 + c div 4) # char_of (c mod 4 * 64 + d) # b64_bytes s"
| "b64_bytes [a, b, c] = [char_of (a * 4 + b div 16), char_of (b mod 16 * 16 + c div 4)]"
| "b64_bytes [a, b] = [char_of (a * 4 + b div 16)]"
| "b64_bytes s = []"

text \<open>
  \<open>ticket_id\<close>: the text must be the encoding of exactly 32 bytes, that is, be encoded again to itself;
  everything the decoder tolerates beyond that is refused by this comparison. Its two messages of a
  \<open>ValueError\<close> are one here.
\<close>

definition ticket_bytes :: "string \<Rightarrow> string option" where
  "ticket_bytes ticket =
     (if length ticket = 43 \<and> list_all (\<lambda>c. b64_value c \<noteq> None) ticket
        \<and> b64url (b64_bytes (map (the \<circ> b64_value) ticket)) = ticket
      then Some (b64_bytes (map (the \<circ> b64_value) ticket)) else None)"

definition ticket_id :: "clockwork \<Rightarrow> string \<Rightarrow> py_exc + string" where
  "ticket_id X ticket = (case ticket_bytes ticket of
     Some raw \<Rightarrow> Inr (take 16 (k_sha_bytes X raw)) | None \<Rightarrow> Inl (value_error ''ticket must encode exactly 32 bytes''))"

record enroll_settings =
  e_ttl_hours :: int
  e_tombstone_days :: int
  e_key_days :: int
  e_attempts :: int

text \<open>where a ticket leads its device\<close>

record connection =
  n_transport :: string
  n_kind :: string
  n_host :: string
  n_base_url :: string
  n_ca_pem :: string
  n_ssh :: string

definition given :: "string \<Rightarrow> string \<Rightarrow> fields" where
  "given k v = (if v = [] then [] else [(k, v)])"

text \<open>the whole second of a time, which is never before 1970\<close>

definition whole_seconds :: "rat \<Rightarrow> int" where
  "whole_seconds t = \<lfloor>t\<rfloor>"

definition prepare_issue ::
  "clockwork \<Rightarrow> relay \<Rightarrow> enroll_settings \<Rightarrow> string \<Rightarrow> connection \<Rightarrow> string \<Rightarrow> int option \<Rightarrow> string \<Rightarrow> string \<Rightarrow> string \<Rightarrow> rat
     \<Rightarrow> py_exc + string \<times> fields" where
  "prepare_issue X R E agent_label N issuer key_expires_days device_id member_id ticket now =
     (if member_id = [] then Inl (value_error ''member_id is required for an enrollment ticket'')
      else bindR (ticket_id X ticket) (\<lambda>tid.
        (let expires = now + of_int (e_ttl_hours E * 3600);
             days = (case key_expires_days of Some n \<Rightarrow> n | None \<Rightarrow> e_key_days E) in
         Inr (tid, [(''agent_label'', agent_label), (''scopes'', dumps R (PyList (map PyStr (sort ENROLLABLE_SCOPES)))),
           (''transport'', n_transport N), (''kind'', n_kind N), (''created_at'', k_iso X now), (''expires_at'', k_iso X expires),
           (''expires_at_epoch'', str_of_int (whole_seconds expires)), (''key_expires_days'', str_of_int days), (''issuer'', issuer)]
           @ given ''host'' (n_host N) @ given ''base_url'' (n_base_url N) @ given ''ca_pem'' (n_ca_pem N)
           @ given ''ssh_target'' (n_ssh N) @ given ''device_id'' device_id @ [(''member_id'', member_id)]))))"

definition issue_op :: "enroll_settings \<Rightarrow> string \<Rightarrow> fields \<Rightarrow> rat \<Rightarrow> op" where
  "issue_op E tid record created = Eval (multi [HSET (ticket_key tid) record,
     EXPIRE (ticket_key tid) (e_tombstone_days E * 86400), ZADD TICKET_INDEX tid created] [])"

definition issue ::
  "clockwork \<Rightarrow> relay \<Rightarrow> enroll_settings \<Rightarrow> string \<Rightarrow> connection \<Rightarrow> string \<Rightarrow> int option \<Rightarrow> string \<Rightarrow> string \<Rightarrow> string \<Rightarrow> rat
     \<Rightarrow> (string \<times> fields) handler" where
  "issue X R E agent_label N issuer key_expires_days device_id member_id ticket now =
     (case prepare_issue X R E agent_label N issuer key_expires_days device_id member_id ticket now of
        Inl e \<Rightarrow> Ret (Inl e)
      | Inr (tid, record) \<Rightarrow> ask_op (issue_op E tid record now) (\<lambda>_. Ret (Inr (tid, record))))"

definition get_ticket :: "string \<Rightarrow> fields handler" where
  "get_ticket tid = redis_call (HGETALL (ticket_key tid)) (\<lambda>r. Ret (Inr (reply_pairs r)))"

definition enroll_anchor :: "string \<Rightarrow> string option handler" where
  "enroll_anchor tid = and_then (get_ticket tid) (\<lambda>record. Ret (Inr (map_of record ''ca_pem'')))"

section \<open>The redemption script\<close>

text \<open>a hash field as Lua reads it with \<open>or ''\<close>\<close>

definition lua_text :: "reply \<Rightarrow> string" where
  "lua_text r = (case r of RText v \<Rightarrow> v | _ \<Rightarrow> [])"

definition answer :: "string list \<Rightarrow> (rcmd, reply) prog" where
  "answer ts = Ret (RMulti (map RText ts))"

text \<open>what the caller passes to the script\<close>

record redemption =
  p_ticket :: string
  p_rate :: string
  p_record :: string
  p_cred :: string
  p_member_key :: string
  p_attempts :: int
  p_now :: int
  p_now_iso :: string
  p_hash :: string
  p_nonce :: string
  p_credential :: string
  p_fields :: string
  p_allowed :: string
  p_scopes :: string
  p_days :: string
  p_ttl :: int
  p_device :: string
  p_shape_ok :: bool
  p_member :: string
  p_ticket_device :: string
  p_workspace :: string

text \<open>\<open>pairs\<close> over the ticket's scopes: every key a number, every value an allowed text\<close>

fun scopes_within :: "pyval \<Rightarrow> pyval \<Rightarrow> bool" where
  "scopes_within (PyList ticket_scopes) (PyList allowed) \<longleftrightarrow>
     list_all (\<lambda>v. case v of PyStr s \<Rightarrow> PyStr s \<in> set allowed | _ \<Rightarrow> False) ticket_scopes"
| "scopes_within (PyDict d) allowed \<longleftrightarrow> d = []"
| "scopes_within v allowed \<longleftrightarrow> False"

text \<open>\<open>for field, value in pairs(fields)\<close>, in the order of the decoded document\<close>

fun put_fields :: "string \<Rightarrow> pydict \<Rightarrow> (rcmd, reply) prog \<Rightarrow> (rcmd, reply) prog" where
  "put_fields k [] p = p"
| "put_fields k ((f, v) # d) p = lua (HSET k [(f, case v of PyStr s \<Rightarrow> s | _ \<Rightarrow> [])]) (\<lambda>_. put_fields k d p)"

definition register_script :: "relay \<Rightarrow> redemption \<Rightarrow> (rcmd, reply) prog" where
  "register_script R p =
     (case cj_decode R (p_fields p) of
        Some (PyDict d) \<Rightarrow>
          put_fields (p_record p) d (
            (if 0 < p_ttl p then (\<lambda>q. lua (EXPIRE (p_record p) (p_ttl p)) (\<lambda>_. q)) else (\<lambda>q. q)) (
            lua (SET (p_cred p) (p_hash p) False None) (\<lambda>_.
            (if 0 < p_ttl p then (\<lambda>q. lua (EXPIRE (p_cred p) (p_ttl p)) (\<lambda>_. q)) else (\<lambda>q. q)) (
            lua (ZADD KEY_INDEX (p_credential p) (of_int (p_now p))) (\<lambda>_.
            lua (HSET (p_ticket p) [(''used_at'', p_now_iso p), (''issued_credential_id'', p_credential p),
                (''issued_device_id'', p_device p), (''issued_device_nonce'', p_nonce p), (''issued_key_hash'', p_hash p)]) (\<lambda>_.
            answer [''ok'', p_credential p, p_device p]))))))
      | _ \<Rightarrow> Ret (RErr ''ERR cjson''))"

definition member_script :: "relay \<Rightarrow> redemption \<Rightarrow> (rcmd, reply) prog" where
  "member_script R p =
     lua (EXISTS (p_member_key p)) (\<lambda>there.
     lua (HGET (p_member_key p) ''member_id'') (\<lambda>m.
     lua (HGET (p_member_key p) ''workspace_id'') (\<lambda>w.
     lua (HGET (p_member_key p) ''status'') (\<lambda>st.
       if reply_int there = 0 \<or> lua_text m \<noteq> p_member p \<or> lua_text w \<noteq> p_workspace p \<or> lua_text st \<noteq> ''active''
       then answer [''member_inactive'', p_member p]
       else lua (EXISTS (p_record p)) (\<lambda>taken.
         if reply_int taken = 1 then answer [''cred_exists''] else register_script R p)))))"

definition snapshot_script :: "relay \<Rightarrow> redemption \<Rightarrow> string \<Rightarrow> (rcmd, reply) prog" where
  "snapshot_script R p ticket_scopes =
     lua (HGET (p_ticket p) ''key_expires_days'') (\<lambda>days.
     lua (HGET (p_ticket p) ''member_id'') (\<lambda>m.
     lua (HGET (p_ticket p) ''device_id'') (\<lambda>d.
       if ticket_scopes \<noteq> p_scopes p \<or> (case days of RText v \<Rightarrow> v | _ \<Rightarrow> ''0'') \<noteq> p_days p \<or> lua_text m \<noteq> p_member p
          \<or> lua_text d \<noteq> p_ticket_device p
       then answer [''ticket_changed''] else member_script R p)))"

definition scope_script :: "relay \<Rightarrow> redemption \<Rightarrow> (rcmd, reply) prog" where
  "scope_script R p =
     lua (HGET (p_ticket p) ''scopes'') (\<lambda>sc. let ticket_scopes = (case sc of RText v \<Rightarrow> v | _ \<Rightarrow> ''[]'') in
       if \<not> p_shape_ok p then answer [''scope_violation'', ticket_scopes]
       else (case (cj_decode R ticket_scopes, cj_decode R (p_allowed p)) of
          (Some ts, Some al) \<Rightarrow> if \<not> scopes_within ts al then answer [''scope_violation'', ticket_scopes]
            else snapshot_script R p ticket_scopes
        | _ \<Rightarrow> Ret (RErr ''ERR cjson'')))"

definition spent_script :: "redemption \<Rightarrow> string \<Rightarrow> (rcmd, reply) prog" where
  "spent_script p used_at =
     lua (HGET (p_ticket p) ''issued_key_hash'') (\<lambda>h.
     lua (HGET (p_ticket p) ''issued_device_nonce'') (\<lambda>n.
     lua (HGET (p_ticket p) ''issued_credential_id'') (\<lambda>c.
     lua (HGET (p_ticket p) ''issued_device_id'') (\<lambda>d.
       if h = RText (p_hash p) \<and> n = RText (p_nonce p) then
         lua (EXISTS (p_record p)) (\<lambda>there. if reply_int there = 0 then answer [''credential_gone'', used_at, lua_text c]
           else answer [''replay'', lua_text c, lua_text d, used_at])
       else answer [''used'', used_at, lua_text c]))))"

text \<open>\<open>ENROLL_CONSUME\<close>\<close>

definition consume_script :: "clockwork \<Rightarrow> relay \<Rightarrow> redemption \<Rightarrow> (rcmd, reply) prog" where
  "consume_script X R p =
     lua (INCR (p_rate p)) (\<lambda>attempts.
     (if reply_int attempts = 1 then (\<lambda>q. lua (EXPIRE (p_rate p) 7200) (\<lambda>_. q)) else (\<lambda>q. q)) (
       if p_attempts p < reply_int attempts then answer [''rate'']
       else lua (EXISTS (p_ticket p)) (\<lambda>there.
         if reply_int there = 0 then answer [''unknown'']
         else lua (HGET (p_ticket p) ''used_at'') (\<lambda>used.
           if lua_text used \<noteq> [] then spent_script p (lua_text used)
           else lua (HGET (p_ticket p) ''expires_at_epoch'') (\<lambda>ep.
             case k_tonumber X (case ep of RText v \<Rightarrow> v | _ \<Rightarrow> ''0'') of
               None \<Rightarrow> Ret (RErr ''ERR attempt to compare nil with number'')
             | Some epoch \<Rightarrow>
                 if epoch < of_int (p_now p) then
                   lua (HGET (p_ticket p) ''expires_at'') (\<lambda>e. answer [''expired'', lua_text e])
                 else lua (HGET (p_ticket p) ''member_id'') (\<lambda>m.
                   if lua_text m = [] then answer [''unattributed''] else scope_script R p))))))"

section \<open>Redeeming a ticket\<close>

text \<open>the scopes of the ticket read in Python: a list of texts, or nothing\<close>

definition ticket_scopes :: "relay \<Rightarrow> string \<Rightarrow> string list option" where
  "ticket_scopes R raw = (case loads R raw of Some (PyList vs) \<Rightarrow> all_strings vs | _ \<Rightarrow> None)"

definition text_or :: "fields \<Rightarrow> string \<Rightarrow> string \<Rightarrow> string" where
  "text_or h k d = (case map_of h k of Some v \<Rightarrow> v | None \<Rightarrow> d)"

text \<open>what the script is called with, from the snapshot read before it\<close>

definition redemption_of ::
  "clockwork \<Rightarrow> relay \<Rightarrow> enroll_settings \<Rightarrow> string \<Rightarrow> string \<Rightarrow> string \<Rightarrow> fields \<Rightarrow> string \<Rightarrow> string \<Rightarrow> rat \<Rightarrow> redemption" where
  "redemption_of X R E tid credential_hash device_nonce snapshot credential_id new_device now =
     (let scopes_json = text_or snapshot ''scopes'' ''[]'';
          scopes = ticket_scopes R scopes_json;
          days_raw = text_or snapshot ''key_expires_days'' ''0'';
          days = (case int_text days_raw of Some n \<Rightarrow> n | None \<Rightarrow> 0);
          existing = text_at snapshot ''device_id'';
          device = (if existing = [] then new_device else existing);
          member = text_at snapshot ''member_id'';
          metadata = build_credential_record X R credential_id device (case scopes of Some ss \<Rightarrow> ss | None \<Rightarrow> []) now
            (if days = 0 then None else Some days) (Some tid) (Some (text_at snapshot ''agent_label'')) None (Some member)
      in \<lparr>p_ticket = ticket_key tid, p_rate = RATE_PREFIX @ k_hour X now, p_record = auth_key credential_hash,
          p_cred = cred_key credential_id, p_member_key = member_key member, p_attempts = e_attempts E,
          p_now = whole_seconds now, p_now_iso = k_iso X now, p_hash = credential_hash, p_nonce = device_nonce,
          p_credential = credential_id, p_fields = enc (r_print R) (PyDict (texts_dict metadata)),
          p_allowed = enc (r_print R) (PyList (map PyStr (sort ENROLLABLE_SCOPES))), p_scopes = scopes_json, p_days = days_raw,
          p_ttl = days * 86400, p_device = device, p_shape_ok = (scopes \<noteq> None), p_member = member, p_ticket_device = existing,
          p_workspace = d_workspace (r_dep R)\<rparr>)"

definition reply_words :: "reply \<Rightarrow> string list" where
  "reply_words r = (case r of RMulti rs \<Rightarrow> map lua_text rs | _ \<Rightarrow> [])"

text \<open>the ticket as it stands after the script, with the expiry of the credential issued on it\<close>

definition ticket_after :: "string \<Rightarrow> string \<Rightarrow> string \<Rightarrow> fields \<Rightarrow> fields handler" where
  "ticket_after outcome tid credential_hash snapshot =
     and_then (if outcome \<in> {''ok'', ''replay'', ''used'', ''credential_gone'', ''expired''} then get_ticket tid else Ret (Inr snapshot))
       (\<lambda>ticket. if outcome \<in> {''ok'', ''replay''} \<and> ticket \<noteq> [] then
           redis_call (HGETALL (auth_key (text_or ticket ''issued_key_hash'' credential_hash))) (\<lambda>r. Ret (Inr (
             if text_at (reply_pairs r) ''expires_at'' = [] then ticket
             else AList.update ''issued_credential_expires_at'' (text_at (reply_pairs r) ''expires_at'') ticket)))
         else Ret (Inr ticket))"

definition consume_ticket ::
  "clockwork \<Rightarrow> relay \<Rightarrow> enroll_settings \<Rightarrow> string \<Rightarrow> string \<Rightarrow> string \<Rightarrow> string \<Rightarrow> string \<Rightarrow> rat
     \<Rightarrow> (string \<times> string list \<times> fields) handler" where
  "consume_ticket X R E ticket credential_hash device_nonce credential_id new_device now =
     (case ticket_id X ticket of Inl e \<Rightarrow> Ret (Inl e)
      | Inr tid \<Rightarrow> and_then (get_ticket tid) (\<lambda>snapshot.
          ask_op (Eval (consume_script X R (redemption_of X R E tid credential_hash device_nonce snapshot credential_id new_device now)))
            (\<lambda>raw. let fields = reply_words raw; outcome = (case fields of o' # _ \<Rightarrow> o' | [] \<Rightarrow> ''error'') in
              and_then (ticket_after outcome tid credential_hash snapshot) (\<lambda>snap. Ret (Inr (outcome, drop 1 fields, snap))))))"

definition list_outstanding :: "rat \<Rightarrow> int \<Rightarrow> pyval list handler" where
  "list_outstanding now limit =
     redis_call (ZREVRANGE TICKET_INDEX 0 (limit - 1)) (\<lambda>tids.
       for_each (reply_texts tids) (\<lambda>tid rows. and_then (get_ticket tid) (\<lambda>record.
         if record = [] \<or> text_at record ''used_at'' \<noteq> [] then Ret (Inr rows)
         else (case int_text (text_or record ''expires_at_epoch'' ''0'') of
            None \<Rightarrow> Ret (Inl (value_error ''invalid literal for int()''))
          | Some e \<Rightarrow> if e < whole_seconds now then Ret (Inr rows)
              else Ret (Inr (rows @ [PyDict (dict_merge [(''tid'', PyStr tid)] (texts_dict record))]))))) [])"

definition cancel_ticket :: "string \<Rightarrow> bool handler" where
  "cancel_ticket tid = ask_op (Eval (multi [DEL (ticket_key tid), ZREM TICKET_INDEX [tid]] []))
     (\<lambda>r. Ret (Inr (reply_int (multi_item r 0) \<noteq> 0)))"

section \<open>Inviting a device\<close>

abbreviation invite_error :: "string \<Rightarrow> string \<Rightarrow> 'a handler" where
  "invite_error status m \<equiv> Ret (Inl (HandsError (''InviteMemberError '' @ status) m))"

definition as_invite_error :: "'a handler \<Rightarrow> 'a handler" where
  "as_invite_error p = catching p (\<lambda>e. case e of
     HandsError code m \<Rightarrow> if code = ''AmbiguousDeviceAttributionError'' then invite_error ''409'' m else Ret (Inl e)
   | OtherError m \<Rightarrow> Ret (Inl e))"

text \<open>the member a new join code is for\<close>

definition invited_member :: "(string \<Rightarrow> string list) \<Rightarrow> string \<Rightarrow> string \<Rightarrow> string \<Rightarrow> string handler" where
  "invited_member scans device_id issuer_member_id workspace_id =
     (if device_id = [] then Ret (Inr issuer_member_id)
      else and_then (as_invite_error (resolve_device_attribution scans device_id)) (\<lambda>existing. case existing of
        Some (w, m) \<Rightarrow> if w = workspace_id then Ret (Inr m) else invite_error ''404'' (''device '' @ device_id
          @ '' not found: no credential on this server carries it, so there is nothing to regenerate. Issue a new-device invite instead.'')
      | None \<Rightarrow> invite_error ''404'' (''device '' @ device_id
          @ '' not found: no credential on this server carries it, so there is nothing to regenerate. Issue a new-device invite instead.'')))"

definition invite_member :: "(string \<Rightarrow> string list) \<Rightarrow> string \<Rightarrow> string \<Rightarrow> string \<Rightarrow> string handler" where
  "invite_member scans device_id issuer_member_id workspace_id =
     and_then (invited_member scans device_id issuer_member_id workspace_id) (\<lambda>member_id.
       redis_call (HGETALL (member_key member_id)) (\<lambda>r. let member = reply_pairs r in
         if member = [] then invite_error ''404'' (''member '' @ member_id @ '' not found in this workspace'')
         else if map_of member ''workspace_id'' \<noteq> Some workspace_id \<or> map_of member ''status'' \<noteq> Some ''active'' then
           invite_error ''409'' (''member '' @ member_id @ '' is not active in this workspace; nothing was issued'')
         else Ret (Inr member_id)))"

definition encode_join_code :: "clockwork \<Rightarrow> relay \<Rightarrow> pydict \<Rightarrow> string" where
  "encode_join_code X R payload =
     (let body = b64url (enc (r_print R) (PyDict payload)) in
      ''fk_join_'' @ body @ ''.'' @ b64url (take 3 (k_digest X body)))"

definition ca_fingerprint :: "clockwork \<Rightarrow> string \<Rightarrow> string" where
  "ca_fingerprint X ca_pem = b64url (take 16 (k_digest X ca_pem))"

text \<open>
  \<open>record[k]\<close>: a missing key raises. The expiry is one \<open>issue\<close> wrote, an aware time; another raises here.
\<close>

definition field_of :: "fields \<Rightarrow> string \<Rightarrow> py_exc + string" where
  "field_of h k = (case map_of h k of Some v \<Rightarrow> Inr v | None \<Rightarrow> Inl (HandsError ''KeyError'' (py_repr k)))"

definition encode_prepared_join :: "clockwork \<Rightarrow> relay \<Rightarrow> string \<Rightarrow> fields \<Rightarrow> string \<Rightarrow> py_exc + string" where
  "encode_prepared_join X R ticket record ca_mode =
     bindR (field_of record ''transport'') (\<lambda>t. bindR (field_of record ''kind'') (\<lambda>k. bindR (field_of record ''expires_at'') (\<lambda>e.
     bindR (case k_fromiso X e of Some i \<Rightarrow> Inr (k_compact X i) | None \<Rightarrow> Inl (value_error ''Invalid isoformat string'')) (\<lambda>x.
     bindR (if k = ''ports'' then bindR (field_of record ''host'') (\<lambda>v. Inr [(''h'', PyStr v)])
            else bindR (field_of record ''base_url'') (\<lambda>v. Inr [(''u'', PyStr v)])) (\<lambda>to.
     bindR (if t \<noteq> ''tls'' then Inr [] else if ca_mode = ''os'' then Inr [(''f'', PyStr ''os'')]
            else bindR (field_of record ''ca_pem'') (\<lambda>v. Inr [(''f'', PyStr (ca_fingerprint X v))])) (\<lambda>ca.
     bindR (if t \<noteq> ''tunnel'' then Inr [] else bindR (field_of record ''ssh_target'') (\<lambda>v. Inr [(''s'', PyStr v)])) (\<lambda>ssh.
       Inr (encode_join_code X R ([(''v'', PyInt 1), (''t'', PyStr t), (''k'', PyStr k), (''x'', PyStr x), (''q'', PyStr ticket)]
         @ to @ ca @ ssh)))))))))"

definition mint_refusal :: "connection \<Rightarrow> string \<Rightarrow> int option \<Rightarrow> string option" where
  "mint_refusal N ca_mode key_expires_days =
     (if n_transport N \<notin> {''tls'', ''tunnel'', ''http''} then Some ''invalid enrollment transport''
      else if n_kind N \<notin> {''ports'', ''paths''} then Some ''invalid connection kind''
      else if n_kind N = ''ports'' \<and> n_host N = [] then Some ''kind=ports requires host''
      else if n_kind N = ''paths'' \<and> n_base_url N = [] then Some ''kind=paths requires base_url''
      else if n_transport N = ''tls'' \<and> n_ca_pem N = [] \<and> ca_mode \<noteq> ''os'' then Some ''t=tls requires a CA file or --ca os''
      else if n_transport N = ''tunnel'' \<and> n_ssh N = [] then Some ''t=tunnel requires --ssh-target''
      else (case key_expires_days of Some n \<Rightarrow> if 0 \<le> n \<and> n \<le> 365 then None else Some ''--expires-days must be from 0 to 365''
        | None \<Rightarrow> None))"

text \<open>\<open>dist_base.rstrip("/")\<close>\<close>

definition strip_slashes :: "string \<Rightarrow> string" where
  "strip_slashes s = rev (dropWhile (\<lambda>c. c = CHR ''/'') (rev s))"

definition mint_invite ::
  "clockwork \<Rightarrow> relay \<Rightarrow> enroll_settings \<Rightarrow> string \<Rightarrow> connection \<Rightarrow> string \<Rightarrow> string \<Rightarrow> string \<Rightarrow> int option \<Rightarrow> string
     \<Rightarrow> string \<Rightarrow> string \<Rightarrow> rat \<Rightarrow> pydict handler" where
  "mint_invite X R E agent_label N ca_mode issuer member_id key_expires_days device_id dist_base ticket now =
     (case mint_refusal N ca_mode key_expires_days of Some m \<Rightarrow> Ret (Inl (value_error m))
      | None \<Rightarrow> and_then (issue X R E agent_label N issuer key_expires_days device_id member_id ticket now) (\<lambda>(tid, record).
          case bindR (encode_prepared_join X R ticket record ca_mode) (\<lambda>code. bindR (field_of record ''expires_at'') (\<lambda>e.
                 bindR (field_of record ''key_expires_days'') (\<lambda>days. case int_text days of None \<Rightarrow> Inl (value_error ''invalid literal for int()'')
                   | Some n \<Rightarrow> Inr (code, e, n)))) of
            Inl e \<Rightarrow> Ret (Inl e)
          | Inr (code, expires, days) \<Rightarrow> Ret (Inr [(''code'', PyStr code), (''tid'', PyStr tid), (''expires_at'', PyStr expires),
              (''credential_expires_days'', PyInt days),
              (''install_command_sh'', PyStr (''curl -fsSL '' @ strip_slashes dist_base @ ''/latest/install | FIREKEEP_JOIN='' @ code @ '' sh'')),
              (''install_command_powershell'', PyStr (''$env:FIREKEEP_JOIN='' @ [CHR 0x27] @ code @ [CHR 0x27] @ ''; irm ''
                @ strip_slashes dist_base @ ''/latest/install.ps1 | iex''))])))"

end
