(* ===== verification/Auth_Routes.thy ===== *)
theory Auth_Routes
  imports Auth_Enroll
begin

text \<open>
  The routes that change who may come in: keys (\<open>auth/api.py\<close>), join codes and their redemption
  (\<open>cortex/app/enroll/api.py\<close>), the removal and return of members (\<open>cortex/app/members/api.py\<close>). All
  but the redemption and the anchor demand the admin scope. Bodies and query fields have their types
  and bounds, since FastAPI refuses the others first. A failed check is an \<open>HTTPException\<close>, any other
  exception a 500. Two hyphens stand for an em dash of a text.
\<close>

section \<open>The admin gate of a route\<close>

datatype http_reply = Answer pyval | Failed int string

definition admin_route :: "clockwork \<Rightarrow> relay \<Rightarrow> arrival \<Rightarrow> (pydict \<Rightarrow> http_reply handler) \<Rightarrow> http_reply handler" where
  "admin_route X R a p = and_then (require_scope X R ''admin'' a) (\<lambda>r. case r of
     Inl (st, m) \<Rightarrow> Ret (Inr (Failed st m)) | Inr ident \<Rightarrow> p ident)"

abbreviation answer_dict :: "pydict \<Rightarrow> http_reply handler" where
  "answer_dict d \<equiv> Ret (Inr (Answer (PyDict d)))"

abbreviation http_error :: "int \<Rightarrow> string \<Rightarrow> http_reply handler" where
  "http_error st m \<equiv> Ret (Inr (Failed st m))"

definition ident_text :: "relay \<Rightarrow> pydict \<Rightarrow> string \<Rightarrow> string" where
  "ident_text R ident k = str_or (r_print R) (get_val ident k) []"

section \<open>Keys\<close>

text \<open>\<open>except ValueError\<close>: 400 with its text\<close>

definition create_api_key ::
  "clockwork \<Rightarrow> relay \<Rightarrow> arrival \<Rightarrow> string \<Rightarrow> string list \<Rightarrow> int option \<Rightarrow> string \<Rightarrow> string \<Rightarrow> rat \<Rightarrow> http_reply handler" where
  "create_api_key X R a agent_id scopes expires_days api_key credential_id now =
     admin_route X R a (\<lambda>_. catching
       (and_then (create_key X R agent_id scopes expires_days api_key credential_id now) (\<lambda>d. answer_dict d))
       (\<lambda>e. case e of HandsError code m \<Rightarrow> if code = ''ValueError'' then http_error 400 m else Ret (Inl e) | OtherError m \<Rightarrow> Ret (Inl e)))"

definition list_api_keys :: "clockwork \<Rightarrow> relay \<Rightarrow> arrival \<Rightarrow> (string \<Rightarrow> string list) \<Rightarrow> int \<Rightarrow> http_reply handler" where
  "list_api_keys X R a scans limit = admin_route X R a (\<lambda>_.
     and_then (list_keys R scans limit) (\<lambda>rows. answer_dict [(''keys'', PyList rows), (''count'', PyInt (int (length rows)))]))"

definition revoke_api_key :: "clockwork \<Rightarrow> relay \<Rightarrow> arrival \<Rightarrow> string list \<Rightarrow> string \<Rightarrow> http_reply handler" where
  "revoke_api_key X R a scanned key_id = admin_route X R a (\<lambda>_.
     and_then (revoke_key scanned key_id) (\<lambda>r. case r of
        Ambiguous ks \<Rightarrow> http_error 409 (''Key '' @ key_id @ '' matches '' @ str_of_nat (length ks) @ '' stored records (''
          @ py_join '', '' ks @ ''). Nothing was revoked -- resolve the ambiguity in Redis before retrying.'')
      | Found False \<Rightarrow> http_error 404 (''Key '' @ key_id @ '' not found'')
      | Found True \<Rightarrow> answer_dict [(''status'', PyStr ''revoked''), (''key_id'', PyStr key_id)]))"

definition rename_api_key_device :: "clockwork \<Rightarrow> relay \<Rightarrow> arrival \<Rightarrow> string list \<Rightarrow> string \<Rightarrow> string \<Rightarrow> http_reply handler" where
  "rename_api_key_device X R a scanned key_id label = admin_route X R a (\<lambda>_.
     if py_strip label = [] then http_error 400 ''Device label cannot be blank''
     else and_then (rename_device scanned key_id (py_strip label)) (\<lambda>r. case r of
        Ambiguous ks \<Rightarrow> http_error 409 (ambiguous_text key_id ks)
      | Found False \<Rightarrow> http_error 404 (''Key '' @ key_id @ '' not found'')
      | Found True \<Rightarrow> answer_dict [(''status'', PyStr ''renamed''), (''credential_id'', PyStr key_id), (''label'', PyStr (py_strip label))]))"

definition list_scopes :: "clockwork \<Rightarrow> relay \<Rightarrow> arrival \<Rightarrow> http_reply handler" where
  "list_scopes X R a = admin_route X R a (\<lambda>_. answer_dict
     [(''scopes'', PyList (map PyStr (sort (filter (\<lambda>s. s \<notin> set SERVICE_ONLY_SCOPES) SCOPES)))),
      (''service_only'', PyList (map PyStr (sort SERVICE_ONLY_SCOPES)))])"

section \<open>Where a device should connect\<close>

record site =
  s_bind_addr :: string
  s_vps_ip :: string
  s_ssh_user :: string
  s_version :: string

definition LOOPBACK :: "string list" where "LOOPBACK = [''127.0.0.1'', ''::1'', ''localhost'', ''[::1]'']"
definition WILDCARD :: "string list" where "WILDCARD = [''0.0.0.0'', ''::'', ''[::]'', ''*'']"

text \<open>the address, where it is from, and why\<close>

definition advertised_host :: "site \<Rightarrow> string \<times> string \<times> string" where
  "advertised_host V =
     (let bind = py_strip (s_bind_addr V); vps = py_strip (s_vps_ip V) in
      if bind \<noteq> [] \<and> bind \<notin> set LOOPBACK \<and> bind \<notin> set WILDCARD then
        (bind, ''BIND_ADDR'', ''every published port binds to '' @ bind @ '', so that is what a device dials'')
      else if bind \<in> set WILDCARD then
        (if vps \<noteq> [] \<and> vps \<notin> set LOOPBACK then
           (vps, ''VPS_IP'', ''ports are published on every interface; VPS_IP says to use '' @ vps)
         else ([], ''none'', ''ports are published on every interface but no VPS_IP names one -- enter the address devices should use''))
      else ([], ''none'', ''published ports bind to localhost only (BIND_ADDR is unset or loopback), so nothing off this machine can reach them without a tunnel''))"

definition resolve_connection :: "site \<Rightarrow> string \<Rightarrow> string \<Rightarrow> string \<Rightarrow> string \<times> string \<times> bool" where
  "resolve_connection V transport kind host =
     (let adv = fst (advertised_host V) in
      if transport = [] then
        (if adv \<noteq> [] \<and> kind = ''ports'' then (''http'', adv, True) else (''tunnel'', if host = [] then ''127.0.0.1'' else host, False))
      else if transport = ''tunnel'' then (transport, ''127.0.0.1'', False)
      else if kind = ''ports'' \<and> host = [] \<and> adv \<noteq> [] then (transport, adv, False)
      else (transport, host, False))"

record invite_request =
  i_agent :: string
  i_days :: "int option"
  i_transport :: string
  i_kind :: string
  i_host :: string
  i_base_url :: string
  i_ca_pem :: string
  i_ca_mode :: string
  i_ssh :: string
  i_insecure :: bool
  i_device :: string
  i_dist :: string

text \<open>\<open>_connection\<close>, and the same checks of the invite route: what is wrong with the request, or where it leads\<close>

definition ssh_target_of :: "site \<Rightarrow> string \<Rightarrow> string \<Rightarrow> string" where
  "ssh_target_of V transport ssh =
     (if transport = ''tunnel'' \<and> ssh = [] \<and> py_strip (s_vps_ip V) \<noteq> []
      then (if py_strip (s_ssh_user V) = [] then ''root'' else py_strip (s_ssh_user V)) @ ''@'' @ py_strip (s_vps_ip V) else ssh)"

definition connection_of :: "site \<Rightarrow> invite_request \<Rightarrow> string + connection" where
  "connection_of V q =
     (if i_transport q = [] \<and> i_kind q \<noteq> ''ports'' then Inl ''kind=paths requires an explicit transport''
      else (case resolve_connection V (i_transport q) (i_kind q) (i_host q) of (transport, host, server_chosen) \<Rightarrow>
        (let ssh = ssh_target_of V transport (i_ssh q) in
         if i_kind q = ''ports'' \<and> host = [] then
           Inl (''kind=ports requires host, and this server cannot name one: '' @ snd (snd (advertised_host V)))
         else if i_kind q = ''paths'' \<and> i_base_url q = [] then Inl ''kind=paths requires base_url''
         else if transport = ''tls'' \<and> i_ca_pem q = [] \<and> i_ca_mode q \<noteq> ''os'' then Inl ''t=tls requires ca_pem or ca_mode=os''
         else if transport = ''tunnel'' \<and> ssh = [] then Inl ''t=tunnel requires ssh_target''
         else if transport = ''http'' \<and> \<not> i_insecure q \<and> \<not> server_chosen then Inl ''plain HTTP requires insecure_http=true''
         else Inr \<lparr>n_transport = transport, n_kind = i_kind q, n_host = host, n_base_url = i_base_url q,
           n_ca_pem = i_ca_pem q, n_ssh = ssh\<rparr>)))"

definition enroll_defaults :: "clockwork \<Rightarrow> relay \<Rightarrow> site \<Rightarrow> arrival \<Rightarrow> http_reply handler" where
  "enroll_defaults X R V a = admin_route X R a (\<lambda>_.
     case (advertised_host V, resolve_connection V [] ''ports'' []) of ((adv, source, detail), (transport, host, _)) \<Rightarrow>
       answer_dict [(''host'', PyStr (if transport \<noteq> ''tunnel'' then host else [])), (''transport'', PyStr transport),
         (''source'', PyStr source), (''detail'', PyStr detail), (''reachable'', PyBool (adv \<noteq> []))])"

section \<open>Join codes\<close>

definition AUTH_OFF_DETAIL :: string where
  "AUTH_OFF_DETAIL = ''this server enforces no authentication (AUTH_ENABLED=false), so there is no key to issue. Run: firekeep install --host <host>. To require keys, set AUTH_ENABLED=true on the server and reissue the code.''"

definition hex_n :: "nat \<Rightarrow> string \<Rightarrow> bool" where
  "hex_n n s \<longleftrightarrow> length s = n \<and> list_all hex_char_ok s"

text \<open>an error of the named exception class, with its status, as the response\<close>

definition error_status :: "string \<Rightarrow> string \<Rightarrow> int option" where
  "error_status cls code = (if code = cls @ '' 404'' then Some 404 else if code = cls @ '' 409'' then Some 409 else None)"

definition answering_errors :: "string \<Rightarrow> http_reply handler \<Rightarrow> http_reply handler" where
  "answering_errors cls p = catching p (\<lambda>e. case e of
     HandsError code m \<Rightarrow> (case error_status cls code of Some st \<Rightarrow> http_error st m | None \<Rightarrow> Ret (Inl e)) | OtherError m \<Rightarrow> Ret (Inl e))"

definition enroll_invite ::
  "clockwork \<Rightarrow> relay \<Rightarrow> enroll_settings \<Rightarrow> site \<Rightarrow> arrival \<Rightarrow> (string \<Rightarrow> string list) \<Rightarrow> invite_request \<Rightarrow> string \<Rightarrow> rat \<Rightarrow> http_reply handler" where
  "enroll_invite X R E V a scans q ticket now = admin_route X R a (\<lambda>ident.
     if \<not> d_auth (r_dep R) then http_error 409 AUTH_OFF_DETAIL
     else (case connection_of V q of Inl m \<Rightarrow> http_error 400 m
       | Inr N \<Rightarrow> answering_errors ''InviteMemberError''
           (and_then (invite_member scans (i_device q) (ident_text R ident ''member_id'') (ident_text R ident ''workspace_id'')) (\<lambda>member_id.
             and_then (mint_invite X R E (i_agent q) N (i_ca_mode q) (''credential:'' @ ident_text R ident ''credential_id'') member_id
               (i_days q) (i_device q) (i_dist q) ticket now) (\<lambda>d. answer_dict d)))))"

definition enroll_list_invites :: "clockwork \<Rightarrow> relay \<Rightarrow> arrival \<Rightarrow> rat \<Rightarrow> http_reply handler" where
  "enroll_list_invites X R a now = admin_route X R a (\<lambda>_.
     and_then (list_outstanding now 100) (\<lambda>rows. answer_dict [(''invites'', PyList rows), (''count'', PyInt (int (length rows)))]))"

definition enroll_cancel_invite :: "clockwork \<Rightarrow> relay \<Rightarrow> arrival \<Rightarrow> string \<Rightarrow> http_reply handler" where
  "enroll_cancel_invite X R a tid = admin_route X R a (\<lambda>_.
     if \<not> hex_n 16 tid then http_error 404 ''enrollment invite not found''
     else and_then (cancel_ticket tid) (\<lambda>deleted. if \<not> deleted then http_error 404 ''enrollment invite not found''
       else answer_dict [(''status'', PyStr ''cancelled''), (''tid'', PyStr tid)]))"

definition enroll_anchor_route :: "string \<Rightarrow> http_reply handler" where
  "enroll_anchor_route tid = and_then (enroll_anchor tid) (\<lambda>ca. case ca of
     Some pem \<Rightarrow> if pem = [] then http_error 404 ''enrollment anchor not found'' else answer_dict [(''ca_pem'', PyStr pem)]
   | None \<Rightarrow> http_error 404 ''enrollment anchor not found'')"

section \<open>Redemption\<close>

text \<open>the word at a place of the script's answer\<close>

definition word_or :: "string list \<Rightarrow> nat \<Rightarrow> string \<Rightarrow> string" where
  "word_or ws i d = (if i < length ws then ws ! i else d)"

definition enroll_detail :: "enroll_settings \<Rightarrow> string \<Rightarrow> string list \<Rightarrow> fields \<Rightarrow> string \<Rightarrow> int \<times> string" where
  "enroll_detail E outcome ws ticket tid =
     (let issuer = text_or ticket ''issuer'' ''the issuer'' in
      if outcome = ''unknown'' then (404, ''the server does not recognise this join code'' @ (if tid = [] then [] else '' (ticket '' @ tid @ '')'')
        @ ''. Either it was used more than '' @ str_of_int (e_tombstone_days E) @ '' days ago, or it was mistyped. Ask '' @ issuer @ '' for a new one.'')
      else if outcome = ''used'' then (409, ''this join code was already redeemed at '' @ word_or ws 0 ''an unknown time''
        @ '' by a different device, issuing credential '' @ word_or ws 1 ''unknown'' @ ''. Join codes are single-use. If that was not you, tell ''
        @ issuer @ '' -- that credential should be revoked: deploy/firekeep-admin keys revoke '' @ word_or ws 1 ''unknown'')
      else if outcome = ''expired'' then (410, ''this join code expired at '' @ word_or ws 0 (text_or ticket ''expires_at'' ''unknown'')
        @ ''. Join codes are valid for '' @ str_of_int (e_ttl_hours E) @ ''h. Ask '' @ issuer @ '' for a new one.'')
      else if outcome = ''cred_exists'' then (409, ''that credential is already registered on this server. Your join code was not spent.'')
      else if outcome = ''credential_gone'' then (409, ''this join code was redeemed and the credential it issued is no longer present on the server (credential ''
        @ word_or ws 1 ''unknown'' @ ''; revoked, or expired and reaped). Ask '' @ issuer @ '' for a new code.'')
      else if outcome = ''rate'' then (429, ''the server is refusing enrollment attempts right now (rate limit). Your code was NOT used. Retry in a minute.'')
      else if outcome = ''scope_violation'' then (500, ''this join code asks for privileges the server refuses to enroll. Nothing was issued. Tell ''
        @ issuer @ '': the ticket was hand-edited or minted by a mismatched tool version.'')
      else if outcome = ''member_inactive'' then (409, ''this join code belongs to member '' @ word_or ws 0 ''unknown''
        @ '', who is no longer active in this workspace. The code was NOT used. Ask '' @ issuer @ '' for a new one.'')
      else if outcome = ''unattributed'' then (409, ''this join code was issued before this server recorded which member a code belongs to, so it cannot be redeemed safely. The code was NOT used. Ask ''
        @ issuer @ '' for a new one.'')
      else (409, ''the enrollment ticket changed while it was being redeemed; retry''))"

text \<open>\<open>re.sub(r"[^A-Za-z0-9_.-]+", "-", s)\<close> and the trimming around it\<close>

fun dashed :: "bool \<Rightarrow> string \<Rightarrow> string" where
  "dashed after [] = []"
| "dashed after (c # s) = (if id_char c then c # dashed False s else if after then dashed True s else CHR ''-'' # dashed True s)"

definition trim_right :: "string \<Rightarrow> string" where
  "trim_right s = rev (dropWhile (\<lambda>c. c \<in> set ''-._'') (rev s))"

definition trim_both :: "string \<Rightarrow> string" where
  "trim_both s = trim_right (dropWhile (\<lambda>c. c \<in> set ''-._'') s)"

definition suggested_agent_id :: "fields \<Rightarrow> string option \<Rightarrow> string option" where
  "suggested_agent_id ticket hostname =
     (case hostname of None \<Rightarrow> None
      | Some h \<Rightarrow> if h = [] \<or> 64 < length h \<or> \<not> list_all id_char h then None
          else (let short_host = py_lower (takeWhile (\<lambda>c. c \<noteq> CHR ''.'') h);
                    label = py_lower (trim_both (dashed False (py_strip (text_at ticket ''agent_label'')))) in
            Some (trim_right (take 64 (if label = [] then short_host else label @ ''-'' @ short_host)))))"

text \<open>where the device connects: a missing field of the ticket raises\<close>

definition redeem_answer :: "relay \<Rightarrow> site \<Rightarrow> string \<Rightarrow> string list \<Rightarrow> fields \<Rightarrow> string option \<Rightarrow> http_reply handler" where
  "redeem_answer R V outcome ws ticket hostname =
     loaded R (text_or ticket ''scopes'' ''[]'') (\<lambda>scopes.
       case bindR (field_of ticket ''kind'') (\<lambda>k. bindR (field_of ticket (if k = ''ports'' then ''host'' else ''base_url''))
              (\<lambda>dest. Inr (k, dest))) of
         Inl e \<Rightarrow> Ret (Inl e)
       | Inr (k, dest) \<Rightarrow> answer_dict ([(''device_id'', PyStr (word_or ws 1 [])), (''credential_id'', PyStr (word_or ws 0 [])),
           (''suggested_agent_id'', opt_text (suggested_agent_id ticket hostname)), (''scopes'', scopes), (''kind'', PyStr k),
           (''credential_expires_at'', opt_text (map_of ticket ''issued_credential_expires_at'')),
           (''server_version'', PyStr (s_version V)), (''replay'', PyBool (outcome = ''replay'')),
           (if k = ''ports'' then ''host'' else ''base_url'', PyStr dest)]
           @ (if text_at ticket ''ca_pem'' = [] then [] else [(''ca_pem'', PyStr (text_at ticket ''ca_pem''))])))"

text \<open>the bounds of \<open>slowapi\<close>'s limiter are not modelled\<close>

definition redeem ::
  "clockwork \<Rightarrow> relay \<Rightarrow> enroll_settings \<Rightarrow> site \<Rightarrow> string \<Rightarrow> string \<Rightarrow> string \<Rightarrow> string option \<Rightarrow> string \<Rightarrow> string \<Rightarrow> rat
     \<Rightarrow> http_reply handler" where
  "redeem X R E V ticket credential_hash device_nonce hostname credential_id new_device now =
     (if \<not> d_auth (r_dep R) then http_error 409 AUTH_OFF_DETAIL
      else if \<not> hex_n 64 credential_hash then
        http_error 400 ''this client sent a malformed credential fingerprint. Nothing was redeemed. Run: firekeep update -- and if it persists, report it.''
      else if \<not> hex_n 16 device_nonce then http_error 400 ''this client sent a malformed device nonce. Nothing was redeemed.''
      else (case ticket_id X ticket of Inl e \<Rightarrow> http_error 400 ''malformed enrollment ticket''
        | Inr tid \<Rightarrow> and_then (consume_ticket X R E ticket credential_hash device_nonce credential_id new_device now)
            (\<lambda>(outcome, ws, snap).
              if outcome \<notin> {''ok'', ''replay''} then (case enroll_detail E outcome ws snap tid of (st, m) \<Rightarrow> http_error st m)
              else if snap = [] then http_error 500 ''enrollment metadata disappeared''
              else redeem_answer R V outcome ws snap hostname)))"

section \<open>Members\<close>

definition remove_workspace_member :: "clockwork \<Rightarrow> relay \<Rightarrow> arrival \<Rightarrow> scans \<Rightarrow> string \<Rightarrow> rat \<Rightarrow> http_reply handler" where
  "remove_workspace_member X R a S member_id now = admin_route X R a (\<lambda>ident.
     answering_errors ''MemberRemovalError''
       (and_then (remove_member X R S now member_id (d_workspace (r_dep R)) (d_owner (r_dep R))
          (''credential:'' @ ident_text R ident ''credential_id'') (Some (ident_text R ident ''member_id''))) (\<lambda>d. answer_dict d)))"

definition restore_workspace_member ::
  "clockwork \<Rightarrow> relay \<Rightarrow> enroll_settings \<Rightarrow> site \<Rightarrow> arrival \<Rightarrow> string \<Rightarrow> invite_request \<Rightarrow> string \<Rightarrow> rat \<Rightarrow> http_reply handler" where
  "restore_workspace_member X R E V a member_id q ticket now = admin_route X R a (\<lambda>ident.
     case connection_of V q of Inl m \<Rightarrow> http_error 400 m
     | Inr N \<Rightarrow> redis_call (HGETALL (member_key member_id)) (\<lambda>r. let row = reply_pairs r in
         if row \<noteq> [] \<and> map_of row ''workspace_id'' = Some (d_workspace (r_dep R)) \<and> map_of row ''status'' \<noteq> Some STATUS_REMOVED then
           http_error 409 (''member '' @ member_id @ '' is not removed; only a removed member can be restored'')
         else answering_errors ''MemberRemovalError''
           (and_then (restore_member X now member_id (d_workspace (r_dep R)) (''credential:'' @ ident_text R ident ''credential_id'')) (\<lambda>membership.
             and_then (mint_invite X R E (text_at membership ''label'') N (i_ca_mode q) (''credential:'' @ ident_text R ident ''credential_id'')
               member_id (i_days q) [] (i_dist q) ticket now) (\<lambda>minted.
               answer_dict (dict_merge [(''member_id'', PyStr member_id), (''membership'', PyDict (texts_dict membership))] minted))))))"

end
