(* ===== verification/Auth_History.thy ===== *)
theory Auth_History
  imports Relay_Inbox
begin

text \<open>
  Which keyspaces the replies of a request came from: along a run, every thread is where its program
  leads with replies of the store at growing moments of the run, or errors.
\<close>

section \<open>Where a program leads\<close>

text \<open>
  \<open>p'\<close> is what remains of \<open>p\<close> after some of its commands, each answered by one of the keyspaces of
  the list, in their order, or by an error
\<close>

primrec leads_to :: "(op, 'a) prog \<Rightarrow> keyspace list \<Rightarrow> (op, 'a) prog \<Rightarrow> bool" where
  "leads_to (Ret a) Ks p' \<longleftrightarrow> p' = Ret a"
| "leads_to (Do c k) Ks p' \<longleftrightarrow> p' = Do c k \<or> (\<exists>m. leads_to (k (RErr m)) Ks p') \<or>
     (\<exists>As K Bs. Ks = As @ K # Bs \<and> leads_to (k (fst (kdo c K))) Bs p')"

lemma leads_to_refl [simp]: "leads_to p Ks p"
  by (cases p) auto

lemma leads_to_later: "leads_to p Ks p' \<Longrightarrow> leads_to p (Js @ Ks) p'"
proof (induction p arbitrary: Ks)
  case (Do c k)
  from Do.prems consider "p' = Do c k" | m where "leads_to (k (RErr m)) Ks p'"
    | As K Bs where "Ks = As @ K # Bs" "leads_to (k (fst (kdo c K))) Bs p'" by auto
  then show ?case
  proof cases
    case (2 m)
    then have "leads_to (k (RErr m)) (Js @ Ks) p'" by (intro Do.IH) auto
    then show ?thesis by auto
  next
    case (3 As K Bs)
    then show ?thesis by (auto intro: exI [of _ "Js @ As"])
  qed simp
qed simp

lemma leads_to_trans: "leads_to p As p' \<Longrightarrow> leads_to p' Bs p'' \<Longrightarrow> leads_to p (As @ Bs) p''"
proof (induction p arbitrary: As)
  case (Ret a)
  then show ?case by simp
next
  case (Do c k)
  from Do.prems(1) consider "p' = Do c k" | m where "leads_to (k (RErr m)) As p'"
    | Cs K Ds where "As = Cs @ K # Ds" "leads_to (k (fst (kdo c K))) Ds p'" by auto
  then show ?case
  proof cases
    case 1
    with leads_to_later [OF Do.prems(2), of As] show ?thesis by simp
  next
    case (2 m)
    with Do.IH [of "k (RErr m)" As] Do.prems(2) have "leads_to (k (RErr m)) (As @ Bs) p''" by auto
    then show ?thesis by auto
  next
    case (3 Cs K Ds)
    with Do.IH [of "k (fst (kdo c K))" Ds] Do.prems(2) have "leads_to (k (fst (kdo c K))) (Ds @ Bs) p''" by auto
    with 3(1) show ?thesis by auto
  qed
qed

section \<open>The keyspaces of a run\<close>

text \<open>what a client would see before each turn\<close>

primrec views :: "'s server \<Rightarrow> ('q \<Rightarrow> 'a handler) \<Rightarrow> 'q turn list \<Rightarrow> ('s, 'a) sys \<Rightarrow> keyspace list" where
  "views srv h [] sy = []"
| "views srv h (t # ts) sy = view srv (fst sy) # views srv h ts (advance srv h t sy)"

lemma views_append: "views srv h (ts @ us) sy = views srv h ts sy @ views srv h us (run_ops (advance srv h) ts sy)"
  by (induction ts arbitrary: sy) simp_all

lemma length_views [simp]: "length (views srv h ts sy) = length ts"
  by (induction ts arbitrary: sy) simp_all

lemma views_nth: "n < length ts \<Longrightarrow> views srv h ts sy ! n = view srv (fst (run_ops (advance srv h) (take n ts) sy))"
  by (induction ts arbitrary: sy n) (auto simp: nth_Cons split: nat.split)

context redis begin

lemma turn_leads:
  assumes "i < length (snd (advance srv h t sy))"
  shows "leads_to (if i < length (snd sy) then snd sy ! i else h (started [t] ! (i - length (snd sy)))) [view srv (fst sy)]
    (snd (advance srv h t sy) ! i)"
proof -
  have one: "leads_to (Do c k) [view srv (fst sy)] (k r)"
    if "r = fst (do_op srv c (fst sy)) \<or> (\<exists>m. r = RErr m)" for c k r
    using that
  proof
    assume "r = fst (do_op srv c (fst sy))"
    then have "[view srv (fst sy)] = [] @ view srv (fst sy) # [] \<and> leads_to (k (fst (kdo c (view srv (fst sy))))) [] (k r)"
      by (simp add: op_doc)
    then show ?thesis unfolding leads_to.simps by blast
  next
    assume "\<exists>m. r = RErr m"
    then show ?thesis unfolding leads_to.simps by (metis leads_to_refl)
  qed
  show ?thesis
    using turn_cases [of t h sy]
  proof cases
    case (start q)
    with assms show ?thesis by (auto simp: nth_append)
  next
    case (fail j c k m)
    with assms one [of "RErr m" c k] show ?thesis by (auto simp: nth_list_update)
  next
    case (command j c k r)
    with assms one [of r c k] show ?thesis by (auto simp: nth_list_update)
  qed (use assms in simp_all)
qed

lemma run_leads:
  assumes "i < length (snd (run_ops (advance srv h) ts sy))"
  shows "leads_to (if i < length (snd sy) then snd sy ! i else h (started ts ! (i - length (snd sy)))) (views srv h ts sy)
    (snd (run_ops (advance srv h) ts sy) ! i)"
  using assms
proof (induction ts arbitrary: sy)
  case Nil
  then show ?case by simp
next
  case (Cons t ts)
  let ?sy = "advance srv h t sy"
  have threads: "length (snd ?sy) = length (snd sy) + length (started [t])"
    using advance_threads [of srv h t sy] by auto
  have st: "started (t # ts) = started [t] @ started ts" by (cases t) auto
  have rest: "leads_to (if i < length (snd ?sy) then snd ?sy ! i else h (started ts ! (i - length (snd ?sy)))) (views srv h ts ?sy)
      (snd (run_ops (advance srv h) (t # ts) sy) ! i)"
    using Cons.IH [of ?sy] Cons.prems by simp
  show ?case
  proof (cases "i < length (snd ?sy)")
    case True
    have "leads_to (if i < length (snd sy) then snd sy ! i else h (started [t] ! (i - length (snd sy)))) [view srv (fst sy)]
        (snd ?sy ! i)"
      by (rule turn_leads [OF True])
    from leads_to_trans [OF this, of "views srv h ts ?sy"] rest True threads show ?thesis
      by (auto simp: st nth_append split: if_splits)
  next
    case False
    with rest threads have "leads_to (h (started ts ! (i - length (snd ?sy)))) (views srv h ts ?sy) (snd (run_ops (advance srv h) (t # ts) sy) ! i)"
      by simp
    from leads_to_later [OF this, of "[view srv (fst sy)]"] False threads show ?thesis
      by (auto simp: st nth_append)
  qed
qed

text \<open>a request that starts at some moment hears only what the store says from then on\<close>

lemma later_request_leads:
  assumes "sy = run_ops (advance srv h) (before @ after) (s, [])" and "j < length (snd sy)" and "length (started before) \<le> j"
  shows "leads_to (h (started (before @ after) ! j)) (views srv h after (run_ops (advance srv h) before (s, []))) (snd sy ! j)"
proof -
  let ?mid = "run_ops (advance srv h) before (s, [])"
  have threads: "length (snd ?mid) = length (started before)"
    using results_yield [of "\<lambda>q a. True" h before srv s] by (auto dest: list_all2_lengthD)
  have sy: "sy = run_ops (advance srv h) after ?mid" using assms(1) by (simp add: run_ops_append)
  from run_leads [of j h after ?mid] assms(2,3) show ?thesis
    by (simp add: sy threads started_append nth_append)
qed

end

section \<open>Composed programs\<close>

lemma leads_to_result:
  "leads_to (bindP p f) Ks (Ret b) \<Longrightarrow> \<exists>a As Bs. Ks = As @ Bs \<and> leads_to p As (Ret a) \<and> leads_to (f a) Bs (Ret b)"
proof (induction p arbitrary: Ks)
  case (Ret a)
  then show ?case by (auto intro: exI [of _ "[]"])
next
  case (Do c k)
  from Do.prems consider m where "leads_to (bindP (k (RErr m)) f) Ks (Ret b)"
    | As K Bs where "Ks = As @ K # Bs" "leads_to (bindP (k (fst (kdo c K))) f) Bs (Ret b)" by auto
  then show ?case
  proof cases
    case (1 m)
    from Do.IH [OF _ 1] obtain a As Bs where "Ks = As @ Bs" "leads_to (k (RErr m)) As (Ret a)" "leads_to (f a) Bs (Ret b)" by auto
    then show ?thesis by auto
  next
    case (2 As K Bs)
    from Do.IH [OF _ 2(2)] obtain a Cs Ds where "Bs = Cs @ Ds" "leads_to (k (fst (kdo c K))) Cs (Ret a)" "leads_to (f a) Ds (Ret b)"
      by auto
    with 2(1) have "Ks = (As @ K # Cs) @ Ds \<and> leads_to (Do c k) (As @ K # Cs) (Ret a) \<and> leads_to (f a) Ds (Ret b)" by auto
    then show ?thesis by blast
  qed
qed

lemma leads_to_and_then:
  assumes "leads_to (and_then p f) Ks (Ret r)"
  obtains (fails) e where "r = Inl e" and "leads_to p Ks (Ret (Inl e))"
    | (goes) a As Bs where "Ks = As @ Bs" and "leads_to p As (Ret (Inr a))" and "leads_to (f a) Bs (Ret r)"
proof -
  from leads_to_result [OF assms [unfolded and_then_def]] obtain a As Bs
    where Ks: "Ks = As @ Bs" and p: "leads_to p As (Ret a)" and f: "leads_to (case a of Inl e \<Rightarrow> Ret (Inl e) | Inr a \<Rightarrow> f a) Bs (Ret r)"
    by blast
  show thesis
  proof (cases a)
    case (Inl e)
    with leads_to_trans [OF p leads_to_refl, of Bs] Ks f fails show ?thesis by simp
  next
    case (Inr b)
    with goes [OF Ks] p f show ?thesis by simp
  qed
qed

lemma leads_to_catching:
  assumes "leads_to (catching p h) Ks (Ret r)"
  obtains (fine) a As Bs where "Ks = As @ Bs" and "leads_to p As (Ret (Inr a))" and "r = Inr a"
    | (caught) e As Bs where "Ks = As @ Bs" and "leads_to p As (Ret (Inl e))" and "leads_to (h e) Bs (Ret r)"
proof -
  from leads_to_result [OF assms [unfolded catching_def]] obtain a As Bs
    where "Ks = As @ Bs" "leads_to p As (Ret a)" "leads_to (case a of Inl e \<Rightarrow> h e | Inr a \<Rightarrow> Ret (Inr a)) Bs (Ret r)" by blast
  with that show thesis by (cases a) auto
qed

lemma leads_to_ask_op:
  assumes "leads_to (ask_op c k) Ks (Ret r)"
  obtains (fails) m where "r = Inl (OtherError m)"
    | (goes) As K Bs where "Ks = As @ K # Bs" and "leads_to (k (fst (kdo c K))) Bs (Ret r)" and "\<And>m. fst (kdo c K) \<noteq> RErr m"
proof -
  have split: "leads_to (case x of RErr m \<Rightarrow> raises m | _ \<Rightarrow> k x) Bs (Ret r) \<Longrightarrow>
      (\<exists>m. r = Inl (OtherError m)) \<or> leads_to (k x) Bs (Ret r) \<and> (\<forall>m. x \<noteq> RErr m)" for x Bs
    by (cases x) simp_all
  from assms consider m where "leads_to (raises m) Ks (Ret r)"
    | As K Bs where "Ks = As @ K # Bs" "leads_to (case fst (kdo c K) of RErr m \<Rightarrow> raises m | _ \<Rightarrow> k (fst (kdo c K))) Bs (Ret r)"
    unfolding ask_op_def leads_to.simps by auto
  then show thesis
  proof cases
    case 1
    then show ?thesis by (intro fails) simp
  next
    case (2 As K Bs)
    from split [OF 2(2)] fails goes [OF 2(1)] show ?thesis by blast
  qed
qed

end
