(* ===== verification/Auth_Service.thy ===== *)
theory Auth_Service
  imports Auth_Routes Auth_History
begin

text \<open>
  The requests that reach the authentication store and the handler of each, what each may write, and
  what a check that succeeded has read.
\<close>

section \<open>Requests\<close>

datatype auth_request =
    Arrive gate arrival \<comment> \<open>any request to a gated service\<close>
  | CreateKey arrival string "string list" "int option" string string rat
  | ListKeys arrival "string \<Rightarrow> string list" int
  | RevokeKey arrival "string list" string
  | RenameKey arrival "string list" string string
  | ListScopes arrival
  | EnrollDefaults arrival
  | EnrollInvite arrival "string \<Rightarrow> string list" invite_request string rat
  | EnrollList arrival rat
  | EnrollCancel arrival string
  | EnrollAnchor string
  | Redeem string string string "string option" string string rat
  | RemoveMember arrival scans string rat
  | RestoreMember arrival string invite_request string rat
  | EnsureWorkspace rat rat
  | AttributeUnowned "string list" rat
  | BackfillCredentials "string \<Rightarrow> string list"

datatype auth_result = Verdict verdict | Response http_reply | Migrated

definition answering :: "('a \<Rightarrow> auth_result) \<Rightarrow> 'a handler \<Rightarrow> auth_result handler" where
  "answering f p = and_then p (\<lambda>a. Ret (Inr (f a)))"

fun auth_handle :: "clockwork \<Rightarrow> relay \<Rightarrow> enroll_settings \<Rightarrow> site \<Rightarrow> auth_request \<Rightarrow> auth_result handler" where
  "auth_handle X R E V (Arrive G a) = answering Verdict (middleware X R G a)"
| "auth_handle X R E V (CreateKey a agent scopes days key cid t) = answering Response (create_api_key X R a agent scopes days key cid t)"
| "auth_handle X R E V (ListKeys a scans limit) = answering Response (list_api_keys X R a scans limit)"
| "auth_handle X R E V (RevokeKey a scanned kid) = answering Response (revoke_api_key X R a scanned kid)"
| "auth_handle X R E V (RenameKey a scanned kid label) = answering Response (rename_api_key_device X R a scanned kid label)"
| "auth_handle X R E V (ListScopes a) = answering Response (list_scopes X R a)"
| "auth_handle X R E V (EnrollDefaults a) = answering Response (enroll_defaults X R V a)"
| "auth_handle X R E V (EnrollInvite a scans q ticket t) = answering Response (enroll_invite X R E V a scans q ticket t)"
| "auth_handle X R E V (EnrollList a t) = answering Response (enroll_list_invites X R a t)"
| "auth_handle X R E V (EnrollCancel a tid) = answering Response (enroll_cancel_invite X R a tid)"
| "auth_handle X R E V (EnrollAnchor tid) = answering Response (enroll_anchor_route tid)"
| "auth_handle X R E V (Redeem ticket hash nonce host cid dev t) = answering Response (redeem X R E V ticket hash nonce host cid dev t)"
| "auth_handle X R E V (RemoveMember a S m t) = answering Response (remove_workspace_member X R a S m t)"
| "auth_handle X R E V (RestoreMember a m q ticket t) = answering Response (restore_workspace_member X R E V a m q ticket t)"
| "auth_handle X R E V (EnsureWorkspace t t') = answering (\<lambda>_. Migrated) (ensure_workspace X R t t')"
| "auth_handle X R E V (AttributeUnowned scanned t) = answering (\<lambda>_. Migrated) (attribute_unowned_credentials R scanned t)"
| "auth_handle X R E V (BackfillCredentials scans) = answering (\<lambda>_. Migrated) (backfill_credentials R scans)"

text \<open>a request the gate lets through unseen\<close>

definition ungated :: "gate \<Rightarrow> arrival \<Rightarrow> bool" where
  "ungated G a \<longleftrightarrow> \<not> w_http a \<or> \<not> g_enabled G \<or> w_path a \<in> set (g_skip_exact G) \<or> list_ex (starts_with (w_path a)) (g_skip_paths G)"

section \<open>What a check has read\<close>

text \<open>the record of a key at some moment, good for a caller at the time of its request\<close>

definition good_record :: "clockwork \<Rightarrow> relay \<Rightarrow> rat \<Rightarrow> string \<Rightarrow> fields \<Rightarrow> keyspace \<Rightarrow> bool" where
  "good_record X R now key_hash data K \<longleftrightarrow> data \<noteq> [] \<and> hash_at (K (auth_key key_hash)) = Some data
     \<and> expiry_refusal X now data = None \<and> \<not> unattributed data \<and> text_at data ''workspace_id'' = d_workspace (r_dep R)"

definition active_member :: "string \<Rightarrow> string \<Rightarrow> keyspace \<Rightarrow> bool" where
  "active_member m w K \<longleftrightarrow> (\<exists>h. hash_at (K (member_key m)) = Some h \<and> member_active h m w)"

lemma hgetall_reply:
  assumes "\<And>m. fst (kdo (Cmd (HGETALL k)) K) \<noteq> RErr m"
  shows "hash_at (K k) = Some (reply_pairs (fst (kdo (Cmd (HGETALL k)) K)))"
  using assms by (cases "hash_at (K k)") (auto simp: wrongtype_def reply_pairs_def)

text \<open>an identity comes from a good record and, later, an active member\<close>

definition vouched :: "clockwork \<Rightarrow> relay \<Rightarrow> rat \<Rightarrow> string \<Rightarrow> keyspace list \<Rightarrow> pydict \<Rightarrow> bool" where
  "vouched X R now key_hash Ks d \<longleftrightarrow> (\<exists>As K Bs K' Cs data scopes. Ks = As @ K # Bs @ K' # Cs \<and> good_record X R now key_hash data K
     \<and> active_member (text_at data ''member_id'') (text_at data ''workspace_id'') K'
     \<and> parse_scopes R (map_of data ''scopes'') = Some scopes \<and> d = identity data scopes)"

lemma vouched_more: "vouched X R now h Ks d \<Longrightarrow> vouched X R now h (As @ Ks @ Bs) d"
  unfolding vouched_def by (metis append.assoc append_Cons)

lemma check_record_vouches:
  assumes "leads_to (check_record X R now h) Ks (Ret (Inr (Some d, why)))"
  shows "vouched X R now h Ks d"
  using assms unfolding check_record_def
proof (cases rule: leads_to_ask_op)
  case (goes As K Bs)
  let ?data = "reply_pairs (fst (kdo (Cmd (HGETALL (auth_key h))) K))"
  from goes(2) have good: "good_record X R now h ?data K"
    and rest: "leads_to (redis_call (HGETALL (member_key (text_at ?data ''member_id''))) (\<lambda>r'.
           if \<not> member_active (reply_pairs r') (text_at ?data ''member_id'') (text_at ?data ''workspace_id'') then
             Ret (Inr (None, Some (''API key's member '' @ text_at ?data ''member_id'' @ '' is not active in this workspace'')))
           else (case parse_scopes R (map_of ?data ''scopes'') of
              None \<Rightarrow> Ret (Inr (None, Some ''API key has a malformed scope document; refused''))
            | Some scopes \<Rightarrow> Ret (Inr (Some (identity ?data scopes), None))))) Bs (Ret (Inr (Some d, why)))"
    using hgetall_reply [OF goes(3)] by (auto simp: good_record_def Let_def simp del: kdo_simps split: if_splits option.splits)
  from rest show ?thesis
  proof (cases rule: leads_to_ask_op)
    case more: (goes Bs' K' Cs)
    let ?member = "reply_pairs (fst (kdo (Cmd (HGETALL (member_key (text_at ?data ''member_id'')))) K'))"
    from more(2) have active: "member_active ?member (text_at ?data ''member_id'') (text_at ?data ''workspace_id'')"
      by (simp del: kdo_simps split: if_splits)
    with more(2) obtain scopes where sc: "parse_scopes R (map_of ?data ''scopes'') = Some scopes" and d: "d = identity ?data scopes"
      by (auto simp del: kdo_simps split: option.splits)
    from active hgetall_reply [OF more(3)]
    have "active_member (text_at ?data ''member_id'') (text_at ?data ''workspace_id'') K'"
      unfolding active_member_def by blast
    with good sc d goes(1) more(1) show ?thesis unfolding vouched_def by blast
  qed simp
qed simp

lemma validate_key_vouches:
  assumes "leads_to (validate_key X R now key) Ks (Ret (Inr (Some d)))"
  shows "vouched X R now (k_sha X key) Ks d"
  using assms unfolding validate_key_def validate_key_by_hash_def
proof (cases rule: leads_to_and_then)
  case (goes a As Bs)
  then obtain why where "a = (Some d, why)" by (cases a) auto
  with goes check_record_vouches [of X R now "k_sha X key" As d why] vouched_more [of X R now "k_sha X key" As d "[]" Bs]
  show ?thesis by simp
qed simp

end
