(* ===== verification/Auth_Writes.thy ===== *)
theory Auth_Writes
  imports Auth_Service
begin

text \<open>
  The keys each request of the authentication store may write: families of keys for all of them, and
  the very commands that touch the row of a member or a join ticket.
\<close>

section \<open>Families of keys\<close>

definition key_family :: "string set" where
  "key_family = range auth_key \<union> range cred_key \<union> {KEY_INDEX, CREDENTIAL_MIGRATION_KEY}"

definition ticket_family :: "string set" where
  "ticket_family = range ticket_key \<union> {TICKET_INDEX}"

definition invite_family :: "string set" where
  "invite_family = {k. starts_with k INVITE_PREFIX} \<union> {INVITE_INDEX}"

definition owner_family :: "relay \<Rightarrow> string set" where
  "owner_family R = {WORKSPACE_KEY, MEMBER_INDEX, member_key (d_owner (r_dep R))}"

lemma in_key_family [simp]:
  "auth_key h \<in> key_family" "cred_key c \<in> key_family" "KEY_INDEX \<in> key_family" "CREDENTIAL_MIGRATION_KEY \<in> key_family"
  by (simp_all add: key_family_def)

lemma in_ticket_family [simp]: "ticket_key t \<in> ticket_family" "TICKET_INDEX \<in> ticket_family"
  by (simp_all add: ticket_family_def)

lemma starts_with_drop: "starts_with s p \<Longrightarrow> s = p @ drop (length p) s"
  by (auto simp: starts_with_iff)

lemma starts_auth_key: "starts_with k (auth_key h) \<Longrightarrow> k \<in> range auth_key"
  by (auto simp: auth_key_def starts_with_iff image_iff)

lemma record_key_auth: "record_key_ok k \<Longrightarrow> k \<in> range auth_key"
  using starts_auth_key [of k "[]"] by (simp add: record_key_ok_def prefixed_hex_def auth_key_def)

lemma ticket_key_scanned: "prefixed_hex TICKET_PREFIX 16 k \<Longrightarrow> k \<in> range ticket_key"
  by (auto simp: prefixed_hex_def ticket_key_def image_iff starts_with_iff)

lemma range_in_family: "k \<in> range auth_key \<Longrightarrow> k \<in> key_family" "k \<in> range ticket_key \<Longrightarrow> k \<in> ticket_family"
  by (auto simp: key_family_def ticket_family_def)

lemma families_apart:
  "member_key m \<notin> key_family" "member_key m \<notin> ticket_family" "member_key m \<notin> invite_family"
  "ticket_key t \<notin> key_family" "ticket_key t \<notin> invite_family" "ticket_key t \<notin> owner_family R"
  "auth_key h \<notin> ticket_family" "auth_key h \<notin> invite_family" "auth_key h \<notin> owner_family R"
  by (auto simp: key_family_def ticket_family_def invite_family_def owner_family_def member_key_def auth_key_def cred_key_def
      ticket_key_def KEY_INDEX_def CREDENTIAL_MIGRATION_KEY_def TICKET_PREFIX_def TICKET_INDEX_def INVITE_PREFIX_def INVITE_INDEX_def
      WORKSPACE_KEY_def MEMBER_INDEX_def starts_with_iff)

lemma keys_inject [simp]:
  "auth_key a = auth_key b \<longleftrightarrow> a = b" "cred_key a = cred_key b \<longleftrightarrow> a = b" "member_key a = member_key b \<longleftrightarrow> a = b"
  "ticket_key a = ticket_key b \<longleftrightarrow> a = b"
  by (simp_all add: auth_key_def cred_key_def member_key_def ticket_key_def)

section \<open>Rules for what follows a result\<close>

text \<open>every result that is no exception\<close>

definition gives :: "('a \<Rightarrow> bool) \<Rightarrow> 'a handler \<Rightarrow> bool" where
  "gives Q p \<longleftrightarrow> yields (case_sum (\<lambda>e. True) Q) p"

lemma gives_Ret [simp]: "gives Q (Ret (Inr a)) \<longleftrightarrow> Q a" "gives Q (Ret (Inl e))"
  by (simp_all add: gives_def)

lemma gives_ask_op: "(\<And>r. gives Q (k r)) \<Longrightarrow> gives Q (ask_op c k)"
  unfolding gives_def by (rule yields_ask_op) simp_all

lemma gives_and_then: "gives Q' p \<Longrightarrow> (\<And>a. Q' a \<Longrightarrow> gives Q (f a)) \<Longrightarrow> gives Q (and_then p f)"
  unfolding gives_def and_then_def by (erule yields_bindP) (auto split: sum.splits)

lemma gives_for_each:
  "(\<And>x a. x \<in> set xs \<Longrightarrow> Q a \<Longrightarrow> gives Q (f x a)) \<Longrightarrow> Q a \<Longrightarrow> gives Q (for_each xs f a)"
  by (induction xs arbitrary: a) (auto intro: gives_and_then)

lemma only_and_then_when:
  assumes "only P p" and "gives Q p" and "\<And>a. Q a \<Longrightarrow> only P (f a)"
  shows "only P (and_then p f)"
proof -
  have "only P p \<Longrightarrow> yields Q' p \<Longrightarrow> (\<And>a. Q' a \<Longrightarrow> only P (g a)) \<Longrightarrow> only P (bindP p g)" for g Q'
    by (induction p) auto
  from this [OF assms(1) assms(2) [unfolded gives_def], of "\<lambda>r. case r of Inl e \<Rightarrow> Ret (Inl e) | Inr a \<Rightarrow> f a"] assms(3)
  show ?thesis unfolding and_then_def by (auto split: sum.splits)
qed

lemma only_for_each_mem: "(\<And>x a. x \<in> set xs \<Longrightarrow> only P (f x a)) \<Longrightarrow> only P (for_each xs f a)"
  by (induction xs arbitrary: a) (auto intro: only_and_then)

lemma inside_multi: "list_all (\<lambda>d. case writes d of None \<Rightarrow> True | Some k \<Rightarrow> k \<in> F) cs \<Longrightarrow> inside F (Eval (multi cs rs))"
  by (intro inside_Eval only_multi)

section \<open>Finding a record\<close>

lemma verified_writes_nothing: "only (inside F) (verified_records kid ks found)"
  by (induction kid ks found rule: verified_records.induct) (auto intro!: only_intros)

lemma mapped_writes_nothing: "only (inside F) (mapped_record kid)"
  by (auto simp: mapped_record_def intro!: only_intros split: option.split)

lemma resolve_writes_nothing: "only (inside F) (resolve_key_id scanned kid)" "only (inside F) (credential_matches scanned kid)"
  by (auto simp: resolve_key_id_def credential_matches_def intro!: only_intros mapped_writes_nothing verified_writes_nothing split: option.split)

definition records_found :: "(string \<times> fields) list \<Rightarrow> bool" where
  "records_found ms \<longleftrightarrow> (\<forall>kd \<in> set ms. fst kd \<in> range auth_key)"

lemma verified_gives:
  "(\<forall>k \<in> set ks. k \<in> range auth_key) \<Longrightarrow> records_found found \<Longrightarrow> gives records_found (verified_records kid ks found)"
proof (induction kid ks found rule: verified_records.induct)
  case (2 kid k ks found)
  then show ?case by (auto simp: records_found_def intro!: gives_ask_op)
qed simp

lemma mapped_gives: "gives (\<lambda>m. case m of Some kd \<Rightarrow> fst kd \<in> range auth_key | None \<Rightarrow> True) (mapped_record kid)"
  by (auto simp: mapped_record_def intro!: gives_ask_op split: option.split)

lemma matching_keys: "k \<in> set (matching (auth_key h) scanned) \<Longrightarrow> k \<in> range auth_key"
  by (auto simp: matching_def dest: starts_auth_key)

lemma scanned_gives: "gives records_found (verified_records kid (matching (auth_key h) scanned) [])"
  by (rule verified_gives) (use matching_keys in \<open>auto simp: records_found_def\<close>)

lemma resolve_gives: "gives records_found (resolve_key_id scanned kid)" "gives records_found (credential_matches scanned kid)"
proof -
  have pick: "gives records_found (case m of Some found \<Rightarrow> Ret (Inr [found]) | None \<Rightarrow> verified_records kid (matching (auth_key h) scanned) [])"
    if "case m of Some kd \<Rightarrow> fst kd \<in> range auth_key | None \<Rightarrow> True" for m h
    using that scanned_gives [of kid h scanned] by (auto simp: records_found_def split: option.split)
  show "gives records_found (resolve_key_id scanned kid)"
    using gives_and_then [OF mapped_gives pick] by (simp add: resolve_key_id_def records_found_def)
  show "gives records_found (credential_matches scanned kid)"
    using gives_and_then [OF mapped_gives pick] by (simp add: credential_matches_def)
qed

lemmas only_when_resolved = only_and_then_when [OF resolve_writes_nothing(1) resolve_gives(1)]
lemmas only_when_matched = only_and_then_when [OF resolve_writes_nothing(2) resolve_gives(2)]

section \<open>What each operation writes\<close>

definition rate_family :: "string set" where
  "rate_family = {k. starts_with k RATE_PREFIX}"

lemma rate_key [simp]: "RATE_PREFIX @ s \<in> rate_family"
  by (simp add: rate_family_def starts_with_iff)

lemma member_not_rate: "member_key m \<notin> rate_family" "auth_key h \<notin> rate_family"
  by (auto simp: rate_family_def RATE_PREFIX_def member_key_def auth_key_def starts_with_iff)

text \<open>checks and readers write nothing\<close>

lemma checks_write_nothing [only_intros]:
  "only (inside F) (check_record X R t h)" "only (inside F) (validate_key_by_hash X R t h)" "only (inside F) (validate_key X R t key)"
  "only (inside F) (invalid_credential_detail X R t key)" "only (inside F) (require_scope X R sc a)" "only (inside F) (middleware X R G a)"
proof -
  show check: "only (inside F) (check_record X R t h)" for h t
    by (auto simp: check_record_def Let_def intro!: only_intros split: option.split)
  show "only (inside F) (validate_key_by_hash X R t h)" for h t
    by (auto simp: validate_key_by_hash_def intro!: only_intros check)
  then show valid: "only (inside F) (validate_key X R t key)" for t key by (simp add: validate_key_def)
  show detail: "only (inside F) (invalid_credential_detail X R t key)" for t key
    by (auto simp: invalid_credential_detail_def intro!: only_intros check)
  show "only (inside F) (require_scope X R sc a)"
    by (auto simp: require_scope_def intro!: only_intros valid detail split: option.split)
  show "only (inside F) (middleware X R G a)"
    by (auto simp: middleware_def intro!: only_intros valid detail split: option.split)
qed

lemma only_admin_route [only_intros]: "(\<And>ident. only (inside F) (p ident)) \<Longrightarrow> only (inside F) (admin_route X R a p)"
  by (auto simp: admin_route_def intro!: only_intros split: sum.split)

lemma only_answering [only_intros]: "only P p \<Longrightarrow> only P (answering f p)"
  by (auto simp: answering_def intro!: only_intros)

lemma only_answering_errors [only_intros]: "only P p \<Longrightarrow> only P (answering_errors cls p)"
  by (auto simp: answering_errors_def intro!: only_intros split: py_exc.split option.split)

lemma readers_write_nothing [only_intros]:
  "only (inside F) (key_row R b data)" "only (inside F) (list_keys R scans limit)" "only (inside F) (credential_records scanned c)"
  "only (inside F) (resolve_device_attribution scans dev)" "only (inside F) (load_member m w)" "only (inside F) (member_credentials ks m)"
  "only (inside F) (owner_holders w)" "only (inside F) (key_holders R ks w hs)" "only (inside F) (admin_holders R ks w)"
  "only (inside F) (get_ticket tid)" "only (inside F) (enroll_anchor tid)" "only (inside F) (list_outstanding t n)"
  "only (inside F) (invited_member scans dev i w)" "only (inside F) (invite_member scans dev i w)" "only (inside F) (ticket_after oc tid h snap)"
proof -
  show row: "only (inside F) (key_row R b data)" for b data
    by (auto simp: key_row_def loaded_def split: option.split)
  show "only (inside F) (list_keys R scans limit)"
    by (auto simp: list_keys_def intro!: only_intros row resolve_writes_nothing)
  show recs: "only (inside F) (credential_records scanned c)" for scanned c
    by (auto simp: credential_records_def intro!: only_intros)
  show dev: "only (inside F) (resolve_device_attribution scans dev)"
    by (auto simp: resolve_device_attribution_def intro!: only_intros recs split: list.split)
  show "only (inside F) (load_member m w)" by (auto simp: load_member_def Let_def intro!: only_intros)
  show "only (inside F) (member_credentials ks m)" by (auto simp: member_credentials_def intro!: only_intros)
  show holders: "only (inside F) (owner_holders w)" "only (inside F) (key_holders R ks w hs)" for hs
    by (auto simp: owner_holders_def key_holders_def Let_def intro!: only_intros)
  show "only (inside F) (admin_holders R ks w)" by (auto simp: admin_holders_def intro!: only_intros holders)
  show ticket: "only (inside F) (get_ticket tid)" by (auto simp: get_ticket_def intro!: only_intros)
  then show "only (inside F) (enroll_anchor tid)" by (auto simp: enroll_anchor_def intro!: only_intros)
  show "only (inside F) (list_outstanding t n)"
    by (auto simp: list_outstanding_def get_ticket_def intro!: only_intros split: option.split)
  show invited: "only (inside F) (invited_member scans dev i w)"
    by (auto simp: invited_member_def as_invite_error_def intro!: only_intros dev split: option.split py_exc.split)
  then show "only (inside F) (invite_member scans dev i w)"
    by (auto simp: invite_member_def Let_def intro!: only_intros)
  show "only (inside F) (ticket_after oc tid h snap)" by (auto simp: ticket_after_def intro!: only_intros ticket)
qed

text \<open>the operations on keys stay among the keys\<close>

lemma store_key_inside: "inside key_family (store_key_op h c md ttl t)"
  unfolding store_key_op_def by (rule inside_multi) (auto split: option.split)

lemma revoke_op_inside: "k \<in> range auth_key \<Longrightarrow> inside key_family (revoke_op k c i)"
  unfolding revoke_op_def by (rule inside_multi) (auto intro: range_in_family)

lemma key_operations [only_intros]:
  "only (inside key_family) (create_key X R ag sc days key cid t)" "only (inside key_family) (revoke_key scanned kid)"
  "only (inside key_family) (rename_device scanned kid label)" "only (inside key_family) (attribute_unowned_credentials R scanned t)"
  "only (inside key_family) (backfill_credentials R scans)"
proof -
  show "only (inside key_family) (create_key X R ag sc days key cid t)"
    by (auto simp: create_key_def Let_def intro!: only_intros store_key_inside)
  show "only (inside key_family) (revoke_key scanned kid)"
    unfolding revoke_key_def by (rule only_when_resolved)
      (auto simp: records_found_def split: list.split intro!: only_intros revoke_op_inside)
  show "only (inside key_family) (rename_device scanned kid label)"
    unfolding rename_device_def by (rule only_when_resolved)
      (auto simp: records_found_def split: list.split intro!: only_intros)
  show "only (inside key_family) (attribute_unowned_credentials R scanned t)"
    by (auto simp: attribute_unowned_credentials_def attribute_one_def Let_def simp del: multi.simps intro!: only_intros inside_multi
        dest!: record_key_auth)
  have "only (inside key_family) (backfill_one R scans c n)" for c n
    unfolding backfill_one_def by (rule only_when_matched)
      (auto simp: records_found_def Let_def split: list.split simp del: multi.simps intro!: only_intros inside_multi)
  then show "only (inside key_family) (backfill_credentials R scans)"
    by (auto simp: backfill_credentials_def intro!: only_intros)
qed

lemma ticket_operations [only_intros]:
  "only (inside ticket_family) (issue X R E l N iss d dv m tk t)" "only (inside ticket_family) (mint_invite X R E l N cm iss m d dv db tk t)"
  "only (inside ticket_family) (cancel_ticket tid)" "only (inside ticket_family) (cancel_code m k acc)"
proof -
  show issue: "only (inside ticket_family) (issue X R E l N iss d dv m tk t)"
    by (auto simp: issue_def issue_op_def simp del: multi.simps intro!: only_intros inside_multi split: sum.split)
  then show "only (inside ticket_family) (mint_invite X R E l N cm iss m d dv db tk t)"
    by (auto simp: mint_invite_def intro!: only_intros split: option.split sum.split)
  show "only (inside ticket_family) (cancel_ticket tid)"
    by (auto simp: cancel_ticket_def simp del: multi.simps intro!: only_intros inside_multi)
  show "only (inside ticket_family) (cancel_code m k acc)"
    by (auto simp: cancel_code_def simp del: multi.simps intro!: only_intros inside_multi dest!: ticket_key_scanned)
qed

lemma put_fields_only: "(\<And>d. P (HSET k d)) \<Longrightarrow> only P p \<Longrightarrow> only P (put_fields k fs p)"
  by (induction k fs p rule: put_fields.induct) (auto intro!: only_lua)

text \<open>the script: its rate counter, its ticket, the record, the mapping and the index\<close>

lemma consume_script_only:
  assumes "\<And>d. P (INCR (p_rate p))" "P (EXPIRE (p_rate p) 7200)" "\<And>k. P (EXISTS k)" "\<And>k f. P (HGET k f)" "\<And>d. P (HSET (p_record p) d)"
    "\<And>n. P (EXPIRE (p_record p) n)" "P (SET (p_cred p) (p_hash p) False None)" "\<And>n. P (EXPIRE (p_cred p) n)"
    "\<And>n. P (ZADD KEY_INDEX (p_credential p) n)" "\<And>d. P (HSET (p_ticket p) d)"
  shows "only P (consume_script X R p)"
proof -
  have register: "only P (register_script R p)"
    using assms(5-10) by (auto simp: register_script_def answer_def intro!: put_fields_only only_lua split: option.split pyval.split)
  have member: "only P (member_script R p)"
    using assms(3,4) by (auto simp: member_script_def answer_def intro!: only_lua register)
  have snapshot: "only P (snapshot_script R p ts)" for ts
    using assms(4) by (auto simp: snapshot_script_def answer_def intro!: only_lua member)
  have scope: "only P (scope_script R p)"
    using assms(4) by (auto simp: scope_script_def answer_def Let_def intro!: only_lua snapshot split: option.split reply.split)
  have spent: "only P (spent_script p u)" for u
    using assms(3,4) by (auto simp: spent_script_def answer_def intro!: only_lua)
  show ?thesis
    using assms(1-4) by (auto simp: consume_script_def answer_def intro!: only_lua scope spent split: option.split)
qed

lemma consume_inside:
  "inside (rate_family \<union> ticket_family \<union> key_family) (Eval (consume_script X R (redemption_of X R E tid h n snap c d t)))"
  by (rule inside_Eval, rule consume_script_only) (simp_all add: redemption_of_def Let_def)

lemma redeem_inside: "only (inside (rate_family \<union> ticket_family \<union> key_family)) (redeem X R E V tk h n host c d t)"
  by (auto simp: redeem_def consume_ticket_def redeem_answer_def loaded_def Let_def intro!: only_intros consume_inside
      split: sum.split option.split prod.split)

text \<open>the sweep after a removal\<close>

lemma member_credentials_gives: "gives records_found (member_credentials ks m)"
  unfolding member_credentials_def
  by (rule gives_for_each) (auto simp: records_found_def dest: record_key_auth intro!: gives_ask_op)

lemma revoke_invite_inside: "only (inside invite_family) (revoke_invite m k acc)"
  by (auto simp: revoke_invite_def prefixed_hex_def invite_family_def simp del: multi.simps intro!: only_intros inside_multi)

lemma sweep_inside: "only (inside (key_family \<union> ticket_family \<union> invite_family)) (sweep_member S m b)"
  unfolding sweep_member_def
proof (rule only_and_then_when [OF readers_write_nothing(6) member_credentials_gives])
  fix creds
  assume found: "records_found creds"
  have "only (inside (key_family \<union> ticket_family \<union> invite_family)) (revoke_credential kd acc)" if "kd \<in> set creds" for kd acc
    using found that by (auto simp: revoke_credential_def records_found_def Let_def simp del: multi.simps intro!: only_intros inside_multi range_in_family)
  then show "only (inside (key_family \<union> ticket_family \<union> invite_family)) (and_then (for_each creds revoke_credential []) (\<lambda>revoked.
     and_then (for_each (sc_tickets S) (cancel_code m) []) (\<lambda>cancelled.
     and_then (for_each (sc_invites S) (revoke_invite m) []) (\<lambda>invites.
     redis_call (HGETALL (member_key m)) (\<lambda>r.
       Ret (Inr [(''status'', PyStr STATUS_REMOVED), (''member_id'', PyStr m), (''already_removed'', PyBool b),
         (''member'', PyDict (texts_dict (reply_pairs r))), (''credentials_revoked'', PyList (map PyStr revoked)),
         (''join_codes_cancelled'', PyList (map PyStr cancelled)), (''member_invites_revoked'', PyList (map PyStr invites))]))))))"
    by (intro only_and_then only_for_each_mem only_ask_op only_inside_mono [OF ticket_operations(4)] only_inside_mono [OF revoke_invite_inside])
      auto
qed

end
