(* ===== verification/Auth_Keyring.thy ===== *)
theory Auth_Keyring
  imports Auth_Service
begin

text \<open>
  The life of a key on its own: a good record admits its holder, a created key is good from the start,
  and a revoked one is unknown.
\<close>

section \<open>Running a check\<close>

lemma run_check:
  assumes "good_record X R t h data K" and "active_member (text_at data ''member_id'') (text_at data ''workspace_id'') K"
    and "parse_scopes R (map_of data ''scopes'') = Some scopes"
  shows "run_handler reference (check_record X R t h) K = (Inr (Some (identity data scopes), None), K)"
  using assms
  by (auto simp: check_record_def run_ask_op Let_def good_record_def active_member_def reply_pairs_def)

lemma run_validate:
  assumes "good_record X R t (k_sha X key) data K" and "active_member (text_at data ''member_id'') (text_at data ''workspace_id'') K"
    and "parse_scopes R (map_of data ''scopes'') = Some scopes"
  shows "run_handler reference (validate_key X R t key) K = (Inr (Some (identity data scopes)), K)"
  using run_check [OF assms] by (simp add: validate_key_def validate_key_by_hash_def run_and_then)

lemma run_gate:
  assumes "\<not> ungated G a" and "w_key a \<noteq> []" and "good_record X R (w_now a) (k_sha X (w_key a)) data K"
    and "active_member (text_at data ''member_id'') (text_at data ''workspace_id'') K"
    and "parse_scopes R (map_of data ''scopes'') = Some scopes"
  shows "run_handler reference (middleware X R G a) K = (Inr (Pass (Some (identity data scopes))), K)"
  using assms(1,2) run_validate [OF assms(3-5)]
  by (auto simp: middleware_def ungated_def run_catching run_and_then)

lemma run_gate_unknown:
  assumes "\<not> ungated G a" and "w_key a \<noteq> []" and "K (auth_key (k_sha X (w_key a))) = None"
  shows "run_handler reference (middleware X R G a) K = (Inr (Reject 401 ''Unknown API key''), K)"
proof -
  have check: "run_handler reference (check_record X R t (k_sha X (w_key a))) K = (Inr (None, None), K)" for t
    using assms(3) by (simp add: check_record_def run_ask_op Let_def hash_at_def reply_pairs_def)
  show ?thesis
    using assms(1,2)
    by (auto simp: middleware_def ungated_def run_catching run_and_then validate_key_def validate_key_by_hash_def
        invalid_credential_detail_def check)
qed

section \<open>A key from its creation to its end\<close>

lemma text_at_update: "text_at (hash_update kvs []) k = (case map_of (rev kvs) k of None \<Rightarrow> [] | Some v \<Rightarrow> v)"
  by (force simp: text_at_def map_of_hash_update split: option.split dest: map_of_SomeD)

lemma all_strings_map [simp]: "all_strings (map PyStr ss) = Some ss"
  by (induction ss) auto

text \<open>the record of a key just created, as the store holds it\<close>

abbreviation new_record :: "clockwork \<Rightarrow> relay \<Rightarrow> string \<Rightarrow> string list \<Rightarrow> int option \<Rightarrow> string \<Rightarrow> rat \<Rightarrow> fields" where
  "new_record X R agent scopes days cid t \<equiv>
     hash_update (build_credential_record X R cid agent scopes t days None None None None) []"

lemma new_record_fields:
  "text_at (new_record X R agent scopes days cid t) ''workspace_id'' = d_workspace (r_dep R)"
  "text_at (new_record X R agent scopes days cid t) ''member_id'' = d_owner (r_dep R)"
  "text_at (new_record X R agent scopes days cid t) ''credential_id'' = cid"
  "map_of (new_record X R agent scopes days cid t) ''credential_id'' = Some cid"
  "map_of (new_record X R agent scopes days cid t) ''scopes'' = Some (dumps R (PyList (map PyStr scopes)))"
  "text_at (new_record X R agent scopes days cid t) ''enrolled_via'' = []"
  "text_at (new_record X R agent scopes days cid t) ''expires_at'' =
     (case days of Some n \<Rightarrow> if n = 0 then [] else k_iso X (t + of_int (n * 86400)) | None \<Rightarrow> [])"
  by (simp_all add: text_at_update map_of_hash_update build_credential_record_def split: option.split)

lemma new_record_nonempty: "new_record X R agent scopes days cid t \<noteq> []"
  using new_record_fields(4) by (metis map_of.simps(1) option.distinct(1))

lemma keys_apart:
  "auth_key h \<noteq> cred_key c" "auth_key h \<noteq> KEY_INDEX" "cred_key c \<noteq> KEY_INDEX" "member_key m \<noteq> auth_key h"
  "member_key m \<noteq> cred_key c" "member_key m \<noteq> KEY_INDEX" "cred_key c \<noteq> auth_key h" "KEY_INDEX \<noteq> auth_key h" "KEY_INDEX \<noteq> cred_key c"
  by (simp_all add: auth_key_def cred_key_def member_key_def KEY_INDEX_def)

text \<open>what the store holds after the transaction\<close>

definition with_key :: "string \<Rightarrow> string \<Rightarrow> fields \<Rightarrow> int option \<Rightarrow> rat \<Rightarrow> (string \<times> rat) list \<Rightarrow> keyspace \<Rightarrow> keyspace" where
  "with_key h cid rec days t z K =
     (let ttl = map_option (\<lambda>n. nat (1000 * (n * 86400))) days in
      K(auth_key h \<mapsto> (OHash rec, ttl), cred_key cid \<mapsto> (OStr h, ttl), KEY_INDEX \<mapsto> (OZset (zadd cid t z), ttl_at (K KEY_INDEX))))"

lemma store_key_effect:
  assumes "md \<noteq> []" and "K (auth_key h) = None" and "zset_at (K KEY_INDEX) = Some z" and "\<And>n. days = Some n \<Longrightarrow> 0 < n"
  obtains rs where "kdo (store_key_op h cid md (map_option (\<lambda>n. n * 86400) days) t) K = (RMulti rs, with_key h cid (hash_update md []) days t z K)"
proof -
  have fresh: "hash_at None = Some []" "ttl_at None = None" by (simp_all add: hash_at_def ttl_at_def)
  show thesis
  proof (cases days)
    case None
    show ?thesis
      by (rule that) (simp add: None store_key_op_def assms(1-3) fresh keys_apart with_key_def)
  next
    case (Some n)
    with assms(4) have n: "0 < n" by simp
    show ?thesis
      by (rule that) (use n in \<open>simp add: Some store_key_op_def assms(1-3) fresh keys_apart with_key_def Let_def\<close>)
  qed
qed

lemma run_create:
  assumes "invalid_scopes scopes = []" and "service_scopes scopes = []" and "K (auth_key (k_sha X key)) = None"
    and "zset_at (K KEY_INDEX) = Some z" and "\<And>n. days = Some n \<Longrightarrow> 0 < n"
  obtains d where "run_handler reference (create_key X R agent scopes days key cid t) K =
      (Inr d, with_key (k_sha X key) cid (new_record X R agent scopes days cid t) days t z K)"
    and "get_val d ''api_key'' = PyStr key" and "get_val d ''credential_id'' = PyStr cid"
proof -
  have md: "build_credential_record X R cid agent scopes t days None None None None \<noteq> []"
    by (simp add: build_credential_record_def)
  obtain rs where rs: "kdo (store_key_op (k_sha X key) cid (build_credential_record X R cid agent scopes t days None None None None)
      (map_option (\<lambda>n. n * 86400) days) t) K = (RMulti rs, with_key (k_sha X key) cid (new_record X R agent scopes days cid t) days t z K)"
    by (rule store_key_effect [OF md assms(3-5)])
  show thesis
    using that assms(1,2) by (simp add: create_key_def Let_def run_ask_op rs del: kdo_simps) (simp add: get_val_def)
qed

lemma new_key_good:
  assumes "float_codec (r_print R) (r_read R)" and "invalid_scopes scopes = []"
    and "cid \<noteq> []" "d_workspace (r_dep R) \<noteq> []" "d_owner (r_dep R) \<noteq> []"
    and "\<And>n. days = Some n \<Longrightarrow> k_fromiso X (k_iso X (t + of_int (n * 86400))) = Some (t + of_int (n * 86400)) \<and> t' \<le> t + of_int (n * 86400)"
  shows "good_record X R t' h (new_record X R agent scopes days cid t) (with_key h cid (new_record X R agent scopes days cid t) days t z K)"
    and "parse_scopes R (map_of (new_record X R agent scopes days cid t) ''scopes'') = Some scopes"
proof -
  have "expiry_refusal X t' (new_record X R agent scopes days cid t) = None"
    using assms(6) by (auto simp: expiry_refusal_def new_record_fields Let_def split: option.splits)
  then show "good_record X R t' h (new_record X R agent scopes days cid t) (with_key h cid (new_record X R agent scopes days cid t) days t z K)"
    using assms(3-5) by (simp add: good_record_def new_record_nonempty with_key_def Let_def keys_apart hash_at_def unattributed_def new_record_fields)
  have known: "filter (\<lambda>s. s \<in> set SCOPES \<or> s = ''*'') scopes = scopes"
    using assms(2) by (auto simp: invalid_scopes_def filter_empty_conv intro: filter_True)
  have "loads R (dumps R (PyList (map PyStr scopes))) = Some (PyList (map PyStr scopes))"
    by (rule loads_dumps [OF assms(1)]) (simp add: list_all_iff)
  then show "parse_scopes R (map_of (new_record X R agent scopes days cid t) ''scopes'') = Some scopes"
    by (simp add: parse_scopes_def new_record_fields known)
qed

lemma run_revoke:
  assumes "K = with_key h cid rec days t z K0" and "hex_id cid" and "h \<noteq> []" and "rec \<noteq> []" and "map_of rec ''credential_id'' = Some cid"
  obtains K' where "run_handler reference (revoke_key scanned cid) K = (Inr (Found True), K')" and "K' (auth_key h) = None"
proof -
  have cid: "cid \<noteq> []" using assms(2) by (simp add: hex_id_def)
  have id: "or_field rec ''credential_id'' ''key_id'' = Some cid" "stored_id rec = Some cid"
    using assms(4,5) cid by (simp_all add: or_field_def text_at_def stored_id_def)
  have read: "K (cred_key cid) = Some (OStr h, map_option (\<lambda>n. nat (1000 * (n * 86400))) days)"
    "hash_at (K (auth_key h)) = Some rec" "zset_at (K KEY_INDEX) = Some (zadd cid t z)"
    by (simp_all add: assms(1) with_key_def Let_def keys_apart hash_at_def zset_at_def)
  have found: "run_handler reference (resolve_key_id scanned cid) K = (Inr [(auth_key h, rec)], K)"
    by (simp add: resolve_key_id_def mapped_record_def assms(2,3) run_and_then run_ask_op read id reply_text_def reply_pairs_def)
  have gone: "kdo (revoke_op (auth_key h) cid cid) K = (fst (kdo (revoke_op (auth_key h) cid cid) K), snd (kdo (revoke_op (auth_key h) cid cid) K))
      \<and> (\<forall>m. fst (kdo (revoke_op (auth_key h) cid cid) K) \<noteq> RErr m) \<and> snd (kdo (revoke_op (auth_key h) cid cid) K) (auth_key h) = None"
    by (simp add: revoke_op_def read keys_apart Let_def)
  show thesis
    by (rule that [of "snd (kdo (revoke_op (auth_key h) cid cid) K)"])
      (use gone in \<open>auto simp: revoke_key_def run_and_then found run_ask_op id cid simp del: kdo_simps split: reply.split\<close>)
qed


section \<open>A concrete keyring\<close>

definition example_clockwork :: clockwork where
  "example_clockwork = \<lparr>k_sha = (\<lambda>s. ''a'' @ s), k_sha_bytes = (\<lambda>s. ''b'' @ s), k_digest = (\<lambda>s. s), k_iso = print_fraction,
     k_hour = print_fraction, k_compact = print_fraction, k_fromiso = (\<lambda>s. Some (read_fraction s)), k_tonumber = (\<lambda>s. Some (read_fraction s))\<rparr>"

definition example_gate :: gate where
  "example_gate = \<lparr>g_enabled = True, g_skip_paths = default_skip_paths, g_skip_exact = []\<rparr>"

definition example_arrival :: "string \<Rightarrow> arrival" where
  "example_arrival key = \<lparr>w_http = True, w_path = ''/mcp'', w_key = key, w_now = 1, w_later = 2\<rparr>"

text \<open>the owner and a member who was removed\<close>

definition example_members :: keyspace where
  "example_members = (\<lambda>k. None)
     (member_key ''member-owner'' \<mapsto> (OHash [(''member_id'', ''member-owner''), (''workspace_id'', ''workspace-local''), (''role'', ''owner''), (''status'', ''active'')], None),
      member_key ''member-b'' \<mapsto> (OHash [(''member_id'', ''member-b''), (''workspace_id'', ''workspace-local''), (''role'', ''member''), (''status'', ''removed'')], None))"

abbreviation example_record :: fields where
  "example_record \<equiv> new_record example_clockwork (example_relay True) ''laptop'' [''relay:read''] None ''c1'' 0"

definition example_keyring :: keyspace where
  "example_keyring = with_key ''ak'' ''c1'' example_record None 0 [] example_members"

definition example_identity :: pydict where
  "example_identity = identity example_record [''relay:read'']"

lemma example_scopes: "invalid_scopes [''relay:read''] = []" "service_scopes [''relay:read''] = []"
  by (simp_all add: invalid_scopes_def service_scopes_def SCOPES_def SERVICE_ONLY_SCOPES_def)

lemma example_codec: "float_codec (r_print (example_relay auth)) (r_read (example_relay auth))"
  using fraction_codec by (simp add: example_relay_def)

lemma example_dep: "d_workspace (r_dep (example_relay auth)) = ''workspace-local''" "d_owner (r_dep (example_relay auth)) = ''member-owner''"
  by (simp_all add: example_relay_def plain_deployment_def)

lemma example_owner: "active_member ''member-owner'' ''workspace-local'' example_members"
  by (simp add: active_member_def example_members_def member_active_def hash_at_def member_key_def)

lemma example_gated: "\<not> ungated example_gate (example_arrival key)"
  by (simp add: ungated_def example_gate_def example_arrival_def default_skip_paths_def starts_with_def)

lemma example_admitted:
  "run_handler reference (middleware example_clockwork (example_relay True) example_gate (example_arrival ''k'')) example_keyring =
     (Inr (Pass (Some example_identity)), example_keyring)"
  unfolding example_identity_def
proof (rule run_gate [OF example_gated])
  show "active_member (text_at example_record ''member_id'') (text_at example_record ''workspace_id'') example_keyring"
    using example_owner by (simp add: active_member_def new_record_fields example_dep example_keyring_def with_key_def keys_apart)
  show "good_record example_clockwork (example_relay True) (w_now (example_arrival ''k''))
      (k_sha example_clockwork (w_key (example_arrival ''k''))) example_record example_keyring"
    unfolding example_keyring_def
    using new_key_good(1) [OF example_codec example_scopes(1), where cid = "''c1''" and days = None and h = "''ak''" and auth1 = True]
    by (simp add: example_dep example_arrival_def example_clockwork_def)
  show "parse_scopes (example_relay True) (map_of example_record ''scopes'') = Some [''relay:read'']"
    by (rule new_key_good(2) [OF example_codec example_scopes(1)]) (simp_all add: example_dep)
qed (simp add: example_arrival_def)


end
