(* ===== verification/Auth_Safety.thy ===== *)
theory Auth_Safety
  imports Auth_Writes Auth_Keyring
begin

text \<open>
  Who comes in: what a request that reached the application has shown of its key, and that a member
  who was removed stays out.
\<close>

section \<open>A request that passes the gate\<close>

lemma middleware_passes:
  assumes "leads_to (middleware X R G a) Ks (Ret (Inr (Pass i)))"
  shows "i = None \<and> ungated G a \<or> (\<exists>d. i = Some d \<and> w_key a \<noteq> [] \<and> vouched X R (w_now a) (k_sha X (w_key a)) Ks d)"
proof (cases "ungated G a")
  case True
  with assms show ?thesis by (auto simp: middleware_def ungated_def split: if_splits)
next
  case False
  with assms have "w_key a \<noteq> []" by (auto simp: middleware_def ungated_def split: if_splits)
  with False assms have "leads_to (catching
        (and_then (validate_key X R (w_now a) (w_key a)) (\<lambda>ident. case ident of
             Some d \<Rightarrow> Ret (Inr (Pass (Some d)))
           | None \<Rightarrow> and_then (invalid_credential_detail X R (w_later a) (w_key a)) (\<lambda>m.
               Ret (Inr (Reject 401 (if m = [] then ''Unknown API key'' else m))))))
        (\<lambda>e. Ret (Inr (Reject 503 ''Auth key store unreachable -- failing closed. Check Redis DB 7.'')))) Ks (Ret (Inr (Pass i)))"
    by (simp add: middleware_def ungated_def)
  then show ?thesis
  proof (cases rule: leads_to_catching)
    case fine: (fine v As Bs)
    from fine(2) show ?thesis
    proof (cases rule: leads_to_and_then)
      case (goes ident Cs Ds)
      show ?thesis
      proof (cases ident)
        case None
        with goes(3) fine(3) show ?thesis by (auto elim!: leads_to_and_then)
      next
        case (Some d)
        with goes(3) fine(3) have "i = Some d" by simp
        moreover have "vouched X R (w_now a) (k_sha X (w_key a)) Ks d"
          using validate_key_vouches [OF goes(2) [unfolded Some]] vouched_more [of X R "w_now a" "k_sha X (w_key a)" Cs d "[]" "Ds @ Bs"]
            goes(1) fine(1) by simp
        ultimately show ?thesis using \<open>w_key a \<noteq> []\<close> by simp
      qed
    qed simp
  qed simp
qed

lemma passed_vouched:
  assumes "leads_to (auth_handle X R E V q) Ks (Ret (Inr (Verdict (Pass i))))"
  shows "\<exists>G a. q = Arrive G a \<and> (i = None \<and> ungated G a \<or>
    (\<exists>d. i = Some d \<and> w_key a \<noteq> [] \<and> vouched X R (w_now a) (k_sha X (w_key a)) Ks d))"
proof -
  have verdict: "\<exists>As Bs. Ks = As @ Bs \<and> leads_to p As (Ret (Inr v))"
    if "leads_to (answering f p) Ks (Ret (Inr (Verdict u)))" "\<And>w. f w = Verdict u \<Longrightarrow> w = v" for f v u and p :: "'z handler"
    using that(1) unfolding answering_def
    by (cases rule: leads_to_and_then) (use that(2) in auto)
  have not_response: "\<not> leads_to (answering f p) Ks (Ret (Inr (Verdict u)))" if "\<And>w. f w \<noteq> Verdict u" for f u and p :: "'z handler"
  proof
    assume "leads_to (answering f p) Ks (Ret (Inr (Verdict u)))"
    then show False unfolding answering_def
      by (cases rule: leads_to_and_then) (use that in auto)
  qed
  show ?thesis
  proof (cases q)
    case (Arrive G a)
    with verdict [of Verdict "middleware X R G a" "Pass i" "Pass i"] assms obtain As Bs
      where "Ks = As @ Bs" "leads_to (middleware X R G a) As (Ret (Inr (Pass i)))" by auto
    with middleware_passes [of X R G a As i] vouched_more [of X R "w_now a" "k_sha X (w_key a)" As _ "[]" Bs] Arrive
    show ?thesis by auto
  qed (use assms in \<open>simp_all add: not_response\<close>)
qed


section \<open>A removed member\<close>

definition inactive :: "string \<Rightarrow> keyspace \<Rightarrow> bool" where
  "inactive m K \<longleftrightarrow> (\<forall>h. hash_at (K (member_key m)) = Some h \<longrightarrow> map_of h ''status'' \<noteq> Some ''active'')"

definition restores :: "string \<Rightarrow> auth_request \<Rightarrow> bool" where
  "restores m q \<longleftrightarrow> (case q of RestoreMember a m' r tk t \<Rightarrow> m' = m | _ \<Rightarrow> False)"

definition member_rule :: "clockwork \<Rightarrow> string \<Rightarrow> op \<Rightarrow> bool" where
  "member_rule X m c \<longleftrightarrow> (touches (member_key m) c \<longrightarrow> (\<exists>t who. c = Cmd (mark_removed X t m who)))"

lemma only_off_members: "only (inside F) p \<Longrightarrow> member_key m \<notin> F \<Longrightarrow> only (member_rule X m) p"
  by (erule only_mono) (auto simp: inside_def member_rule_def)

lemma admin_off_members: "(\<And>ident. only (member_rule X m) (p ident)) \<Longrightarrow> only (member_rule X m) (admin_route X' R a p)"
  unfolding admin_route_def
  by (intro only_and_then only_off_members [OF checks_write_nothing(5)]) (auto simp: families_apart split: sum.split)

lemma remove_rule: "only (member_rule X m) (remove_member X R S t m' w own who actor)"
proof -
  have sweep: "only (member_rule X m) (sweep_member S m' b)" for m' b
    by (rule only_off_members [OF sweep_inside]) (simp add: families_apart)
  have mark: "member_rule X m (Cmd (mark_removed X t m' who))" for m'
    by (auto simp: member_rule_def touches_def mark_removed_def)
  show ?thesis
    unfolding remove_member_def
    by (intro only_and_then only_ask_op conjI impI only_off_members [OF readers_write_nothing(5)] only_off_members [OF readers_write_nothing(9)])
      (auto simp: families_apart intro!: only_intros mark sweep only_off_members [OF readers_write_nothing(9), of m key_family])
qed

lemma requests_off_members:
  assumes "m \<noteq> d_owner (r_dep R)" and "\<not> restores m q"
  shows "only (member_rule X m) (auth_handle X R E V q)"
proof (cases q)
  case (Arrive G a)
  then show ?thesis using only_off_members [OF checks_write_nothing(6), of m key_family X] by (simp add: families_apart only_answering)
next
  case (RemoveMember a S m' t)
  then show ?thesis
    by (auto simp: remove_workspace_member_def intro!: only_answering admin_off_members only_answering_errors only_and_then remove_rule)
next
  case (RestoreMember a m' r tk t)
  with assms(2) have other: "m' \<noteq> m" by (simp add: restores_def)
  have restore: "only (member_rule X m) (restore_member X t m' w who)" for w who
  proof (rule only_off_members)
    show "only (inside {member_key m'}) (restore_member X t m' w who)"
      by (auto simp: restore_member_def restore_op_def simp del: multi.simps intro!: only_intros inside_multi)
  qed (use other in simp)
  have mint: "only (member_rule X m) (mint_invite X R E l N cm iss m' d dv db tk t)" for l N cm iss d dv db
    by (rule only_off_members [OF ticket_operations(2)]) (simp add: families_apart)
  show ?thesis
    unfolding RestoreMember auth_handle.simps restore_workspace_member_def
    by (intro only_answering admin_off_members)
      (auto simp: member_rule_def touches_def Let_def intro!: only_intros restore mint split: sum.split)
next
  case (EnsureWorkspace t t')
  have "only (inside (owner_family R)) (ensure_workspace X R t t')"
    by (auto simp: ensure_workspace_def ensure_op_def owner_family_def Let_def simp del: multi.simps intro!: only_intros inside_multi)
  moreover have "member_key m \<notin> owner_family R"
    using assms(1) by (simp add: owner_family_def member_key_def WORKSPACE_KEY_def MEMBER_INDEX_def)
  ultimately show ?thesis using EnsureWorkspace by (auto intro!: only_answering only_off_members)
next
  case (Redeem tk h n host cid dev t)
  then show ?thesis
    by (auto simp: families_apart member_not_rate intro!: only_answering only_off_members [OF redeem_inside])
qed (auto intro!: only_answering only_off_members [where F = "key_family \<union> ticket_family"] simp: families_apart
  create_api_key_def list_api_keys_def revoke_api_key_def rename_api_key_device_def list_scopes_def enroll_defaults_def
  enroll_invite_def enroll_list_invites_def enroll_cancel_invite_def enroll_anchor_route_def
  intro!: only_intros only_inside_mono [OF key_operations(1)] only_inside_mono [OF key_operations(2)] only_inside_mono [OF key_operations(3)]
    only_inside_mono [OF key_operations(4)] only_inside_mono [OF key_operations(5)] only_inside_mono [OF ticket_operations(2)]
    only_inside_mono [OF ticket_operations(3)]
  split: option.split sum.split by_id.split bool.split py_exc.split prod.split)

lemma member_clients:
  assumes "redis srv" and "m \<noteq> d_owner (r_dep R)"
  shows "clients srv (auth_handle X R E V) (\<lambda>q c. restores m q \<or> member_rule X m c)"
proof -
  have any: "only (\<lambda>c. True) p" for p :: "(op, 'z) prog" by (induction p) auto
  have "only (\<lambda>c. restores m q \<or> member_rule X m c) (auth_handle X R E V q)" for q
  proof (cases "restores m q")
    case True
    then show ?thesis using any by simp
  next
    case False
    from requests_off_members [OF assms(2) this, of X E V] show ?thesis using False by simp
  qed
  with assms(1) show ?thesis by (simp add: clients_def clients_axioms_def)
qed

lemma removal_inactive: "hash_at (K (member_key m)) \<noteq> None \<Longrightarrow> inactive m (snd (kdo (Cmd (mark_removed X t m who)) K))"
  by (auto simp: inactive_def mark_removed_def hash_at_def hash_update_def STATUS_REMOVED_def update_conv' split: option.splits prod.splits robj.splits)

lemma inactive_kept:
  assumes "member_rule X m c" and "inactive m K"
  shows "inactive m (snd (kdo c K))"
proof (cases "touches (member_key m) c")
  case True
  with assms(1) obtain t who where c: "c = Cmd (mark_removed X t m who)" by (auto simp: member_rule_def)
  show ?thesis
  proof (cases "hash_at (K (member_key m)) = None")
    case True
    with assms(2) show ?thesis by (simp add: c mark_removed_def)
  next
    case False
    with removal_inactive [of K m] show ?thesis by (simp add: c)
  qed
next
  case False
  with assms(2) show ?thesis by (simp add: inactive_def op_frame)
qed

lemma inactive_elapsed: "inactive m K \<Longrightarrow> inactive m (elapsed n K)"
  by (auto simp: inactive_def elapsed_def hash_at_def split: option.splits prod.splits robj.splits if_splits)

text \<open>once inactive, inactive at every later moment of the run\<close>

lemma stays_inactive:
  assumes "redis srv" and "m \<noteq> d_owner (r_dep R)" and "\<forall>q \<in> set (started (before @ after)). \<not> restores m q"
    and "inactive m (view srv (fst (run_ops (advance srv (auth_handle X R E V)) before (s, []))))"
  shows "inactive m (view srv (fst (run_ops (advance srv (auth_handle X R E V)) (before @ after) (s, []))))"
  using assms(3)
proof (induction after rule: rev_induct)
  case Nil
  with assms(4) show ?case by simp
next
  case (snoc t after)
  let ?h = "auth_handle X R E V" and ?sy = "run_ops (advance srv (auth_handle X R E V)) (before @ after) (s, [])"
  have IH: "inactive m (view srv (fst ?sy))" using snoc by (auto simp: started_append)
  have run: "run_ops (advance srv ?h) (before @ after @ [t]) (s, []) = advance srv ?h t ?sy"
    by (simp add: run_ops_append)
  have calm: "member_rule X m c" if "i < length (started (before @ after))" "restores m (started (before @ after) ! i) \<or> member_rule X m c" for i c
  proof -
    have "started (before @ after) ! i \<in> set (started (before @ after @ [t]))"
      using nth_mem [OF that(1)] started_append [of "before @ after" "[t]"] by auto
    with snoc.prems that(2) show ?thesis by blast
  qed
  from clients.turn_view [OF member_clients [OF assms(1,2), of X E V] refl, where ts = "before @ after" and s = s and t = t]
  consider (same) "view srv (fst (advance srv ?h t ?sy)) = view srv (fst ?sy)"
    | (time) n where "view srv (fst (advance srv ?h t ?sy)) = elapsed n (view srv (fst ?sy))"
    | (command) c where "member_rule X m c" "view srv (fst (advance srv ?h t ?sy)) = snd (kdo c (view srv (fst ?sy)))"
    using calm by blast
  then show ?case
    unfolding run using IH by cases (simp_all add: inactive_kept inactive_elapsed del: kdo_simps)
qed

lemma started_take: "set (started (take n ts)) \<subseteq> set (started ts)"
  using started_append [of "take n ts" "drop n ts"] by simp

text \<open>
  C13. A removed member stays out. From the moment a member's row is not active (which the first
  write of a removal makes it), no request that arrives later is passed with an identity of that
  member, whatever other requests interleave, whatever fails and however the removal's sweep ends, as
  long as nobody restores the member. The deployment's owner cannot be removed.
\<close>

theorem removed_member_stays_out:
  assumes "redis srv" and "m \<noteq> d_owner (r_dep R)" and "\<forall>q \<in> set (started (before @ after)). \<not> restores m q"
    and "inactive m (view srv (fst (run_ops (advance srv (auth_handle X R E V)) before (s, []))))"
    and "sy = run_ops (advance srv (auth_handle X R E V)) (before @ after) (s, [])"
    and "length (started before) \<le> j" "j < length (snd sy)" "snd sy ! j = Ret (Inr (Verdict (Pass (Some d))))"
  shows "get_val d ''member_id'' \<noteq> PyStr m"
proof
  let ?h = "auth_handle X R E V" and ?mid = "run_ops (advance srv (auth_handle X R E V)) before (s, [])"
  assume member: "get_val d ''member_id'' = PyStr m"
  have leads: "leads_to (?h (started (before @ after) ! j)) (views srv ?h after ?mid) (Ret (Inr (Verdict (Pass (Some d)))))"
    using redis.later_request_leads [OF assms(1,5,7,6)] assms(8) by simp
  obtain G a where "started (before @ after) ! j = Arrive G a" "vouched X R (w_now a) (k_sha X (w_key a)) (views srv ?h after ?mid) d"
    using passed_vouched [OF leads] by blast
  then obtain As K Bs K' Cs data scopes where Ks: "views srv ?h after ?mid = As @ K # Bs @ K' # Cs"
    and act: "active_member (text_at data ''member_id'') (text_at data ''workspace_id'') K'" and d: "d = identity data scopes"
    unfolding vouched_def by blast
  from Ks have K': "K' = views srv ?h after ?mid ! (length (As @ K # Bs))" "length (As @ K # Bs) < length after"
    using length_views [of srv ?h after ?mid] by (simp_all add: nth_append)
  have "inactive m K'"
    unfolding K'(1) views_nth [OF K'(2)]
    using stays_inactive [OF assms(1,2) _ assms(4), of "take (length (As @ K # Bs)) after"] assms(3) started_take [of "length (As @ K # Bs)" after]
    by (simp add: run_ops_append started_append) blast
  with act member d show False
    by (auto simp: inactive_def active_member_def member_active_def identity_def get_val_def)
qed

section \<open>The two statements at work\<close>

lemma example_run:
  obtains n where "run_ops (advance reference (auth_handle example_clockwork (example_relay True) E V))
      (Start (Arrive example_gate (example_arrival ''k'')) # replicate n (Go 0)) (example_keyring, []) =
    (example_keyring, [Ret (Inr (Verdict (Pass (Some example_identity))))])"
proof -
  let ?p = "answering Verdict (middleware example_clockwork (example_relay True) example_gate (example_arrival ''k''))"
  have "run_handler reference ?p example_keyring = (Inr (Verdict (Pass (Some example_identity))), example_keyring)"
    using example_admitted by (simp add: answering_def run_and_then)
  with thread_runs [of 0 "[?p]" ?p reference "auth_handle example_clockwork (example_relay True) E V" example_keyring] that
  show thesis by auto
qed


theorem removed_member_stays_out_witness:
  "get_val example_identity ''member_id'' \<noteq> PyStr ''member-b'' \<and> inactive ''member-b'' example_keyring"
proof -
  let ?E = "\<lparr>e_ttl_hours = 24, e_tombstone_days = 7, e_key_days = 90, e_attempts = 60\<rparr>"
    and ?V = "\<lparr>s_bind_addr = [], s_vps_ip = [], s_ssh_user = [], s_version = ''1''\<rparr>"
  obtain n where n: "run_ops (advance reference (auth_handle example_clockwork (example_relay True) ?E ?V))
      (Start (Arrive example_gate (example_arrival ''k'')) # replicate n (Go 0)) (example_keyring, []) =
    (example_keyring, [Ret (Inr (Verdict (Pass (Some example_identity))))])"
    by (rule example_run)
  have out: "inactive ''member-b'' example_keyring"
    by (simp add: inactive_def example_keyring_def with_key_def keys_apart example_members_def hash_at_def)
  have "get_val example_identity ''member_id'' \<noteq> PyStr ''member-b''"
  proof (rule removed_member_stays_out [of reference "''member-b''" "example_relay True" "[]"
        "Start (Arrive example_gate (example_arrival ''k'')) # replicate n (Go 0)" example_clockwork ?E ?V example_keyring
        "(example_keyring, [Ret (Inr (Verdict (Pass (Some example_identity))))])" 0 example_identity])
    show "\<forall>q \<in> set (started ([] @ Start (Arrive example_gate (example_arrival ''k'')) # replicate n (Go 0))). \<not> restores ''member-b'' q"
      using started_replicate [of "[Start (Arrive example_gate (example_arrival ''k''))]" n 0] by (simp add: restores_def)
    show "inactive ''member-b'' (view reference (fst (run_ops (advance reference
        (auth_handle example_clockwork (example_relay True) ?E ?V)) [] (example_keyring, []))))"
      using out by simp
    show "(example_keyring, [Ret (Inr (Verdict (Pass (Some example_identity))))]) =
      run_ops (advance reference (auth_handle example_clockwork (example_relay True) ?E ?V))
        ([] @ Start (Arrive example_gate (example_arrival ''k'')) # replicate n (Go 0)) (example_keyring, [])"
      using n by (metis append_Nil)
  qed (simp_all add: keyspace.redis_axioms example_relay_def plain_deployment_def)
  with out show ?thesis by simp
qed

end
