(* ===== verification/Spec2Isabelle.thy ===== *)
theory Spec2Isabelle
  imports Hands_Steady Hands_Config Hands_Phone Relay_Phone Relay_Inbox Auth_Safety
begin

section \<open>What is modelled\<close>

text \<open>
  Three parts of the repository, from their Python sources under \<open>src/\<close>.

  \<^bold>\<open>Hands\<close> (\<open>hands/src/firekeep_hands/\<close>) drives a desktop for a model: the model proposes one step at a
  time, the policy decides whether a person must be asked, and a separate broker process holds the
  permits, which a person grants by a key chord or, over the Keep, from a phone. The session
  (\<open>session.py\<close>) routes a step, judges it, asks for and spends its permit, executes it, and writes it
  in a hash-chained ledger.

  \<^bold>\<open>Relay\<close> (\<open>relay/app/\<close>) coordinates agents: leases with fencing tokens, tasks, direct messages,
  presence, a bulletin board, channels, and scope sessions whose screens a person answers. It keeps
  all of its state in Redis; every tool and route is a sequence of Redis commands, and the sequences of
  concurrent requests interleave.

  \<^bold>\<open>Authentication\<close> (\<open>auth/\<close>, and \<open>cortex/app/enroll/\<close>, \<open>cortex/app/members/\<close>) decides who a request comes
  from. Keys are records in Redis under the digest of their plaintext, each of a member; a gate in front
  of every service looks the key up, refuses what is expired, unattributed or of a member who is not
  active, and fails closed. An admin mints, lists, renames and revokes keys, issues join codes that a
  device redeems once, and removes and restores members.

  Authentication gives Relay the scope a request arrives with. Hands and Relay meet in a task: the phone bridge of Hands posts a waiting permit as a Relay task and reads
  the answer, and the credential behind it, from the task's stamps.
\<close>

section \<open>The theories\<close>

text \<open>
  The language and its library. \<open>Py_Prelude\<close>: text, decimals, JSON values, insertion-ordered
  dictionaries, exceptions as values, the word searches of \<open>re\<close>. \<open>Py_Int\<close>: \<open>int()\<close> of a text. \<open>Py_Json\<close> and \<open>Py_Loads\<close>:
  \<open>json.dumps\<close> and \<open>json.loads\<close>, with the round trip and the fact that the text determines the
  value. \<open>Py_Time\<close>: \<open>strptime\<close> and \<open>strftime\<close> of UTC times. \<open>Py_Url\<close>: the host name of a URL.
  \<open>Gate_Interfaces\<close>: the contracts components rely on, as locales: a machine that keeps an invariant
  and a gate whose grants are spent once.

  Hands, in the order a step meets the code:

  \<^item> \<open>Hands_Base\<close> (\<open>backends/base.py\<close>, the records of \<open>config.py\<close>), \<open>Hands_Config\<close> (\<open>config.py\<close>, the
    commands of \<open>cli.py\<close> that write settings and allow-list).
  \<^item> \<open>Hands_Routing\<close> (\<open>routing.py\<close>): any JSON value becomes a routed step or an error.
  \<^item> \<open>Hands_Policy\<close> (\<open>policy.py\<close>): the classes a step raises and whether it is asked.
  \<^item> \<open>Hands_Ids\<close> (\<open>ids.py\<close>): fingerprints and challenge ids.
  \<^item> \<open>Hands_Permits\<close> (\<open>broker/permits.py\<close>): the record \<open>store\<close> is the \<open>PermitStore\<close> with its dictionary, and
    one operation is one acquisition of the lock; histories are lists of operations.
  \<^item> \<open>Hands_Evidence\<close> (\<open>evidence.py\<close>): the ledger as lines of a file and a chain value.
  \<^item> \<open>Hands_Keep\<close> (\<open>keep.py\<close>), \<open>Hands_Phone\<close> (\<open>broker/phone.py\<close>): the link and the bridge, over a Keep
    that answers any call with anything.
  \<^item> \<open>Hands_Chord\<close> (\<open>broker/__init__.py\<close>, \<open>broker/listeners/\<close>): the chord grammar and both trackers.
  \<^item> \<open>Hands_Broker\<close> (\<open>broker/server.py\<close>), \<open>Hands_Client\<close> (\<open>broker/client.py\<close>, \<open>broker/pending.py\<close>, the
    announcer): the loopback HTTP routes, with the store changed by other threads between any two
    calls, and the client composed with them.
  \<^item> \<open>Hands_Step\<close>, \<open>Hands_Session\<close>, \<open>Hands_Task\<close> (\<open>session.py\<close>): the record \<open>session\<close> has the attributes
    of \<open>HandsSession\<close>; beside it a world carries the broker and a trace of everything asked of desktop,
    page, broker and Keep.
  \<^item> \<open>Hands_Safety\<close>, \<open>Hands_Guard\<close>, \<open>Hands_Life\<close>, \<open>Hands_Books\<close>, \<open>Hands_Steady\<close>: what the session
    guarantees.

  Relay:

  \<^item> \<open>Relay_Store\<close>: Redis commands and their documented effect on a keyspace (\<open>doc\<close>), a server as a
    record of what a client sees of it, the locale \<open>redis\<close> of the laws it obeys, programs of commands,
    handlers, and a system of handlers that take turns (\<open>advance\<close>): a turn starts a request, executes
    the next command of a running one, makes it fail or lose its reply, or lets time pass.
  \<^item> \<open>Relay_Principal\<close> (\<open>principal.py\<close>, the scopes of \<open>auth/\<close>), \<open>Relay_Presence\<close>, \<open>Relay_Board\<close>
    (\<open>bulletin.py\<close>, \<open>pubsub.py\<close>), \<open>Relay_Leases\<close>, \<open>Relay_Tasks\<close>, \<open>Relay_Dm\<close>, \<open>Relay_Scope\<close>: the modules of
    the same names, each with its tools of \<open>mcp_server.py\<close> and its routes of \<open>routes.py\<close>. A Lua script is
    one command whose body is a program. A hash, list or key of the code is the same of the keyspace.
  \<^item> \<open>Relay_Service\<close>: all tools and routes as requests, and the handler of each (\<open>handle\<close>).
  \<^item> \<open>Relay_Fence\<close>, \<open>Relay_Holding\<close>, \<open>Relay_Record\<close>, \<open>Relay_Inbox\<close>, \<open>Relay_Phone\<close>: what the service
    guarantees.

  Authentication, over the same store and its programs:

  \<^item> \<open>Auth_Keys\<close> (\<open>auth/keys.py\<close>): the record of a key and its operations. \<open>Auth_Gate\<close> (the check of
    \<open>auth/keys.py\<close>, \<open>auth/asgi.py\<close>, \<open>auth/middleware.py\<close>, \<open>auth/principal.py\<close>): the check of a key, the
    gate, the scope dependencies and delegated attribution.
  \<^item> \<open>Auth_Members\<close> (\<open>auth/workspace.py\<close>, \<open>auth/members.py\<close>): the rows of workspace and owner, the
    migrations of old credentials, removal and return of a member.
  \<^item> \<open>Auth_Enroll\<close> (\<open>cortex/app/enroll/lua.py\<close>, \<open>store.py\<close>, \<open>mint.py\<close>): tickets, the redemption script
    and join codes. \<open>Auth_Routes\<close> (\<open>auth/api.py\<close>, \<open>cortex/app/enroll/api.py\<close> and \<open>advertise.py\<close>,
    \<open>cortex/app/members/api.py\<close>): the routes over them.
  \<^item> \<open>Auth_Service\<close>: all of these as requests with their handler (\<open>auth_handle\<close>). \<open>Auth_History\<close>: from
    which moments of a run the replies of a request came. \<open>Auth_Writes\<close>: which keys a request can write.
  \<^item> \<open>Auth_Keyring\<close>, \<open>Auth_Safety\<close>: what authentication guarantees.
\<close>

section \<open>What the lemmas show\<close>

text \<open>
  \<^item> A store-level argument per component: every handler's commands lie in a family of keys
    (\<open>only\<close>, \<open>inside\<close>, collected in \<open>only_intros\<close>), so the interleavings that matter to an invariant are
    those of the commands that touch its keys (\<open>clients\<close>, \<open>relay_invariant\<close>).
  \<^item> Leases: tokens grow and are distinct; a lease ends by its owner or by time; a stale token moves
    nothing; a free lease is granted and a held one refused.
  \<^item> Tasks and messages: every write is signed, a completion names the last writer, a reader is shown
    its own messages; and, as errors, the word written before the completion and the message lost to a
    concurrent reader.
  \<^item> Authentication: a request that passes the gate had a good record and an active member at moments
    of its run; a removed member stays out whatever the others do; a key works from its creation to its
    revocation.
  \<^item> Permits: the dictionary operations one by one, the permit's states, and the refinement to a gate
    whose grants are spent once, carried through the routes, the client and the session.
  \<^item> A session: protected steps happen behind the permit bound to them, acted steps are in the ledger,
    the scope grows by what was shown, the invariant between calls, the end of a task.
  \<^item> Routing, policy, ids, ledger, configuration and chords: functional behaviour, round trips and
    bounds of each.
\<close>

section \<open>Bounds, fuel and parameters\<close>

text \<open>
  Parameters stand for what is not under \<open>src/\<close>: SHA-256 (collisions are an explicit case of the
  conclusions), the printing and reading of floats, the clock, the desktop and the browser, the Keep, the
  transport of HTTP, Redis (any server that meets the locale \<open>redis\<close>, which the keyspace itself does), and
  Lua's \<open>cjson\<close> (\<open>cjson_ok\<close>: it writes and reads objects of texts and of whole numbers below
  \<open>10 ^ 14\<close>). Redis counters are 64-bit and Lua's numbers exact below \<open>2 ^ 53\<close>; the statements on tokens
  are for counters below \<open>10 ^ 14\<close>, where \<open>cjson\<close> writes whole numbers in digits.

  In the authentication part the record \<open>clockwork\<close> holds SHA-256, the printing and reading of times and
  Lua's \<open>tonumber\<close>; random ids, tickets and keys are arguments of the requests that draw them, and so is
  what a \<open>SCAN\<close> yields (any list), for under concurrent writes it is no function of the keyspace. A
  transaction is one command. The store is connected (\<open>_redis\<close> is set).

  Fuel: the JSON reader takes the length of its text, which bounds both nesting and items. The broker
  client's \<open>wait\<close> takes four polls a second of its timeout and two more, and \<open>wait_returns\<close> proves that
  enough. Task paging takes \<open>page_limit\<close> pages of a hundred thousand; an index longer than twenty times
  that ends the listing early, which no statement relies on. The polls of \<open>scope_ask\<close> are the 25 of the code.

  Stand-ins: characters are those below code point 256; the dash in the texts of task broadcasts and of
  refusals is written \<open>--\<close>; query and body fields of routes have their types, since FastAPI refuses the others first.
\<close>

section \<open>What is not modelled\<close>

text \<open>
  \<^item> Hands: notifications, autostart, paths and process entry (operating system), the desktop
    backends and the DevTools client (parameters here), sockets and signals of the broker, and the
    registration of tools in \<open>server.py\<close>.
  \<^item> Relay: \<open>relay_status\<close>, \<open>GET /status\<close> and \<open>get_active_channels\<close> (a \<open>SCAN\<close> under concurrent writes has
    no result that is a function of the keyspace), the agent card, health and version routes, and the
    opening of the connection.
  \<^item> Authentication: the settings read from the environment, the command lines of \<open>mint.py\<close> and
    \<open>admin.py\<close>, the web framework's rate limiter, and the member invites of \<open>cortex/app/members/store.py\<close>
    (issue and acceptance). \<open>auth/\<close> is not composed with Relay: a Relay request arrives with a scope.
  \<^item> The rest of Cortex, Bridge, the client kit and the web applications: services over databases, vector stores and
    language models, and file system and process glue.
\<close>

end
